(* ===== verification/Prelude.thy ===== *)
theory Prelude
  imports Main "HOL-Library.State_Monad" "HOL-Library.AList"
begin

text \<open>
  Shared foundations of the development: Go maps as association lists, the weakest
  precondition of a state-monad program, and the list facts that the allowlist checks of
  several packages need. The collection \<open>wp\<close> holds the equations that push a
  postcondition backwards through a handler.
\<close>

named_theorems wp \<open>weakest preconditions of state-monad programs\<close>
named_theorems gomap \<open>lookups in Go maps after an update or a delete\<close>

section \<open>Go maps\<close>

text \<open>
  A Go map is an association list with distinct keys. The order of the list is one of the
  iteration orders Go may choose, so a statement about every list is a statement about
  every iteration order. A nil map and an empty map behave alike under lookup, length,
  deletion and range and are both the empty list.
\<close>

type_synonym 'v gomap = "(string \<times> 'v) list"

definition wf_map :: "('k \<times> 'v) list \<Rightarrow> bool" where
  "wf_map m \<longleftrightarrow> distinct (map fst m)"

definition map_get :: "('k \<times> 'v) list \<Rightarrow> 'k \<Rightarrow> 'v option" where
  "map_get m k = map_of m k"

definition map_put :: "'k \<Rightarrow> 'v \<Rightarrow> ('k \<times> 'v) list \<Rightarrow> ('k \<times> 'v) list" where
  "map_put k v m = AList.update k v m"

definition map_del :: "'k \<Rightarrow> ('k \<times> 'v) list \<Rightarrow> ('k \<times> 'v) list" where
  "map_del k m = filter (\<lambda>p. fst p \<noteq> k) m"

definition map_filter_entries :: "('k \<Rightarrow> 'v \<Rightarrow> bool) \<Rightarrow> ('k \<times> 'v) list \<Rightarrow> ('k \<times> 'v) list" where
  "map_filter_entries P m = filter (\<lambda>(k, v). P k v) m"

lemma wf_map_Nil [simp]: "wf_map []"
  by (simp add: wf_map_def)

lemma map_get_Nil [simp]: "map_get [] k = None"
  by (simp add: map_get_def)

lemma map_get_put [gomap]: "map_get (map_put k v m) k' = (if k' = k then Some v else map_get m k')"
  by (simp add: map_get_def map_put_def AList.update_conv')

lemma map_get_del [gomap]: "map_get (map_del k m) k' = (if k' = k then None else map_get m k')"
  by (induction m) (auto simp: map_get_def map_del_def)

lemma map_get_filter_entries:
  "wf_map m \<Longrightarrow> map_get (map_filter_entries P m) k =
     (case map_get m k of None \<Rightarrow> None | Some v \<Rightarrow> if P k v then Some v else None)"
  by (induction m)
    (auto simp: wf_map_def map_get_def map_filter_entries_def map_of_eq_None_iff
       split: option.splits dest: map_of_SomeD)

lemma wf_map_put [intro, simp]: "wf_map m \<Longrightarrow> wf_map (map_put k v m)"
  by (simp add: wf_map_def map_put_def distinct_update)

lemma wf_map_del [intro, simp]: "wf_map m \<Longrightarrow> wf_map (map_del k m)"
  by (auto simp: wf_map_def map_del_def distinct_map intro: inj_on_subset)

lemma wf_map_filter_entries [intro, simp]: "wf_map m \<Longrightarrow> wf_map (map_filter_entries P m)"
  by (auto simp: wf_map_def map_filter_entries_def distinct_map intro: inj_on_subset)

lemma length_map_put:
  "length (map_put k v m) = (if map_get m k = None then Suc (length m) else length m)"
  by (induction m) (auto simp: map_get_def map_put_def)

lemma length_map_del_le: "length (map_del k m) \<le> length m"
  by (simp add: map_del_def)

lemma length_filter_entries_le: "length (map_filter_entries P m) \<le> length m"
  by (simp add: map_filter_entries_def)

lemma map_get_SomeD: "map_get m k = Some v \<Longrightarrow> (k, v) \<in> set m"
  by (simp add: map_get_def map_of_SomeD)

lemma map_get_in: "wf_map m \<Longrightarrow> (k, v) \<in> set m \<Longrightarrow> map_get m k = Some v"
  by (simp add: map_get_def wf_map_def)

lemma map_get_None_iff: "map_get m k = None \<longleftrightarrow> k \<notin> fst ` set m"
  by (simp add: map_get_def map_of_eq_None_iff)

section \<open>String slices\<close>

text \<open>
  The packages each carry their own copies of three loops over string slices (a linear
  search, a duplicate check with a set of seen values, a subset check). Their models are
  instances of the following functions; the lemmas state what the loops compute.
\<close>

fun slice_contains :: "string list \<Rightarrow> string \<Rightarrow> bool" where
  "slice_contains [] expected = False"
| "slice_contains (v # vs) expected = (if v = expected then True else slice_contains vs expected)"

fun slice_subset :: "string list \<Rightarrow> string list \<Rightarrow> bool" where
  "slice_subset [] vs = True"
| "slice_subset (r # rs) vs = (if \<not> slice_contains vs r then False else slice_subset rs vs)"

fun slice_dup_from :: "string list \<Rightarrow> string list \<Rightarrow> bool" where
  "slice_dup_from seen [] = False"
| "slice_dup_from seen (v # vs) = (if v \<in> set seen then True else slice_dup_from (v # seen) vs)"

lemma slice_contains_iff [simp]: "slice_contains vs x \<longleftrightarrow> x \<in> set vs"
  by (induction vs) auto

lemma slice_subset_iff [simp]: "slice_subset rs vs \<longleftrightarrow> set rs \<subseteq> set vs"
  by (induction rs) auto

lemma slice_dup_from_iff: "slice_dup_from seen vs \<longleftrightarrow> \<not> (distinct vs \<and> set vs \<inter> set seen = {})"
  by (induction vs arbitrary: seen) auto

lemma slice_dup_iff [simp]: "slice_dup_from [] vs \<longleftrightarrow> \<not> distinct vs"
  by (simp add: slice_dup_from_iff)

text \<open>The first element of a list that a check rejects, as a Go loop with an early return.\<close>

fun first_error :: "('a \<Rightarrow> 'e option) \<Rightarrow> 'a list \<Rightarrow> 'e option" where
  "first_error f [] = None"
| "first_error f (x # xs) = (case f x of Some e \<Rightarrow> Some e | None \<Rightarrow> first_error f xs)"

lemma first_error_None [simp]: "first_error f xs = None \<longleftrightarrow> (\<forall>x\<in>set xs. f x = None)"
  by (induction xs) (auto split: option.splits)

lemma first_error_SomeD: "first_error f xs = Some e \<Longrightarrow> \<exists>x\<in>set xs. f x = Some e"
  by (induction xs) (auto split: option.splits)

text \<open>
  A sequence of checks with an early return: the result is the first error, and later
  checks do not matter once one has failed.
\<close>

fun first_some :: "'e option list \<Rightarrow> 'e option" where
  "first_some [] = None"
| "first_some (x # xs) = (case x of Some e \<Rightarrow> Some e | None \<Rightarrow> first_some xs)"

definition fail_if :: "bool \<Rightarrow> 'e \<Rightarrow> 'e option" where
  "fail_if b e = (if b then Some e else None)"

lemma fail_if_None [simp]: "fail_if b e = None \<longleftrightarrow> \<not> b"
  by (simp add: fail_if_def)

lemma fail_if_Some [simp]: "fail_if b e = Some e' \<longleftrightarrow> b \<and> e' = e"
  by (auto simp: fail_if_def)

lemma first_some_None: "first_some xs = None \<longleftrightarrow> list_all (\<lambda>x. x = None) xs"
  by (induction xs) (auto split: option.splits)

section \<open>Programs in the state monad\<close>

definition wp :: "('w, 'a) state \<Rightarrow> ('a \<Rightarrow> 'w \<Rightarrow> bool) \<Rightarrow> 'w \<Rightarrow> bool" where
  "wp m Q w = (case run_state m w of (r, w') \<Rightarrow> Q r w')"

lemma wpI: "(\<And>r w'. run_state m w = (r, w') \<Longrightarrow> Q r w') \<Longrightarrow> wp m Q w"
  by (auto simp: wp_def split: prod.split)

lemma wpD: "wp m Q w \<Longrightarrow> run_state m w = (r, w') \<Longrightarrow> Q r w'"
  by (simp add: wp_def)

lemma wp_mono: "wp m P w \<Longrightarrow> (\<And>r w'. P r w' \<Longrightarrow> Q r w') \<Longrightarrow> wp m Q w"
  by (auto simp: wp_def)

lemma wp_conj: "wp m (\<lambda>r w'. P r w' \<and> Q r w') w \<longleftrightarrow> wp m P w \<and> wp m Q w"
  by (simp add: wp_def split: prod.split)

lemma wp_True [simp]: "wp m (\<lambda>r w'. True) w"
  by (simp add: wp_def split: prod.split)

lemma wp_return [wp]: "wp (State_Monad.return x) Q w = Q x w"
  by (simp add: wp_def)

lemma wp_bind [wp]: "wp (State_Monad.bind m f) Q w = wp m (\<lambda>r. wp (f r) Q) w"
  by (simp add: wp_def split: prod.split)

lemma wp_State [wp]: "wp (State f) Q w = (case f w of (r, w') \<Rightarrow> Q r w')"
  by (simp add: wp_def)

lemma wp_if [wp]: "wp (if b then m else n) Q w = (if b then wp m Q w else wp n Q w)"
  by simp

lemma wp_case_sum [wp]:
  "wp (case r of Inl e \<Rightarrow> f e | Inr x \<Rightarrow> g x) Q w =
   (case r of Inl e \<Rightarrow> wp (f e) Q w | Inr x \<Rightarrow> wp (g x) Q w)"
  by (simp split: sum.split)

lemma wp_case_option [wp]:
  "wp (case r of None \<Rightarrow> f | Some x \<Rightarrow> g x) Q w =
   (case r of None \<Rightarrow> wp f Q w | Some x \<Rightarrow> wp (g x) Q w)"
  by (simp split: option.split)

lemma wp_case_prod [wp]:
  "wp (case r of (a, b) \<Rightarrow> f a b) Q w = (case r of (a, b) \<Rightarrow> wp (f a b) Q w)"
  by (simp split: prod.split)

lemma wp_let [wp]: "wp (Let x f) Q w = (let y = x in wp (f y) Q w)"
  by simp

text \<open>The same rules where the state is not applied yet, as under a bind.\<close>

lemma wp_return_fun [wp]: "wp (State_Monad.return x) Q = Q x"
  by (simp add: fun_eq_iff wp_return)

lemma wp_bind_fun [wp]: "wp (State_Monad.bind m f) Q = wp m (\<lambda>r. wp (f r) Q)"
  by (simp add: fun_eq_iff wp_bind)

lemma wp_if_fun [wp]: "wp (if b then m else n) Q = (if b then wp m Q else wp n Q)"
  by simp

lemma wp_case_sum_fun [wp]:
  "wp (case r of Inl e \<Rightarrow> f e | Inr x \<Rightarrow> g x) Q =
   (case r of Inl e \<Rightarrow> wp (f e) Q | Inr x \<Rightarrow> wp (g x) Q)"
  by (simp split: sum.split)

lemma wp_case_option_fun [wp]:
  "wp (case r of None \<Rightarrow> f | Some x \<Rightarrow> g x) Q =
   (case r of None \<Rightarrow> wp f Q | Some x \<Rightarrow> wp (g x) Q)"
  by (simp split: option.split)

lemma wp_case_prod_fun [wp]:
  "wp (case r of (a, b) \<Rightarrow> f a b) Q = (case r of (a, b) \<Rightarrow> wp (f a b) Q)"
  by (simp split: prod.split)

end
