(* ===== verification/GoString.thy ===== *)
theory GoString
  imports Prelude "HOL-Library.Sublist"
begin

text \<open>
  Go strings are byte sequences: a \<open>string\<close> here is the list of the bytes and
  \<open>length\<close> is Go's \<open>len\<close>. The theory models what the program uses of the
  packages \<open>unicode/utf8\<close>, \<open>unicode\<close>, \<open>strings\<close>, \<open>strconv\<close> and
  \<open>encoding/base64\<close>.
\<close>

section \<open>UTF-8\<close>

abbreviation byte :: "char \<Rightarrow> nat" where
  "byte c \<equiv> of_char c"

definition cont_byte :: "char \<Rightarrow> bool" where
  "cont_byte c \<longleftrightarrow> 128 \<le> byte c \<and> byte c < 192"

text \<open>
  \<open>rune_width s\<close> is the number of bytes \<open>utf8.DecodeRuneInString\<close> consumes at the
  front of a non-empty string: 1 for ASCII, the length of a well-formed sequence, and 1 for
  a byte that starts none (then the rune is U+FFFD).
\<close>

fun rune_width :: "string \<Rightarrow> nat" where
  "rune_width [] = 0"
| "rune_width (c # t) =
    (if byte c < 128 then 1
     else if 194 \<le> byte c \<and> byte c < 224 then
       (case t of c1 # _ \<Rightarrow> if cont_byte c1 then 2 else 1 | [] \<Rightarrow> 1)
     else if 224 \<le> byte c \<and> byte c < 240 then
       (case t of c1 # c2 # _ \<Rightarrow>
          if cont_byte c1 \<and> cont_byte c2
            \<and> (byte c = 224 \<longrightarrow> 160 \<le> byte c1) \<and> (byte c = 237 \<longrightarrow> byte c1 < 160)
          then 3 else 1
        | _ \<Rightarrow> 1)
     else if 240 \<le> byte c \<and> byte c < 245 then
       (case t of c1 # c2 # c3 # _ \<Rightarrow>
          if cont_byte c1 \<and> cont_byte c2 \<and> cont_byte c3
            \<and> (byte c = 240 \<longrightarrow> 144 \<le> byte c1) \<and> (byte c = 244 \<longrightarrow> byte c1 < 144)
          then 4 else 1
        | _ \<Rightarrow> 1)
     else 1)"

text \<open>The runes of a string as the byte groups that a range loop visits in order.\<close>

function segs :: "string \<Rightarrow> string list" where
  "segs [] = []"
| "segs (c # t) = (c # take (rune_width (c # t) - 1) t) # segs (drop (rune_width (c # t) - 1) t)"
  by pat_completeness auto
termination
  by (relation "measure length") auto

text \<open>The code point of one group; U+FFFD for a group that is no well-formed sequence.\<close>

fun rune_of :: "string \<Rightarrow> nat" where
  "rune_of [a] = (if byte a < 128 then byte a else 65533)"
| "rune_of [a, b] = (byte a - 192) * 64 + (byte b - 128)"
| "rune_of [a, b, c] = (byte a - 224) * 4096 + (byte b - 128) * 64 + (byte c - 128)"
| "rune_of [a, b, c, d] =
     (byte a - 240) * 262144 + (byte b - 128) * 4096 + (byte c - 128) * 64 + (byte d - 128)"
| "rune_of _ = 65533"

definition runes :: "string \<Rightarrow> nat list" where
  "runes s = map rune_of (segs s)"

text \<open>\<open>utf8.ValidString\<close>: no group is a lone byte outside ASCII.\<close>

definition valid_utf8 :: "string \<Rightarrow> bool" where
  "valid_utf8 s \<longleftrightarrow> list_all (\<lambda>g. length g = 1 \<longrightarrow> byte (hd g) < 128) (segs s)"

lemma rune_width_pos: "s \<noteq> [] \<Longrightarrow> 0 < rune_width s"
  by (cases s) (auto split: list.splits)

lemma rune_width_le: "rune_width s \<le> length s"
  by (cases s) (auto split: list.splits)

lemma concat_segs [simp]: "concat (segs s) = s"
  by (induction s rule: segs.induct) auto

lemma segs_Nil_iff [simp]: "segs s = [] \<longleftrightarrow> s = []"
  by (cases s) auto

lemma segs_nonempty: "g \<in> set (segs s) \<Longrightarrow> g \<noteq> []"
  by (induction s rule: segs.induct) auto

definition ascii :: "string \<Rightarrow> bool" where
  "ascii s \<longleftrightarrow> list_all (\<lambda>c. byte c < 128) s"

lemma segs_ascii: "ascii s \<Longrightarrow> segs s = map (\<lambda>c. [c]) s"
  by (induction s) (auto simp: ascii_def)

text \<open>The groups of a prefix that ends at a group boundary.\<close>

lemma rune_width_prefix:
  assumes "rune_width s \<le> length p" and "p = take (length p) s" and "s \<noteq> []"
  shows "rune_width p = rune_width s"
proof -
  obtain c t where s: "s = c # t" using assms(3) by (cases s) auto
  have "0 < rune_width s" using assms(3) by (rule rune_width_pos)
  then obtain q where p: "p = c # q" using assms(1,2) s by (cases p) auto
  have q: "q = take (length q) t" using assms(2) s p by simp
  show ?thesis
    using assms(1) q unfolding s p
    by (cases q; cases "tl q"; cases "tl (tl q)"; cases t; cases "tl t"; cases "tl (tl t)")
      (auto split: if_splits)
qed

lemma segs_take: "segs (concat (take k (segs s))) = take k (segs s)"
proof (induction s arbitrary: k rule: segs.induct)
  case (2 c t)
  let ?n = "rune_width (c # t) - 1"
  show ?case
  proof (cases k)
    case (Suc j)
    let ?r = "concat (take j (segs (drop ?n t)))"
    have n: "length (take ?n t) = ?n" using rune_width_le [of "c # t"] by auto
    have "?r @ concat (drop j (segs (drop ?n t))) = drop ?n t"
      by (metis append_take_drop_id concat_append concat_segs)
    then have t: "(take ?n t @ ?r) @ concat (drop j (segs (drop ?n t))) = t"
      by (metis append_take_drop_id append.assoc)
    then have pre: "take ?n t @ ?r = take (length (take ?n t @ ?r)) t"
      by (metis append_eq_conv_conj)
    have w: "rune_width (c # (take ?n t @ ?r)) = rune_width (c # t)"
    proof (rule rune_width_prefix)
      show "rune_width (c # t) \<le> length (c # take ?n t @ ?r)"
        using n rune_width_pos [of "c # t"] by (simp del: rune_width.simps)
      show "c # take ?n t @ ?r = take (length (c # take ?n t @ ?r)) (c # t)"
        by (simp only: length_Cons take_Suc_Cons pre [symmetric])
    qed simp
    show ?thesis using 2 Suc w n by (simp del: rune_width.simps)
  qed simp
qed simp

lemma segs_drop: "segs (concat (drop k (segs s))) = drop k (segs s)"
proof (induction s arbitrary: k rule: segs.induct)
  case (2 c t)
  show ?case
  proof (cases k)
    case 0
    then show ?thesis by (simp only: drop_0 concat_segs)
  next
    case (Suc j)
    then show ?thesis using 2 by (simp del: rune_width.simps)
  qed
qed simp

section \<open>Classes of runes\<close>

text \<open>\<open>unicode.IsSpace\<close>: the runes of the property White_Space.\<close>

definition is_space :: "nat \<Rightarrow> bool" where
  "is_space r \<longleftrightarrow> (9 \<le> r \<and> r \<le> 13) \<or> r = 32 \<or> r = 133 \<or> r = 160 \<or> r = 5760
     \<or> (8192 \<le> r \<and> r \<le> 8202) \<or> r = 8232 \<or> r = 8233 \<or> r = 8239 \<or> r = 8287 \<or> r = 12288"

text \<open>\<open>unicode.IsControl\<close>: category Cc.\<close>

definition is_control :: "nat \<Rightarrow> bool" where
  "is_control r \<longleftrightarrow> r < 32 \<or> (127 \<le> r \<and> r < 160)"

text \<open>\<open>unicode.Is(unicode.Cf, r)\<close>: the format characters.\<close>

definition is_format :: "nat \<Rightarrow> bool" where
  "is_format r \<longleftrightarrow> r = 173 \<or> (1536 \<le> r \<and> r \<le> 1541) \<or> r = 1564 \<or> r = 1757 \<or> r = 1807
     \<or> (2192 \<le> r \<and> r \<le> 2193) \<or> r = 2274 \<or> r = 6158 \<or> (8203 \<le> r \<and> r \<le> 8207)
     \<or> (8234 \<le> r \<and> r \<le> 8238) \<or> (8288 \<le> r \<and> r \<le> 8292) \<or> (8294 \<le> r \<and> r \<le> 8303)
     \<or> r = 65279 \<or> (65529 \<le> r \<and> r \<le> 65531) \<or> r = 69821 \<or> r = 69837
     \<or> (78896 \<le> r \<and> r \<le> 78911) \<or> (113824 \<le> r \<and> r \<le> 113827) \<or> (119155 \<le> r \<and> r \<le> 119162)
     \<or> r = 917505 \<or> (917536 \<le> r \<and> r \<le> 917631)"

section \<open>Package strings\<close>

definition has_prefix :: "string \<Rightarrow> string \<Rightarrow> bool" where
  "has_prefix s p \<longleftrightarrow> take (length p) s = p"

definition has_suffix :: "string \<Rightarrow> string \<Rightarrow> bool" where
  "has_suffix s p \<longleftrightarrow> length p \<le> length s \<and> drop (length s - length p) s = p"

text \<open>
  \<open>strings.TrimSpace\<close> and \<open>strings.Fields\<close> decode runes; they are written over the
  groups of \<open>segs\<close>. Trimming from the right with \<open>DecodeLastRune\<close> sees the same
  last group, because the lead byte of a white-space sequence is never a continuation byte.
\<close>

definition space_seg :: "string \<Rightarrow> bool" where
  "space_seg g \<longleftrightarrow> is_space (rune_of g)"

definition trim_space :: "string \<Rightarrow> string" where
  "trim_space s = concat (rev (dropWhile space_seg (rev (dropWhile space_seg (segs s)))))"

text \<open>Split a list of groups at maximal runs of white space.\<close>

fun fields_segs :: "string \<Rightarrow> string list \<Rightarrow> string list" where
  "fields_segs acc [] = (if acc = [] then [] else [acc])"
| "fields_segs acc (g # gs) =
     (if space_seg g then (if acc = [] then fields_segs [] gs else acc # fields_segs [] gs)
      else fields_segs (acc @ g) gs)"

definition str_fields :: "string \<Rightarrow> string list" where
  "str_fields s = fields_segs [] (segs s)"

text \<open>
  \<open>strings.ToLower\<close>. The two runes outside ASCII whose lower case is an ASCII letter
  (the Kelvin sign and I with dot above) are mapped; every other rune outside ASCII has a
  lower case outside ASCII and is left alone. The program only compares the result with
  ASCII constants, so the two functions give the same comparisons.
\<close>

definition lower_seg :: "string \<Rightarrow> string" where
  "lower_seg g =
     (let r = rune_of g in
      if 65 \<le> r \<and> r \<le> 90 then [char_of (r + 32)]
      else if r = 8490 then ''k''
      else if r = 304 then ''i''
      else g)"

definition to_lower :: "string \<Rightarrow> string" where
  "to_lower s = concat (map lower_seg (segs s))"

definition contains_any :: "string \<Rightarrow> string \<Rightarrow> bool" where
  "contains_any s cs \<longleftrightarrow> list_ex (\<lambda>c. c \<in> set cs) s"

definition trim_right_slash :: "string \<Rightarrow> string" where
  "trim_right_slash s = rev (dropWhile (\<lambda>c. c = CHR ''/'') (rev s))"

text \<open>\<open>strings.IndexFunc(s, unicode.IsControl) >= 0\<close>\<close>

definition has_control :: "string \<Rightarrow> bool" where
  "has_control s \<longleftrightarrow> list_ex is_control (runes s)"

text \<open>\<open>strings.Split\<close> at one byte.\<close>

fun split_at :: "char \<Rightarrow> string \<Rightarrow> string list" where
  "split_at c [] = [[]]"
| "split_at c (x # xs) =
     (if x = c then [] # split_at c xs
      else (case split_at c xs of [] \<Rightarrow> [[x]] | y # ys \<Rightarrow> (x # y) # ys))"

fun join_with :: "string \<Rightarrow> string list \<Rightarrow> string" where
  "join_with sep [] = []"
| "join_with sep [x] = x"
| "join_with sep (x # y # zs) = x @ sep @ join_with sep (y # zs)"

text \<open>\<open>strings.Cut\<close> at one byte: the parts around its first occurrence.\<close>

definition cut :: "char \<Rightarrow> string \<Rightarrow> string \<times> string \<times> bool" where
  "cut c s =
     (if c \<in> set s then (takeWhile (\<lambda>x. x \<noteq> c) s, tl (dropWhile (\<lambda>x. x \<noteq> c) s), True)
      else (s, [], False))"

lemma dropWhile_drop: "\<exists>k. dropWhile P xs = drop k xs"
  by (metis dropWhile_eq_drop)

lemma rev_dropWhile_rev_take: "\<exists>k. rev (dropWhile P (rev xs)) = take k xs"
proof -
  obtain k where "dropWhile P (rev xs) = drop k (rev xs)" using dropWhile_drop by blast
  then have "rev (dropWhile P (rev xs)) = take (length xs - k) xs" by (simp add: drop_rev)
  then show ?thesis by blast
qed

lemma segs_trim_space:
  "segs (trim_space s) = rev (dropWhile space_seg (rev (dropWhile space_seg (segs s))))"
proof -
  obtain k where k: "dropWhile space_seg (segs s) = drop k (segs s)" using dropWhile_drop by blast
  define u where "u = concat (drop k (segs s))"
  have u: "segs u = drop k (segs s)" unfolding u_def by (rule segs_drop)
  obtain j where j: "rev (dropWhile space_seg (rev (segs u))) = take j (segs u)"
    using rev_dropWhile_rev_take by blast
  show ?thesis
    unfolding trim_space_def k u [symmetric] j by (rule segs_take)
qed

lemma dropWhile_trimmed:
  "dropWhile P (rev (dropWhile P (rev (dropWhile P xs)))) = rev (dropWhile P (rev (dropWhile P xs)))"
proof (cases "rev (dropWhile P (rev (dropWhile P xs)))")
  case (Cons y ys)
  obtain k where "rev (dropWhile P (rev (dropWhile P xs))) = take k (dropWhile P xs)"
    using rev_dropWhile_rev_take by blast
  then have "hd (dropWhile P xs) = y \<and> dropWhile P xs \<noteq> []" using Cons
    by (cases "dropWhile P xs"; cases k) auto
  then have "\<not> P y" using hd_dropWhile [of P xs] by auto
  then show ?thesis unfolding Cons by simp
next
  case Nil
  then show ?thesis by (simp only: dropWhile.simps)
qed

lemma trim_space_idem: "trim_space (trim_space s) = trim_space s"
proof -
  let ?g = "rev (dropWhile space_seg (rev (dropWhile space_seg (segs s))))"
  have "trim_space (trim_space s) = concat (rev (dropWhile space_seg (rev (dropWhile space_seg ?g))))"
    by (simp only: trim_space_def [of "trim_space s"] segs_trim_space)
  also have "\<dots> = concat ?g" by (simp only: dropWhile_trimmed rev_rev_ident dropWhile_idem)
  finally show ?thesis by (simp only: trim_space_def [of s])
qed

lemma trim_space_Nil [simp]: "trim_space [] = []"
  by (simp add: trim_space_def)

lemma split_at_nonempty [simp]: "split_at c s \<noteq> []"
  by (induction s) (auto split: list.splits)

lemma join_split: "join_with [c] (split_at c s) = s"
proof (induction s)
  case (Cons x xs)
  obtain y ys where y: "split_at c xs = y # ys"
    by (cases "split_at c xs") auto
  with Cons show ?case by (cases ys) auto
qed simp

lemma split_no_sep: "p \<in> set (split_at c s) \<Longrightarrow> c \<notin> set p"
  by (induction s arbitrary: p) (auto split: list.splits if_splits)

lemma split_at_id [simp]: "c \<notin> set s \<Longrightarrow> split_at c s = [s]"
  by (induction s) auto

lemma split_at_append: "c \<notin> set p \<Longrightarrow> split_at c (p @ c # s) = p # split_at c s"
  by (induction p) auto

lemma split_join: "ps \<noteq> [] \<Longrightarrow> \<forall>p\<in>set ps. c \<notin> set p \<Longrightarrow> split_at c (join_with [c] ps) = ps"
  by (induction "[c]" ps rule: join_with.induct) (auto simp: split_at_append)


section \<open>Laws of the rune functions\<close>

lemma rune_width_append_ascii:
  "byte c < 128 \<Longrightarrow> rune_width ((a # s) @ c # t) = rune_width (a # s)"
  by (auto simp: cont_byte_def split: list.splits)

lemma segs_append_ascii: "byte c < 128 \<Longrightarrow> segs (s @ c # t) = segs s @ [c] # segs t"
proof (induction s rule: segs.induct)
  case (2 a s)
  have w: "rune_width (a # s @ c # t) = rune_width (a # s)"
    using rune_width_append_ascii [of c a s t] 2 by simp
  have le: "rune_width (a # s) - 1 \<le> length s"
    using rune_width_le [of "a # s"] by simp
  show ?case using 2 le w by simp
qed simp

lemma segs_cons_ascii [simp]: "byte c < 128 \<Longrightarrow> segs (c # t) = [c] # segs t"
  using segs_append_ascii [of c "[]"] by simp

lemma space_seg_blank [simp]: "space_seg '' ''"
  by (simp add: space_seg_def is_space_def)

lemma fields_segs_all_nonspace:
  "\<forall>g\<in>set gs. \<not> space_seg g \<Longrightarrow> fields_segs acc (gs @ hs) = fields_segs (acc @ concat gs) hs"
  by (induction gs arbitrary: acc) auto

text \<open>Every field is a non-empty concatenation of groups that are not white space.\<close>

lemma fields_segs_parts:
  assumes "\<forall>g\<in>set gs. g \<noteq> []" and "f \<in> set (fields_segs acc gs)"
    and "\<exists>hs. acc = concat hs \<and> set hs \<subseteq> H \<and> (\<forall>h\<in>set hs. \<not> space_seg h \<and> h \<noteq> [])"
    and "set gs \<subseteq> H"
  shows "f \<noteq> [] \<and> (\<exists>hs. f = concat hs \<and> set hs \<subseteq> H \<and> (\<forall>h\<in>set hs. \<not> space_seg h \<and> h \<noteq> []))"
  using assms
proof (induction acc gs rule: fields_segs.induct)
  case (1 acc)
  then show ?case by (auto split: if_splits)
next
  case (2 acc g gs)
  show ?case
  proof (cases "space_seg g")
    case True
    have nil: "\<exists>hs. [] = concat hs \<and> set hs \<subseteq> H \<and> (\<forall>h\<in>set hs. \<not> space_seg h \<and> h \<noteq> [])"
      by (rule exI [of _ "[]"]) simp
    show ?thesis
    proof (cases "f = acc \<and> acc \<noteq> []")
      case True
      then show ?thesis using "2.prems"(3) by blast
    next
      case False
      then have "f \<in> set (fields_segs [] gs)"
        using True "2.prems"(2) by (auto split: if_splits)
      then show ?thesis
        using "2.IH"(1,2) True "2.prems" nil by (cases "acc = []") auto
    qed
  next
    case False
    from "2.prems"(3) obtain hs where hs: "acc = concat hs" "set hs \<subseteq> H"
      "\<forall>h\<in>set hs. \<not> space_seg h \<and> h \<noteq> []" by blast
    have "\<exists>hs. acc @ g = concat hs \<and> set hs \<subseteq> H \<and> (\<forall>h\<in>set hs. \<not> space_seg h \<and> h \<noteq> [])"
      using hs False "2.prems"(1,4) by (intro exI [of _ "hs @ [g]"]) auto
    then show ?thesis
      using "2.IH"(3) False "2.prems" by auto
  qed
qed

lemma fields_parts:
  assumes "f \<in> set (str_fields s)"
  shows "f \<noteq> [] \<and> (\<exists>hs. f = concat hs \<and> set hs \<subseteq> set (segs s) \<and> (\<forall>h\<in>set hs. \<not> space_seg h \<and> h \<noteq> []))"
proof (rule fields_segs_parts [of "segs s" f "[]" "set (segs s)"])
  show "\<forall>g\<in>set (segs s). g \<noteq> []" by (simp add: segs_nonempty)
  show "f \<in> set (fields_segs [] (segs s))" using assms by (simp add: str_fields_def)
  show "\<exists>hs. [] = concat hs \<and> set hs \<subseteq> set (segs s) \<and> (\<forall>h\<in>set hs. \<not> space_seg h \<and> h \<noteq> [])"
    by (rule exI [of _ "[]"]) simp
qed simp

lemma fields_nonempty: "f \<in> set (str_fields s) \<Longrightarrow> f \<noteq> []"
  using fields_parts by blast

lemma fields_bytes:
  assumes "f \<in> set (str_fields s)"
  shows "set f \<subseteq> set s"
proof -
  from fields_parts [OF assms] obtain hs where "f = concat hs" "set hs \<subseteq> set (segs s)" by blast
  then have "set f \<subseteq> set (concat (segs s))" by (simp only: set_concat) blast
  then show ?thesis by simp
qed

lemma fields_of_ascii_word:
  assumes "ascii w" and "w \<noteq> []" and "\<forall>c\<in>set w. \<not> is_space (byte c)"
  shows "str_fields w = [w]"
proof -
  have "\<forall>g\<in>set (map (\<lambda>c. [c]) w). \<not> space_seg g"
    using assms(1,3) by (auto simp: space_seg_def ascii_def list_all_iff)
  from fields_segs_all_nonspace [OF this, of "[]" "[]"] show ?thesis
    using assms(1,2) by (simp add: str_fields_def segs_ascii concat_map_singleton)
qed

lemma fields_word_blank:
  assumes "ascii w" and "w \<noteq> []" and "\<forall>c\<in>set w. \<not> is_space (byte c)"
  shows "str_fields (w @ CHR '' '' # s) = w # str_fields s"
proof -
  have ns: "\<forall>g\<in>set (map (\<lambda>c. [c]) w). \<not> space_seg g"
    using assms(1,3) by (auto simp: space_seg_def ascii_def list_all_iff)
  have "segs (w @ CHR '' '' # s) = map (\<lambda>c. [c]) w @ '' '' # segs s"
    using assms(1) by (simp add: segs_append_ascii segs_ascii)
  with fields_segs_all_nonspace [OF ns, of "[]" "'' '' # segs s"] show ?thesis
    using assms(2) by (simp add: str_fields_def concat_map_singleton)
qed

text \<open>Joining ASCII words with blanks and splitting again gives the words back.\<close>

lemma fields_join_words:
  assumes "\<forall>w\<in>set ws. ascii w \<and> w \<noteq> [] \<and> (\<forall>c\<in>set w. \<not> is_space (byte c))"
  shows "str_fields (join_with '' '' ws) = ws"
  using assms
  by (induction "'' ''" ws rule: join_with.induct)
    (auto simp: fields_of_ascii_word fields_word_blank, simp add: str_fields_def)

section \<open>Package strconv\<close>

definition is_digit :: "char \<Rightarrow> bool" where
  "is_digit c \<longleftrightarrow> 48 \<le> byte c \<and> byte c \<le> 57"

fun digits_val :: "int \<Rightarrow> string \<Rightarrow> int" where
  "digits_val acc [] = acc"
| "digits_val acc (c # cs) = digits_val (acc * 10 + (of_char c - 48)) cs"

text \<open>
  \<open>strconv.ParseInt(s, 10, 64)\<close>: an optional sign, then decimal digits only, within the
  range of \<open>int64\<close>. \<open>None\<close> is the error, of either kind.
\<close>

definition parse_int64 :: "string \<Rightarrow> int option" where
  "parse_int64 s =
     (let neg = has_prefix s ''-'';
          ds = (if neg \<or> has_prefix s ''+'' then tl s else s);
          n = digits_val 0 ds in
      if ds = [] \<or> \<not> list_all is_digit ds then None
      else if \<not> neg \<and> 2 ^ 63 \<le> n then None
      else if neg \<and> 2 ^ 63 < n then None
      else Some (if neg then - n else n))"

definition int64 :: "int \<Rightarrow> bool" where
  "int64 i \<longleftrightarrow> - (2 ^ 63) \<le> i \<and> i < 2 ^ 63"

definition digit_char :: "nat \<Rightarrow> char" where
  "digit_char n = char_of (48 + n)"

function nat_digits :: "nat \<Rightarrow> string" where
  "nat_digits n = (if n < 10 then [digit_char n] else nat_digits (n div 10) @ [digit_char (n mod 10)])"
  by pat_completeness auto
termination
  by (relation "measure id") auto

declare nat_digits.simps [simp del]

text \<open>\<open>strconv.FormatInt(i, 10)\<close>\<close>

text \<open>\<open>strconv.ParseBool\<close>.\<close>

definition parse_bool :: "string \<Rightarrow> bool option" where
  "parse_bool s =
     (if s \<in> {''1'', ''t'', ''T'', ''true'', ''TRUE'', ''True''} then Some True
      else if s \<in> {''0'', ''f'', ''F'', ''false'', ''FALSE'', ''False''} then Some False
      else None)"

definition format_int :: "int \<Rightarrow> string" where
  "format_int i = (if i < 0 then CHR ''-'' # nat_digits (nat (- i)) else nat_digits (nat i))"

lemma byte_digit_char [simp]: "n < 10 \<Longrightarrow> byte (digit_char n) = 48 + n"
  by (simp add: digit_char_def)

lemma is_digit_digit_char [simp]: "n < 10 \<Longrightarrow> is_digit (digit_char n)"
  by (simp add: is_digit_def)

lemma digits_val_append: "digits_val a (xs @ [c]) = digits_val a xs * 10 + (of_char c - 48)"
  by (induction xs arbitrary: a) auto

lemma nat_digits_digit: "list_all is_digit (nat_digits n) \<and> nat_digits n \<noteq> []"
proof (induction n rule: nat_digits.induct)
  case (1 n)
  show ?case by (subst (1 2) nat_digits.simps) (use 1 in auto)
qed

lemma of_char_digit_char: "n < 10 \<Longrightarrow> (of_char (digit_char n) :: int) = 48 + int n"
  using byte_digit_char [of n] of_nat_of_char [of "digit_char n", where ?'a = int] by simp

lemma digits_val_nat_digits: "digits_val 0 (nat_digits n) = int n"
proof (induction n rule: nat_digits.induct)
  case (1 n)
  have "int (n div 10) * 10 + int (n mod 10) = int n" by (simp add: zdiv_int zmod_int)
  then show ?case
    by (subst nat_digits.simps) (use 1 in \<open>auto simp: digits_val_append of_char_digit_char\<close>)
qed

lemma digit_not_sign: "is_digit c \<Longrightarrow> c \<noteq> CHR ''-'' \<and> c \<noteq> CHR ''+''"
  by (auto simp: is_digit_def)

lemma no_sign_digits: "list_all is_digit ds \<Longrightarrow> \<not> has_prefix ds ''-'' \<and> \<not> has_prefix ds ''+''"
  by (cases ds) (auto simp: has_prefix_def dest: digit_not_sign)

lemma parse_format_int: "int64 i \<Longrightarrow> parse_int64 (format_int i) = Some i"
  using nat_digits_digit [of "nat i"] nat_digits_digit [of "nat (- i)"]
    no_sign_digits [of "nat_digits (nat i)"]
  by (auto simp: parse_int64_def format_int_def Let_def digits_val_nat_digits int64_def
      has_prefix_def [of "CHR ''-'' # _"])

lemma of_char_int_nonneg:
  assumes "is_digit c"
  shows "(48 :: int) \<le> of_char c"
proof -
  from assms have "48 \<le> byte c" by (simp only: is_digit_def)
  then have "int 48 \<le> int (byte c)" by (simp only: of_nat_le_iff)
  then show ?thesis by (simp only: of_nat_of_char of_nat_numeral)
qed

lemma digits_val_nonneg: "list_all is_digit ds \<Longrightarrow> 0 \<le> a \<Longrightarrow> 0 \<le> digits_val a ds"
proof (induction ds arbitrary: a)
  case (Cons c ds)
  from Cons.prems have "(48 :: int) \<le> of_char c" by (intro of_char_int_nonneg) simp
  with Cons.prems(2) have "0 \<le> a * 10 + (of_char c - 48)" by linarith
  with Cons show ?case by simp
qed simp

lemma parse_int64_range: "parse_int64 s = Some i \<Longrightarrow> int64 i"
  using digits_val_nonneg [of "tl s" 0] digits_val_nonneg [of s 0]
  by (auto simp: parse_int64_def int64_def Let_def split: if_splits)

section \<open>Package encoding/base64: RawURLEncoding\<close>

definition b64_char :: "nat \<Rightarrow> char" where
  "b64_char n = (if n < 26 then char_of (65 + n) else if n < 52 then char_of (71 + n)
     else if n < 62 then char_of (n - 4) else if n = 62 then CHR ''-'' else CHR ''_'')"

definition b64_index :: "char \<Rightarrow> nat option" where
  "b64_index c =
     (let b = byte c in
      if 65 \<le> b \<and> b \<le> 90 then Some (b - 65)
      else if 97 \<le> b \<and> b \<le> 122 then Some (b - 71)
      else if 48 \<le> b \<and> b \<le> 57 then Some (b + 4)
      else if c = CHR ''-'' then Some 62
      else if c = CHR ''_'' then Some 63
      else None)"

text \<open>\<open>EncodeToString\<close>: three bytes to four characters, a shorter rest without padding.\<close>

fun b64_encode :: "string \<Rightarrow> string" where
  "b64_encode [] = []"
| "b64_encode [a] = [b64_char (byte a div 4), b64_char ((byte a mod 4) * 16)]"
| "b64_encode [a, b] =
     [b64_char (byte a div 4), b64_char ((byte a mod 4) * 16 + byte b div 16),
      b64_char ((byte b mod 16) * 4)]"
| "b64_encode (a # b # c # r) =
     b64_char (byte a div 4) # b64_char ((byte a mod 4) * 16 + byte b div 16)
     # b64_char ((byte b mod 16) * 4 + byte c div 64) # b64_char (byte c mod 64) # b64_encode r"

text \<open>Decode a list of 6-bit values; a single leftover value is an error.\<close>

fun b64_groups :: "nat list \<Rightarrow> string option" where
  "b64_groups [] = Some []"
| "b64_groups [p] = None"
| "b64_groups [p, q] = Some [char_of (p * 4 + q div 16)]"
| "b64_groups [p, q, r] = Some [char_of (p * 4 + q div 16), char_of ((q mod 16) * 16 + r div 4)]"
| "b64_groups (p # q # r # s # ns) =
     (case b64_groups ns of None \<Rightarrow> None
      | Some bs \<Rightarrow> Some (char_of (p * 4 + q div 16) # char_of ((q mod 16) * 16 + r div 4)
                         # char_of ((r mod 4) * 64 + s) # bs))"

text \<open>
  \<open>Decode\<close>: carriage returns and line feeds are skipped, any other character outside
  the alphabet is an error, and trailing bits are not checked (the encoding is not strict).
\<close>

definition b64_decode :: "string \<Rightarrow> string option" where
  "b64_decode s =
     (let t = filter (\<lambda>c. byte c \<noteq> 10 \<and> byte c \<noteq> 13) s in
      if list_all (\<lambda>c. b64_index c \<noteq> None) t then b64_groups (map (the \<circ> b64_index) t) else None)"

lemma b64_index_char [simp]: "n < 64 \<Longrightarrow> b64_index (b64_char n) = Some n"
  by (auto simp: b64_index_def b64_char_def Let_def)

lemma b64_char_not_newline: "n < 64 \<Longrightarrow> byte (b64_char n) \<noteq> 10 \<and> byte (b64_char n) \<noteq> 13"
  by (auto simp: b64_char_def)

text \<open>The 6-bit values that the encoder writes.\<close>

fun b64_sextets :: "string \<Rightarrow> nat list" where
  "b64_sextets [] = []"
| "b64_sextets [a] = [byte a div 4, (byte a mod 4) * 16]"
| "b64_sextets [a, b] = [byte a div 4, (byte a mod 4) * 16 + byte b div 16, (byte b mod 16) * 4]"
| "b64_sextets (a # b # c # r) =
     byte a div 4 # ((byte a mod 4) * 16 + byte b div 16)
     # ((byte b mod 16) * 4 + byte c div 64) # byte c mod 64 # b64_sextets r"

lemma byte_less: "byte c < 256"
proof -
  have "byte c mod 256 < 256" by simp
  then show ?thesis by simp
qed

lemma b64_encode_sextets: "b64_encode s = map b64_char (b64_sextets s)"
  by (induction s rule: b64_encode.induct) auto

lemma sextet_parts:
  fixes a b :: nat
  assumes "a < 256" and "b < 256"
  shows "a div 4 < 64" and "b div 16 < 16" and "b div 64 < 4"
    and "(a mod 4) * 16 + b div 16 < 64" and "(a mod 16) * 4 + b div 64 < 64"
    and "(a mod 4) * 16 < 64" and "(a mod 16) * 4 < 64" and "a mod 64 < 64"
proof -
  show *: "a div 4 < 64" "b div 16 < 16" "b div 64 < 4" using assms by auto
  have "a mod 4 < 4" "a mod 16 < 16" by auto
  then show "(a mod 4) * 16 + b div 16 < 64" "(a mod 16) * 4 + b div 64 < 64"
    "(a mod 4) * 16 < 64" "(a mod 16) * 4 < 64" "a mod 64 < 64" using * by auto
qed

lemma sextets_less: "n \<in> set (b64_sextets s) \<Longrightarrow> n < 64"
proof (induction s rule: b64_sextets.induct)
  case (2 a)
  then show ?case using sextet_parts [of "byte a" 0] byte_less [of a] by auto
next
  case (3 a b)
  then show ?case
    using sextet_parts [of "byte a" "byte b"] sextet_parts(7) [of "byte b" 0]
      byte_less [of a] byte_less [of b] by auto
next
  case (4 a b c r)
  then show ?case
    using sextet_parts [of "byte a" "byte b"] sextet_parts [of "byte b" "byte c"]
      sextet_parts(8) [of "byte c" 0] byte_less [of a] byte_less [of b] byte_less [of c] by auto
qed simp

lemma digit_glue:
  fixes q d :: nat
  assumes "q < d"
  shows "(p * d + q) div d = p" and "(p * d + q) mod d = q"
  using assms by auto

lemma sextet_glue:
  fixes a b c :: nat
  assumes "a < 256" and "b < 256" and "c < 256"
  shows "a div 4 * 4 + ((a mod 4) * 16 + b div 16) div 16 = a"
    and "((a mod 4) * 16 + b div 16) mod 16 * 16 + ((b mod 16) * 4 + c div 64) div 4 = b"
    and "((b mod 16) * 4 + c div 64) mod 4 * 64 + c mod 64 = c"
    and "((a mod 4) * 16 + b div 16) mod 16 * 16 + ((b mod 16) * 4) div 4 = b"
    and "a div 4 * 4 + ((a mod 4) * 16) div 16 = a"
  using digit_glue [OF sextet_parts(2) [OF assms(1,2)], of "a mod 4"]
    digit_glue [OF sextet_parts(3) [OF assms(2,3)], of "b mod 16"]
  by (simp_all only: div_mult_mod_eq nonzero_mult_div_cancel_right zero_neq_numeral not_False_eq_True)

lemma b64_groups_sextets: "b64_groups (b64_sextets s) = Some s"
proof (induction s rule: b64_sextets.induct)
  case (2 a)
  show ?case
    by (simp only: b64_sextets.simps b64_groups.simps char_of_char
        sextet_glue(5) [OF byte_less byte_less byte_less])
next
  case (3 a b)
  show ?case
    by (simp only: b64_sextets.simps b64_groups.simps char_of_char
        sextet_glue(1,4) [OF byte_less byte_less byte_less])
next
  case (4 a b c r)
  show ?case
    by (simp only: b64_sextets.simps b64_groups.simps char_of_char 4 option.case
        sextet_glue(1-3) [OF byte_less byte_less byte_less])
qed simp

theorem b64_round_trip: "b64_decode (b64_encode s) = Some s"
proof -
  have l: "\<forall>n\<in>set (b64_sextets s). n < 64" by (simp add: sextets_less)
  then have f: "filter (\<lambda>c. byte c \<noteq> 10 \<and> byte c \<noteq> 13) (b64_encode s) = b64_encode s"
    by (auto simp: filter_id_conv b64_encode_sextets dest!: b64_char_not_newline)
  have i: "map (the \<circ> b64_index) (b64_encode s) = b64_sextets s"
    using l by (simp add: b64_encode_sextets map_idI)
  have "list_all (\<lambda>c. b64_index c \<noteq> None) (b64_encode s)"
    using l by (auto simp: b64_encode_sextets list_all_iff)
  then show ?thesis
    unfolding b64_decode_def Let_def f i by (simp add: b64_groups_sextets)
qed

lemma length_b64_encode: "length s = 32 \<Longrightarrow> length (b64_encode s) = 43"
proof -
  have "length (b64_encode s) = (length s * 4 + 2) div 3"
    by (induction s rule: b64_encode.induct) auto
  then show "length s = 32 \<Longrightarrow> ?thesis" by simp
qed

end
