(* ===== verification/GoError.thy ===== *)
theory GoError
  imports Prelude
begin

text \<open>
  The error values of \<open>internal/core/domain/errors.go\<close> and the part of Go's
  \<open>errors\<close> package the program uses: wrapping with \<open>fmt.Errorf\<close> and
  \<open>%w\<close>, \<open>errors.Join\<close>, and the tree search of \<open>errors.Is\<close>.
\<close>

datatype sentinel =
    ErrInvalidChallenge
  | ErrInvalidClient
  | ErrInvalidRedirect
  | ErrInvalidScope
  | ErrInvalidAudience
  | ErrInvalidAssurance
  | ErrInvalidPrompt
  | ErrInvalidTransaction
  | ErrExpiredTransaction
  | ErrReplay
  | ErrInvalidBrowserState
  | ErrInvalidForm
  | ErrRateLimited
  | ErrUnauthenticated
  | ErrInsufficientAssurance
  | ErrPolicyDenied
  | ErrInvalidDecision
  | ErrInvalidOrigin
  | ErrInvalidCSRF
  | ErrInvalidRemember
  | ErrUpstream

text \<open>
  \<open>Sent\<close> is a sentinel returned as it is, \<open>Msg\<close> an error that wraps nothing
  (its text is the fixed part of the message), \<open>Wrap\<close> the result of
  \<open>fmt.Errorf\<close> with one or more \<open>%w\<close> operands, \<open>Join\<close> that of
  \<open>errors.Join\<close> on non-nil errors.
\<close>

datatype goerr =
    Sent sentinel
  | Msg string
  | Wrap string "goerr list"
  | Join "goerr list"

type_synonym 'a res = "goerr + 'a"

fun errors_is :: "goerr \<Rightarrow> sentinel \<Rightarrow> bool" where
  "errors_is (Sent s) t = (s = t)"
| "errors_is (Msg m) t = False"
| "errors_is (Wrap m es) t = (\<exists>e\<in>set es. errors_is e t)"
| "errors_is (Join es) t = (\<exists>e\<in>set es. errors_is e t)"

text \<open>\<open>fmt.Errorf("%w: ...", domain.ErrUpstream)\<close>, the shape the adapters return.\<close>

definition upstream :: "string \<Rightarrow> goerr" where
  "upstream m = Wrap m [Sent ErrUpstream]"

lemma errors_is_upstream [simp]: "errors_is (upstream m) s \<longleftrightarrow> s = ErrUpstream"
  by (auto simp: upstream_def)

end
