(* ===== verification/Domain.thy ===== *)
theory Domain
  imports GoString GoError
begin

text \<open>
  The provider-owned models of \<open>internal/core/domain\<close>: flows, clients, the three
  Hydra requests, sessions, claims and transactions (\<open>model.go\<close>), the ordering of
  authenticator assurance levels, and the filter for login presentation hints
  (\<open>login_ui.go\<close>).

  A \<open>time.Time\<close> is an integer number of nanoseconds since the zero time, so that
  \<open>IsZero\<close> is equality with 0, \<open>After\<close> is \<open>>\<close> and \<open>Add\<close> is \<open>+\<close>. A
  \<open>*int64\<close> is an \<open>int option\<close>. Values of type \<open>any\<close> that come from decoded
  JSON are the datatype \<open>jval\<close>.
\<close>

section \<open>Values of type any\<close>

text \<open>
  A \<open>float64\<close> is finite with value \<open>m * 2 ^ e\<close>, or one of the special values;
  \<open>JInt\<close> stands for every Go integer type, \<open>JNumber\<close> for \<open>json.Number\<close>.
\<close>

datatype float64 = FFin int int | FNaN | FInf bool

datatype jval =
    JNull
  | JBool bool
  | JFloat float64
  | JInt int
  | JNumber string
  | JStr string
  | JArr "jval list"
  | JObj "(string \<times> jval) list"

section \<open>Models\<close>

type_synonym time = int

definition is_zero_time :: "time \<Rightarrow> bool" where
  "is_zero_time t \<longleftrightarrow> t = 0"

definition after :: "time \<Rightarrow> time \<Rightarrow> bool" where
  "after t u \<longleftrightarrow> u < t"

text \<open>\<open>Time.Sub\<close> saturates at the ends of \<open>time.Duration\<close>, an \<open>int64\<close>.\<close>

definition time_sub :: "time \<Rightarrow> time \<Rightarrow> int" where
  "time_sub t u = max (- (2 ^ 63)) (min (2 ^ 63 - 1) (t - u))"

type_synonym flow = string

definition FlowLogin :: flow where "FlowLogin = ''login''"
definition FlowConsent :: flow where "FlowConsent = ''consent''"
definition FlowLogout :: flow where "FlowLogout = ''logout''"

lemmas flow_defs = FlowLogin_def FlowConsent_def FlowLogout_def

record oauth_client =
  oc_id :: string
  oc_name :: string
  oc_redirect_uris :: "string list"
  oc_post_logout_redirect_uris :: "string list"
  oc_skip_consent :: bool

record login_request =
  lr_challenge :: string
  lr_client :: oauth_client
  lr_skip :: bool
  lr_subject :: string
  lr_requested_aal :: string
  lr_requested_acr_values :: "string list"
  lr_prompt :: string
  lr_max_age :: "int option"
  lr_login_hint :: string
  lr_ui_locales :: string
  lr_display :: string

record consent_request =
  cr_challenge :: string
  cr_client :: oauth_client
  cr_subject :: string
  cr_requested_scopes :: "string list"
  cr_requested_audience :: "string list"
  cr_skip :: bool
  cr_prompt :: string

record logout_request =
  gr_challenge :: string
  gr_client :: oauth_client
  gr_subject :: string
  gr_session_id :: string
  gr_request_url :: string
  gr_post_logout_redirect_uri :: string

record session_info =
  se_subject :: string
  se_aal :: string
  se_amr :: "string list"
  se_authenticated_at :: time
  se_identity_traits :: "jval gomap"
  se_identity_metadata_public :: "jval gomap"
  se_verified_emails :: "string list"

record claims =
  cl_id_token :: "jval gomap"
  cl_access_token :: "jval gomap"
  cl_user_info :: "jval gomap"

record transaction =
  tx_flow :: flow
  tx_challenge :: string
  tx_csrf_token :: string
  tx_browser_state :: string
  tx_client_id :: string
  tx_subject :: string
  tx_requested_aal :: string
  tx_requested_acr :: string
  tx_prompt :: string
  tx_max_age :: "int option"
  tx_started_at :: time
  tx_requested_scopes :: "string list"
  tx_requested_audience :: "string list"
  tx_required_aal :: string
  tx_expires_at :: time

definition empty_transaction :: transaction where
  "empty_transaction = \<lparr>tx_flow = [], tx_challenge = [], tx_csrf_token = [],
     tx_browser_state = [], tx_client_id = [], tx_subject = [], tx_requested_aal = [],
     tx_requested_acr = [], tx_prompt = [], tx_max_age = None, tx_started_at = 0,
     tx_requested_scopes = [], tx_requested_audience = [], tx_required_aal = [],
     tx_expires_at = 0\<rparr>"

section \<open>Assurance levels\<close>

text \<open>
  \<open>aalLevel\<close>. The level byte is read as an unsigned difference, so a byte below
  \<open>'0'\<close> wraps to a value above 3 and is refused like one above \<open>'3'\<close>.
\<close>

definition aal_level :: "string \<Rightarrow> nat option" where
  "aal_level value =
     (let v = to_lower (trim_space value) in
      if \<not> has_prefix v ''aal'' \<or> length v \<noteq> 4 then None
      else let level = (byte (v ! 3) + 208) mod 256 in
        if level < 1 \<or> level > 3 then None else Some level)"

definition aal_at_least :: "string \<Rightarrow> string \<Rightarrow> bool" where
  "aal_at_least actual required =
     (if required = [] then True
      else case (aal_level actual, aal_level required) of
        (Some a, Some r) \<Rightarrow> a \<ge> r
      | _ \<Rightarrow> False)"

definition supported_aal :: "string \<Rightarrow> bool" where
  "supported_aal value = (aal_level value \<noteq> None)"

definition higher_aal :: "string \<Rightarrow> string \<Rightarrow> string" where
  "higher_aal first second =
     (case aal_level first of
        None \<Rightarrow> second
      | Some f \<Rightarrow>
          (case aal_level second of
             None \<Rightarrow> first
           | Some s \<Rightarrow> if f \<ge> s then first else second))"

lemma aal_level_Nil [simp]: "aal_level [] = None"
  by (simp add: aal_level_def trim_space_def to_lower_def has_prefix_def)

lemma aal_level_range: "aal_level v = Some l \<Longrightarrow> 1 \<le> l \<and> l \<le> 3"
  by (auto simp: aal_level_def Let_def split: if_splits)

lemma higher_aal_cases: "higher_aal a b = a \<or> higher_aal a b = b"
  by (auto simp: higher_aal_def split: option.splits)

lemma higher_aal_Nil [simp]: "higher_aal [] b = b"
  by (simp add: higher_aal_def)

lemma higher_aal_eq_Nil:
  "(a = [] \<or> supported_aal a) \<and> (b = [] \<or> supported_aal b) \<Longrightarrow>
   higher_aal a b = [] \<longleftrightarrow> a = [] \<and> b = []"
  by (auto simp: higher_aal_def supported_aal_def split: option.splits)

lemma aal_at_least_self: "supported_aal a \<Longrightarrow> aal_at_least a a"
  by (auto simp: supported_aal_def aal_at_least_def)

lemma supported_or_empty_higher:
  "(a = [] \<or> supported_aal a) \<Longrightarrow> (b = [] \<or> supported_aal b) \<Longrightarrow>
   higher_aal a b = [] \<or> supported_aal (higher_aal a b)"
  using higher_aal_cases [of a b] by auto

lemma aal_at_least_trans:
  "aal_at_least a b \<Longrightarrow> aal_at_least b c \<Longrightarrow> b \<noteq> [] \<Longrightarrow> aal_at_least a c"
  by (auto simp: aal_at_least_def split: option.splits if_splits)

lemma aal_at_least_higher_iff:
  assumes "a = [] \<or> supported_aal a" and "b = [] \<or> supported_aal b"
  shows "aal_at_least v (higher_aal a b) \<longleftrightarrow> aal_at_least v a \<and> aal_at_least v b"
  using assms
  by (cases "a = []"; cases "b = []")
    (auto simp: higher_aal_def supported_aal_def aal_at_least_def split: option.splits)

section \<open>Presentation hints\<close>

record login_ui_hints =
  hint_login :: string
  hint_ui_locales :: string
  hint_display :: string

definition no_hints :: login_ui_hints where
  "no_hints = \<lparr>hint_login = [], hint_ui_locales = [], hint_display = []\<rparr>"

definition alpha_byte :: "char \<Rightarrow> bool" where
  "alpha_byte b \<longleftrightarrow> (97 \<le> byte b \<and> byte b \<le> 122) \<or> (65 \<le> byte b \<and> byte b \<le> 90)"

text \<open>
  The loop of \<open>validLocale\<close> from index \<open>i\<close> on, with the byte before it (if any).
\<close>

fun valid_locale_loop :: "char option \<Rightarrow> string \<Rightarrow> bool" where
  "valid_locale_loop prev [] = True"
| "valid_locale_loop prev (b # rest) =
     (if b = CHR ''-'' then
        (if prev = None \<or> prev = Some (CHR ''-'') then False else valid_locale_loop (Some b) rest)
      else if alpha_byte b then valid_locale_loop (Some b) rest
      else if prev \<noteq> None \<and> 48 \<le> byte b \<and> byte b \<le> 57 then valid_locale_loop (Some b) rest
      else False)"

definition valid_locale :: "string \<Rightarrow> bool" where
  "valid_locale v =
     (if length v < 2 \<or> length v > 35 \<or> hd v = CHR ''-'' \<or> last v = CHR ''-'' then False
      else valid_locale_loop None v)"

definition safe_login_hint :: "string \<Rightarrow> string" where
  "safe_login_hint raw =
     (let hint = trim_space raw in
      if length hint \<le> 256 \<and> valid_utf8 hint
         \<and> \<not> list_ex (\<lambda>r. is_control r \<or> is_format r) (runes hint)
      then hint else [])"

definition safe_ui_locales :: "string \<Rightarrow> string" where
  "safe_ui_locales raw =
     (let locales = str_fields raw in
      if length raw \<le> 256 \<and> length locales \<le> 8
         \<and> \<not> contains_any raw [CHR 0x0D, CHR 0x0A, CHR 0x09]
         \<and> list_all valid_locale locales
      then (let joined = join_with '' '' locales in if length joined \<le> 256 then joined else [])
      else [])"

definition safe_display :: "string \<Rightarrow> string" where
  "safe_display d = (if d \<in> set [''page'', ''popup'', ''touch'', ''wap''] then d else [])"

definition safe_login_ui_hints :: "login_ui_hints \<Rightarrow> login_ui_hints" where
  "safe_login_ui_hints h =
     \<lparr>hint_login = safe_login_hint (hint_login h),
      hint_ui_locales = safe_ui_locales (hint_ui_locales h),
      hint_display = safe_display (hint_display h)\<rparr>"

lemma valid_locale_loop_bytes:
  "valid_locale_loop prev v \<Longrightarrow> c \<in> set v \<Longrightarrow>
     c = CHR ''-'' \<or> alpha_byte c \<or> (48 \<le> byte c \<and> byte c \<le> 57)"
  by (induction prev v rule: valid_locale_loop.induct) (auto split: if_splits)

lemma locale_byte_plain:
  assumes "c = CHR ''-'' \<or> alpha_byte c \<or> (48 \<le> byte c \<and> byte c \<le> 57)"
  shows "byte c < 128" and "\<not> is_space (byte c)" and "c \<notin> {CHR 0x0D, CHR 0x0A, CHR 0x09}"
proof -
  have r: "45 \<le> byte c \<and> byte c \<le> 122" using assms by (auto simp: alpha_byte_def)
  then show "byte c < 128" by linarith
  show "\<not> is_space (byte c)" using r unfolding is_space_def by linarith
  show "c \<notin> {CHR 0x0D, CHR 0x0A, CHR 0x09}" using r by auto
qed

lemma valid_locale_word:
  assumes "valid_locale w"
  shows "ascii w" and "w \<noteq> []" and "\<forall>c\<in>set w. \<not> is_space (byte c)"
    and "\<forall>c\<in>set w. c \<notin> {CHR 0x0D, CHR 0x0A, CHR 0x09}"
proof -
  have l: "valid_locale_loop None w" and n: "2 \<le> length w"
    using assms by (simp_all add: valid_locale_def split: if_splits)
  have b: "\<forall>c\<in>set w. c = CHR ''-'' \<or> alpha_byte c \<or> (48 \<le> byte c \<and> byte c \<le> 57)"
    using valid_locale_loop_bytes [OF l] by blast
  show "w \<noteq> []" using n by auto
  show "ascii w" using b locale_byte_plain(1) by (simp add: ascii_def list_all_iff)
  show "\<forall>c\<in>set w. \<not> is_space (byte c)" using b locale_byte_plain(2) by blast
  show "\<forall>c\<in>set w. c \<notin> {CHR 0x0D, CHR 0x0A, CHR 0x09}" using b locale_byte_plain(3) by blast
qed

lemma set_join_with: "set (join_with sep ws) \<subseteq> set sep \<union> \<Union> (set ` set ws)"
  by (induction sep ws rule: join_with.induct) auto

lemma safe_login_hint_idem: "safe_login_hint (safe_login_hint raw) = safe_login_hint raw"
proof (cases "safe_login_hint raw = []")
  case True
  then show ?thesis by (simp add: safe_login_hint_def Let_def)
next
  case False
  then have eq: "safe_login_hint raw = trim_space raw"
    by (auto simp: safe_login_hint_def Let_def split: if_splits)
  then show ?thesis using False by (simp add: safe_login_hint_def Let_def trim_space_idem)
qed

lemma safe_ui_locales_cases:
  "safe_ui_locales raw = [] \<or>
   (safe_ui_locales raw = join_with '' '' (str_fields raw) \<and> length (str_fields raw) \<le> 8
      \<and> list_all valid_locale (str_fields raw) \<and> length (safe_ui_locales raw) \<le> 256)"
  by (auto simp: safe_ui_locales_def Let_def)

lemma safe_ui_locales_idem: "safe_ui_locales (safe_ui_locales raw) = safe_ui_locales raw"
proof (cases "safe_ui_locales raw = []")
  case True
  then show ?thesis by (simp add: safe_ui_locales_def str_fields_def Let_def)
next
  case False
  let ?ws = "str_fields raw"
  from False safe_ui_locales_cases [of raw]
  have eq: "safe_ui_locales raw = join_with '' '' ?ws" and n: "length ?ws \<le> 8"
    and ok: "list_all valid_locale ?ws" and len: "length (join_with '' '' ?ws) \<le> 256" by auto
  have words: "str_fields (join_with '' '' ?ws) = ?ws"
    by (rule fields_join_words) (use ok valid_locale_word in \<open>auto simp: list_all_iff\<close>)
  have clean: "\<not> contains_any (join_with '' '' ?ws) [CHR 0x0D, CHR 0x0A, CHR 0x09]"
    using set_join_with [of "'' ''" ?ws] ok valid_locale_word(4)
    by (fastforce simp: contains_any_def list_ex_iff list_all_iff)
  show ?thesis
    unfolding eq using words clean n ok len by (simp add: safe_ui_locales_def)
qed

section \<open>Properties\<close>

text \<open>Requiring the level that \<open>HigherAAL\<close> merges from two requirements (each
  absent or a supported level) is requiring both of them: the merged level never forgets
  the stronger of the configured and the requested assurance.\<close>

theorem higher_aal_enforces_both:
  assumes "a = [] \<or> supported_aal a" and "b = [] \<or> supported_aal b"
  shows "aal_at_least v (higher_aal a b) \<longleftrightarrow> aal_at_least v a \<and> aal_at_least v b"
  using assms by (rule aal_at_least_higher_iff)

theorem higher_aal_enforces_both_witness:
  "\<not> aal_at_least ''aal1'' (higher_aal ''aal1'' ''aal2'')"
proof -
  have s: "supported_aal ''aal1''" "supported_aal ''aal2''" "\<not> aal_at_least ''aal1'' ''aal2''"
    by (simp_all add: supported_aal_def aal_at_least_def aal_level_def trim_space_def to_lower_def
        lower_seg_def space_seg_def is_space_def has_prefix_def)
  then show ?thesis using higher_aal_enforces_both [of "''aal1''" "''aal2''" "''aal1''"] by blast
qed

text \<open>The presentation hints that reach the external UI are bounded and clean whatever
  the OIDC request carried: the login hint is valid UTF-8 of at most 256 bytes without
  control or format characters and without surrounding white space, the locales are at
  most 256 bytes and split into at most eight well-formed tags, the display is one of the
  four registered values or absent.\<close>

theorem safe_hints_bounded:
  "length (hint_login (safe_login_ui_hints h)) \<le> 256
   \<and> valid_utf8 (hint_login (safe_login_ui_hints h))
   \<and> list_all (\<lambda>r. \<not> is_control r \<and> \<not> is_format r) (runes (hint_login (safe_login_ui_hints h)))
   \<and> trim_space (hint_login (safe_login_ui_hints h)) = hint_login (safe_login_ui_hints h)
   \<and> length (hint_ui_locales (safe_login_ui_hints h)) \<le> 256
   \<and> length (str_fields (hint_ui_locales (safe_login_ui_hints h))) \<le> 8
   \<and> list_all valid_locale (str_fields (hint_ui_locales (safe_login_ui_hints h)))
   \<and> hint_display (safe_login_ui_hints h) \<in> {[], ''page'', ''popup'', ''touch'', ''wap''}"
proof -
  have l: "length (safe_login_hint r) \<le> 256 \<and> valid_utf8 (safe_login_hint r)
      \<and> list_all (\<lambda>c. \<not> is_control c \<and> \<not> is_format c) (runes (safe_login_hint r))
      \<and> trim_space (safe_login_hint r) = safe_login_hint r" for r
    by (auto simp: safe_login_hint_def Let_def trim_space_idem list_ex_iff list_all_iff runes_def
        valid_utf8_def)
  have u: "length (safe_ui_locales r) \<le> 256 \<and> length (str_fields (safe_ui_locales r)) \<le> 8
      \<and> list_all valid_locale (str_fields (safe_ui_locales r))" for r
    using safe_ui_locales_idem [of r] safe_ui_locales_cases [of r]
      safe_ui_locales_cases [of "safe_ui_locales r"]
    by (cases "safe_ui_locales r = []") (auto simp: str_fields_def)
  show ?thesis using l u by (auto simp: safe_login_ui_hints_def safe_display_def)
qed

text \<open>Filtering the hints again changes nothing, so a hint that survived one handoff
  survives the next one unchanged.\<close>

theorem safe_hints_idempotent:
  "safe_login_ui_hints (safe_login_ui_hints h) = safe_login_ui_hints h"
  by (simp add: safe_login_ui_hints_def safe_login_hint_idem safe_ui_locales_idem safe_display_def)

end
