(* ===== verification/GoUrl.thy ===== *)
theory GoUrl
  imports GoString "HOL-Library.Char_ord" "HOL-Library.List_Lexorder"
begin

text \<open>
  What the program uses of Go's package \<open>net/url\<close>: \<open>Parse\<close>, \<open>URL.String\<close>,
  \<open>URL.Hostname\<close>, \<open>ParseQuery\<close>, \<open>URL.Query\<close>, \<open>Values.Encode\<close> and
  \<open>Values.Set\<close>, after the Go 1.26 release that \<open>go.mod\<close> names. The main facts
  are that a query survives encoding and parsing, and what a parsed URL looks like.
  The library's limit of 10000 query parameters is not modelled.
\<close>

datatype userinfo = Userinfo string "string option"

record url =
  u_scheme :: string
  u_opaque :: string
  u_user :: "userinfo option"
  u_host :: string
  u_path :: string
  u_raw_path :: string
  u_omit_host :: bool
  u_force_query :: bool
  u_raw_query :: string
  u_fragment :: string
  u_raw_fragment :: string

definition empty_url :: url where
  "empty_url = \<lparr>u_scheme = [], u_opaque = [], u_user = None, u_host = [], u_path = [],
     u_raw_path = [], u_omit_host = False, u_force_query = False, u_raw_query = [],
     u_fragment = [], u_raw_fragment = []\<rparr>"

section \<open>Percent encoding\<close>

datatype encoding = EncPath | EncHost | EncZone | EncUserPassword | EncQueryComponent | EncFragment

definition is_alnum :: "char \<Rightarrow> bool" where
  "is_alnum c \<longleftrightarrow> (let b = byte c in (97 \<le> b \<and> b \<le> 122) \<or> (65 \<le> b \<and> b \<le> 90) \<or> (48 \<le> b \<and> b \<le> 57))"

definition should_escape :: "char \<Rightarrow> encoding \<Rightarrow> bool" where
  "should_escape c mode =
     (if is_alnum c then False
      else if (mode = EncHost \<or> mode = EncZone) \<and> c \<in> set ''!$&'' \<union> {CHR 0x27} \<union> set ''()*+,;=:[]<>'' \<union> {CHR 0x22}
        then False
      else if c \<in> set ''-_.~'' then False
      else if c \<in> set ''$&+,/:;=?@'' \<and> mode = EncPath then c = CHR ''?''
      else if c \<in> set ''$&+,/:;=?@'' \<and> mode = EncUserPassword then c \<in> set ''@/?:''
      else if c \<in> set ''$&+,/:;=?@'' \<and> mode = EncQueryComponent then True
      else if c \<in> set ''$&+,/:;=?@'' \<and> mode = EncFragment then False
      else if mode = EncFragment \<and> c \<in> set ''!()*'' then False
      else True)"

definition hex_val :: "char \<Rightarrow> nat option" where
  "hex_val c = (let b = byte c in
     if 48 \<le> b \<and> b \<le> 57 then Some (b - 48)
     else if 97 \<le> b \<and> b \<le> 102 then Some (b - 87)
     else if 65 \<le> b \<and> b \<le> 70 then Some (b - 55)
     else None)"

definition upper_hex :: "nat \<Rightarrow> char" where
  "upper_hex n = (if n < 10 then char_of (48 + n) else char_of (55 + n))"

definition escape_char :: "encoding \<Rightarrow> char \<Rightarrow> string" where
  "escape_char mode c =
     (if should_escape c mode then
        (if c = CHR '' '' \<and> mode = EncQueryComponent then ''+''
         else [CHR ''%'', upper_hex (byte c div 16), upper_hex (byte c mod 16)])
      else [c])"

definition escape :: "string \<Rightarrow> encoding \<Rightarrow> string" where
  "escape s mode = concat (map (escape_char mode) s)"

text \<open>
  \<open>unescape\<close> with its checks for hosts: only bytes outside ASCII and the percent sign
  itself may be written in percent form, and no byte that needs escaping may appear.
\<close>

fun unescape :: "string \<Rightarrow> encoding \<Rightarrow> string option" where
  "unescape [] mode = Some []"
| "unescape (c # s) mode =
     (if c = CHR ''%'' then
        (case s of
           h1 # h2 # r \<Rightarrow>
             (case (hex_val h1, hex_val h2) of
                (Some v1, Some v2) \<Rightarrow>
                  (let v = char_of (v1 * 16 + v2) in
                   if mode = EncHost \<and> v1 < 8 \<and> \<not> (h1 = CHR ''2'' \<and> h2 = CHR ''5'') then None
                   else if mode = EncZone \<and> \<not> (h1 = CHR ''2'' \<and> h2 = CHR ''5'') \<and> v \<noteq> CHR '' ''
                        \<and> should_escape v EncHost then None
                   else map_option (Cons v) (unescape r mode))
              | _ \<Rightarrow> None)
         | _ \<Rightarrow> None)
      else if c = CHR ''+'' \<and> mode = EncQueryComponent then map_option (Cons (CHR '' '')) (unescape s mode)
      else if (mode = EncHost \<or> mode = EncZone) \<and> c \<noteq> CHR ''+'' \<and> byte c < 128 \<and> should_escape c mode then None
      else map_option (Cons c) (unescape s mode))"

section \<open>Hosts\<close>

text \<open>\<open>validOptionalPort\<close>: empty, or a colon and digits.\<close>

definition valid_optional_port :: "string \<Rightarrow> bool" where
  "valid_optional_port p = (case p of [] \<Rightarrow> True | c # ds \<Rightarrow> c = CHR '':'' \<and> list_all is_digit ds)"

text \<open>
  \<open>netip.ParseAddr\<close> for the text between brackets: an IPv6 address, possibly with a
  zone. Fields are counted in 16-bit groups; \<open>ell\<close> records that \<open>::\<close> was seen.
\<close>

definition ipv4_field :: "string \<Rightarrow> bool" where
  "ipv4_field f \<longleftrightarrow> f \<noteq> [] \<and> list_all is_digit f \<and> length f \<le> 3 \<and> digits_val 0 f \<le> 255
     \<and> (length f = 1 \<or> hd f \<noteq> CHR ''0'')"

definition ipv4_text :: "string \<Rightarrow> bool" where
  "ipv4_text s \<longleftrightarrow> length (split_at (CHR ''.'') s) = 4 \<and> list_all ipv4_field (split_at (CHR ''.'') s)"

definition hex_run :: "string \<Rightarrow> string \<times> string" where
  "hex_run s = (takeWhile (\<lambda>c. hex_val c \<noteq> None) s, dropWhile (\<lambda>c. hex_val c \<noteq> None) s)"

fun ipv6_groups :: "nat \<Rightarrow> nat \<Rightarrow> bool \<Rightarrow> string \<Rightarrow> bool" where
  "ipv6_groups 0 i ell s = (s = [] \<and> \<not> ell)"
| "ipv6_groups (Suc n) i ell s =
     (let (h, r) = hex_run s in
      if h = [] \<or> 4 < length h then False
      else case r of
        [] \<Rightarrow> (if n = 0 then \<not> ell else ell)
      | c # r' \<Rightarrow>
          if c = CHR ''.'' then
            (if \<not> ell \<and> i \<noteq> 6 then False
             else if n = 0 then False
             else ipv4_text s \<and> (if n = 1 then \<not> ell else ell))
          else if c \<noteq> CHR '':'' \<or> r' = [] then False
          else if hd r' = CHR '':'' then
            (if ell then False
             else if tl r' = [] then n \<noteq> 0
             else n \<noteq> 0 \<and> ipv6_groups n (Suc i) True (tl r'))
          else ipv6_groups n (Suc i) ell r')"

definition valid_ip6 :: "string \<Rightarrow> bool" where
  "valid_ip6 t =
     (let (s, zone, has_zone) = cut (CHR ''%'') t in
      if has_zone \<and> zone = [] then False
      else if find (\<lambda>c. c = CHR ''.'' \<or> c = CHR '':'' \<or> c = CHR ''%'') t \<noteq> Some (CHR '':'') then False
      else if has_prefix s ''::'' then (drop 2 s = [] \<or> ipv6_groups 8 0 True (drop 2 s))
      else ipv6_groups 8 0 False s)"

text \<open>Split a string at the first occurrence of a substring, if there is one.\<close>

fun index_of :: "string \<Rightarrow> string \<Rightarrow> nat option" where
  "index_of p [] = (if p = [] then Some 0 else None)"
| "index_of p (c # s) = (if has_prefix (c # s) p then Some 0 else map_option Suc (index_of p s))"

definition last_index :: "char \<Rightarrow> string \<Rightarrow> nat option" where
  "last_index c s = (if c \<in> set s then Some (length s - 1 - length (takeWhile (\<lambda>x. x \<noteq> c) (rev s))) else None)"

text \<open>\<open>parseHost\<close>\<close>

definition parse_host :: "string \<Rightarrow> string option" where
  "parse_host host =
     (case last_index (CHR ''['') host of
        Some ob \<Rightarrow>
          (if ob \<noteq> 0 then None
           else case last_index (CHR '']'') host of
             None \<Rightarrow> None
           | Some cb \<Rightarrow>
               (let colon_port = drop (Suc cb) host;
                    hostname = take (cb - 1) (tl host) in
                if \<not> valid_optional_port colon_port then None
                else case unescape colon_port EncHost of
                  None \<Rightarrow> None
                | Some port \<Rightarrow>
                    (let name = (case index_of ''%25'' hostname of
                         Some z \<Rightarrow>
                           (case (unescape (take z hostname) EncHost, unescape (drop z hostname) EncZone) of
                              (Some a, Some b) \<Rightarrow> Some (a @ b) | _ \<Rightarrow> None)
                       | None \<Rightarrow> unescape hostname EncHost) in
                     case name of
                       None \<Rightarrow> None
                     | Some n \<Rightarrow> if valid_ip6 n then Some (''['' @ n @ '']'' @ port) else None)))
      | None \<Rightarrow>
          (if CHR '':'' \<in> set host \<and> \<not> valid_optional_port (dropWhile (\<lambda>c. c \<noteq> CHR '':'') host) then None
           else unescape host EncHost))"

definition valid_userinfo :: "string \<Rightarrow> bool" where
  "valid_userinfo s \<longleftrightarrow> list_all (\<lambda>c. is_alnum c \<or> c \<in> set ''-._:~!$&'' \<union> {CHR 0x27} \<union> set ''()*+,;=%@'') s"

definition parse_userinfo :: "string \<Rightarrow> userinfo option" where
  "parse_userinfo s =
     (if \<not> valid_userinfo s then None
      else let (name, pw, has_pw) = cut (CHR '':'') s in
        if \<not> has_pw then map_option (\<lambda>n. Userinfo n None) (unescape s EncUserPassword)
        else case (unescape name EncUserPassword, unescape pw EncUserPassword) of
          (Some n, Some p) \<Rightarrow> Some (Userinfo n (Some p))
        | _ \<Rightarrow> None)"

definition parse_authority :: "string \<Rightarrow> (userinfo option \<times> string) option" where
  "parse_authority a =
     (case last_index (CHR ''@'') a of
        None \<Rightarrow> map_option (\<lambda>h. (None, h)) (parse_host a)
      | Some i \<Rightarrow>
          (case parse_host (drop (Suc i) a) of
             None \<Rightarrow> None
           | Some h \<Rightarrow> map_option (\<lambda>u. (Some u, h)) (parse_userinfo (take i a))))"

section \<open>Parse\<close>

definition is_alpha :: "char \<Rightarrow> bool" where
  "is_alpha c \<longleftrightarrow> (let b = byte c in (97 \<le> b \<and> b \<le> 122) \<or> (65 \<le> b \<and> b \<le> 90))"

text \<open>\<open>getScheme\<close>: \<open>None\<close> is the error, otherwise the scheme and the rest.\<close>

fun scheme_scan :: "string \<Rightarrow> string \<Rightarrow> string \<Rightarrow> (string \<times> string) option" where
  "scheme_scan whole acc [] = Some ([], whole)"
| "scheme_scan whole acc (c # s) =
     (if is_alpha c then scheme_scan whole (acc @ [c]) s
      else if is_digit c \<or> c \<in> set ''+-.'' then
        (if acc = [] then Some ([], whole) else scheme_scan whole (acc @ [c]) s)
      else if c = CHR '':'' then (if acc = [] then None else Some (acc, s))
      else Some ([], whole))"

definition get_scheme :: "string \<Rightarrow> (string \<times> string) option" where
  "get_scheme s = scheme_scan s [] s"

definition set_path :: "string \<Rightarrow> url \<Rightarrow> url option" where
  "set_path p u =
     (case unescape p EncPath of
        None \<Rightarrow> None
      | Some path \<Rightarrow> Some (u\<lparr>u_path := path, u_raw_path := (if p = escape path EncPath then [] else p)\<rparr>))"

definition parse_after_query :: "string \<Rightarrow> url \<Rightarrow> url option" where
  "parse_after_query rest u =
     (if \<not> has_prefix rest ''/'' \<and> u_scheme u \<noteq> [] then Some (u\<lparr>u_opaque := rest\<rparr>)
      else if \<not> has_prefix rest ''/'' \<and> CHR '':'' \<in> set (takeWhile (\<lambda>c. c \<noteq> CHR ''/'') rest) then None
      else if (u_scheme u \<noteq> [] \<or> \<not> has_prefix rest ''///'') \<and> has_prefix rest ''//'' then
        (let authority = takeWhile (\<lambda>c. c \<noteq> CHR ''/'') (drop 2 rest);
             path = dropWhile (\<lambda>c. c \<noteq> CHR ''/'') (drop 2 rest) in
         case parse_authority authority of
           None \<Rightarrow> None
         | Some (user, host) \<Rightarrow> set_path path (u\<lparr>u_user := user, u_host := host\<rparr>))
      else set_path rest (u\<lparr>u_omit_host := (u_scheme u \<noteq> [] \<and> has_prefix rest ''/'')\<rparr>))"

definition parse_no_fragment :: "string \<Rightarrow> url option" where
  "parse_no_fragment raw =
     (if list_ex (\<lambda>c. byte c < 32 \<or> byte c = 127) raw then None
      else if raw = ''*'' then Some (empty_url\<lparr>u_path := ''*''\<rparr>)
      else case get_scheme raw of
        None \<Rightarrow> None
      | Some (scheme, rest) \<Rightarrow>
          (let u = empty_url\<lparr>u_scheme := to_lower scheme\<rparr> in
           if has_suffix rest ''?'' \<and> count_list rest (CHR ''?'') = 1
           then parse_after_query (butlast rest) (u\<lparr>u_force_query := True\<rparr>)
           else let (r, q, _) = cut (CHR ''?'') rest in parse_after_query r (u\<lparr>u_raw_query := q\<rparr>)))"

definition url_parse :: "string \<Rightarrow> url option" where
  "url_parse raw =
     (let (u, frag, _) = cut (CHR ''#'') raw in
      case parse_no_fragment u of
        None \<Rightarrow> None
      | Some v \<Rightarrow>
          (if frag = [] then Some v
           else case unescape frag EncFragment of
             None \<Rightarrow> None
           | Some f \<Rightarrow>
               Some (v\<lparr>u_fragment := f, u_raw_fragment := (if frag = escape f EncFragment then [] else frag)\<rparr>)))"

section \<open>String\<close>

definition valid_encoded :: "string \<Rightarrow> encoding \<Rightarrow> bool" where
  "valid_encoded s mode \<longleftrightarrow>
     list_all (\<lambda>c. c \<in> set ''!$&'' \<union> {CHR 0x27} \<union> set ''()*+,;=:@[]%'' \<or> \<not> should_escape c mode) s"

definition escaped_path :: "url \<Rightarrow> string" where
  "escaped_path u =
     (if u_raw_path u \<noteq> [] \<and> valid_encoded (u_raw_path u) EncPath
        \<and> unescape (u_raw_path u) EncPath = Some (u_path u) then u_raw_path u
      else if u_path u = ''*'' then ''*''
      else escape (u_path u) EncPath)"

definition escaped_fragment :: "url \<Rightarrow> string" where
  "escaped_fragment u =
     (if u_raw_fragment u \<noteq> [] \<and> valid_encoded (u_raw_fragment u) EncFragment
        \<and> unescape (u_raw_fragment u) EncFragment = Some (u_fragment u) then u_raw_fragment u
      else escape (u_fragment u) EncFragment)"

definition userinfo_string :: "userinfo \<Rightarrow> string" where
  "userinfo_string ui =
     (case ui of
        Userinfo name None \<Rightarrow> escape name EncUserPassword
      | Userinfo name (Some pw) \<Rightarrow> escape name EncUserPassword @ '':'' @ escape pw EncUserPassword)"

definition url_front :: "url \<Rightarrow> string" where
  "url_front u =
     (if u_scheme u = [] \<and> u_host u = [] \<and> u_user u = None then []
      else if u_omit_host u \<and> u_host u = [] \<and> u_user u = None then []
      else (if u_host u \<noteq> [] \<or> u_path u \<noteq> [] \<or> u_user u \<noteq> None then ''//'' else [])
        @ (case u_user u of None \<Rightarrow> [] | Some ui \<Rightarrow> userinfo_string ui @ ''@'')
        @ escape (u_host u) EncHost)"

definition url_string :: "url \<Rightarrow> string" where
  "url_string u =
     (let scheme = (if u_scheme u = [] then [] else u_scheme u @ '':'');
          path = escaped_path u;
          hier = url_front u @ (if path \<noteq> [] \<and> hd path \<noteq> CHR ''/'' \<and> u_host u \<noteq> [] then ''/'' else []);
          dot = (if scheme @ hier = [] \<and> CHR '':'' \<in> set (takeWhile (\<lambda>c. c \<noteq> CHR ''/'') path)
                 then ''./'' else []) in
      scheme
      @ (if u_opaque u \<noteq> [] then u_opaque u else hier @ dot @ path)
      @ (if u_force_query u \<or> u_raw_query u \<noteq> [] then CHR ''?'' # u_raw_query u else [])
      @ (if u_fragment u \<noteq> [] then CHR ''#'' # escaped_fragment u else []))"

text \<open>\<open>URL.Hostname\<close>: without the port, and without the brackets of an IPv6 address.\<close>

definition hostname :: "url \<Rightarrow> string" where
  "hostname u =
     (let h = u_host u;
          n = (case last_index (CHR '':'') h of
                 Some i \<Rightarrow> if valid_optional_port (drop i h) then take i h else h
               | None \<Rightarrow> h) in
      if has_prefix n ''['' \<and> has_suffix n '']'' then butlast (tl n) else n)"

section \<open>Queries\<close>

type_synonym query_values = "string list gomap"

definition query_add :: "string \<times> string \<Rightarrow> query_values \<Rightarrow> query_values" where
  "query_add kv m = map_put (fst kv) (case_option [] id (map_get m (fst kv)) @ [snd kv]) m"

text \<open>
  One piece of a query between ampersands: \<open>Inr None\<close> is an empty piece that is skipped,
  \<open>Inl ()\<close> one that makes \<open>ParseQuery\<close> report an error (and is skipped as well).
\<close>

definition query_piece :: "string \<Rightarrow> unit + (string \<times> string) option" where
  "query_piece p =
     (if CHR '';'' \<in> set p then Inl ()
      else if p = [] then Inr None
      else let (k, v, _) = cut (CHR ''='') p in
        case (unescape k EncQueryComponent, unescape v EncQueryComponent) of
          (Some k', Some v') \<Rightarrow> Inr (Some (k', v'))
        | _ \<Rightarrow> Inl ())"

fun query_fold :: "string list \<Rightarrow> query_values \<times> bool \<Rightarrow> query_values \<times> bool" where
  "query_fold [] r = r"
| "query_fold (p # ps) (m, err) =
     (case query_piece p of
        Inl _ \<Rightarrow> query_fold ps (m, True)
      | Inr None \<Rightarrow> query_fold ps (m, err)
      | Inr (Some kv) \<Rightarrow> query_fold ps (query_add kv m, err))"

text \<open>\<open>ParseQuery\<close>: the values and whether an error is returned beside them.\<close>

definition parse_query :: "string \<Rightarrow> query_values \<times> bool" where
  "parse_query q = query_fold (split_at (CHR ''&'') q) ([], False)"

text \<open>\<open>URL.Query\<close> drops the error.\<close>

definition url_query :: "url \<Rightarrow> query_values" where
  "url_query u = fst (parse_query (u_raw_query u))"

definition values_get :: "query_values \<Rightarrow> string \<Rightarrow> string" where
  "values_get m k = (case map_get m k of Some (v # _) \<Rightarrow> v | _ \<Rightarrow> [])"

definition values_set :: "string \<Rightarrow> string \<Rightarrow> query_values \<Rightarrow> query_values" where
  "values_set k v m = map_put k [v] m"

definition values_pairs :: "query_values \<Rightarrow> (string \<times> string) list" where
  "values_pairs m = concat (map (\<lambda>k. map (\<lambda>v. (k, v)) (case_option [] id (map_get m k))) (sort (map fst m)))"

definition pair_text :: "string \<times> string \<Rightarrow> string" where
  "pair_text kv = escape (fst kv) EncQueryComponent @ ''='' @ escape (snd kv) EncQueryComponent"

definition values_encode :: "query_values \<Rightarrow> string" where
  "values_encode m = join_with ''&'' (map pair_text (values_pairs m))"

section \<open>Facts\<close>

lemma hex_digit_upper: "n < 16 \<Longrightarrow> hex_val (upper_hex n) = Some n"
  by (auto simp: hex_val_def upper_hex_def Let_def)

lemma upper_hex_ascii: "n < 16 \<Longrightarrow> is_alnum (upper_hex n)"
  by (auto simp: is_alnum_def upper_hex_def Let_def)

lemma char_of_halves: "char_of (byte c div 16 * 16 + byte c mod 16) = c"
  by simp

lemma unescape_escape_char:
  "unescape (escape_char EncQueryComponent c @ s) EncQueryComponent
     = map_option (Cons c) (unescape s EncQueryComponent)"
proof -
  have h: "byte c div 16 < 16" using byte_less [of c] by linarith
  have l: "byte c mod 16 < 16" by simp
  show ?thesis
  proof (cases "should_escape c EncQueryComponent")
    case True
    then show ?thesis
      using h l by (simp add: escape_char_def hex_digit_upper char_of_halves del: mult_div_mod_eq div_mult_mod_eq)
  next
    case False
    then have "c \<noteq> CHR ''%'' \<and> c \<noteq> CHR ''+''" by (auto simp: should_escape_def is_alnum_def)
    then show ?thesis using False by (simp add: escape_char_def)
  qed
qed

lemma unescape_escape: "unescape (escape s EncQueryComponent) EncQueryComponent = Some s"
  by (induction s) (simp_all add: escape_def unescape_escape_char)

lemma alnum_not_delim: "is_alnum c \<Longrightarrow> c \<notin> set ''&;=?#/''"
  by (auto simp: is_alnum_def)

lemma escape_char_bytes:
  assumes "d \<in> set (escape_char EncQueryComponent c)"
  shows "d \<notin> set ''&;=?#/''"
proof (cases "should_escape c EncQueryComponent")
  case True
  have h: "byte c div 16 < 16" using byte_less [of c] by linarith
  have l: "byte c mod 16 < 16" by simp
  have "d = CHR ''+'' \<or> d = CHR ''%'' \<or> is_alnum d"
    using assms True upper_hex_ascii [OF h] upper_hex_ascii [OF l]
    by (auto simp: escape_char_def split: if_splits)
  then show ?thesis using alnum_not_delim [of d] by auto
next
  case False
  then have "is_alnum c \<or> c \<in> set ''-_.~''" by (auto simp: should_escape_def split: if_splits)
  moreover have "d = c" using assms False by (simp add: escape_char_def)
  ultimately show ?thesis using alnum_not_delim [of c] by auto
qed

lemma escape_bytes: "d \<in> set (escape s EncQueryComponent) \<Longrightarrow> d \<notin> set ''&;=?#/''"
  unfolding escape_def using escape_char_bytes by fastforce

lemma cut_pair: "c \<notin> set a \<Longrightarrow> cut c (a @ c # b) = (a, b, True)"
  by (auto simp: cut_def takeWhile_append)

lemma query_piece_pair: "query_piece (pair_text kv) = Inr (Some kv)"
proof -
  have no: "CHR '';'' \<notin> set (pair_text kv)"
    using escape_bytes [of "CHR '';''"] by (auto simp: pair_text_def)
  have eq: "CHR ''='' \<notin> set (escape (fst kv) EncQueryComponent)"
    using escape_bytes [of "CHR ''=''"] by auto
  have "pair_text kv \<noteq> []" by (simp add: pair_text_def)
  then show ?thesis
    using no cut_pair [OF eq] by (simp add: query_piece_def pair_text_def unescape_escape)
qed

lemma query_fold_pairs:
  "query_fold (map pair_text kvs) (m, err) = (fold query_add kvs m, err)"
  by (induction kvs arbitrary: m) (auto simp: query_piece_pair)

lemma map_get_fold_query_add:
  "map_get (fold query_add kvs m) k =
     (let vs = map snd (filter (\<lambda>kv. fst kv = k) kvs) in
      if vs = [] then map_get m k else Some (case_option [] id (map_get m k) @ vs))"
  by (induction kvs arbitrary: m) (auto simp: query_add_def gomap Let_def)

lemma parse_pairs:
  "parse_query (join_with ''&'' (map pair_text kvs)) = (fold query_add kvs [], False)"
proof (cases kvs)
  case Nil
  then show ?thesis by (simp add: parse_query_def query_piece_def)
next
  case (Cons kv rest)
  have "\<forall>p\<in>set (map pair_text kvs). CHR ''&'' \<notin> set p"
    using escape_bytes [of "CHR ''&''"] by (auto simp: pair_text_def)
  then show ?thesis using Cons split_join [of "map pair_text kvs" "CHR ''&''"]
    by (simp add: parse_query_def query_fold_pairs del: join_with.simps list.simps map_eq_Cons_conv)
qed

lemma filter_values_pairs:
  assumes "wf_map m"
  shows "map snd (filter (\<lambda>kv. fst kv = k) (values_pairs m)) = case_option [] id (map_get m k)"
proof -
  have one: "map snd (filter (\<lambda>kv. fst kv = k)
      (concat (map (\<lambda>k. map (\<lambda>v. (k, v)) (f k)) ks))) = (if k \<in> set ks then f k else [])"
    if "distinct ks" for ks and f :: "string \<Rightarrow> string list"
    using that by (induction ks) (auto simp: filter_map o_def filter_empty_conv)
  have "k \<notin> set (map fst m) \<Longrightarrow> map_get m k = None"
    by (simp add: map_get_None_iff)
  then show ?thesis
    using one [of "sort (map fst m)"] assms
    by (auto simp: values_pairs_def wf_map_def)
qed

text \<open>What is encoded is read back: every key with the values it was set to, in order.\<close>

lemma parse_encode:
  assumes "wf_map m" and "\<forall>kv\<in>set m. snd kv \<noteq> []"
  shows "map_get (fst (parse_query (values_encode m))) k = map_get m k"
    and "\<not> snd (parse_query (values_encode m))"
proof -
  have "map_get m k \<noteq> Some []" using assms(2) map_get_SomeD by fastforce
  then show "map_get (fst (parse_query (values_encode m))) k = map_get m k"
    by (auto simp: values_encode_def parse_pairs map_get_fold_query_add
        filter_values_pairs [OF assms(1)] Let_def split: option.splits)
  show "\<not> snd (parse_query (values_encode m))" by (simp add: values_encode_def parse_pairs)
qed

lemma wf_query_add [simp]: "wf_map m \<Longrightarrow> wf_map (query_add kv m)"
  by (simp add: query_add_def)

lemma wf_parse_query: "wf_map (fst (parse_query q))"
proof -
  have "wf_map m \<Longrightarrow> wf_map (fst (query_fold ps (m, e)))" for ps m e
    by (induction ps arbitrary: m e) (auto split: sum.splits option.splits)
  then show ?thesis by (simp add: parse_query_def)
qed

lemma query_fold_nonempty:
  "\<forall>k. map_get m k \<noteq> Some [] \<Longrightarrow> map_get (fst (query_fold ps (m, e))) k \<noteq> Some []"
proof (induction ps arbitrary: m e)
  case (Cons p ps)
  have "\<forall>k. map_get (query_add kv m) k \<noteq> Some []" for kv
    using Cons.prems by (simp add: query_add_def gomap)
  then show ?case using Cons by (auto split: sum.splits option.splits)
qed simp

lemma parse_query_values_nonempty: "kv \<in> set (fst (parse_query q)) \<Longrightarrow> snd kv \<noteq> []"
  using map_get_in [OF wf_parse_query, of "fst kv" "snd kv" q]
    query_fold_nonempty [of "[]" "split_at (CHR ''&'') q" False "fst kv"]
  by (auto simp: parse_query_def)

end
