(* ===== verification/Identity.thy ===== *)
theory Identity
  imports Domain GoUrl
begin

text \<open>
  \<open>internal/core/identity/claims.go\<close>: the configured mappings from the sanitized part of
  a Kratos identity to optional OIDC claims. The theory models the validation of the
  mappings, RFC 6901 pointers and their resolution in decoded JSON, the derivation of
  claims, and the list of reserved protocol claims.

  The JSON decoder of \<open>ParseJSON\<close> and \<open>mail.ParseAddress\<close> are arguments of the
  definitions that use them, as is the relation that puts two non-ASCII runes into one
  case-folding orbit (a Unicode table).
\<close>

section \<open>Standard library tables\<close>

text \<open>
  \<open>lib_mail_address t\<close> is the \<open>Address\<close> field of \<open>mail.ParseAddress(t)\<close>, or
  \<open>None\<close> when it fails. \<open>lib_fold_orbit r s\<close> tells whether \<open>unicode.SimpleFold\<close>
  links \<open>r\<close> and \<open>s\<close> when one of them is outside ASCII.
\<close>

record golib =
  lib_mail_address :: "string \<Rightarrow> string option"
  lib_fold_orbit :: "nat \<Rightarrow> nat \<Rightarrow> bool"

text \<open>\<open>strings.EqualFold\<close>\<close>

definition rune_fold_eq :: "golib \<Rightarrow> nat \<Rightarrow> nat \<Rightarrow> bool" where
  "rune_fold_eq lib r s =
     (if r = s then True
      else if max r s < 128 then 65 \<le> min r s \<and> min r s \<le> 90 \<and> max r s = min r s + 32
      else lib_fold_orbit lib r s)"

definition equal_fold :: "golib \<Rightarrow> string \<Rightarrow> string \<Rightarrow> bool" where
  "equal_fold lib s t = list_all2 (rune_fold_eq lib) (runes s) (runes t)"

section \<open>Mappings\<close>

record mapping =
  mp_source :: string
  mp_sources :: "string list"
  mp_transform :: string
  mp_type :: string
  mp_format :: string
  mp_parsed_sources :: "string list list"

type_synonym claim_mappings = "mapping gomap"

definition TransformJoinSpace :: string where
  "TransformJoinSpace = ''join_space''"

definition reserved_claims :: "string list" where
  "reserved_claims =
     [''acr'', ''acr_values'', ''access_token'', ''amr'', ''at_hash'', ''aud'', ''auth_time'',
      ''azp'', ''c_hash'', ''client_id'', ''code'', ''consent'', ''consent_challenge'', ''cty'',
      ''error'', ''error_description'', ''error_uri'', ''exp'', ''expires_in'', ''grant_type'',
      ''id_token'', ''iat'', ''iss'', ''jti'', ''login_challenge'', ''logout_challenge'', ''nbf'',
      ''nonce'', ''redirect_uri'', ''refresh_token'', ''response_type'', ''scope'', ''session'',
      ''sid'', ''s_hash'', ''state'', ''sub'', ''token_type'', ''typ'']"

definition is_reserved_claim :: "string \<Rightarrow> bool" where
  "is_reserved_claim name \<longleftrightarrow> to_lower name \<in> set reserved_claims"

definition profile_claims :: "string list" where
  "profile_claims =
     [''name'', ''family_name'', ''given_name'', ''middle_name'', ''nickname'',
      ''preferred_username'', ''profile'', ''picture'', ''website'', ''gender'', ''birthdate'',
      ''zoneinfo'', ''locale'', ''updated_at'']"

definition required_scopes :: "string \<Rightarrow> string list" where
  "required_scopes name =
     (if name \<in> {''email'', ''email_verified''} then [''email'']
      else if name \<in> set profile_claims then [''profile'']
      else if name \<in> {''phone_number'', ''phone_number_verified''} then [''phone'']
      else if name = ''address'' then [''address'']
      else [])"

section \<open>Pointers\<close>

text \<open>The inner loop of \<open>parsePointer\<close> over one raw token.\<close>

fun unescape_token :: "string \<Rightarrow> string option" where
  "unescape_token [] = Some []"
| "unescape_token (c # s) =
     (if c \<noteq> CHR ''~'' then map_option (Cons c) (unescape_token s)
      else case s of
        [] \<Rightarrow> None
      | d # r \<Rightarrow>
          if d = CHR ''0'' then map_option (Cons (CHR ''~'')) (unescape_token r)
          else if d = CHR ''1'' then map_option (Cons (CHR ''/'')) (unescape_token r)
          else None)"

fun unescape_tokens :: "string list \<Rightarrow> string list option" where
  "unescape_tokens [] = Some []"
| "unescape_tokens (raw # raws) =
     (case unescape_token raw of
        None \<Rightarrow> None
      | Some token \<Rightarrow> map_option (Cons token) (unescape_tokens raws))"

definition parse_pointer :: "string \<Rightarrow> string list res" where
  "parse_pointer p =
     (if p = [] then Inr []
      else if \<not> has_prefix p ''/'' then Inl (Msg ''must be an RFC 6901 pointer'')
      else case unescape_tokens (split_at (CHR ''/'') (tl p)) of
        None \<Rightarrow> Inl (Msg ''contains an invalid escape'')
      | Some tokens \<Rightarrow> Inr tokens)"

definition pointer_index :: "string \<Rightarrow> int option" where
  "pointer_index token =
     (if token = [] \<or> (length token > 1 \<and> hd token = CHR ''0'') then None
      else if \<not> list_all is_digit token then None
      else parse_int64 token)"

fun resolve_pointer_tokens :: "jval \<Rightarrow> string list \<Rightarrow> jval option" where
  "resolve_pointer_tokens current [] = Some current"
| "resolve_pointer_tokens current (token # tokens) =
     (case current of
        JObj m \<Rightarrow>
          (case map_get m token of
             None \<Rightarrow> None
           | Some v \<Rightarrow> resolve_pointer_tokens v tokens)
      | JArr xs \<Rightarrow>
          (case pointer_index token of
             None \<Rightarrow> None
           | Some i \<Rightarrow> if i \<ge> int (length xs) then None else resolve_pointer_tokens (xs ! nat i) tokens)
      | _ \<Rightarrow> None)"

definition resolve_pointer :: "jval \<Rightarrow> string \<Rightarrow> jval option" where
  "resolve_pointer document p =
     (case parse_pointer p of Inl _ \<Rightarrow> None | Inr tokens \<Rightarrow> resolve_pointer_tokens document tokens)"

definition source_document :: "session_info \<Rightarrow> jval" where
  "source_document s =
     JObj [(''traits'', JObj (se_identity_traits s)),
           (''metadata_public'', JObj (se_identity_metadata_public s))]"

section \<open>Validation\<close>

definition valid_type :: "string \<Rightarrow> bool" where
  "valid_type v \<longleftrightarrow> v \<in> {''string'', ''boolean'', ''number'', ''integer'', ''array'', ''object''}"

definition valid_format :: "string \<Rightarrow> string \<Rightarrow> bool" where
  "valid_format value_type fmt =
     (if fmt = [] then True
      else if value_type \<noteq> ''string'' then False
      else fmt \<in> {''email'', ''string'', ''uri'', ''url''})"

definition validate_claim_name :: "string \<Rightarrow> goerr option" where
  "validate_claim_name name =
     (if name = [] \<or> trim_space name \<noteq> name \<or> has_control name
      then Some (Msg ''claim name must be non-empty and contain no surrounding whitespace or control separators'')
      else None)"

definition mapping_sources :: "mapping \<Rightarrow> string list res" where
  "mapping_sources m =
     (let has_source = mp_source m \<noteq> []; has_sources = mp_sources m \<noteq> [] in
      if has_source = has_sources then Inl (Msg ''must define exactly one non-empty source or sources'')
      else if has_source then Inr [mp_source m]
      else if list_ex (\<lambda>s. s = []) (mp_sources m) then Inl (Msg ''sources must not contain empty pointers'')
      else if slice_dup_from [] (mp_sources m) then Inl (Msg ''sources must not contain duplicate pointers'')
      else Inr (mp_sources m))"

definition text_claims :: "string list" where
  "text_claims =
     [''name'', ''family_name'', ''given_name'', ''middle_name'', ''nickname'',
      ''preferred_username'', ''profile'', ''website'', ''gender'', ''birthdate'', ''zoneinfo'',
      ''locale'', ''phone_number'']"

definition validate_standard_mapping :: "string \<Rightarrow> mapping \<Rightarrow> goerr option" where
  "validate_standard_mapping name m =
     (if name = ''email'' then
        (if mp_type m \<noteq> ''string'' \<or> (mp_format m \<noteq> [] \<and> mp_format m \<noteq> ''email'')
         then Some (Msg ''email requires type string and optional format email'') else None)
      else if name = ''email_verified'' then
        (if mp_type m \<noteq> ''boolean'' \<or> mp_format m \<noteq> []
         then Some (Msg ''email_verified requires type boolean without a format'') else None)
      else if name = ''picture'' then
        (if mp_type m \<noteq> ''string''
            \<or> (mp_format m \<noteq> [] \<and> mp_format m \<noteq> ''uri'' \<and> mp_format m \<noteq> ''url'')
         then Some (Msg ''picture requires type string and optional format uri or url'') else None)
      else if name \<in> set text_claims then
        (if mp_type m \<noteq> ''string'' \<or> (mp_format m \<noteq> [] \<and> mp_format m \<noteq> ''string'')
         then Some (Msg (name @ '' requires type string'')) else None)
      else if name = ''updated_at'' then
        (if mp_type m \<noteq> ''number'' \<and> mp_type m \<noteq> ''integer''
         then Some (Msg ''updated_at requires a numeric type'') else None)
      else if name = ''phone_number_verified'' then
        (if mp_type m \<noteq> ''boolean'' \<or> mp_format m \<noteq> []
         then Some (Msg ''phone_number_verified requires type boolean without a format'') else None)
      else if name = ''address'' then
        (if mp_type m \<noteq> ''object'' \<or> mp_format m \<noteq> []
         then Some (Msg ''address requires type object without a format'') else None)
      else None)"

definition check_source :: "string \<Rightarrow> string list res" where
  "check_source source =
     (if length source > 512 then Inl (Msg ''source pointer exceeds 512 bytes'')
      else case parse_pointer source of
        Inl e \<Rightarrow> Inl (Wrap source [e])
      | Inr tokens \<Rightarrow>
          if length tokens < 2 \<or> (tokens ! 0 \<noteq> ''traits'' \<and> tokens ! 0 \<noteq> ''metadata_public'')
          then Inl (Msg ''source must select a value below /traits or /metadata_public'')
          else if length tokens > 16 then Inl (Msg ''source has more than 16 pointer tokens'')
          else if list_ex (\<lambda>t. contains_any t ''*[]{}$'') tokens
          then Inl (Msg ''source must not contain wildcard selectors'')
          else Inr tokens)"

fun check_sources :: "string list \<Rightarrow> string list list res" where
  "check_sources [] = Inr []"
| "check_sources (s # ss) =
     (case check_source s of
        Inl e \<Rightarrow> Inl e
      | Inr tokens \<Rightarrow> (case check_sources ss of Inl e \<Rightarrow> Inl e | Inr rest \<Rightarrow> Inr (tokens # rest)))"

definition validate_mapping :: "string \<Rightarrow> mapping \<Rightarrow> string list list res" where
  "validate_mapping name m =
     (case mapping_sources m of
        Inl e \<Rightarrow> Inl e
      | Inr sources \<Rightarrow>
          if length sources > 8 then Inl (Msg ''has more than 8 sources'')
          else case check_sources sources of
            Inl e \<Rightarrow> Inl e
          | Inr parsed \<Rightarrow>
              if length sources > 1 \<and> mp_transform m \<noteq> TransformJoinSpace
              then Inl (Msg ''multiple sources require transform join_space'')
              else if mp_transform m \<noteq> [] \<and> mp_transform m \<noteq> TransformJoinSpace
              then Inl (Msg ''unsupported transform'')
              else if mp_transform m = TransformJoinSpace \<and> mp_type m \<noteq> ''string''
              then Inl (Msg ''transform join_space requires type string'')
              else if \<not> valid_type (mp_type m) then Inl (Msg ''unsupported type'')
              else if \<not> valid_format (mp_type m) (mp_format m) then Inl (Msg ''unsupported format'')
              else case validate_standard_mapping name m of
                Some e \<Rightarrow> Inl e
              | None \<Rightarrow> Inr parsed)"

text \<open>
  The loop of \<open>Validate\<close> over the sorted claim names. The method stores the parsed
  pointers in the map it is called on, so the result is the updated map.
\<close>

fun validate_names :: "string list \<Rightarrow> claim_mappings \<Rightarrow> claim_mappings res" where
  "validate_names [] m = Inr m"
| "validate_names (name # names) m =
     (case validate_claim_name name of
        Some e \<Rightarrow> Inl (Wrap name [e])
      | None \<Rightarrow>
          if is_reserved_claim name then Inl (Msg (''identity claim is reserved by OAuth or OIDC: '' @ name))
          else case map_get m name of
            None \<Rightarrow> validate_names names m
          | Some mapping \<Rightarrow>
              (case validate_mapping name mapping of
                 Inl e \<Rightarrow> Inl (Wrap name [e])
               | Inr parsed \<Rightarrow> validate_names names (map_put name (mapping\<lparr>mp_parsed_sources := parsed\<rparr>) m)))"

definition validate_claim_mappings :: "claim_mappings \<Rightarrow> claim_mappings res" where
  "validate_claim_mappings m =
     (if length m > 64 then Inl (Msg ''identity claim mappings contain more than 64 claims'')
      else validate_names (sort (map fst m)) m)"

text \<open>
  What the JSON decoder reports for the text: a decoding error, or the mappings and what
  follows them.
\<close>

datatype trailing = AtEOF | MoreJson | TrailingError goerr

definition parse_mappings_json ::
  "(string \<Rightarrow> goerr + claim_mappings \<times> trailing) \<Rightarrow> string \<Rightarrow> claim_mappings res" where
  "parse_mappings_json decode text =
     (let raw = trim_space text in
      if raw = [] then Inr []
      else if length raw > 65536 then Inl (Msg ''identity claim mappings exceed 65536 bytes'')
      else if raw = ''null'' then Inl (Msg ''identity claim mappings must be a JSON object'')
      else case decode raw of
        Inl e \<Rightarrow> Inl (Wrap ''decode identity claim mappings'' [e])
      | Inr (m, MoreJson) \<Rightarrow> Inl (Msg ''identity claim mappings contain trailing JSON'')
      | Inr (m, TrailingError e) \<Rightarrow> Inl (Wrap ''decode identity claim mappings after object'' [e])
      | Inr (m, AtEOF) \<Rightarrow> validate_claim_mappings m)"

section \<open>Derivation\<close>

text \<open>
  The sources a mapping resolves: the cached tokens, or the sources parsed again when the
  cache is empty.
\<close>

fun parse_pointers :: "string list \<Rightarrow> string list list option" where
  "parse_pointers [] = Some []"
| "parse_pointers (s # ss) =
     (case parse_pointer s of
        Inl _ \<Rightarrow> None
      | Inr tokens \<Rightarrow> map_option (Cons tokens) (parse_pointers ss))"

definition effective_sources :: "mapping \<Rightarrow> string list list option" where
  "effective_sources m =
     (if mp_parsed_sources m \<noteq> [] then Some (mp_parsed_sources m)
      else case mapping_sources m of Inl _ \<Rightarrow> None | Inr sources \<Rightarrow> parse_pointers sources)"

text \<open>The loop of the \<open>join_space\<close> transform; \<open>None\<close> is the early return.\<close>

fun join_parts :: "jval \<Rightarrow> string list list \<Rightarrow> string list option" where
  "join_parts document [] = Some []"
| "join_parts document (tokens # rest) =
     (case resolve_pointer_tokens document tokens of
        None \<Rightarrow> join_parts document rest
      | Some JNull \<Rightarrow> join_parts document rest
      | Some (JStr text) \<Rightarrow>
          (if trim_space text = [] then join_parts document rest
           else map_option (Cons (trim_space text)) (join_parts document rest))
      | Some _ \<Rightarrow> None)"

definition mapping_value :: "jval \<Rightarrow> mapping \<Rightarrow> jval option" where
  "mapping_value document m =
     (case effective_sources m of
        None \<Rightarrow> None
      | Some sources \<Rightarrow>
          if mp_transform m = TransformJoinSpace then
            (case join_parts document sources of
               None \<Rightarrow> None
             | Some parts \<Rightarrow> if parts = [] then None else Some (JStr (join_with '' '' parts)))
          else
            (case resolve_pointer_tokens document (hd sources) of
               None \<Rightarrow> None
             | Some JNull \<Rightarrow> None
             | Some (JStr text) \<Rightarrow> if trim_space text = [] then None else Some (JStr (trim_space text))
             | Some v \<Rightarrow> Some v))"

text \<open>
  \<open>json.Number.Float64\<close> succeeds: decimal text (the texts the JSON decoder produces),
  below the magnitude that rounds to infinity.
\<close>

definition decimal_parts :: "string \<Rightarrow> (int \<times> int) option" where
  "decimal_parts s =
     (let body = (if has_prefix s ''-'' \<or> has_prefix s ''+'' then tl s else s);
          mant = takeWhile (\<lambda>c. c \<noteq> CHR ''e'' \<and> c \<noteq> CHR ''E'') body;
          tail_part = dropWhile (\<lambda>c. c \<noteq> CHR ''e'' \<and> c \<noteq> CHR ''E'') body;
          (ip, fp, has_dot) = cut (CHR ''.'') mant;
          ex = (if tail_part = [] then Some 0
                else let e = tl tail_part;
                         ds = (if has_prefix e ''-'' \<or> has_prefix e ''+'' then tl e else e) in
                  if ds \<noteq> [] \<and> list_all is_digit ds
                  then Some (if has_prefix e ''-'' then - digits_val 0 ds else digits_val 0 ds)
                  else None) in
      if ip @ fp = [] \<or> \<not> list_all is_digit (ip @ fp) then None
      else map_option (\<lambda>e. (digits_val 0 (ip @ fp), e - int (length fp))) ex)"

definition parse_float_ok :: "string \<Rightarrow> bool" where
  "parse_float_ok s =
     (case decimal_parts s of
        None \<Rightarrow> False
      | Some (m, e) \<Rightarrow>
          if e \<ge> 0 then m * 10 ^ nat e < 2 ^ 1024 - 2 ^ 970
          else m < (2 ^ 1024 - 2 ^ 970) * 10 ^ nat (- e))"

definition is_number :: "jval \<Rightarrow> bool" where
  "is_number v =
     (case v of
        JFloat (FFin m e) \<Rightarrow> True
      | JInt i \<Rightarrow> True
      | JNumber s \<Rightarrow> parse_float_ok s
      | _ \<Rightarrow> False)"

text \<open>\<open>math.Trunc(x) == x\<close> on a finite \<open>m * 2 ^ e\<close>.\<close>

definition is_integer :: "jval \<Rightarrow> bool" where
  "is_integer v =
     (case v of
        JFloat (FFin m e) \<Rightarrow> e \<ge> 0 \<or> m mod 2 ^ nat (- e) = 0
      | JInt i \<Rightarrow> True
      | JNumber s \<Rightarrow> parse_int64 s \<noteq> None
      | _ \<Rightarrow> False)"

definition matches_type :: "string \<Rightarrow> jval \<Rightarrow> bool" where
  "matches_type expected v =
     (if expected = ''string'' then (case v of JStr _ \<Rightarrow> True | _ \<Rightarrow> False)
      else if expected = ''boolean'' then (case v of JBool _ \<Rightarrow> True | _ \<Rightarrow> False)
      else if expected = ''number'' then is_number v
      else if expected = ''integer'' then is_integer v
      else if expected = ''array'' then (case v of JArr _ \<Rightarrow> True | _ \<Rightarrow> False)
      else if expected = ''object'' then (case v of JObj _ \<Rightarrow> True | _ \<Rightarrow> False)
      else False)"

definition valid_http_url :: "string \<Rightarrow> bool \<Rightarrow> bool" where
  "valid_http_url v secure =
     (if v = [] \<or> contains_any v [CHR 0x0D, CHR 0x0A] then False
      else case url_parse v of
        None \<Rightarrow> False
      | Some u \<Rightarrow>
          if u_host u = [] \<or> u_user u \<noteq> None \<or> u_fragment u \<noteq> [] then False
          else if u_scheme u \<noteq> ''http'' \<and> u_scheme u \<noteq> ''https'' then False
          else \<not> secure \<or> u_scheme u = ''https'')"

definition valid_claim_value :: "golib \<Rightarrow> string \<Rightarrow> mapping \<Rightarrow> jval \<Rightarrow> bool \<Rightarrow> bool" where
  "valid_claim_value lib name m v secure =
     (if \<not> matches_type (mp_type m) v then False
      else if mp_type m \<noteq> ''string'' then True
      else case v of
        JStr text \<Rightarrow>
          (if name = ''email'' \<or> mp_format m = ''email'' then
             lib_mail_address lib text = Some text \<and> \<not> contains_any text [CHR 0x0D, CHR 0x0A]
           else if name = ''picture'' then valid_http_url text secure
           else if mp_format m = ''uri'' then valid_http_url text secure
           else if mp_format m = ''url'' then valid_http_url text secure
           else True)
      | _ \<Rightarrow> False)"

primrec clone_json_value :: "jval \<Rightarrow> jval" where
  "clone_json_value JNull = JNull"
| "clone_json_value (JBool b) = JBool b"
| "clone_json_value (JFloat x) = JFloat x"
| "clone_json_value (JInt i) = JInt i"
| "clone_json_value (JNumber s) = JNumber s"
| "clone_json_value (JStr s) = JStr s"
| "clone_json_value (JArr xs) = JArr (map clone_json_value xs)"
| "clone_json_value (JObj m) = JObj (map (map_prod id clone_json_value) m)"

definition derive_entry :: "golib \<Rightarrow> jval \<Rightarrow> bool \<Rightarrow> string \<Rightarrow> mapping \<Rightarrow> jval option" where
  "derive_entry lib document secure name m =
     (case mapping_value document m of
        None \<Rightarrow> None
      | Some v \<Rightarrow> if \<not> valid_claim_value lib name m v secure then None else Some (clone_json_value v))"

fun derive_loop :: "golib \<Rightarrow> jval \<Rightarrow> bool \<Rightarrow> claim_mappings \<Rightarrow> jval gomap \<Rightarrow> jval gomap" where
  "derive_loop lib document secure [] acc = acc"
| "derive_loop lib document secure ((name, m) # rest) acc =
     (case derive_entry lib document secure name m of
        None \<Rightarrow> derive_loop lib document secure rest acc
      | Some v \<Rightarrow> derive_loop lib document secure rest (map_put name v acc))"

definition derive :: "golib \<Rightarrow> claim_mappings \<Rightarrow> session_info \<Rightarrow> bool \<Rightarrow> jval gomap" where
  "derive lib ms s secure = derive_loop lib (source_document s) secure ms []"

section \<open>Facts\<close>

lemma clone_json_value_id [simp]: "clone_json_value v = v"
proof (induction v)
  case (JArr xs)
  then show ?case by (simp add: map_idI)
next
  case (JObj m)
  have "map_prod id clone_json_value p = p" if "p \<in> set m" for p
    using JObj [OF that, of "snd p"] by (cases p) auto
  then show ?case by (simp add: map_idI)
qed simp_all

lemma map_get_Cons: "map_get ((n, m) # ms) k = (if k = n then Some m else map_get ms k)"
  by (simp add: map_get_def)

lemma map_get_derive_loop:
  "wf_map ms \<Longrightarrow> map_get (derive_loop lib d secure ms acc) name =
     (case Option.bind (map_get ms name) (derive_entry lib d secure name) of
        None \<Rightarrow> map_get acc name | Some v \<Rightarrow> Some v)"
proof (induction ms arbitrary: acc)
  case (Cons p ms)
  obtain n m where p: "p = (n, m)" by (cases p)
  have wf: "wf_map ms" and n: "map_get ms n = None"
    using Cons.prems by (auto simp: p wf_map_def map_get_None_iff)
  show ?case
    using n Cons.IH [OF wf]
    by (cases "name = n") (simp_all add: p map_get_Cons gomap split: option.split)
qed simp

lemma wf_derive_loop: "wf_map acc \<Longrightarrow> wf_map (derive_loop lib d secure ms acc)"
  by (induction lib d secure ms acc rule: derive_loop.induct) (simp_all split: option.split)

lemma wf_derive [simp]: "wf_map (derive lib ms s secure)"
  by (simp add: derive_def wf_derive_loop)

lemma map_get_derive:
  "wf_map ms \<Longrightarrow> map_get (derive lib ms s secure) name =
     Option.bind (map_get ms name) (derive_entry lib (source_document s) secure name)"
  by (simp add: derive_def map_get_derive_loop split: option.split)

lemma derive_entry_SomeD:
  "derive_entry lib d secure name m = Some v \<Longrightarrow>
     mapping_value d m = Some v \<and> valid_claim_value lib name m v secure"
  by (auto simp: derive_entry_def split: option.splits if_splits)

text \<open>The text form of pointer tokens, by the escaping rules of RFC 6901.\<close>

definition escape_token :: "string \<Rightarrow> string" where
  "escape_token t = concat (map (\<lambda>c. if c = CHR ''~'' then ''~0'' else if c = CHR ''/'' then ''~1'' else [c]) t)"

definition pointer_text :: "string list \<Rightarrow> string" where
  "pointer_text ts = concat (map (\<lambda>t. CHR ''/'' # escape_token t) ts)"

lemma escape_token_no_slash: "CHR ''/'' \<notin> set (escape_token t)"
  by (auto simp: escape_token_def split: if_splits)

lemma unescape_escape_token: "unescape_token (escape_token t) = Some t"
  by (induction t) (auto simp: escape_token_def)

lemma escape_token_Cons:
  "escape_token (c # t) =
     (if c = CHR ''~'' then ''~0'' else if c = CHR ''/'' then ''~1'' else [c]) @ escape_token t"
  by (simp add: escape_token_def)

lemma escape_unescape_token:
  "unescape_token raw = Some t \<Longrightarrow> CHR ''/'' \<notin> set raw \<Longrightarrow> escape_token t = raw"
proof (induction raw arbitrary: t rule: unescape_token.induct)
  case 1
  then show ?case by (simp add: escape_token_def)
next
  case (2 c s)
  show ?case
  proof (cases "c = CHR ''~''")
    case False
    then obtain u where u: "unescape_token s = Some u" "t = c # u" using 2 by auto
    have "escape_token u = s" using 2 u False by simp
    moreover have "c \<noteq> CHR ''/''" using 2(5) by auto
    ultimately show ?thesis using False u by (simp add: escape_token_Cons)
  next
    case True
    then obtain d r where s: "s = d # r" using 2 by (cases s) auto
    show ?thesis
    proof (cases "d = CHR ''0''")
      case d: True
      then obtain u where u: "unescape_token r = Some u" "t = CHR ''~'' # u" using 2 s True by auto
      have "escape_token u = r" using 2 u s True d by simp
      then show ?thesis using True d u s by (simp add: escape_token_Cons)
    next
      case d: False
      then have d1: "d = CHR ''1''" using 2 s True by (simp split: if_splits)
      then obtain u where u: "unescape_token r = Some u" "t = CHR ''/'' # u" using 2 s True by auto
      have "escape_token u = r" using 2 u s True d1 by simp
      then show ?thesis using True d1 u s by (simp add: escape_token_Cons)
    qed
  qed
qed

lemma unescape_tokens_iff:
  assumes "\<forall>r\<in>set raws. CHR ''/'' \<notin> set r"
  shows "unescape_tokens raws = Some ts \<longleftrightarrow> raws = map escape_token ts"
  using assms
proof (induction raws arbitrary: ts)
  case (Cons r raws)
  show ?case
  proof
    assume l: "unescape_tokens (r # raws) = Some ts"
    then obtain t ts' where t: "unescape_token r = Some t" "unescape_tokens raws = Some ts'" "ts = t # ts'"
      by (auto split: option.splits)
    then show "r # raws = map escape_token ts"
      using Cons escape_unescape_token [OF t(1)] by auto
  next
    assume "r # raws = map escape_token ts"
    then obtain t ts' where "ts = t # ts'" "r = escape_token t" "raws = map escape_token ts'"
      by (cases ts) auto
    then show "unescape_tokens (r # raws) = Some ts"
      using Cons by (simp add: unescape_escape_token)
  qed
qed auto

lemma pointer_text_join:
  "ts \<noteq> [] \<Longrightarrow> pointer_text ts = CHR ''/'' # join_with ''/'' (map escape_token ts)"
  by (induction ts rule: induct_list012) (auto simp: pointer_text_def)

text \<open>What validation has checked of one entry, and the pointers it stores.\<close>

definition checked_entry :: "string \<Rightarrow> mapping \<Rightarrow> string list list \<Rightarrow> bool" where
  "checked_entry name m parsed \<longleftrightarrow>
     validate_claim_name name = None \<and> \<not> is_reserved_claim name
     \<and> validate_mapping name m = Inr parsed"

lemma validate_names_spec:
  "validate_names ns m = Inr m' \<Longrightarrow> distinct ns \<Longrightarrow> set ns \<subseteq> fst ` set m \<Longrightarrow>
     (\<forall>k\<in>set ns. \<exists>mp parsed. map_get m k = Some mp \<and> checked_entry k mp parsed
        \<and> map_get m' k = Some (mp\<lparr>mp_parsed_sources := parsed\<rparr>))
     \<and> (\<forall>k. k \<notin> set ns \<longrightarrow> map_get m' k = map_get m k)"
proof (induction ns arbitrary: m)
  case (Cons n ns)
  obtain mp where mp: "map_get m n = Some mp"
    using Cons.prems(3) map_get_None_iff [of m n] by fastforce
  obtain parsed where ok: "checked_entry n mp parsed"
    and rest: "validate_names ns (map_put n (mp\<lparr>mp_parsed_sources := parsed\<rparr>) m) = Inr m'"
    using Cons.prems(1) mp by (auto simp: checked_entry_def split: option.splits if_splits sum.splits)
  let ?m = "map_put n (mp\<lparr>mp_parsed_sources := parsed\<rparr>) m"
  have "set ns \<subseteq> fst ` set ?m"
  proof
    fix k assume "k \<in> set ns"
    then have "map_get m k \<noteq> None" using Cons.prems(3) map_get_None_iff [of m k] by auto
    then have "map_get ?m k \<noteq> None" by (simp add: gomap)
    then show "k \<in> fst ` set ?m" by (simp only: map_get_None_iff not_not)
  qed
  then have ih: "(\<forall>k\<in>set ns. \<exists>mp parsed. map_get ?m k = Some mp \<and> checked_entry k mp parsed
        \<and> map_get m' k = Some (mp\<lparr>mp_parsed_sources := parsed\<rparr>))
     \<and> (\<forall>k. k \<notin> set ns \<longrightarrow> map_get m' k = map_get ?m k)"
    using Cons.IH [OF rest] Cons.prems(2) by simp
  have n: "n \<notin> set ns" using Cons.prems(2) by simp
  show ?case
  proof (intro conjI ballI allI impI)
    fix k assume "k \<in> set (n # ns)"
    then show "\<exists>mp parsed. map_get m k = Some mp \<and> checked_entry k mp parsed
        \<and> map_get m' k = Some (mp\<lparr>mp_parsed_sources := parsed\<rparr>)"
    proof (cases "k = n")
      case True
      have "map_get m' n = map_get ?m n" using ih n by blast
      then show ?thesis using mp ok True by (auto simp: gomap)
    next
      case False
      then show ?thesis
        using \<open>k \<in> set (n # ns)\<close> bspec [OF conjunct1 [OF ih], of k] by (simp add: gomap)
    qed
  next
    fix k assume "k \<notin> set (n # ns)"
    then show "map_get m' k = map_get m k" using ih by (simp add: gomap)
  qed
qed simp

lemma validate_claim_mappings_spec:
  assumes "validate_claim_mappings m = Inr m'" and "wf_map m"
  shows "map_get m' k = Some mp' \<Longrightarrow> \<exists>mp parsed. map_get m k = Some mp \<and> checked_entry k mp parsed
            \<and> mp' = mp\<lparr>mp_parsed_sources := parsed\<rparr>"
    and "map_get m k = Some mp \<Longrightarrow> \<exists>parsed. checked_entry k mp parsed
            \<and> map_get m' k = Some (mp\<lparr>mp_parsed_sources := parsed\<rparr>)"
proof -
  have v: "validate_names (sort (map fst m)) m = Inr m'"
    using assms(1) by (auto simp: validate_claim_mappings_def split: if_splits)
  have spec: "(\<forall>k\<in>fst ` set m. \<exists>mp parsed. map_get m k = Some mp \<and> checked_entry k mp parsed
        \<and> map_get m' k = Some (mp\<lparr>mp_parsed_sources := parsed\<rparr>))
     \<and> (\<forall>k. k \<notin> fst ` set m \<longrightarrow> map_get m' k = map_get m k)"
    using validate_names_spec [OF v] assms(2) by (simp add: wf_map_def)
  show "map_get m' k = Some mp' \<Longrightarrow> \<exists>mp parsed. map_get m k = Some mp \<and> checked_entry k mp parsed
            \<and> mp' = mp\<lparr>mp_parsed_sources := parsed\<rparr>"
    using spec map_get_None_iff [of m k] by (cases "k \<in> fst ` set m") fastforce+
  show "map_get m k = Some mp \<Longrightarrow> \<exists>parsed. checked_entry k mp parsed
            \<and> map_get m' k = Some (mp\<lparr>mp_parsed_sources := parsed\<rparr>)"
    using spec map_get_None_iff [of m k] by (cases "k \<in> fst ` set m") fastforce+
qed

lemma validate_names_wf: "validate_names ns m = Inr m' \<Longrightarrow> wf_map m \<Longrightarrow> wf_map m'"
  by (induction ns arbitrary: m) (auto split: option.splits if_splits sum.splits)

lemma validate_claim_mappings_wf: "validate_claim_mappings m = Inr m' \<Longrightarrow> wf_map m \<Longrightarrow> wf_map m'"
  by (auto simp: validate_claim_mappings_def validate_names_wf split: if_splits)

lemma check_sources_parse:
  "check_sources ss = Inr parsed \<Longrightarrow> parse_pointers ss = Some parsed \<and> length parsed = length ss"
  by (induction ss arbitrary: parsed)
    (auto simp: check_source_def Let_def split: sum.splits if_splits)

lemma mapping_sources_nonempty: "mapping_sources m = Inr ss \<Longrightarrow> ss \<noteq> []"
  by (auto simp: mapping_sources_def Let_def split: if_splits)

lemma validate_mapping_cached:
  assumes "validate_mapping name m = Inr parsed"
  shows "\<exists>ss. mapping_sources m = Inr ss \<and> check_sources ss = Inr parsed \<and> length ss \<le> 8 \<and> parsed \<noteq> []"
proof -
  from assms obtain ss where ss: "mapping_sources m = Inr ss" "length ss \<le> 8" "check_sources ss = Inr parsed"
    by (auto simp: validate_mapping_def split: sum.splits if_splits option.splits)
  then show ?thesis using check_sources_parse mapping_sources_nonempty by fastforce
qed

text \<open>The cached pointers are what parsing the sources again would give.\<close>

lemma effective_sources_cached:
  assumes "checked_entry name m parsed" and "mp_parsed_sources m = []"
  shows "effective_sources (m\<lparr>mp_parsed_sources := parsed\<rparr>) = effective_sources m"
proof -
  obtain ss where "mapping_sources m = Inr ss" "check_sources ss = Inr parsed" "parsed \<noteq> []"
    using validate_mapping_cached [of name m parsed] assms(1) by (auto simp: checked_entry_def)
  then show ?thesis using check_sources_parse [of ss parsed] assms(2)
    by (simp add: effective_sources_def)
qed

lemma derive_entry_cached:
  assumes "checked_entry name m parsed" and "mp_parsed_sources m = []"
  shows "derive_entry lib d secure name (m\<lparr>mp_parsed_sources := parsed\<rparr>) = derive_entry lib d secure name m"
proof -
  have "mapping_value d (m\<lparr>mp_parsed_sources := parsed\<rparr>) = mapping_value d m"
    using effective_sources_cached [OF assms] by (simp add: mapping_value_def cong: option.case_cong)
  moreover have "valid_claim_value lib name (m\<lparr>mp_parsed_sources := parsed\<rparr>) v secure
      = valid_claim_value lib name m v secure" for v
    by (cases v) (simp_all add: valid_claim_value_def cong: if_cong)
  ultimately show ?thesis by (simp add: derive_entry_def cong: option.case_cong)
qed

lemma join_parts_nonempty: "join_parts d ss = Some parts \<Longrightarrow> p \<in> set parts \<Longrightarrow> p \<noteq> []"
  by (induction ss arbitrary: parts) (auto split: option.splits jval.splits if_splits)

lemma join_with_eq_Nil: "join_with '' '' ps = [] \<Longrightarrow> ps \<noteq> [] \<Longrightarrow> [] \<in> set ps"
  by (induction "'' ''" ps rule: join_with.induct) auto

lemma mapping_value_present:
  "mapping_value d m = Some v \<Longrightarrow> v \<noteq> JNull \<and> v \<noteq> JStr []"
  using join_parts_nonempty join_with_eq_Nil
  by (fastforce simp: mapping_value_def split: option.splits if_splits jval.splits)

section \<open>Properties\<close>

text \<open>A pointer parses to the tokens \<open>ts\<close> exactly when it is the RFC 6901 text of
  \<open>ts\<close>: parsing inverts escaping, no two texts name the same tokens, and every other text
  is an error.\<close>

theorem parse_pointer_iff: "parse_pointer p = Inr ts \<longleftrightarrow> p = pointer_text ts"
proof (cases p)
  case Nil
  then show ?thesis by (cases ts) (auto simp: parse_pointer_def pointer_text_def)
next
  case (Cons c s)
  show ?thesis
  proof (cases "c = CHR ''/''")
    case False
    then show ?thesis using Cons
      by (cases ts) (auto simp: parse_pointer_def pointer_text_def has_prefix_def)
  next
    case True
    let ?raws = "split_at (CHR ''/'') s"
    have iff: "unescape_tokens ?raws = Some ts \<longleftrightarrow> ?raws = map escape_token ts"
      by (rule unescape_tokens_iff) (use split_no_sep in blast)
    have "?raws = map escape_token ts \<longleftrightarrow> p = pointer_text ts"
    proof
      assume r: "?raws = map escape_token ts"
      then have "ts \<noteq> []" using split_at_nonempty [of "CHR ''/''" s] by auto
      then show "p = pointer_text ts"
        using join_split [of "CHR ''/''" s] by (simp add: pointer_text_join Cons True r)
    next
      assume q: "p = pointer_text ts"
      then have "ts \<noteq> []" using Cons by (auto simp: pointer_text_def)
      then show "?raws = map escape_token ts"
        using q split_join [of "map escape_token ts" "CHR ''/''"] escape_token_no_slash
        by (simp add: pointer_text_join Cons True)
    qed
    then show ?thesis
      using iff by (auto simp: parse_pointer_def Cons True has_prefix_def split: option.splits)
  qed
qed

text \<open>A small configuration that validates, for the witnesses.\<close>

definition sample_mappings :: claim_mappings where
  "sample_mappings = [(''email'', \<lparr>mp_source = ''/traits/mail'', mp_sources = [], mp_transform = [],
     mp_type = ''string'', mp_format = [], mp_parsed_sources = []\<rparr>)]"

definition sample_session :: session_info where
  "sample_session = \<lparr>se_subject = ''u'', se_aal = ''aal1'', se_amr = [], se_authenticated_at = 5,
     se_identity_traits = [(''mail'', JStr ''a'')], se_identity_metadata_public = [],
     se_verified_emails = []\<rparr>"

definition sample_lib :: golib where
  "sample_lib = \<lparr>lib_mail_address = (\<lambda>t. Some t), lib_fold_orbit = (\<lambda>r s. False)\<rparr>"

lemmas text_eval = trim_space_def to_lower_def lower_seg_def space_seg_def is_space_def
  is_control_def has_prefix_def has_control_def runes_def contains_any_def

lemma sample_validates:
  "validate_claim_mappings sample_mappings =
     Inr [(''email'', (snd (hd sample_mappings))\<lparr>mp_parsed_sources := [[''traits'', ''mail'']]\<rparr>)]"
  by (simp add: validate_claim_mappings_def sample_mappings_def validate_claim_name_def
      is_reserved_claim_def reserved_claims_def text_eval map_get_def map_put_def
      validate_mapping_def mapping_sources_def check_source_def parse_pointer_def
      TransformJoinSpace_def valid_type_def valid_format_def validate_standard_mapping_def)

lemma sample_wf: "wf_map sample_mappings"
  by (simp add: wf_map_def sample_mappings_def)

text \<open>Validation fills the cache of parsed pointers, and the cache is never observable:
  claims derived from the validated mappings equal those derived from the configured ones
  for every session, whatever order Go iterates the map in.\<close>

theorem derive_validated_eq:
  assumes "validate_claim_mappings m = Inr m'" and "wf_map m"
    and "\<forall>(k, mp)\<in>set m. mp_parsed_sources mp = []"
  shows "map_get (derive lib m' s secure) name = map_get (derive lib m s secure) name"
proof (cases "map_get m name")
  case None
  then have "map_get m' name = None"
    using validate_claim_mappings_spec(1) [OF assms(1,2), of name] by (cases "map_get m' name") auto
  then show ?thesis
    using None assms(2) validate_claim_mappings_wf [OF assms(1,2)] by (simp add: map_get_derive)
next
  case (Some mp)
  then obtain parsed where p: "checked_entry name mp parsed"
      "map_get m' name = Some (mp\<lparr>mp_parsed_sources := parsed\<rparr>)"
    using validate_claim_mappings_spec(2) [OF assms(1,2)] by blast
  have "mp_parsed_sources mp = []" using assms(3) map_get_SomeD [OF Some] by auto
  then show ?thesis
    using p Some assms(2) validate_claim_mappings_wf [OF assms(1,2)]
    by (simp add: map_get_derive derive_entry_cached)
qed

theorem derive_validated_eq_witness:
  "map_get (derive sample_lib [(''email'', (snd (hd sample_mappings))\<lparr>mp_parsed_sources := [[''traits'', ''mail'']]\<rparr>)]
       sample_session True) ''email''
     = map_get (derive sample_lib sample_mappings sample_session True) ''email''"
  by (rule derive_validated_eq [OF sample_validates sample_wf]) (simp add: sample_mappings_def)

text \<open>C30. A claim derived from validated mappings never has a reserved protocol name, comes
  from a configured mapping, is present and of the declared type; a derived \<open>email\<close> is an
  address that parses to itself, a derived \<open>email_verified\<close> is a boolean, a derived
  \<open>picture\<close> an HTTP URL (HTTPS in a secure environment).\<close>

theorem derive_validated_sound:
  assumes "validate_claim_mappings m = Inr m'" and "wf_map m"
    and "map_get (derive lib m' s secure) name = Some v"
  shows "\<not> is_reserved_claim name \<and> v \<noteq> JNull \<and> v \<noteq> JStr []
    \<and> (\<exists>mp. map_get m name = Some mp \<and> matches_type (mp_type mp) v)
    \<and> (name = ''email'' \<longrightarrow> (\<exists>t. v = JStr t \<and> lib_mail_address lib t = Some t))
    \<and> (name = ''email_verified'' \<longrightarrow> (\<exists>b. v = JBool b))
    \<and> (name = ''picture'' \<longrightarrow> (\<exists>t. v = JStr t \<and> valid_http_url t secure))"
proof -
  obtain mp' where g: "map_get m' name = Some mp'"
    and v: "mapping_value (source_document s) mp' = Some v" "valid_claim_value lib name mp' v secure"
    using assms(3) validate_claim_mappings_wf [OF assms(1,2)]
    by (auto simp: map_get_derive bind_eq_Some_conv dest: derive_entry_SomeD)
  obtain mp parsed where mp: "map_get m name = Some mp" "checked_entry name mp parsed"
      "mp' = mp\<lparr>mp_parsed_sources := parsed\<rparr>"
    using validate_claim_mappings_spec(1) [OF assms(1,2) g] by blast
  have std: "validate_standard_mapping name mp = None"
    using mp(2) by (auto simp: checked_entry_def validate_mapping_def split: sum.splits if_splits option.splits)
  have ty: "matches_type (mp_type mp) v" using v(2) mp(3) by (simp add: valid_claim_value_def split: if_splits)
  have mail: "name = ''email'' \<Longrightarrow> \<exists>t. v = JStr t \<and> lib_mail_address lib t = Some t"
    and pic: "name = ''picture'' \<Longrightarrow> \<exists>t. v = JStr t \<and> valid_http_url t secure"
    and ver: "name = ''email_verified'' \<Longrightarrow> \<exists>b. v = JBool b"
    using std v(2) mp(3)
    by (auto simp: validate_standard_mapping_def valid_claim_value_def matches_type_def
        split: if_splits jval.splits)
  show ?thesis
    using mp(1,2) ty mail pic ver mapping_value_present [OF v(1)] by (auto simp: checked_entry_def)
qed

theorem derive_validated_sound_witness:
  "\<exists>t. lib_mail_address sample_lib t = Some t \<and> t = ''a''"
proof -
  have "map_get (derive sample_lib [(''email'', (snd (hd sample_mappings))\<lparr>mp_parsed_sources := [[''traits'', ''mail'']]\<rparr>)]
       sample_session True) ''email'' = Some (JStr ''a'')"
    by (simp add: derive_def derive_entry_def sample_mappings_def sample_session_def mapping_value_def
        effective_sources_def source_document_def map_get_def TransformJoinSpace_def text_eval
        valid_claim_value_def matches_type_def sample_lib_def map_put_def)
  from derive_validated_sound [OF sample_validates sample_wf this] show ?thesis by simp
qed

end
