(* ===== verification/CoreConfig.thy ===== *)
theory CoreConfig
  imports Identity
begin

text \<open>
  \<open>internal/core/config/config.go\<close>: the provider configuration, its validation, the
  resolution of ACR values, and the construction of the redirects to the external login UI.

  A \<open>*url.URL\<close> is a \<open>url option\<close>. The methods that dereference one are called on a
  validated configuration only, where it is present; \<open>deref\<close> of a missing URL, a panic
  in Go, is left unspecified. A map field is the list of its entries in the order a range
  loop visits them.
\<close>

record config_client =
  cc_id :: string
  cc_allowed_redirect_uris :: "string list"
  cc_allowed_post_logout_redirects :: "string list"
  cc_allowed_scopes :: "string list"
  cc_allowed_audiences :: "string list"
  cc_skip_consent :: bool
  cc_allowed_id_token_claims :: "string list gomap"
  cc_allowed_access_token_claims :: "string list gomap"
  cc_allowed_user_info_claims :: "string list gomap"

record config =
  cfg_listen_address :: string
  cfg_environment :: string
  cfg_provider_url :: "url option"
  cfg_external_ui_url :: "url option"
  cfg_hydra_admin_url :: "url option"
  cfg_hydra_public_url :: "url option"
  cfg_kratos_public_url :: "url option"
  cfg_kratos_session_cookie :: string
  cfg_required_aal :: string
  cfg_transaction_ttl :: int
  cfg_max_pending_transactions :: int
  cfg_max_challenge_length :: int
  cfg_clients :: "config_client gomap"
  cfg_policy_backend :: string
  cfg_policy_url :: "url option"
  cfg_policy_issuer :: "url option"
  cfg_identity_claim_mappings :: claim_mappings
  cfg_acr_mappings :: "string gomap"

definition PolicyBackendStatic :: string where "PolicyBackendStatic = ''static''"
definition PolicyBackendHTTP :: string where "PolicyBackendHTTP = ''http''"

text \<open>Durations in nanoseconds and the limits of the package.\<close>

definition Second :: int where "Second = 1000000000"
definition DefaultTransactionTTL :: int where "DefaultTransactionTTL = 300 * Second"
definition MaxTransactionTTL :: int where "MaxTransactionTTL = 900 * Second"
definition DefaultMaxPendingTransactions :: int where "DefaultMaxPendingTransactions = 10000"
definition DefaultMaxChallengeLength :: int where "DefaultMaxChallengeLength = 2048"
definition MaxChallengeLengthLimit :: int where "MaxChallengeLengthLimit = 4096"

definition deref :: "url option \<Rightarrow> url" where
  "deref p = (case p of Some u \<Rightarrow> u | None \<Rightarrow> undefined)"

lemma deref_Some [simp]: "deref (Some u) = u"
  by (simp add: deref_def)

section \<open>Validation\<close>

definition secure_transport_required :: "config \<Rightarrow> bool" where
  "secure_transport_required c =
     (let environment = to_lower (trim_space (cfg_environment c)) in
      environment \<noteq> [] \<and> environment \<noteq> ''development'' \<and> environment \<noteq> ''test'')"

definition is_secure_environment :: "config \<Rightarrow> bool" where
  "is_secure_environment c = secure_transport_required c"

definition validate_url :: "url option \<Rightarrow> string \<Rightarrow> bool \<Rightarrow> goerr option" where
  "validate_url v name require_https =
     (case v of
        None \<Rightarrow> Some (Msg (name @ '' is required''))
      | Some u \<Rightarrow>
          if u_scheme u \<noteq> ''http'' \<and> u_scheme u \<noteq> ''https''
          then Some (Msg (name @ '' must use http or https''))
          else if require_https \<and> u_scheme u \<noteq> ''https''
          then Some (Msg (name @ '' must use https outside development and test''))
          else if u_host u = [] \<or> u_user u \<noteq> None \<or> u_fragment u \<noteq> []
          then Some (Msg (name @ '' must be an origin URL without credentials or fragments''))
          else None)"

definition is_loopback_http_url :: "url \<Rightarrow> bool" where
  "is_loopback_http_url u =
     (if u_scheme u \<noteq> ''http'' then False
      else hostname u = ''127.0.0.1'' \<or> hostname u = ''::1'')"

definition validate_absolute_url :: "string \<Rightarrow> bool \<Rightarrow> bool \<Rightarrow> goerr option" where
  "validate_absolute_url v require_https allow_loopback_http =
     (case url_parse v of
        None \<Rightarrow> Some (Msg (''invalid absolute URL '' @ v))
      | Some u \<Rightarrow>
          if (u_scheme u \<noteq> ''http'' \<and> u_scheme u \<noteq> ''https'') \<or> u_host u = [] \<or> u_user u \<noteq> None
             \<or> u_fragment u \<noteq> []
          then Some (Msg (''invalid absolute URL '' @ v))
          else if require_https \<and> u_scheme u \<noteq> ''https''
             \<and> (\<not> allow_loopback_http \<or> \<not> is_loopback_http_url u)
          then Some (Msg (''invalid non-https URL outside development and test: '' @ v))
          else None)"

definition validate_claim_entry :: "string \<Rightarrow> string list \<Rightarrow> string \<times> string list \<Rightarrow> goerr option" where
  "validate_claim_entry client_id allowed_scopes entry =
     (let (name, required) = entry in
      if trim_space name = [] then Some (Msg (''client has an empty claim name: '' @ client_id))
      else if is_reserved_claim name
      then Some (Msg (''claim is reserved by OAuth or OIDC: '' @ name))
      else if slice_dup_from [] required
      then Some (Msg (''client has duplicate required scopes for claim '' @ name))
      else first_error (\<lambda>scope.
        if trim_space scope = [] \<or> \<not> slice_contains allowed_scopes scope
        then Some (Msg (''claim requires an unallowlisted scope: '' @ name)) else None) required)"

definition validate_claim_allowlist ::
  "string \<Rightarrow> string list gomap \<Rightarrow> string list \<Rightarrow> goerr option" where
  "validate_claim_allowlist client_id claims allowed_scopes =
     first_error (validate_claim_entry client_id allowed_scopes) claims"

definition validate_acr_entry :: "string \<times> string \<Rightarrow> goerr option" where
  "validate_acr_entry entry =
     (let (acr, aal) = entry in
      if trim_space acr = [] \<or> contains_any acr [CHR 0x0D, CHR 0x0A]
      then Some (Msg ''oidc acr mappings contain an invalid acr value'')
      else if \<not> supported_aal aal then Some (Msg (''oidc acr mapping has unsupported aal: '' @ acr))
      else None)"

definition validate_oidc_acr_mappings :: "string gomap \<Rightarrow> goerr option" where
  "validate_oidc_acr_mappings m = first_error validate_acr_entry m"

text \<open>The body of the loop over the clients.\<close>

definition validate_client_entry :: "bool \<Rightarrow> string \<times> config_client \<Rightarrow> goerr option" where
  "validate_client_entry secure entry =
     (let (cid, c) = entry;
          invalid = (\<lambda>v. map_option (\<lambda>e. Wrap cid [e]) (validate_absolute_url v secure True)) in
      first_some
        [fail_if (cc_id c \<noteq> cid) (Msg (''client map key does not match client id: '' @ cid)),
         fail_if (cc_allowed_redirect_uris c = []) (Msg (''client has no allowed redirect uris: '' @ cid)),
         first_error invalid (cc_allowed_redirect_uris c),
         first_error invalid (cc_allowed_post_logout_redirects c),
         fail_if (slice_dup_from [] (cc_allowed_audiences c))
           (Msg (''client has duplicate allowed audiences: '' @ cid)),
         fail_if (list_ex (\<lambda>a. trim_space a = []) (cc_allowed_audiences c))
           (Msg (''client has an empty allowed audience: '' @ cid)),
         validate_claim_allowlist cid (cc_allowed_id_token_claims c) (cc_allowed_scopes c),
         validate_claim_allowlist cid (cc_allowed_access_token_claims c) (cc_allowed_scopes c),
         validate_claim_allowlist cid (cc_allowed_user_info_claims c) (cc_allowed_scopes c)])"

text \<open>The policy section of \<open>Validate\<close>.\<close>

definition validate_policy :: "config \<Rightarrow> bool \<Rightarrow> goerr option" where
  "validate_policy c secure =
     (let backend = (if cfg_policy_backend c = [] then PolicyBackendStatic else cfg_policy_backend c);
          issuer = cfg_policy_issuer c in
      first_some
        [fail_if (backend \<noteq> PolicyBackendStatic \<and> backend \<noteq> PolicyBackendHTTP)
           (Msg ''unsupported policy backend: want static or http''),
         (if issuer \<noteq> None then
            first_some
              [validate_url issuer ''policy issuer'' secure,
               fail_if (u_raw_query (deref issuer) \<noteq> []) (Msg ''policy issuer must not contain a query'')]
          else None),
         (if backend = PolicyBackendHTTP then
            first_some
              [validate_url (cfg_policy_url c) ''policy URL'' secure,
               fail_if (u_raw_query (deref (cfg_policy_url c)) \<noteq> [])
                 (Msg ''policy URL must not contain a query''),
               fail_if (issuer = None) (Msg ''policy issuer is required for http policy backend'')]
          else None)])"

text \<open>
  \<open>Config.Validate\<close>. On success the result is the configuration with the claim mappings
  as their validation left them (the pointers are cached in the shared map).
\<close>

definition validate_config :: "config \<Rightarrow> config res" where
  "validate_config c =
     (let secure = secure_transport_required c in
      case first_some
        [fail_if (cfg_listen_address c = []) (Msg ''listen address is required''),
         validate_url (cfg_provider_url c) ''provider URL'' secure,
         validate_url (cfg_external_ui_url c) ''external UI URL'' secure,
         validate_url (cfg_hydra_admin_url c) ''Hydra admin URL'' secure,
         validate_url (cfg_hydra_public_url c) ''Hydra public URL'' secure,
         validate_url (cfg_kratos_public_url c) ''Kratos public URL'' secure,
         fail_if (cfg_kratos_session_cookie c = []) (Msg ''kratos session cookie is required''),
         fail_if (cfg_required_aal c \<noteq> [] \<and> \<not> aal_at_least (cfg_required_aal c) (cfg_required_aal c))
           (Msg ''unsupported required aal''),
         fail_if (cfg_transaction_ttl c \<le> 0 \<or> cfg_transaction_ttl c > MaxTransactionTTL)
           (Msg ''transaction TTL must be between 1s and 15m0s''),
         fail_if (cfg_max_pending_transactions c < 0)
           (Msg ''max pending transactions cannot be negative''),
         fail_if (cfg_max_challenge_length c < 0 \<or> cfg_max_challenge_length c > MaxChallengeLengthLimit)
           (Msg ''max challenge length must be between 0 and 4096'')] of
        Some e \<Rightarrow> Inl e
      | None \<Rightarrow>
        (case validate_claim_mappings (cfg_identity_claim_mappings c) of
           Inl e \<Rightarrow> Inl (Wrap ''validate oidc identity claim mappings'' [e])
         | Inr mappings \<Rightarrow>
           (case first_some
              [validate_oidc_acr_mappings (cfg_acr_mappings c), validate_policy c secure,
               first_error (validate_client_entry secure) (cfg_clients c)] of
              Some e \<Rightarrow> Inl e
            | None \<Rightarrow> Inr (c\<lparr>cfg_identity_claim_mappings := mappings\<rparr>))))"

section \<open>Lookups and limits\<close>

definition effective_max_pending_transactions :: "config \<Rightarrow> int" where
  "effective_max_pending_transactions c =
     (if cfg_max_pending_transactions c \<le> 0 then DefaultMaxPendingTransactions
      else cfg_max_pending_transactions c)"

definition effective_max_challenge_length :: "config \<Rightarrow> int" where
  "effective_max_challenge_length c =
     (if cfg_max_challenge_length c \<le> 0 then DefaultMaxChallengeLength
      else cfg_max_challenge_length c)"

definition config_lookup_client :: "config \<Rightarrow> string \<Rightarrow> config_client option" where
  "config_lookup_client c cid = map_get (cfg_clients c) cid"

text \<open>The second loop of \<open>ResolveACR\<close>: the first value that is mapped or a known level.\<close>

fun resolve_acr_loop :: "string gomap \<Rightarrow> string list \<Rightarrow> (string \<times> string) option" where
  "resolve_acr_loop mappings [] = None"
| "resolve_acr_loop mappings (raw # raws) =
     (let v = trim_space raw in
      case map_get mappings v of
        Some aal \<Rightarrow> Some (to_lower (trim_space aal), v)
      | None \<Rightarrow>
          if supported_aal v then Some (to_lower v, v)
          else resolve_acr_loop mappings raws)"

definition resolve_acr :: "config \<Rightarrow> string list \<Rightarrow> (string \<times> string) res" where
  "resolve_acr c values =
     (if list_ex (\<lambda>v. trim_space v = []) values then Inl (Sent ErrInvalidAssurance)
      else case resolve_acr_loop (cfg_acr_mappings c) values of
        Some r \<Rightarrow> Inr r
      | None \<Rightarrow> if values \<noteq> [] then Inl (Sent ErrInvalidAssurance) else Inr ([], []))"

section \<open>Redirects\<close>

definition callback_url :: "config \<Rightarrow> flow \<Rightarrow> url" where
  "callback_url c flow =
     (let path = (if flow = FlowLogin then ''/login/callback''
                  else if flow = FlowConsent then ''/consent''
                  else if flow = FlowLogout then ''/logout''
                  else ''/login/callback'');
          base = deref (cfg_provider_url c) in
      base\<lparr>u_path := trim_right_slash (u_path base) @ path, u_raw_query := [], u_fragment := []\<rparr>)"

definition callback_url_string :: "config \<Rightarrow> flow \<Rightarrow> string" where
  "callback_url_string c flow = url_string (callback_url c flow)"

definition handoff_values :: "flow \<Rightarrow> string \<Rightarrow> string \<Rightarrow> query_values" where
  "handoff_values flow tx csrf =
     [(''flow'', [flow]), (''transaction'', [tx]), (''csrf'', [csrf])]"

definition set_if :: "bool \<Rightarrow> string \<Rightarrow> string \<Rightarrow> query_values \<Rightarrow> query_values" where
  "set_if b k v q = (if b then values_set k v q else q)"

definition external_redirect ::
  "config \<Rightarrow> flow \<Rightarrow> string \<Rightarrow> string \<Rightarrow> login_ui_hints \<Rightarrow> string res" where
  "external_redirect c flow tx csrf hints =
     (if (flow \<noteq> FlowLogin \<and> flow \<noteq> FlowConsent \<and> flow \<noteq> FlowLogout) \<or> tx = [] \<or> csrf = []
      then Inl (Sent ErrInvalidTransaction)
      else
        let callback = (callback_url c flow)\<lparr>u_raw_query := values_encode (handoff_values flow tx csrf)\<rparr>;
            query = handoff_values flow tx csrf @ [(''return_to'', [url_string callback])];
            safe = safe_login_ui_hints hints;
            query = (if flow = FlowLogin
              then set_if (hint_display safe \<noteq> []) ''display'' (hint_display safe)
                     (set_if (hint_ui_locales safe \<noteq> []) ''ui_locales'' (hint_ui_locales safe)
                       (set_if (hint_login safe \<noteq> []) ''login_hint'' (hint_login safe) query))
              else query)
        in Inr (url_string ((deref (cfg_external_ui_url c))\<lparr>u_raw_query := values_encode query\<rparr>)))"

definition external_consent_redirect_with_audience ::
  "config \<Rightarrow> string \<Rightarrow> string \<Rightarrow> string \<Rightarrow> string list \<Rightarrow> string list \<Rightarrow> string res" where
  "external_consent_redirect_with_audience c tx csrf client_name scopes audiences =
     (if tx = [] \<or> csrf = [] then Inl (Sent ErrInvalidTransaction)
      else
        let callback = (callback_url c FlowConsent)\<lparr>u_raw_query := values_encode (handoff_values FlowConsent tx csrf)\<rparr>;
            query = handoff_values FlowConsent tx csrf @ [(''return_to'', [url_string callback])];
            query = set_if (audiences \<noteq> []) ''audience'' (join_with '' '' audiences)
                     (set_if (scopes \<noteq> []) ''scope'' (join_with '' '' scopes)
                       (set_if (client_name \<noteq> []) ''client_name'' client_name query))
        in Inr (url_string ((deref (cfg_external_ui_url c))\<lparr>u_raw_query := values_encode query\<rparr>)))"

definition external_consent_redirect ::
  "config \<Rightarrow> string \<Rightarrow> string \<Rightarrow> string \<Rightarrow> string list \<Rightarrow> string res" where
  "external_consent_redirect c tx csrf client_name scopes =
     external_consent_redirect_with_audience c tx csrf client_name scopes []"

definition external_ui_origin :: "config \<Rightarrow> string" where
  "external_ui_origin c =
     (case cfg_external_ui_url c of
        None \<Rightarrow> []
      | Some u \<Rightarrow> url_string (empty_url\<lparr>u_scheme := u_scheme u, u_host := u_host u\<rparr>))"

definition origin_allowed :: "config \<Rightarrow> string \<Rightarrow> bool" where
  "origin_allowed c v =
     (case url_parse v of
        None \<Rightarrow> False
      | Some u \<Rightarrow>
          if u_scheme u = [] \<or> u_host u = [] \<or> u_path u \<noteq> [] \<or> u_raw_query u \<noteq> []
             \<or> u_fragment u \<noteq> [] \<or> u_user u \<noteq> None then False
          else u_scheme u = u_scheme (deref (cfg_external_ui_url c))
             \<and> u_host u = u_host (deref (cfg_external_ui_url c)))"

section \<open>Facts\<close>

text \<open>What \<open>validateURL\<close> and \<open>validateAbsoluteURL\<close> accept.\<close>

definition origin_url :: "bool \<Rightarrow> url \<Rightarrow> bool" where
  "origin_url secure u \<longleftrightarrow>
     (if secure then u_scheme u = ''https'' else u_scheme u \<in> {''http'', ''https''})
     \<and> u_host u \<noteq> [] \<and> u_user u = None \<and> u_fragment u = []"

definition redirect_uri_ok :: "bool \<Rightarrow> string \<Rightarrow> bool" where
  "redirect_uri_ok secure v \<longleftrightarrow>
     (case url_parse v of
        None \<Rightarrow> False
      | Some u \<Rightarrow> u_scheme u \<in> {''http'', ''https''} \<and> u_host u \<noteq> [] \<and> u_user u = None
          \<and> u_fragment u = []
          \<and> (secure \<longrightarrow> u_scheme u = ''https'' \<or> hostname u \<in> {''127.0.0.1'', ''::1''}))"

definition claim_allowlist_ok :: "string list gomap \<Rightarrow> string list \<Rightarrow> bool" where
  "claim_allowlist_ok claims allowed \<longleftrightarrow>
     list_all (\<lambda>(name, required). trim_space name \<noteq> [] \<and> \<not> is_reserved_claim name
        \<and> distinct required \<and> set required \<subseteq> set allowed) claims"

definition client_ok :: "bool \<Rightarrow> string \<Rightarrow> config_client \<Rightarrow> bool" where
  "client_ok secure cid c \<longleftrightarrow>
     cc_id c = cid \<and> cc_allowed_redirect_uris c \<noteq> []
     \<and> list_all (redirect_uri_ok secure) (cc_allowed_redirect_uris c)
     \<and> list_all (redirect_uri_ok secure) (cc_allowed_post_logout_redirects c)
     \<and> distinct (cc_allowed_audiences c)
     \<and> claim_allowlist_ok (cc_allowed_id_token_claims c) (cc_allowed_scopes c)
     \<and> claim_allowlist_ok (cc_allowed_access_token_claims c) (cc_allowed_scopes c)
     \<and> claim_allowlist_ok (cc_allowed_user_info_claims c) (cc_allowed_scopes c)"

lemma validate_url_None: "validate_url v name secure = None \<longleftrightarrow> (\<exists>u. v = Some u \<and> origin_url secure u)"
  by (auto simp: validate_url_def origin_url_def split: option.splits)

lemma validate_absolute_url_None: "validate_absolute_url v secure True = None \<longleftrightarrow> redirect_uri_ok secure v"
  by (auto simp: validate_absolute_url_def redirect_uri_ok_def is_loopback_http_url_def
      split: option.splits if_splits)

lemma validate_claim_allowlist_None:
  "validate_claim_allowlist cid claims allowed = None \<Longrightarrow> claim_allowlist_ok claims allowed"
  unfolding validate_claim_allowlist_def claim_allowlist_ok_def list_all_iff first_error_None
  by (rule ballI, drule (1) bspec) (auto simp: validate_claim_entry_def split: if_splits)

lemma validate_client_entry_None:
  "validate_client_entry secure (cid, c) = None \<Longrightarrow> client_ok secure cid c"
  by (simp add: validate_client_entry_def Let_def first_some_None client_ok_def list_all_iff
      validate_absolute_url_None del: first_some.simps)
    (blast intro: validate_claim_allowlist_None)

text \<open>The facts about a validated configuration on which the service relies.\<close>

definition config_ok :: "config \<Rightarrow> bool" where
  "config_ok c \<longleftrightarrow>
     list_all (\<lambda>u. u \<noteq> None \<and> origin_url (is_secure_environment c) (the u))
       [cfg_provider_url c, cfg_external_ui_url c, cfg_hydra_admin_url c, cfg_hydra_public_url c,
        cfg_kratos_public_url c]
     \<and> (cfg_required_aal c = [] \<or> supported_aal (cfg_required_aal c))
     \<and> 0 < cfg_transaction_ttl c \<and> cfg_transaction_ttl c \<le> MaxTransactionTTL
     \<and> list_all (\<lambda>(acr, aal). trim_space acr \<noteq> [] \<and> supported_aal aal) (cfg_acr_mappings c)
     \<and> list_all (\<lambda>(cid, cl). client_ok (is_secure_environment c) cid cl) (cfg_clients c)"

lemma aal_at_least_refl_iff: "a \<noteq> [] \<Longrightarrow> aal_at_least a a \<longleftrightarrow> supported_aal a"
  by (auto simp: aal_at_least_def supported_aal_def split: option.splits)

lemma validate_oidc_acr_mappings_None:
  "validate_oidc_acr_mappings m = None \<Longrightarrow> (acr, aal) \<in> set m \<Longrightarrow> trim_space acr \<noteq> [] \<and> supported_aal aal"
  by (fastforce simp: validate_oidc_acr_mappings_def validate_acr_entry_def split: if_splits)

lemma validate_config_parts:
  assumes "validate_config c = Inr c'"
  shows "config_ok c"
    and "\<exists>m. validate_claim_mappings (cfg_identity_claim_mappings c) = Inr m
           \<and> c' = c\<lparr>cfg_identity_claim_mappings := m\<rparr>"
    and "validate_policy c (is_secure_environment c) = None"
proof -
  let ?secure = "secure_transport_required c"
  note split_it = assms [unfolded validate_config_def Let_def]
  from split_it show "\<exists>m. validate_claim_mappings (cfg_identity_claim_mappings c) = Inr m
           \<and> c' = c\<lparr>cfg_identity_claim_mappings := m\<rparr>"
    by (simp del: first_some.simps split: option.splits sum.splits)
  from split_it have one: "\<exists>u. cfg_provider_url c = Some u \<and> origin_url ?secure u"
      "\<exists>u. cfg_external_ui_url c = Some u \<and> origin_url ?secure u"
      "\<exists>u. cfg_hydra_admin_url c = Some u \<and> origin_url ?secure u"
      "\<exists>u. cfg_hydra_public_url c = Some u \<and> origin_url ?secure u"
      "\<exists>u. cfg_kratos_public_url c = Some u \<and> origin_url ?secure u"
      "cfg_required_aal c = [] \<or> aal_at_least (cfg_required_aal c) (cfg_required_aal c)"
      "0 < cfg_transaction_ttl c" "cfg_transaction_ttl c \<le> MaxTransactionTTL"
    by (simp_all add: first_some_None validate_url_None not_le del: first_some.simps
        split: option.splits sum.splits)
  from split_it have two: "validate_oidc_acr_mappings (cfg_acr_mappings c) = None"
      "validate_policy c ?secure = None"
      "first_error (validate_client_entry ?secure) (cfg_clients c) = None"
    by (simp_all add: first_some_None del: first_some.simps first_error_None
        split: option.splits sum.splits)
  from two(2) show "validate_policy c (is_secure_environment c) = None"
    by (simp add: is_secure_environment_def)
  have acr: "list_all (\<lambda>(acr, aal). trim_space acr \<noteq> [] \<and> supported_aal aal) (cfg_acr_mappings c)"
    using validate_oidc_acr_mappings_None [OF two(1)] by (auto simp: list_all_iff)
  have cl: "list_all (\<lambda>(cid, cl). client_ok ?secure cid cl) (cfg_clients c)"
    using two(3) validate_client_entry_None by (auto simp: list_all_iff)
  show "config_ok c"
    using one acr cl aal_at_least_refl_iff [of "cfg_required_aal c"]
    by (auto simp: config_ok_def is_secure_environment_def)
qed

lemma config_ok_mappings [simp]:
  "config_ok (c\<lparr>cfg_identity_claim_mappings := m\<rparr>) = config_ok c"
  by (simp add: config_ok_def is_secure_environment_def secure_transport_required_def)

lemma level_byte:
  fixes b :: nat
  assumes "b < 256" and "1 \<le> (b + 208) mod 256" and "(b + 208) mod 256 \<le> 3"
  shows "b \<in> {49, 50, 51}"
proof (cases "b < 48")
  case True
  then show ?thesis using assms by simp
next
  case False
  then have "b + 208 = (b - 48) + 256" by linarith
  then have "(b + 208) mod 256 = ((b - 48) + 256) mod 256" by (rule arg_cong)
  also have "\<dots> = b - 48" using assms(1) by (simp only: mod_add_self2) simp
  finally have "(b + 208) mod 256 = b - 48" .
  then have "b = 49 \<or> b = 50 \<or> b = 51" using assms False by linarith
  then show ?thesis by simp
qed

lemma aal_text:
  assumes "aal_level v = Some l"
  shows "to_lower (trim_space v) \<in> {''aal1'', ''aal2'', ''aal3''}"
proof -
  let ?w = "to_lower (trim_space v)"
  have p: "take 3 ?w = ''aal''" "length ?w = 4" and d: "1 \<le> (byte (?w ! 3) + 208) mod 256"
      "(byte (?w ! 3) + 208) mod 256 \<le> 3"
    using assms by (simp_all add: aal_level_def Let_def has_prefix_def numeral_3_eq_3 split: if_splits)
  have "?w = take 3 ?w @ [?w ! 3]"
    using p(2) take_Suc_conv_app_nth [of 3 ?w] by simp
  then have w: "?w = ''aal'' @ [?w ! 3]" by (simp only: p(1))
  have "byte (?w ! 3) \<in> {49, 50, 51}" using d by (intro level_byte byte_less)
  then have "byte (?w ! 3) = byte (CHR ''1'') \<or> byte (?w ! 3) = byte (CHR ''2'')
      \<or> byte (?w ! 3) = byte (CHR ''3'')" by simp
  then have "?w ! 3 = CHR ''1'' \<or> ?w ! 3 = CHR ''2'' \<or> ?w ! 3 = CHR ''3''"
    by (simp only: of_char_eq_iff)
  then show ?thesis using w by (metis append_Cons append_Nil insertI1 insertI2)
qed

lemma aal_plain: "w \<in> {''aal1'', ''aal2'', ''aal3''} \<Longrightarrow> supported_aal w"
  by (auto simp: supported_aal_def aal_level_def text_eval)

lemma supported_to_lower_trim: "supported_aal v \<Longrightarrow> supported_aal (to_lower (trim_space v))"
  using aal_text aal_plain by (auto simp: supported_aal_def)

lemma supported_to_lower: "supported_aal (trim_space v) \<Longrightarrow> supported_aal (to_lower (trim_space v))"
  using supported_to_lower_trim [of "trim_space v"] by (simp add: trim_space_idem)

lemma resolve_acr_loop_SomeD:
  "resolve_acr_loop m vs = Some (aal, acr) \<Longrightarrow>
     acr \<in> trim_space ` set vs
     \<and> (case map_get m acr of Some l \<Rightarrow> aal = to_lower (trim_space l)
        | None \<Rightarrow> supported_aal acr \<and> aal = to_lower acr)"
  by (induction vs) (auto simp: Let_def split: option.splits if_splits)

lemma resolve_acr_sound:
  assumes "config_ok c" and "resolve_acr c vs = Inr (aal, acr)" and "vs \<noteq> []"
  shows "supported_aal aal" and "acr \<in> trim_space ` set vs"
proof -
  have loop: "resolve_acr_loop (cfg_acr_mappings c) vs = Some (aal, acr)"
    using assms(2,3) by (auto simp: resolve_acr_def split: if_splits option.splits)
  note d = resolve_acr_loop_SomeD [OF loop]
  show "acr \<in> trim_space ` set vs" using d by simp
  then obtain v where v: "acr = trim_space v" by auto
  show "supported_aal aal"
  proof (cases "map_get (cfg_acr_mappings c) acr")
    case None
    then show ?thesis using d v supported_to_lower [of v] by auto
  next
    case (Some l)
    then have "supported_aal l"
      using assms(1) map_get_SomeD [OF Some] by (auto simp: config_ok_def list_all_iff)
    then show ?thesis using d Some supported_to_lower_trim by auto
  qed
qed

lemma resolve_acr_Nil: "resolve_acr c [] = Inr ([], [])"
  by (simp add: resolve_acr_def)

text \<open>The handoff query, read back.\<close>

lemma handoff_query:
  "map_get (fst (parse_query (values_encode (handoff_values flow tx csrf)))) k
     = map_get (handoff_values flow tx csrf) k"
  by (rule parse_encode) (simp_all add: handoff_values_def wf_map_def)

lemma set_if_wf: "wf_map q \<Longrightarrow> wf_map (set_if b k v q)"
  by (simp add: set_if_def values_set_def)

lemma set_if_get: "map_get (set_if b k v q) k' = (if b \<and> k' = k then Some [v] else map_get q k')"
  by (simp add: set_if_def values_set_def gomap)

lemma parse_encode_gets:
  assumes "wf_map m" and "\<forall>k. map_get m k \<noteq> Some []"
  shows "map_get (fst (parse_query (values_encode m))) k = map_get m k"
proof (rule parse_encode(1) [OF assms(1)])
  show "\<forall>kv\<in>set m. snd kv \<noteq> []"
  proof
    fix kv assume "kv \<in> set m"
    then show "snd kv \<noteq> []" using assms map_get_in [of m "fst kv" "snd kv"] by (cases kv) auto
  qed
qed

section \<open>A sample configuration\<close>

text \<open>The configuration of the witnesses: one client, HTTPS, no claim mappings.\<close>

definition sample_url :: "string \<Rightarrow> url" where
  "sample_url host = empty_url\<lparr>u_scheme := ''https'', u_host := host\<rparr>"

definition sample_client :: config_client where
  "sample_client = \<lparr>cc_id = ''c'', cc_allowed_redirect_uris = [''https://c''],
     cc_allowed_post_logout_redirects = [], cc_allowed_scopes = [''email''],
     cc_allowed_audiences = [''api''], cc_skip_consent = False,
     cc_allowed_id_token_claims = [(''email'', [''email''])],
     cc_allowed_access_token_claims = [], cc_allowed_user_info_claims = []\<rparr>"

definition sample_config :: config where
  "sample_config = \<lparr>cfg_listen_address = '':1'', cfg_environment = ''production'',
     cfg_provider_url = Some (sample_url ''p''), cfg_external_ui_url = Some (sample_url ''u''),
     cfg_hydra_admin_url = Some (sample_url ''a''), cfg_hydra_public_url = Some (sample_url ''h''),
     cfg_kratos_public_url = Some (sample_url ''k''), cfg_kratos_session_cookie = ''s'',
     cfg_required_aal = [], cfg_transaction_ttl = 60 * Second, cfg_max_pending_transactions = 0,
     cfg_max_challenge_length = 0, cfg_clients = [(''c'', sample_client)],
     cfg_policy_backend = [], cfg_policy_url = None, cfg_policy_issuer = None,
     cfg_identity_claim_mappings = [], cfg_acr_mappings = [(''gold'', ''aal2'')]\<rparr>"

lemma sample_origin_url: "h \<noteq> [] \<Longrightarrow> origin_url True (sample_url h)"
  by (simp add: origin_url_def sample_url_def empty_url_def)

lemma sample_secure: "secure_transport_required sample_config"
  by (simp add: secure_transport_required_def sample_config_def text_eval)

lemma sample_redirect_uri: "redirect_uri_ok True ''https://c''"
  by (simp add: redirect_uri_ok_def url_parse_def parse_no_fragment_def cut_def get_scheme_def
      is_alpha_def is_digit_def has_prefix_def has_suffix_def text_eval parse_after_query_def
      parse_authority_def last_index_def parse_host_def set_path_def empty_url_def escape_def
      should_escape_def is_alnum_def)

lemma sample_client_ok: "client_ok True ''c'' sample_client"
  by (simp add: client_ok_def sample_client_def sample_redirect_uri claim_allowlist_ok_def
      is_reserved_claim_def reserved_claims_def text_eval)

lemma sample_config_ok: "config_ok sample_config"
proof -
  have "supported_aal ''aal2''" by (simp add: supported_aal_def aal_level_def text_eval)
  then show ?thesis
    using sample_client_ok sample_origin_url
    by (simp add: config_ok_def is_secure_environment_def sample_secure)
      (simp add: sample_config_def text_eval MaxTransactionTTL_def Second_def)
qed

lemma validate_client_entry_ok:
  assumes "client_ok secure cid c" and "list_all (\<lambda>a. trim_space a \<noteq> []) (cc_allowed_audiences c)"
    and "cc_allowed_access_token_claims c = []" and "cc_allowed_user_info_claims c = []"
    and "validate_claim_allowlist cid (cc_allowed_id_token_claims c) (cc_allowed_scopes c) = None"
  shows "validate_client_entry secure (cid, c) = None"
  using assms by (simp add: validate_client_entry_def Let_def first_some_None client_ok_def list_all_iff
      list_ex_iff validate_absolute_url_None validate_claim_allowlist_def del: first_some.simps)

lemma sample_config_validates: "validate_config sample_config = Inr sample_config"
proof -
  have c: "validate_client_entry True (''c'', sample_client) = None"
    by (rule validate_client_entry_ok [OF sample_client_ok])
      (simp_all add: sample_client_def text_eval validate_claim_allowlist_def validate_claim_entry_def
        is_reserved_claim_def reserved_claims_def)
  have a: "supported_aal ''aal2''" by (simp add: supported_aal_def aal_level_def text_eval)
  have u: "validate_url (Some (sample_url h)) n True = None" if "h \<noteq> []" for h n
    using that by (simp add: validate_url_None sample_origin_url)
  have s: "secure_transport_required sample_config = True" using sample_secure by simp
  show ?thesis
    unfolding validate_config_def Let_def s
    by (simp add: sample_config_def u c a fail_if_def MaxTransactionTTL_def Second_def MaxChallengeLengthLimit_def
        validate_claim_mappings_def validate_oidc_acr_mappings_def validate_acr_entry_def text_eval
        validate_policy_def PolicyBackendStatic_def PolicyBackendHTTP_def)
qed

section \<open>Properties\<close>

text \<open>C29. A configuration that validates has what the rest of the provider relies on: the
  five service URLs are present origin URLs, HTTPS outside development and test; the
  required assurance level and all mapped levels are enforceable; the transaction lifetime
  is positive and at most 15 minutes; every client's redirect URIs are absolute URLs (HTTPS
  or loopback when transport must be secure), and its claim allowlists contain no reserved
  claim and require only scopes the client may be granted. Only the pointer cache of the
  claim mappings differs in the result.\<close>

theorem validated_config_sound:
  assumes "validate_config c = Inr c'"
  shows "config_ok c' \<and> (\<exists>m. c' = c\<lparr>cfg_identity_claim_mappings := m\<rparr>)"
  using validate_config_parts [OF assms] by auto

theorem validated_config_sound_witness: "config_ok sample_config"
  using validated_config_sound [OF sample_config_validates] by blast

text \<open>A request-specific assurance level that \<open>ResolveACR\<close> returns under a validated
  configuration is one the provider can enforce, and the ACR value reported back to Hydra
  is one of the requested values; without requested values there is neither.\<close>

theorem resolve_acr_enforceable:
  assumes "config_ok c" and "resolve_acr c vs = Inr (aal, acr)"
  shows "if vs = [] then aal = [] \<and> acr = []
         else supported_aal aal \<and> acr \<in> trim_space ` set vs"
  using assms resolve_acr_sound [OF assms] by (auto simp: resolve_acr_Nil)

theorem resolve_acr_enforceable_witness: "supported_aal ''aal2''"
proof -
  have "resolve_acr sample_config [''gold''] = Inr (''aal2'', ''gold'')"
    by (simp add: resolve_acr_def sample_config_def text_eval map_get_def)
  from resolve_acr_enforceable [OF sample_config_ok this] show ?thesis by simp
qed

text \<open>The redirect to the external UI is the configured URL with only its query
  replaced, and that query decodes to exactly the handoff: flow, transaction handle and
  CSRF token, the provider callback carrying the same three values, and for a login the
  filtered presentation hints, each present only when non-empty. Nothing the client or the
  user supplies can add or split a parameter.\<close>

theorem external_redirect_query:
  assumes "external_redirect c flow tx csrf hints = Inr r"
  shows "\<exists>q cb. r = url_string ((deref (cfg_external_ui_url c))\<lparr>u_raw_query := q\<rparr>)
    \<and> \<not> snd (parse_query q)
    \<and> (\<forall>k. map_get (fst (parse_query q)) k =
        (if k = ''flow'' then Some [flow]
         else if k = ''transaction'' then Some [tx]
         else if k = ''csrf'' then Some [csrf]
         else if k = ''return_to'' then Some [url_string ((callback_url c flow)\<lparr>u_raw_query := cb\<rparr>)]
         else if k = ''login_hint'' \<and> flow = FlowLogin \<and> hint_login (safe_login_ui_hints hints) \<noteq> []
           then Some [hint_login (safe_login_ui_hints hints)]
         else if k = ''ui_locales'' \<and> flow = FlowLogin \<and> hint_ui_locales (safe_login_ui_hints hints) \<noteq> []
           then Some [hint_ui_locales (safe_login_ui_hints hints)]
         else if k = ''display'' \<and> flow = FlowLogin \<and> hint_display (safe_login_ui_hints hints) \<noteq> []
           then Some [hint_display (safe_login_ui_hints hints)]
         else None))
    \<and> (\<forall>k. map_get (fst (parse_query cb)) k = map_get (handoff_values flow tx csrf) k)"
proof -
  let ?s = "safe_login_ui_hints hints"
  let ?cb = "values_encode (handoff_values flow tx csrf)"
  let ?rt = "url_string ((callback_url c flow)\<lparr>u_raw_query := ?cb\<rparr>)"
  define base where "base = handoff_values flow tx csrf @ [(''return_to'', [?rt])]"
  define m where "m = (if flow = FlowLogin
      then set_if (hint_display ?s \<noteq> []) ''display'' (hint_display ?s)
             (set_if (hint_ui_locales ?s \<noteq> []) ''ui_locales'' (hint_ui_locales ?s)
               (set_if (hint_login ?s \<noteq> []) ''login_hint'' (hint_login ?s) base))
      else base)"
  have r: "r = url_string ((deref (cfg_external_ui_url c))\<lparr>u_raw_query := values_encode m\<rparr>)"
    using assms by (simp add: external_redirect_def Let_def base_def m_def split: if_splits)
  have "wf_map base" by (simp add: base_def handoff_values_def wf_map_def)
  then have wf: "wf_map m" by (simp add: m_def set_if_wf)
  have base: "map_get base k = (if k = ''flow'' then Some [flow] else if k = ''transaction'' then Some [tx]
      else if k = ''csrf'' then Some [csrf] else if k = ''return_to'' then Some [?rt] else None)" for k
    by (simp add: base_def handoff_values_def map_get_def)
  have get: "map_get m k = (if flow = FlowLogin \<and> hint_display ?s \<noteq> [] \<and> k = ''display'' then Some [hint_display ?s]
      else if flow = FlowLogin \<and> hint_ui_locales ?s \<noteq> [] \<and> k = ''ui_locales'' then Some [hint_ui_locales ?s]
      else if flow = FlowLogin \<and> hint_login ?s \<noteq> [] \<and> k = ''login_hint'' then Some [hint_login ?s]
      else map_get base k)" for k
    by (simp add: m_def set_if_get)
  have q: "map_get (fst (parse_query (values_encode m))) k = map_get m k" for k
    by (rule parse_encode_gets [OF wf]) (simp add: get base)
  have "\<not> snd (parse_query (values_encode m))"
    by (simp add: values_encode_def parse_pairs)
  then show ?thesis
    by (intro exI [of _ "values_encode m"] exI [of _ ?cb] conjI allI r)
      (simp_all add: q get base handoff_query)
qed

theorem external_redirect_query_witness:
  "\<exists>q. map_get (fst (parse_query q)) ''transaction'' = Some [''t&x'']"
proof -
  obtain r where "external_redirect sample_config FlowLogin ''t&x'' ''k'' no_hints = Inr r"
    by (simp add: external_redirect_def flow_defs Let_def)
  from external_redirect_query [OF this]
  show ?thesis by (elim exE conjE) (intro exI, erule allE [where x = "''transaction''"], simp)
qed

text \<open>The origin check ignores an empty fragment: \<open>OriginAllowed\<close> decides an origin
  followed by \<open>#\<close> like the origin itself, so it does not compare the value exactly.\<close>

theorem origin_allowed_empty_fragment:
  assumes "CHR ''#'' \<notin> set v"
  shows "origin_allowed c (v @ ''#'') = origin_allowed c v"
proof -
  have "url_parse (v @ ''#'') = url_parse v"
    using assms cut_pair [of "CHR ''#''" v "[]"] by (simp add: url_parse_def cut_def)
  then show ?thesis by (simp add: origin_allowed_def)
qed

theorem origin_allowed_empty_fragment_witness:
  "origin_allowed sample_config ''https://u#'' = origin_allowed sample_config ''https://u''"
  using origin_allowed_empty_fragment [of "''https://u''" sample_config] by simp

end
