(* ===== verification/EnvConfig.thy ===== *)
theory EnvConfig
  imports CoreConfig
begin

text \<open>
  Loading the configuration from the environment: \<open>internal/config/config.go\<close>. The
  environment is a function from names to values (an unset variable is empty). The JSON
  decoders of the clients, the ACR mappings and the claim mappings, and
  \<open>time.ParseDuration\<close>, are parameters.
\<close>

type_synonym env = "string \<Rightarrow> string"

record env_lib =
  el_duration :: "string \<Rightarrow> int option"
  el_clients :: "string \<Rightarrow> config_client gomap option"
  el_acr_mappings :: "string \<Rightarrow> string gomap option"
  el_claim_mappings :: "string \<Rightarrow> goerr + claim_mappings \<times> trailing"

definition required_url :: "env \<Rightarrow> string \<Rightarrow> url option res" where
  "required_url getenv name =
     (let value = trim_space (getenv name) in
      if value = [] then Inl (Msg (name @ '' is required''))
      else case url_parse value of
        None \<Rightarrow> Inl (Msg (''parse '' @ name))
      | Some u \<Rightarrow>
          if u_scheme u \<noteq> ''http'' \<and> u_scheme u \<noteq> ''https'' then Inl (Msg (name @ '' must use http or https''))
          else if u_host u = [] \<or> u_user u \<noteq> None \<or> u_fragment u \<noteq> []
          then Inl (Msg (name @ '' must be an origin URL without credentials or fragments''))
          else Inr (Some u))"

definition optional_url :: "env \<Rightarrow> string \<Rightarrow> url option res" where
  "optional_url getenv name =
     (let value = trim_space (getenv name) in
      if value = [] then Inr None
      else case url_parse value of
        None \<Rightarrow> Inl (Msg (''parse '' @ name))
      | Some u \<Rightarrow>
          if u_scheme u \<noteq> ''http'' \<and> u_scheme u \<noteq> ''https'' then Inl (Msg (name @ '' must use http or https''))
          else if u_host u = [] \<or> u_user u \<noteq> None \<or> u_fragment u \<noteq> []
          then Inl (Msg (name @ '' must be an absolute URL without credentials or fragments''))
          else Inr (Some u))"

definition env_or_default :: "env \<Rightarrow> string \<Rightarrow> string \<Rightarrow> string" where
  "env_or_default getenv name fallback =
     (let value = trim_space (getenv name) in if value \<noteq> [] then value else fallback)"

definition parse_acr_mappings :: "env_lib \<Rightarrow> string \<Rightarrow> string gomap res" where
  "parse_acr_mappings lib text =
     (let raw = trim_space text in
      if raw = [] then Inr []
      else case el_acr_mappings lib raw of
        None \<Rightarrow> Inl (Msg ''parse oidc_acr_mappings'')
      | Some m \<Rightarrow> Inr m)"

text \<open>A numeric variable with a default: \<open>TRANSACTION_TTL\<close> and the two limits.\<close>

definition env_number :: "(string \<Rightarrow> int option) \<Rightarrow> env \<Rightarrow> string \<Rightarrow> int \<Rightarrow> string \<Rightarrow> int res" where
  "env_number parse getenv name fallback msg =
     (let value = trim_space (getenv name) in
      if value = [] then Inr fallback
      else case parse value of None \<Rightarrow> Inl (Msg msg) | Some n \<Rightarrow> Inr n)"

definition lower_or_default :: "env \<Rightarrow> string \<Rightarrow> string \<Rightarrow> string" where
  "lower_or_default getenv name fallback =
     (let value = to_lower (trim_space (getenv name)) in if value = [] then fallback else value)"

definition load_clients :: "env_lib \<Rightarrow> string \<Rightarrow> config_client gomap res" where
  "load_clients lib text =
     (let raw = trim_space text in
      if raw = [] then Inr []
      else case el_clients lib raw of
        None \<Rightarrow> Inl (Msg ''parse allowed_clients'')
      | Some m \<Rightarrow> Inr m)"

definition fill_client_ids :: "config_client gomap \<Rightarrow> config_client gomap" where
  "fill_client_ids m = map (\<lambda>(cid, c). (cid, if cc_id c = [] then c\<lparr>cc_id := cid\<rparr> else c)) m"

definition and_then :: "'a res \<Rightarrow> ('a \<Rightarrow> 'b res) \<Rightarrow> 'b res" where
  "and_then r f = (case r of Inl e \<Rightarrow> Inl e | Inr x \<Rightarrow> f x)"

definition load_config :: "env_lib \<Rightarrow> env \<Rightarrow> config res" where
  "load_config lib getenv =
     and_then (required_url getenv ''PUBLIC_URL'') (\<lambda>provider_url.
     and_then (required_url getenv ''EXTERNAL_UI_URL'') (\<lambda>external_ui_url.
     and_then (required_url getenv ''HYDRA_ADMIN_URL'') (\<lambda>hydra_admin_url.
     and_then (required_url getenv ''HYDRA_PUBLIC_URL'') (\<lambda>hydra_public_url.
     and_then (required_url getenv ''KRATOS_PUBLIC_URL'') (\<lambda>kratos_public_url.
     and_then (env_number (el_duration lib) getenv ''TRANSACTION_TTL'' DefaultTransactionTTL
       ''parse transaction_ttl'') (\<lambda>ttl.
     and_then (env_number parse_int64 getenv ''MAX_PENDING_TRANSACTIONS'' DefaultMaxPendingTransactions
       ''parse max_pending_transactions'') (\<lambda>max_pending.
     and_then (env_number parse_int64 getenv ''MAX_CHALLENGE_LENGTH'' DefaultMaxChallengeLength
       ''parse max_challenge_length'') (\<lambda>max_challenge.
     let environment = lower_or_default getenv ''ENVIRONMENT'' ''development'';
         policy_backend = lower_or_default getenv ''POLICY_BACKEND'' PolicyBackendStatic in
     and_then (optional_url getenv ''POLICY_URL'') (\<lambda>policy_url.
     and_then (optional_url getenv ''POLICY_ISSUER'') (\<lambda>policy_issuer.
     and_then (case parse_mappings_json (el_claim_mappings lib) (getenv ''OIDC_IDENTITY_CLAIM_MAPPINGS'') of
         Inl e \<Rightarrow> Inl (Wrap ''parse oidc_identity_claim_mappings'' [e])
       | Inr m \<Rightarrow> Inr m) (\<lambda>mappings.
     and_then (parse_acr_mappings lib (getenv ''OIDC_ACR_MAPPINGS'')) (\<lambda>acr_mappings.
     and_then (load_clients lib (getenv ''ALLOWED_CLIENTS'')) (\<lambda>clients.
     validate_config
       \<lparr>cfg_listen_address = env_or_default getenv ''LISTEN_ADDR'' '':8080'',
        cfg_environment = environment,
        cfg_provider_url = provider_url,
        cfg_external_ui_url = external_ui_url,
        cfg_hydra_admin_url = hydra_admin_url,
        cfg_hydra_public_url = hydra_public_url,
        cfg_kratos_public_url = kratos_public_url,
        cfg_kratos_session_cookie = env_or_default getenv ''KRATOS_SESSION_COOKIE'' ''ory_kratos_session'',
        cfg_required_aal = env_or_default getenv ''REQUIRED_AAL'' ''aal2'',
        cfg_transaction_ttl = ttl,
        cfg_max_pending_transactions = max_pending,
        cfg_max_challenge_length = max_challenge,
        cfg_clients = fill_client_ids clients,
        cfg_policy_backend = policy_backend,
        cfg_policy_url = policy_url,
        cfg_policy_issuer = policy_issuer,
        cfg_identity_claim_mappings = mappings,
        cfg_acr_mappings = acr_mappings\<rparr>)))))))))))))"

section \<open>Lemmas\<close>

lemma and_then_Inr: "and_then r f = Inr y \<longleftrightarrow> (\<exists>x. r = Inr x \<and> f x = Inr y)"
  by (simp add: and_then_def split: sum.split)

lemma env_or_default_nonempty: "fallback \<noteq> [] \<Longrightarrow> env_or_default getenv name fallback \<noteq> []"
  by (simp add: env_or_default_def Let_def)

lemma lower_or_default_nonempty: "fallback \<noteq> [] \<Longrightarrow> lower_or_default getenv name fallback \<noteq> []"
  by (simp add: lower_or_default_def Let_def)

lemma load_config_raw:
  assumes "load_config lib getenv = Inr cfg"
  obtains raw where "validate_config raw = Inr cfg"
    "cfg_required_aal raw = env_or_default getenv ''REQUIRED_AAL'' ''aal2''"
    "cfg_environment raw = lower_or_default getenv ''ENVIRONMENT'' ''development''"
    "cfg_policy_backend raw = lower_or_default getenv ''POLICY_BACKEND'' PolicyBackendStatic"
    "cfg_kratos_session_cookie raw = env_or_default getenv ''KRATOS_SESSION_COOKIE'' ''ory_kratos_session''"
  using assms by (auto simp: load_config_def and_then_Inr Let_def)

text \<open>Validation changes only the cached pointers of the claim mappings.\<close>

lemma validated_fields:
  assumes "validate_config c = Inr c'"
  obtains m where "c' = c\<lparr>cfg_identity_claim_mappings := m\<rparr>"
  using validate_config_parts(2) [OF assms] by blast

lemma loaded_config:
  assumes "load_config lib getenv = Inr cfg"
  shows "config_ok cfg" and "supported_aal (cfg_required_aal cfg)" and "cfg_required_aal cfg \<noteq> []"
    and "cfg_environment cfg \<noteq> []" and "validate_policy cfg (is_secure_environment cfg) = None"
    and "cfg_kratos_session_cookie cfg \<noteq> []" and "cfg_policy_backend cfg \<noteq> []"
proof -
  obtain raw where r: "validate_config raw = Inr cfg"
    "cfg_required_aal raw = env_or_default getenv ''REQUIRED_AAL'' ''aal2''"
    "cfg_environment raw = lower_or_default getenv ''ENVIRONMENT'' ''development''"
    "cfg_policy_backend raw = lower_or_default getenv ''POLICY_BACKEND'' PolicyBackendStatic"
    "cfg_kratos_session_cookie raw = env_or_default getenv ''KRATOS_SESSION_COOKIE'' ''ory_kratos_session''"
    by (rule load_config_raw [OF assms])
  obtain m where m: "cfg = raw\<lparr>cfg_identity_claim_mappings := m\<rparr>" by (rule validated_fields [OF r(1)])
  show aal: "cfg_required_aal cfg \<noteq> []" using r(2) by (simp add: m env_or_default_nonempty)
  show ok: "config_ok cfg" using validate_config_parts(1) [OF r(1)] by (simp add: m)
  show "supported_aal (cfg_required_aal cfg)" using ok aal by (simp add: config_ok_def)
  show "cfg_environment cfg \<noteq> []" using r(3) by (simp add: m lower_or_default_nonempty)
  show "cfg_kratos_session_cookie cfg \<noteq> []" using r(5) by (simp add: m env_or_default_nonempty)
  show "cfg_policy_backend cfg \<noteq> []" using r(4) by (simp add: m lower_or_default_nonempty PolicyBackendStatic_def)
  have f: "cfg_policy_url cfg = cfg_policy_url raw" "cfg_policy_issuer cfg = cfg_policy_issuer raw"
    "cfg_policy_backend cfg = cfg_policy_backend raw" by (simp_all add: m)
  have "validate_policy cfg b = validate_policy raw b" for b unfolding validate_policy_def f ..
  moreover have "is_secure_environment cfg = is_secure_environment raw"
    by (simp add: m is_secure_environment_def secure_transport_required_def)
  ultimately show "validate_policy cfg (is_secure_environment cfg) = None"
    using validate_config_parts(3) [OF r(1)] by simp
qed

lemma fill_client_ids_keys: "(cid, c) \<in> set (fill_client_ids m) \<Longrightarrow> cc_id c \<noteq> [] \<or> cid = []"
  by (auto simp: fill_client_ids_def split: if_splits)

section \<open>Properties\<close>

lemma sample_url_parse:
  "url_parse ''https://p'' = Some (sample_url ''p'')" "url_parse ''https://u'' = Some (sample_url ''u'')"
  "url_parse ''https://a'' = Some (sample_url ''a'')" "url_parse ''https://h'' = Some (sample_url ''h'')"
  "url_parse ''https://k'' = Some (sample_url ''k'')"
  by (simp_all add: url_parse_def parse_no_fragment_def cut_def get_scheme_def is_alpha_def is_digit_def
      has_prefix_def has_suffix_def text_eval parse_after_query_def parse_authority_def last_index_def
      parse_host_def set_path_def empty_url_def escape_def should_escape_def is_alnum_def sample_url_def)

definition sample_env :: env where
  "sample_env n =
     (if n = ''PUBLIC_URL'' then ''https://p'' else if n = ''EXTERNAL_UI_URL'' then ''https://u''
      else if n = ''HYDRA_ADMIN_URL'' then ''https://a'' else if n = ''HYDRA_PUBLIC_URL'' then ''https://h''
      else if n = ''KRATOS_PUBLIC_URL'' then ''https://k'' else [])"

definition sample_env_lib :: env_lib where
  "sample_env_lib = \<lparr>el_duration = (\<lambda>s. None), el_clients = (\<lambda>s. None), el_acr_mappings = (\<lambda>s. None),
     el_claim_mappings = (\<lambda>s. Inl (Msg []))\<rparr>"

lemma sample_required_url:
  "required_url sample_env ''PUBLIC_URL'' = Inr (Some (sample_url ''p''))"
  "required_url sample_env ''EXTERNAL_UI_URL'' = Inr (Some (sample_url ''u''))"
  "required_url sample_env ''HYDRA_ADMIN_URL'' = Inr (Some (sample_url ''a''))"
  "required_url sample_env ''HYDRA_PUBLIC_URL'' = Inr (Some (sample_url ''h''))"
  "required_url sample_env ''KRATOS_PUBLIC_URL'' = Inr (Some (sample_url ''k''))"
  by (simp_all add: required_url_def sample_env_def text_eval sample_url_parse)
    (simp_all add: sample_url_def empty_url_def)

definition sample_loaded :: config where
  "sample_loaded = \<lparr>cfg_listen_address = '':8080'', cfg_environment = ''development'',
     cfg_provider_url = Some (sample_url ''p''), cfg_external_ui_url = Some (sample_url ''u''),
     cfg_hydra_admin_url = Some (sample_url ''a''), cfg_hydra_public_url = Some (sample_url ''h''),
     cfg_kratos_public_url = Some (sample_url ''k''), cfg_kratos_session_cookie = ''ory_kratos_session'',
     cfg_required_aal = ''aal2'', cfg_transaction_ttl = DefaultTransactionTTL,
     cfg_max_pending_transactions = DefaultMaxPendingTransactions,
     cfg_max_challenge_length = DefaultMaxChallengeLength, cfg_clients = [], cfg_policy_backend = ''static'',
     cfg_policy_url = None, cfg_policy_issuer = None, cfg_identity_claim_mappings = [], cfg_acr_mappings = []\<rparr>"

lemma sample_loaded_validates: "validate_config sample_loaded = Inr sample_loaded"
proof -
  have "supported_aal ''aal2''" by (simp add: supported_aal_def aal_level_def text_eval)
  then have a: "aal_at_least ''aal2'' ''aal2''" by (rule aal_at_least_self)
  have u: "validate_url (Some (sample_url h)) n b = None" if "h \<noteq> []" for h n b
    using that by (simp add: validate_url_def sample_url_def empty_url_def)
  show ?thesis
    by (simp add: validate_config_def sample_loaded_def fail_if_def u a validate_claim_mappings_def validate_oidc_acr_mappings_def
        validate_policy_def PolicyBackendStatic_def PolicyBackendHTTP_def DefaultTransactionTTL_def MaxTransactionTTL_def
        Second_def DefaultMaxPendingTransactions_def DefaultMaxChallengeLength_def MaxChallengeLengthLimit_def Let_def)
qed

lemma sample_load: "load_config sample_env_lib sample_env = Inr sample_loaded"
proof -
  have "load_config sample_env_lib sample_env = validate_config sample_loaded"
    by (simp add: load_config_def sample_required_url and_then_def)
      (simp add: env_number_def lower_or_default_def optional_url_def parse_mappings_json_def parse_acr_mappings_def
        load_clients_def sample_env_def text_eval fill_client_ids_def sample_loaded_def env_or_default_def
        PolicyBackendStatic_def and_then_def)
  then show ?thesis by (simp add: sample_loaded_validates)
qed

text \<open>C40. A configuration that is loaded from the environment is valid, names its environment,
  session cookie and policy backend, and always demands an assurance level: an empty
  \<open>REQUIRED_AAL\<close> means \<open>aal2\<close>, so no deployment runs without one.\<close>

theorem loaded_config_sound:
  assumes "load_config lib getenv = Inr cfg"
  shows "config_ok cfg \<and> cfg_environment cfg \<noteq> [] \<and> cfg_kratos_session_cookie cfg \<noteq> []
    \<and> cfg_policy_backend cfg \<in> {''static'', ''http''}
    \<and> cfg_required_aal cfg \<noteq> [] \<and> supported_aal (cfg_required_aal cfg)"
proof -
  note l = loaded_config [OF assms]
  have "cfg_policy_backend cfg \<in> {''static'', ''http''}"
    using l(5,7) by (auto simp: validate_policy_def Let_def PolicyBackendStatic_def PolicyBackendHTTP_def
        split: option.splits)
  then show ?thesis using l by simp
qed

theorem loaded_config_sound_witness: "config_ok sample_loaded"
  using loaded_config_sound [OF sample_load] by simp

end
