(* ===== verification/Ports.thy ===== *)
theory Ports
  imports CoreConfig
begin

text \<open>
  The ports of \<open>internal/core/ports/ports.go\<close> and the world a provider flow runs in.

  The adapters behind the ports (Hydra, Kratos, the policy, the clock and the random source)
  are given by a record of functions. Each takes the number of the call, so that no two
  calls need to agree: a statement about every such record is a statement about every
  behaviour of the adapters over time. The world carries the store, the admission state of
  the service, the number of calls made so far, and a log of the calls that reach another
  system, in the order they are made.
\<close>

section \<open>Inputs and results of the driving port\<close>

record redirect_result =
  rr_url :: string
  rr_browser_state :: string

record session_credentials =
  sc_cookie_name :: string
  sc_cookie_value :: string
  sc_token :: string

record consent_input =
  ci_transaction :: string
  ci_csrf_token :: string
  ci_browser_state :: string
  ci_decision :: string
  ci_grant_scopes :: "string list"
  ci_grant_audience :: "string list"
  ci_credentials :: session_credentials
  ci_remember :: bool
  ci_remember_for :: int

record login_input =
  li_csrf_token :: string
  li_browser_state :: string
  li_credentials :: session_credentials
  li_remember :: bool
  li_remember_for :: int

record logout_input =
  oi_transaction :: string
  oi_csrf_token :: string
  oi_browser_state :: string

section \<open>Driven ports\<close>

record login_acceptance =
  la_subject :: string
  la_acr :: string
  la_amr :: "string list"
  la_remember :: bool
  la_remember_for :: int

record consent_acceptance =
  ca_grant_scopes :: "string list"
  ca_grant_audience :: "string list"
  ca_session :: claims
  ca_remember :: bool
  ca_remember_for :: int

record rejection =
  rj_error :: string
  rj_error_description :: string

record policy_input =
  pi_issuer :: string
  pi_subject :: string
  pi_client_id :: string
  pi_requested_scopes :: "string list"
  pi_granted_scopes :: "string list"
  pi_requested_audiences :: "string list"
  pi_granted_audiences :: "string list"
  pi_aal :: string
  pi_amr :: "string list"

record consent_decision =
  cd_allowed :: bool
  cd_granted_scopes :: "string list"
  cd_granted_audiences :: "string list"
  cd_claims :: claims

record ports =
  p_now :: "nat \<Rightarrow> time"
  p_rand :: "nat \<Rightarrow> (nat \<Rightarrow> char) option"
  p_get_login :: "nat \<Rightarrow> string \<Rightarrow> login_request res"
  p_accept_login :: "nat \<Rightarrow> string \<Rightarrow> login_acceptance \<Rightarrow> string res"
  p_reject_login :: "nat \<Rightarrow> string \<Rightarrow> rejection \<Rightarrow> string res"
  p_get_consent :: "nat \<Rightarrow> string \<Rightarrow> consent_request res"
  p_accept_consent :: "nat \<Rightarrow> string \<Rightarrow> consent_acceptance \<Rightarrow> string res"
  p_reject_consent :: "nat \<Rightarrow> string \<Rightarrow> rejection \<Rightarrow> string res"
  p_get_logout :: "nat \<Rightarrow> string \<Rightarrow> logout_request res"
  p_accept_logout :: "nat \<Rightarrow> string \<Rightarrow> string res"
  p_validate_session :: "nat \<Rightarrow> session_credentials \<Rightarrow> session_info res"
  p_authorize_login :: "nat \<Rightarrow> policy_input \<Rightarrow> bool res"
  p_authorize_consent :: "nat \<Rightarrow> policy_input \<Rightarrow> consent_decision res"
  p_ready :: "nat \<Rightarrow> nat \<Rightarrow> goerr option"

text \<open>The operations of \<open>ports.TransactionStore\<close> on a store state.\<close>

record 's store_ops =
  so_create :: "transaction \<Rightarrow> ('s, string res) state"
  so_get :: "string \<Rightarrow> ('s, transaction res) state"
  so_consume :: "string \<Rightarrow> ('s, transaction res) state"

section \<open>The world\<close>

datatype event =
    GetLogin string
  | AcceptLogin string login_acceptance
  | RejectLogin string rejection
  | GetConsent string
  | AcceptConsent string consent_acceptance
  | RejectConsent string rejection
  | GetLogout string
  | AcceptLogout string
  | ValidateSession session_credentials
  | AuthorizeLogin policy_input
  | AuthorizeConsent policy_input

text \<open>The fields of \<open>transactionAdmission\<close>; its clock is that of the service.\<close>

record admission =
  ad_max :: int
  ad_reserved :: int
  ad_active :: "time gomap"

record 's world =
  w_store :: 's
  w_admission :: admission
  w_tick :: nat
  w_log :: "event list"

text \<open>A call that is not logged (the clock, the random source) and one that is.\<close>

definition ask :: "(nat \<Rightarrow> 'a) \<Rightarrow> ('s world, 'a) state" where
  "ask f = State (\<lambda>w. (f (w_tick w), w\<lparr>w_tick := Suc (w_tick w)\<rparr>))"

definition port_call :: "event \<Rightarrow> (nat \<Rightarrow> 'a) \<Rightarrow> ('s world, 'a) state" where
  "port_call e f =
     State (\<lambda>w. (f (w_tick w), w\<lparr>w_tick := Suc (w_tick w), w_log := w_log w @ [e]\<rparr>))"

definition on_store :: "('s, 'a) state \<Rightarrow> ('s world, 'a) state" where
  "on_store m = State (\<lambda>w. case run_state m (w_store w) of (r, s) \<Rightarrow> (r, w\<lparr>w_store := s\<rparr>))"

definition on_admission :: "(admission \<Rightarrow> 'a \<times> admission) \<Rightarrow> ('s world, 'a) state" where
  "on_admission f = State (\<lambda>w. case f (w_admission w) of (r, a) \<Rightarrow> (r, w\<lparr>w_admission := a\<rparr>))"

lemma wp_ask [wp]: "wp (ask f) Q w = Q (f (w_tick w)) (w\<lparr>w_tick := Suc (w_tick w)\<rparr>)"
  by (simp add: ask_def wp_State)

lemma wp_port_call [wp]:
  "wp (port_call e f) Q w = Q (f (w_tick w)) (w\<lparr>w_tick := Suc (w_tick w), w_log := w_log w @ [e]\<rparr>)"
  by (simp add: port_call_def wp_State)

lemma wp_on_store: "wp (on_store m) Q w = wp m (\<lambda>r s. Q r (w\<lparr>w_store := s\<rparr>)) (w_store w)"
  by (simp add: on_store_def wp_State wp_def split: prod.split)

lemma wp_on_admission [wp]:
  "wp (on_admission f) Q w = (case f (w_admission w) of (r, a) \<Rightarrow> Q r (w\<lparr>w_admission := a\<rparr>))"
  by (simp add: on_admission_def wp_State split: prod.split)

text \<open>
  Hydra is told a decision by exactly these calls.
\<close>

fun is_decision :: "event \<Rightarrow> bool" where
  "is_decision (AcceptLogin c a) = True"
| "is_decision (RejectLogin c r) = True"
| "is_decision (AcceptConsent c a) = True"
| "is_decision (RejectConsent c r) = True"
| "is_decision (AcceptLogout c) = True"
| "is_decision _ = False"

fun is_acceptance :: "event \<Rightarrow> bool" where
  "is_acceptance (AcceptLogin c a) = True"
| "is_acceptance (AcceptConsent c a) = True"
| "is_acceptance (AcceptLogout c) = True"
| "is_acceptance _ = False"

definition decisions :: "event list \<Rightarrow> event list" where
  "decisions es = filter is_decision es"

text \<open>\<open>new_events w w' es\<close>: the calls made from \<open>w\<close> to \<open>w'\<close> are \<open>es\<close>.\<close>

definition new_events :: "'s world \<Rightarrow> 's world \<Rightarrow> event list \<Rightarrow> bool" where
  "new_events w w' es \<longleftrightarrow> w_log w' = w_log w @ es"

section \<open>Random tokens\<close>

text \<open>
  Thirty-two random bytes in base64url without padding: \<open>newOpaqueToken\<close> and
  \<open>randomHandle\<close>.
\<close>

definition token_of :: "(nat \<Rightarrow> char) \<Rightarrow> string" where
  "token_of bytes = b64_encode (map bytes [0..<32])"

lemma length_token_of: "length (token_of f) = 43"
  by (simp add: token_of_def length_b64_encode)

end
