(* ===== verification/Admission.thy ===== *)
theory Admission
  imports Ports
begin

text \<open>
  \<open>transactionAdmission\<close> of \<open>internal/core/application/service.go\<close>: the counter that
  bounds the number of pending transactions. A slot is reserved before the store is asked to
  create a transaction, and the reservation is then either committed under the handle or
  cancelled. Each method is one critical section, so concurrent use is some interleaving of
  the steps below; the step relation keeps the number of reservations that are still open
  as a ghost component.
\<close>

definition new_transaction_admission :: "int \<Rightarrow> admission" where
  "new_transaction_admission max_pending =
     \<lparr>ad_max = (if max_pending \<le> 0 then DefaultMaxPendingTransactions else max_pending),
      ad_reserved = 0, ad_active = []\<rparr>"

definition adm_remove_expired :: "time \<Rightarrow> admission \<Rightarrow> admission" where
  "adm_remove_expired now a =
     a\<lparr>ad_active := map_filter_entries (\<lambda>h expires. after expires now) (ad_active a)\<rparr>"

definition adm_reserve :: "time \<Rightarrow> time \<Rightarrow> admission \<Rightarrow> bool \<times> admission" where
  "adm_reserve expires now a =
     (if \<not> after expires now then (False, a)
      else if int (length (ad_active a)) + ad_reserved a \<ge> ad_max a then
        (let b = adm_remove_expired now a in
         if int (length (ad_active b)) + ad_reserved b \<ge> ad_max b then (False, b)
         else (True, b\<lparr>ad_reserved := ad_reserved b + 1\<rparr>))
      else (True, a\<lparr>ad_reserved := ad_reserved a + 1\<rparr>))"

definition adm_commit :: "string \<Rightarrow> time \<Rightarrow> admission \<Rightarrow> admission" where
  "adm_commit handle expires a =
     (let b = (if ad_reserved a > 0 then a\<lparr>ad_reserved := ad_reserved a - 1\<rparr> else a) in
      b\<lparr>ad_active := map_put handle expires (ad_active b)\<rparr>)"

definition adm_cancel :: "admission \<Rightarrow> admission" where
  "adm_cancel a = (if ad_reserved a > 0 then a\<lparr>ad_reserved := ad_reserved a - 1\<rparr> else a)"

definition adm_release :: "string \<Rightarrow> admission \<Rightarrow> admission" where
  "adm_release handle a = a\<lparr>ad_active := map_del handle (ad_active a)\<rparr>"

section \<open>Interleavings\<close>

inductive adm_step :: "admission \<times> nat \<Rightarrow> admission \<times> nat \<Rightarrow> bool" where
  reserve_ok: "adm_reserve expires now a = (True, b) \<Longrightarrow> adm_step (a, n) (b, Suc n)"
| reserve_full: "adm_reserve expires now a = (False, b) \<Longrightarrow> adm_step (a, n) (b, n)"
| commit: "adm_step (a, Suc n) (adm_commit handle expires a, n)"
| cancel: "adm_step (a, Suc n) (adm_cancel a, n)"
| release: "adm_step (a, n) (adm_release handle a, n)"

inductive_cases adm_stepE: "adm_step (a, n) (b, m)"

inductive adm_reachable :: "int \<Rightarrow> admission \<times> nat \<Rightarrow> bool" for max_pending where
  init: "adm_reachable max_pending (new_transaction_admission max_pending, 0)"
| step: "adm_reachable max_pending s \<Longrightarrow> adm_step s s' \<Longrightarrow> adm_reachable max_pending s'"

definition adm_inv :: "int \<Rightarrow> admission \<times> nat \<Rightarrow> bool" where
  "adm_inv limit s \<longleftrightarrow>
     (case s of (a, n) \<Rightarrow> ad_max a = limit \<and> ad_reserved a = int n \<and> wf_map (ad_active a)
        \<and> int (length (ad_active a)) + ad_reserved a \<le> limit)"

lemma adm_remove_expired_length:
  "length (ad_active (adm_remove_expired now a)) \<le> length (ad_active a)"
  by (simp add: adm_remove_expired_def length_filter_entries_le)

lemma adm_reserve_inv:
  assumes "adm_inv limit (a, n)" and "adm_reserve expires now a = (ok, b)"
  shows "adm_inv limit (b, if ok then Suc n else n)"
proof -
  let ?r = "adm_remove_expired now a"
  have r: "adm_inv limit (?r, n)"
    using assms(1) adm_remove_expired_length [of now a]
    by (auto simp: adm_inv_def adm_remove_expired_def)
  have grow: "adm_inv limit (x\<lparr>ad_reserved := ad_reserved x + 1\<rparr>, Suc n)"
    if "adm_inv limit (x, n)" and "int (length (ad_active x)) + ad_reserved x < ad_max x" for x
    using that by (simp add: adm_inv_def)
  show ?thesis
    using assms(2) assms(1) r grow [OF assms(1)] grow [OF r]
    by (auto simp: adm_reserve_def Let_def split: if_splits)
qed

lemma adm_step_inv: "adm_step s s' \<Longrightarrow> adm_inv limit s \<Longrightarrow> adm_inv limit s'"
proof (induction rule: adm_step.induct)
  case (reserve_ok expires now a b n)
  then show ?case using adm_reserve_inv [of limit a n expires now True b] by simp
next
  case (reserve_full expires now a b n)
  then show ?case using adm_reserve_inv [of limit a n expires now False b] by simp
next
  case (commit a n handle expires)
  then show ?case by (auto simp: adm_inv_def adm_commit_def Let_def length_map_put)
next
  case (cancel a n)
  then show ?case by (auto simp: adm_inv_def adm_cancel_def)
next
  case (release a n handle)
  then show ?case using length_map_del_le [of handle "ad_active a"]
    by (auto simp: adm_inv_def adm_release_def)
qed

definition effective_limit :: "int \<Rightarrow> int" where
  "effective_limit max_pending = (if max_pending \<le> 0 then DefaultMaxPendingTransactions else max_pending)"

lemma adm_reachable_inv: "adm_reachable max_pending s \<Longrightarrow> adm_inv (effective_limit max_pending) s"
proof (induction rule: adm_reachable.induct)
  case init
  then show ?case
    by (simp add: adm_inv_def new_transaction_admission_def effective_limit_def
        DefaultMaxPendingTransactions_def)
next
  case (step s s')
  then show ?case using adm_step_inv by blast
qed

definition unexpired :: "time \<Rightarrow> admission \<Rightarrow> nat" where
  "unexpired now a = length (ad_active (adm_remove_expired now a))"

section \<open>Properties\<close>

text \<open>C27. In every interleaving of reservations, commits, cancellations and releases the
  pending transactions and the open reservations together never exceed the configured
  maximum, and no reservation is lost or counted twice.\<close>

theorem admission_bounded:
  assumes "adm_reachable max_pending (a, n)"
  shows "int (length (ad_active a)) + ad_reserved a \<le> effective_limit max_pending
    \<and> ad_reserved a = int n"
  using adm_reachable_inv [OF assms] by (simp add: adm_inv_def)

theorem admission_bounded_witness: "ad_reserved (fst (snd (adm_reserve 9 5 (new_transaction_admission 2)), 1 :: nat)) = 1"
proof -
  let ?b = "snd (adm_reserve 9 5 (new_transaction_admission 2))"
  have "adm_reserve 9 5 (new_transaction_admission 2) = (True, ?b)"
    by (simp add: adm_reserve_def new_transaction_admission_def after_def)
  from adm_reachable.step [OF adm_reachable.init adm_step.reserve_ok [OF this]]
  have "adm_reachable 2 (?b, Suc 0)" .
  from admission_bounded [OF this] show ?thesis by simp
qed

text \<open>A reservation succeeds exactly when the transaction has not expired and the
  unexpired pending transactions and open reservations leave a slot: expired entries that
  were never completed cannot block new flows.\<close>

theorem admission_reserve_iff:
  "fst (adm_reserve expires now a) \<longleftrightarrow>
     now < expires \<and> int (unexpired now a) + ad_reserved a < ad_max a"
  using adm_remove_expired_length [of now a]
  by (auto simp: adm_reserve_def Let_def after_def unexpired_def adm_remove_expired_def)

end
