(* ===== verification/Checks.thy ===== *)
theory Checks
  imports Admission
begin

text \<open>
  The pure functions of \<open>internal/core/application/service.go\<close>: prompts, login freshness,
  the validation of challenges, scopes, audiences, tokens and remember settings, the
  filtering of session claims, and the check of redirects that Hydra returns.
\<close>

section \<open>Prompts and freshness\<close>

record prompt_set =
  ps_login :: bool
  ps_none :: bool
  ps_consent :: bool
  ps_select_account :: bool

definition no_prompts :: prompt_set where
  "no_prompts = \<lparr>ps_login = False, ps_none = False, ps_consent = False, ps_select_account = False\<rparr>"

text \<open>The loop of \<open>parsePrompt\<close> with the values seen so far.\<close>

fun parse_prompt_loop :: "prompt_set \<Rightarrow> string list \<Rightarrow> string list \<Rightarrow> (prompt_set \<times> string list) res" where
  "parse_prompt_loop p seen [] = Inr (p, seen)"
| "parse_prompt_loop p seen (v # vs) =
     (if v \<in> set seen then Inl (Sent ErrInvalidPrompt)
      else if v = ''login'' then parse_prompt_loop (p\<lparr>ps_login := True\<rparr>) (v # seen) vs
      else if v = ''none'' then parse_prompt_loop (p\<lparr>ps_none := True\<rparr>) (v # seen) vs
      else if v = ''consent'' then parse_prompt_loop (p\<lparr>ps_consent := True\<rparr>) (v # seen) vs
      else if v = ''select_account'' then parse_prompt_loop (p\<lparr>ps_select_account := True\<rparr>) (v # seen) vs
      else Inl (Sent ErrInvalidPrompt))"

definition parse_prompt :: "string \<Rightarrow> prompt_set res" where
  "parse_prompt v =
     (case parse_prompt_loop no_prompts [] (str_fields v) of
        Inl e \<Rightarrow> Inl e
      | Inr (p, seen) \<Rightarrow> if ps_none p \<and> length seen \<noteq> 1 then Inl (Sent ErrInvalidPrompt) else Inr p)"

definition prompt_includes :: "string \<Rightarrow> string \<Rightarrow> bool" where
  "prompt_includes prompt v = slice_contains (str_fields prompt) v"

definition validate_login_freshness :: "transaction \<Rightarrow> session_info \<Rightarrow> time \<Rightarrow> goerr option" where
  "validate_login_freshness tx s now =
     (if \<not> prompt_includes (tx_prompt tx) ''login'' \<and> tx_max_age tx = None then None
      else if is_zero_time (se_authenticated_at s) then Some (Sent ErrInvalidAssurance)
      else
        let age = time_sub now (se_authenticated_at s) in
        if age < 0 then Some (Sent ErrInvalidAssurance)
        else if prompt_includes (tx_prompt tx) ''login''
             \<and> \<not> after (se_authenticated_at s) (tx_started_at tx)
        then Some (Sent ErrInvalidAssurance)
        else case tx_max_age tx of
          None \<Rightarrow> None
        | Some max_age \<Rightarrow>
            if max_age < 0 then Some (Sent ErrInvalidAssurance)
            else if max_age = 0 then
              (if \<not> after (se_authenticated_at s) (tx_started_at tx)
               then Some (Sent ErrInvalidAssurance) else None)
            else
              let whole = age div Second;
                  age_seconds = (if age mod Second \<noteq> 0 then whole + 1 else whole) in
              if age_seconds > max_age then Some (Sent ErrInvalidAssurance) else None)"

definition login_acceptance_acr :: "transaction \<Rightarrow> session_info \<Rightarrow> string" where
  "login_acceptance_acr tx s = (if tx_requested_acr tx \<noteq> [] then tx_requested_acr tx else se_aal s)"

definition clone_int64 :: "int option \<Rightarrow> int option" where
  "clone_int64 v = (case v of None \<Rightarrow> None | Some i \<Rightarrow> Some i)"

section \<open>Validation\<close>

definition validate_challenge :: "string \<Rightarrow> int \<Rightarrow> goerr option" where
  "validate_challenge v max_length =
     (if v = [] \<or> max_length \<le> 0 \<or> int (length v) > max_length \<or> has_control v
      then Some (Sent ErrInvalidChallenge) else None)"

definition validate_scopes :: "config_client \<Rightarrow> string list \<Rightarrow> goerr option" where
  "validate_scopes c scopes =
     (if slice_dup_from [] scopes then Some (Sent ErrInvalidScope)
      else first_error (\<lambda>scope.
        if scope = [] \<or> \<not> slice_contains (cc_allowed_scopes c) scope
        then Some (Sent ErrInvalidScope) else None) scopes)"

definition validate_audiences :: "config_client \<Rightarrow> string list \<Rightarrow> goerr option" where
  "validate_audiences c audiences =
     (if slice_dup_from [] audiences then Some (Sent ErrInvalidAudience)
      else first_error (\<lambda>a.
        if a = [] \<or> \<not> slice_contains (cc_allowed_audiences c) a
        then Some (Sent ErrInvalidAudience) else None) audiences)"

definition validate_requested_subset :: "string list \<Rightarrow> string list \<Rightarrow> goerr option" where
  "validate_requested_subset requested granted =
     (if slice_dup_from [] granted then Some (Sent ErrInvalidScope)
      else first_error (\<lambda>v. if \<not> slice_contains requested v then Some (Sent ErrInvalidScope) else None) granted)"

definition validate_audience_subset :: "string list \<Rightarrow> string list \<Rightarrow> goerr option" where
  "validate_audience_subset requested granted =
     (if slice_dup_from [] granted then Some (Sent ErrInvalidAudience)
      else first_error (\<lambda>v. if \<not> slice_contains requested v then Some (Sent ErrInvalidAudience) else None) granted)"

text \<open>
  \<open>subtle.ConstantTimeCompare\<close> is 1 exactly on equal byte strings.
\<close>

definition validate_csrf :: "string \<Rightarrow> string \<Rightarrow> goerr option" where
  "validate_csrf actual expected =
     (if actual = [] \<or> expected = [] \<or> actual \<noteq> expected then Some (Sent ErrInvalidCSRF) else None)"

definition validate_opaque_token :: "string \<Rightarrow> goerr option" where
  "validate_opaque_token v =
     (if length v \<noteq> 43 then Some (Sent ErrInvalidBrowserState)
      else if b64_decode v = None then Some (Sent ErrInvalidBrowserState)
      else None)"

definition validate_browser_state :: "string \<Rightarrow> string \<Rightarrow> goerr option" where
  "validate_browser_state actual expected =
     (case validate_opaque_token actual of
        Some e \<Rightarrow> Some e
      | None \<Rightarrow>
          if validate_opaque_token expected \<noteq> None \<or> actual \<noteq> expected
          then Some (Sent ErrInvalidBrowserState) else None)"

definition validate_remember :: "bool \<Rightarrow> int \<Rightarrow> goerr option" where
  "validate_remember remember remember_for =
     (if remember_for < 0 \<or> remember_for > 86400 \<or> (\<not> remember \<and> remember_for \<noteq> 0)
      then Some (Sent ErrInvalidRemember) else None)"

definition validate_client :: "config \<Rightarrow> oauth_client \<Rightarrow> config_client res" where
  "validate_client cfg c =
     (if oc_id c = [] then Inl (Sent ErrInvalidClient)
      else case config_lookup_client cfg (oc_id c) of
        None \<Rightarrow> Inl (Sent ErrInvalidClient)
      | Some configured \<Rightarrow>
          if oc_redirect_uris c = [] then Inl (Sent ErrInvalidRedirect)
          else case first_error (\<lambda>r.
              if \<not> slice_contains (cc_allowed_redirect_uris configured) r
              then Some (Sent ErrInvalidRedirect) else None) (oc_redirect_uris c) of
            Some e \<Rightarrow> Inl e
          | None \<Rightarrow> Inr configured)"

definition policy_issuer :: "config \<Rightarrow> string" where
  "policy_issuer cfg = (case cfg_policy_issuer cfg of None \<Rightarrow> [] | Some u \<Rightarrow> url_string u)"

section \<open>Session claims\<close>

fun filter_claims_loop ::
  "(string \<Rightarrow> bool) \<Rightarrow> jval gomap \<Rightarrow> jval gomap \<Rightarrow> jval gomap" where
  "filter_claims_loop keep [] acc = acc"
| "filter_claims_loop keep ((name, v) # rest) acc =
     filter_claims_loop keep rest (if keep name then map_put name v acc else acc)"

definition filter_claim_map ::
  "jval gomap \<Rightarrow> string list gomap \<Rightarrow> string list \<Rightarrow> claim_mappings \<Rightarrow> jval gomap" where
  "filter_claim_map source allowed scopes mappings =
     (if source = [] \<or> allowed = [] then []
      else filter_claims_loop (\<lambda>name.
        if is_reserved_claim name then False
        else if map_get mappings name \<noteq> None then False
        else case map_get allowed name of
          None \<Rightarrow> False
        | Some required \<Rightarrow> slice_subset required scopes) source [])"

definition filter_identity_claim_map ::
  "jval gomap \<Rightarrow> string list gomap \<Rightarrow> string list \<Rightarrow> jval gomap" where
  "filter_identity_claim_map source allowed scopes =
     (if source = [] \<or> allowed = [] then []
      else filter_claims_loop (\<lambda>name.
        case map_get allowed name of
          None \<Rightarrow> False
        | Some required \<Rightarrow> slice_subset required scopes \<and> slice_subset (required_scopes name) scopes) source [])"

fun merge_claims :: "jval gomap \<Rightarrow> jval gomap \<Rightarrow> jval gomap" where
  "merge_claims base [] = base"
| "merge_claims base ((name, v) # rest) = merge_claims (map_put name v base) rest"

definition set_verified_email_claim ::
  "golib \<Rightarrow> jval gomap \<Rightarrow> string list gomap \<Rightarrow> string list \<Rightarrow> string list \<Rightarrow> jval gomap" where
  "set_verified_email_claim lib cl allowed scopes verified_emails =
     (let cl = map_del ''email_verified'' cl;
          filtered = filter_identity_claim_map [(''email_verified'', JBool True)] allowed scopes in
      if map_get filtered ''email_verified'' = None then cl
      else case map_get cl ''email'' of
        Some (JStr email) \<Rightarrow>
          (if email = [] then cl
           else map_put ''email_verified''
             (JBool (list_ex (\<lambda>address. equal_fold lib (trim_space email) address) verified_emails)) cl)
      | _ \<Rightarrow> cl)"

text \<open>One destination of \<open>filterClaims\<close>: the three are built in the same way.\<close>

definition filter_destination ::
  "golib \<Rightarrow> config \<Rightarrow> config_client \<Rightarrow> string list gomap \<Rightarrow> jval gomap \<Rightarrow> session_info \<Rightarrow> string list \<Rightarrow> jval gomap" where
  "filter_destination lib cfg c allowed source s scopes =
     (let result = filter_claim_map source allowed scopes (cfg_identity_claim_mappings cfg);
          some_allowed = cc_allowed_id_token_claims c \<noteq> [] \<or> cc_allowed_access_token_claims c \<noteq> []
            \<or> cc_allowed_user_info_claims c \<noteq> [];
          derived = (if cfg_identity_claim_mappings cfg \<noteq> [] \<and> some_allowed
            then derive lib (cfg_identity_claim_mappings cfg) s (is_secure_environment cfg) else []);
          merged = (if derived \<noteq> []
            then merge_claims result (filter_identity_claim_map derived allowed scopes) else result) in
      set_verified_email_claim lib merged allowed scopes (se_verified_emails s))"

definition filter_claims ::
  "golib \<Rightarrow> config \<Rightarrow> config_client \<Rightarrow> claims \<Rightarrow> session_info \<Rightarrow> string list \<Rightarrow> claims" where
  "filter_claims lib cfg c cl s scopes =
     \<lparr>cl_id_token = filter_destination lib cfg c (cc_allowed_id_token_claims c) (cl_id_token cl) s scopes,
      cl_access_token = filter_destination lib cfg c (cc_allowed_access_token_claims c) (cl_access_token cl) s scopes,
      cl_user_info = filter_destination lib cfg c (cc_allowed_user_info_claims c) (cl_user_info cl) s scopes\<rparr>"

section \<open>Redirects\<close>

definition hydra_redirect :: "config \<Rightarrow> string res \<Rightarrow> redirect_result res" where
  "hydra_redirect cfg r =
     (case r of
        Inl e \<Rightarrow> Inl e
      | Inr target \<Rightarrow>
          (case url_parse target of
             None \<Rightarrow> Inl (Sent ErrInvalidRedirect)
           | Some u \<Rightarrow>
               let hydra = deref (cfg_hydra_public_url cfg);
                   base = trim_right_slash (u_path hydra) in
               if u_scheme u = [] \<or> u_host u = [] \<or> u_user u \<noteq> None \<or> u_fragment u \<noteq> []
               then Inl (Sent ErrInvalidRedirect)
               else if u_scheme u \<noteq> u_scheme hydra \<or> u_host u \<noteq> u_host hydra
               then Inl (Sent ErrInvalidRedirect)
               else if base \<noteq> [] \<and> u_path u \<noteq> base \<and> \<not> has_prefix (u_path u) (base @ ''/'')
               then Inl (Sent ErrInvalidRedirect)
               else Inr \<lparr>rr_url = target, rr_browser_state = []\<rparr>))"

definition add_query_value :: "string \<Rightarrow> string \<Rightarrow> string \<Rightarrow> string res" where
  "add_query_value target name v =
     (case url_parse target of
        None \<Rightarrow> Inl (Sent ErrInvalidRedirect)
      | Some u \<Rightarrow> Inr (url_string (u\<lparr>u_raw_query := values_encode (values_set name v (url_query u))\<rparr>)))"

section \<open>Facts\<close>

lemma parse_prompt_loop_iff:
  "parse_prompt_loop p seen vs = Inr (q, seen') \<longleftrightarrow>
     distinct vs \<and> set vs \<inter> set seen = {}
     \<and> set vs \<subseteq> {''login'', ''none'', ''consent'', ''select_account''}
     \<and> seen' = rev vs @ seen
     \<and> q = \<lparr>ps_login = (ps_login p \<or> ''login'' \<in> set vs), ps_none = (ps_none p \<or> ''none'' \<in> set vs),
         ps_consent = (ps_consent p \<or> ''consent'' \<in> set vs),
         ps_select_account = (ps_select_account p \<or> ''select_account'' \<in> set vs)\<rparr>"
proof (induction vs arbitrary: p seen)
  case Nil
  then show ?case by auto
next
  case (Cons v vs)
  consider "v \<in> set seen" | "v \<notin> set seen" "v \<notin> {''login'', ''none'', ''consent'', ''select_account''}"
    | "v \<notin> set seen" "v \<in> {''login'', ''none'', ''consent'', ''select_account''}" by blast
  then show ?case
  proof cases
    case 3
    then show ?thesis
      by (elim insertE emptyE; simp add: Cons.IH; auto)
  qed auto
qed

lemma parse_prompt_none_alone:
  "parse_prompt v = Inr p \<Longrightarrow> ps_none p \<Longrightarrow> \<not> ps_login p \<and> \<not> ps_select_account p"
proof -
  assume p: "parse_prompt v = Inr p" and n: "ps_none p"
  obtain seen where l: "parse_prompt_loop no_prompts [] (str_fields v) = Inr (p, seen)" and one: "length seen = 1"
    using p n by (auto simp: parse_prompt_def split: sum.splits prod.splits if_splits)
  note d = l [unfolded parse_prompt_loop_iff]
  have "length (str_fields v) = 1" using d one by simp
  then obtain x where "str_fields v = [x]" by (auto simp: length_Suc_conv)
  then show ?thesis using d n by (auto simp: no_prompts_def)
qed

lemma parse_prompt_Nil: "parse_prompt [] = Inr no_prompts"
  by (simp add: parse_prompt_def str_fields_def no_prompts_def)

lemma validate_subset_None [simp]:
  "validate_requested_subset requested granted = None \<longleftrightarrow> distinct granted \<and> set granted \<subseteq> set requested"
  "validate_audience_subset requested granted = None \<longleftrightarrow> distinct granted \<and> set granted \<subseteq> set requested"
  by (auto simp: validate_requested_subset_def validate_audience_subset_def split: if_splits)

lemma validate_scopes_None [simp]:
  "validate_scopes c scopes = None \<longleftrightarrow>
     distinct scopes \<and> [] \<notin> set scopes \<and> set scopes \<subseteq> set (cc_allowed_scopes c)"
  by (auto simp: validate_scopes_def split: if_splits)

lemma validate_audiences_None [simp]:
  "validate_audiences c audiences = None \<longleftrightarrow>
     distinct audiences \<and> [] \<notin> set audiences \<and> set audiences \<subseteq> set (cc_allowed_audiences c)"
  by (auto simp: validate_audiences_def split: if_splits)

lemma validate_csrf_None [simp]: "validate_csrf actual expected = None \<longleftrightarrow> expected \<noteq> [] \<and> actual = expected"
  by (auto simp: validate_csrf_def)

lemma validate_browser_state_None:
  "validate_browser_state actual expected = None \<longleftrightarrow> validate_opaque_token expected = None \<and> actual = expected"
  by (auto simp: validate_browser_state_def split: option.splits)

lemma validate_remember_None [simp]:
  "validate_remember remember n = None \<longleftrightarrow> 0 \<le> n \<and> n \<le> 86400 \<and> (remember \<or> n = 0)"
  by (auto simp: validate_remember_def)

lemma validate_client_Inr:
  "validate_client cfg c = Inr cc \<longleftrightarrow> oc_id c \<noteq> [] \<and> config_lookup_client cfg (oc_id c) = Some cc
     \<and> oc_redirect_uris c \<noteq> [] \<and> set (oc_redirect_uris c) \<subseteq> set (cc_allowed_redirect_uris cc)"
  by (auto simp: validate_client_def split: option.splits if_splits dest!: first_error_SomeD)

text \<open>Rounding an age up to seconds and comparing is comparing with the bound in
  nanoseconds.\<close>

lemma age_seconds_le:
  fixes age m :: int
  assumes "0 \<le> age"
  shows "(if age mod Second \<noteq> 0 then age div Second + 1 else age div Second) \<le> m \<longleftrightarrow> age \<le> m * Second"
proof -
  have s: "0 < Second" by (simp add: Second_def)
  have e: "age = age div Second * Second + age mod Second" by simp
  have r: "0 \<le> age mod Second" "age mod Second < Second" using s by simp_all
  show ?thesis
  proof (cases "age mod Second = 0")
    case True
    then have "age \<le> m * Second \<longleftrightarrow> age div Second * Second \<le> m * Second" using e by simp
    then show ?thesis using True s by simp
  next
    case False
    have "age div Second + 1 \<le> m \<longleftrightarrow> age div Second < m" by (rule add1_zle_eq)
    also have "\<dots> \<longleftrightarrow> age \<le> m * Second"
    proof
      assume "age div Second < m"
      then have "(age div Second + 1) * Second \<le> m * Second" using s by simp
      then have "age div Second * Second + Second \<le> m * Second" by (simp add: distrib_right)
      then show "age \<le> m * Second" using e r by linarith
    next
      assume a: "age \<le> m * Second"
      then have "age < m * Second" using False by (cases "age = m * Second") auto
      then have "age div Second * Second < m * Second" using e r by linarith
      then show "age div Second < m" using s by simp
    qed
    finally show ?thesis using False by simp
  qed
qed

lemma filter_claims_loop_SomeD:
  "map_get (filter_claims_loop keep src acc) n = Some v \<Longrightarrow>
     map_get acc n = Some v \<or> keep n \<and> (n, v) \<in> set src"
proof (induction keep src acc rule: filter_claims_loop.induct)
  case (2 keep name w rest acc)
  then have "map_get (if keep name then map_put name w acc else acc) n = Some v
      \<or> keep n \<and> (n, v) \<in> set rest" by simp
  then show ?case by (auto simp: gomap split: if_splits)
qed simp

lemma filter_claims_loop_wf: "wf_map acc \<Longrightarrow> wf_map (filter_claims_loop keep src acc)"
  by (induction keep src acc rule: filter_claims_loop.induct) auto

lemma filter_claim_map_SomeD:
  "map_get (filter_claim_map src allowed scopes mappings) n = Some v \<Longrightarrow>
     \<not> is_reserved_claim n \<and> map_get mappings n = None
     \<and> (\<exists>req. map_get allowed n = Some req \<and> set req \<subseteq> set scopes)"
  by (auto simp: filter_claim_map_def split: if_splits option.splits dest!: filter_claims_loop_SomeD)

lemma filter_identity_claim_map_SomeD:
  "map_get (filter_identity_claim_map src allowed scopes) n = Some v \<Longrightarrow>
     (n, v) \<in> set src \<and> set (required_scopes n) \<subseteq> set scopes
     \<and> (\<exists>req. map_get allowed n = Some req \<and> set req \<subseteq> set scopes)"
  by (auto simp: filter_identity_claim_map_def split: if_splits option.splits dest!: filter_claims_loop_SomeD)

lemma filter_identity_claim_map_wf: "wf_map (filter_identity_claim_map src allowed scopes)"
  by (simp add: filter_identity_claim_map_def filter_claims_loop_wf)

lemma merge_claims_SomeD:
  "map_get (merge_claims base overlay) n = Some v \<Longrightarrow> map_get base n = Some v \<or> (n, v) \<in> set overlay"
proof (induction base overlay rule: merge_claims.induct)
  case (2 base name w rest)
  then have "map_get (map_put name w base) n = Some v \<or> (n, v) \<in> set rest" by simp
  then show ?case by (auto simp: gomap split: if_splits)
qed simp

lemma set_verified_email_other:
  "n \<noteq> ''email_verified'' \<Longrightarrow>
     map_get (set_verified_email_claim lib cl allowed scopes verified) n = map_get cl n"
  by (simp add: set_verified_email_claim_def Let_def gomap split: option.split jval.split)

lemma set_verified_email_SomeD:
  assumes "map_get (set_verified_email_claim lib cl allowed scopes verified) ''email_verified'' = Some v"
  shows "\<exists>email. map_get cl ''email'' = Some (JStr email) \<and> email \<noteq> []
      \<and> v = JBool (list_ex (\<lambda>a. equal_fold lib (trim_space email) a) verified)
      \<and> ''email'' \<in> set scopes
      \<and> (\<exists>req. map_get allowed ''email_verified'' = Some req \<and> set req \<subseteq> set scopes)"
proof -
  let ?f = "filter_identity_claim_map [(''email_verified'', JBool True)] allowed scopes"
  have "map_get ?f ''email_verified'' \<noteq> None"
  proof
    assume "map_get ?f ''email_verified'' = None"
    then show False using assms by (simp add: set_verified_email_claim_def Let_def gomap)
  qed
  then obtain w where w: "map_get ?f ''email_verified'' = Some w" by blast
  note d = filter_identity_claim_map_SomeD [OF w]
  have "''email'' \<in> set scopes" using d by (simp add: required_scopes_def)
  then show ?thesis
    using assms d w
    by (auto simp: set_verified_email_claim_def Let_def gomap split: option.splits jval.splits if_splits)
qed

text \<open>What holds of the claims sent to one destination.\<close>

definition destination_ok ::
  "golib \<Rightarrow> config \<Rightarrow> string list gomap \<Rightarrow> session_info \<Rightarrow> string list \<Rightarrow> jval gomap \<Rightarrow> bool" where
  "destination_ok lib cfg allowed s scopes m \<longleftrightarrow>
     (\<forall>name v. map_get m name = Some v \<longrightarrow>
        \<not> is_reserved_claim name
        \<and> (\<exists>req. map_get allowed name = Some req \<and> set req \<subseteq> set scopes)
        \<and> (name = ''email_verified'' \<longrightarrow> (\<exists>email. map_get m ''email'' = Some (JStr email)
             \<and> ''email'' \<in> set scopes
             \<and> v = JBool (list_ex (\<lambda>a. equal_fold lib (trim_space email) a) (se_verified_emails s))))
        \<and> (name \<noteq> ''email_verified'' \<and> map_get (cfg_identity_claim_mappings cfg) name \<noteq> None \<longrightarrow>
             map_get (derive lib (cfg_identity_claim_mappings cfg) s (is_secure_environment cfg)) name = Some v
             \<and> set (required_scopes name) \<subseteq> set scopes))"

lemma filter_destination_ok:
  assumes "claim_allowlist_ok allowed allowed_scopes"
  shows "destination_ok lib cfg allowed s scopes (filter_destination lib cfg c allowed src s scopes)"
proof -
  define ms where "ms = cfg_identity_claim_mappings cfg"
  define derived where "derived = derive lib ms s (is_secure_environment cfg)"
  define base where "base = filter_claim_map src allowed scopes ms"
  define overlay where "overlay = filter_identity_claim_map derived allowed scopes"
  define merged where "merged = (if ms \<noteq> [] \<and> (cc_allowed_id_token_claims c \<noteq> []
      \<or> cc_allowed_access_token_claims c \<noteq> [] \<or> cc_allowed_user_info_claims c \<noteq> []) \<and> derived \<noteq> []
    then merge_claims base overlay else base)"
  have fd: "filter_destination lib cfg c allowed src s scopes
      = set_verified_email_claim lib merged allowed scopes (se_verified_emails s)"
    by (simp add: filter_destination_def Let_def merged_def base_def overlay_def derived_def ms_def)
  have reserved: "\<not> is_reserved_claim n" if "map_get allowed n = Some req" for n req
    using assms map_get_SomeD [OF that] by (auto simp: claim_allowlist_ok_def list_all_iff)
  have ov: "map_get derived n = Some v \<and> set (required_scopes n) \<subseteq> set scopes
      \<and> (\<exists>req. map_get allowed n = Some req \<and> set req \<subseteq> set scopes)" if "(n, v) \<in> set overlay" for n v
  proof -
    have "map_get overlay n = Some v"
      by (rule map_get_in [OF _ that]) (simp add: overlay_def filter_identity_claim_map_wf)
    from filter_identity_claim_map_SomeD [OF this [unfolded overlay_def]]
    show ?thesis using map_get_in [of derived n v] by (auto simp: derived_def)
  qed
  have mg: "(\<exists>req. map_get allowed n = Some req \<and> set req \<subseteq> set scopes)
      \<and> (map_get ms n \<noteq> None \<longrightarrow> map_get derived n = Some v \<and> set (required_scopes n) \<subseteq> set scopes)"
    if "map_get merged n = Some v" for n v
  proof -
    have "map_get base n = Some v \<or> (n, v) \<in> set overlay"
      using that merge_claims_SomeD by (auto simp: merged_def split: if_splits)
    then show ?thesis
    proof
      assume "map_get base n = Some v"
      then show ?thesis using filter_claim_map_SomeD [of src allowed scopes ms n v] by (simp add: base_def)
    qed (use ov [of n v] in blast)
  qed
  show ?thesis
    unfolding destination_ok_def fd
  proof (intro allI impI)
    fix name v
    assume g: "map_get (set_verified_email_claim lib merged allowed scopes (se_verified_emails s)) name = Some v"
    show "\<not> is_reserved_claim name
        \<and> (\<exists>req. map_get allowed name = Some req \<and> set req \<subseteq> set scopes)
        \<and> (name = ''email_verified'' \<longrightarrow> (\<exists>email.
             map_get (set_verified_email_claim lib merged allowed scopes (se_verified_emails s)) ''email'' = Some (JStr email)
             \<and> ''email'' \<in> set scopes
             \<and> v = JBool (list_ex (\<lambda>a. equal_fold lib (trim_space email) a) (se_verified_emails s))))
        \<and> (name \<noteq> ''email_verified'' \<and> map_get (cfg_identity_claim_mappings cfg) name \<noteq> None \<longrightarrow>
             map_get (derive lib (cfg_identity_claim_mappings cfg) s (is_secure_environment cfg)) name = Some v
             \<and> set (required_scopes name) \<subseteq> set scopes)"
    proof (cases "name = ''email_verified''")
      case True
      from set_verified_email_SomeD [OF g [unfolded True]] reserved True
      show ?thesis by (auto simp: set_verified_email_other)
    next
      case False
      then have "map_get merged name = Some v" using g by (simp add: set_verified_email_other)
      from mg [OF this] False show ?thesis using reserved by (auto simp: ms_def derived_def)
    qed
  qed
qed

lemma destinations_ok:
  assumes "client_ok secure cid c"
  shows "destination_ok lib cfg (cc_allowed_id_token_claims c) s scopes (cl_id_token (filter_claims lib cfg c cl s scopes))"
    and "destination_ok lib cfg (cc_allowed_access_token_claims c) s scopes (cl_access_token (filter_claims lib cfg c cl s scopes))"
    and "destination_ok lib cfg (cc_allowed_user_info_claims c) s scopes (cl_user_info (filter_claims lib cfg c cl s scopes))"
  using assms by (auto simp: client_ok_def filter_claims_def intro: filter_destination_ok)

lemma config_ok_client:
  "config_ok c \<Longrightarrow> config_lookup_client c cid = Some cl \<Longrightarrow> client_ok (is_secure_environment c) cid cl"
  using map_get_SomeD [of "cfg_clients c" cid cl]
  by (auto simp: config_ok_def config_lookup_client_def list_all_iff)

section \<open>Properties\<close>

text \<open>\<open>parsePrompt\<close> accepts exactly the white-space separated lists of the four
  supported values without repetition in which \<open>none\<close> stands alone, and reports which
  values occur.\<close>

theorem parse_prompt_iff:
  "parse_prompt v = Inr p \<longleftrightarrow>
     distinct (str_fields v) \<and> set (str_fields v) \<subseteq> {''login'', ''none'', ''consent'', ''select_account''}
     \<and> (if ''none'' \<in> set (str_fields v) then str_fields v = [''none''] else True)
     \<and> p = \<lparr>ps_login = (''login'' \<in> set (str_fields v)), ps_none = (''none'' \<in> set (str_fields v)),
            ps_consent = (''consent'' \<in> set (str_fields v)),
            ps_select_account = (''select_account'' \<in> set (str_fields v))\<rparr>"
proof -
  let ?vs = "str_fields v"
  let ?q = "\<lparr>ps_login = (''login'' \<in> set ?vs), ps_none = (''none'' \<in> set ?vs),
      ps_consent = (''consent'' \<in> set ?vs), ps_select_account = (''select_account'' \<in> set ?vs)\<rparr>"
  have loop: "parse_prompt_loop no_prompts [] ?vs = Inr (q, seen) \<longleftrightarrow>
      distinct ?vs \<and> set ?vs \<subseteq> {''login'', ''none'', ''consent'', ''select_account''}
      \<and> seen = rev ?vs \<and> q = ?q" for q seen
    by (simp add: parse_prompt_loop_iff no_prompts_def)
  have one: "''none'' \<in> set ?vs \<Longrightarrow> length ?vs = 1 \<longleftrightarrow> ?vs = [''none'']"
    by (cases ?vs) auto
  show ?thesis
  proof (cases "parse_prompt_loop no_prompts [] ?vs")
    case (Inl e)
    then have "\<not> (distinct ?vs \<and> set ?vs \<subseteq> {''login'', ''none'', ''consent'', ''select_account''})"
      using loop [of ?q "rev ?vs"] by simp
    then show ?thesis using Inl by (auto simp: parse_prompt_def)
  next
    case (Inr r)
    obtain q seen where r: "r = (q, seen)" by (cases r)
    have l: "distinct ?vs" "set ?vs \<subseteq> {''login'', ''none'', ''consent'', ''select_account''}"
        "seen = rev ?vs" "q = ?q"
      using loop [of q seen] Inr r by simp_all
    show ?thesis using l(1,2) one by (auto simp: parse_prompt_def Inr r l(3,4))
  qed
qed

text \<open>Login freshness is decided as OIDC asks: without \<open>prompt=login\<close> and
  \<open>max_age\<close> every session is fresh; otherwise the authentication time must be known and
  not in the future, \<open>prompt=login\<close> and \<open>max_age=0\<close> require an authentication after the
  transaction started, and a positive \<open>max_age\<close> bounds the age in seconds, rounded up.\<close>

theorem freshness_iff:
  "validate_login_freshness tx s now = None \<longleftrightarrow>
     (if \<not> prompt_includes (tx_prompt tx) ''login'' \<and> tx_max_age tx = None then True
      else se_authenticated_at s \<noteq> 0 \<and> se_authenticated_at s \<le> now
        \<and> (if prompt_includes (tx_prompt tx) ''login'' \<or> tx_max_age tx = Some 0
           then tx_started_at tx < se_authenticated_at s else True)
        \<and> (case tx_max_age tx of
             None \<Rightarrow> True
           | Some m \<Rightarrow> 0 \<le> m \<and> (if 0 < m then time_sub now (se_authenticated_at s) \<le> m * Second else True)))"
proof -
  let ?age = "time_sub now (se_authenticated_at s)"
  have neg: "?age < 0 \<longleftrightarrow> now < se_authenticated_at s"
    by (auto simp: time_sub_def)
  have pos: "\<not> ?age < 0 \<Longrightarrow> (if ?age mod Second \<noteq> 0 then ?age div Second + 1 else ?age div Second) > m
      \<longleftrightarrow> \<not> ?age \<le> m * Second" for m
    using age_seconds_le [of ?age m] by linarith
  show ?thesis
    by (cases "tx_max_age tx")
      (auto simp: validate_login_freshness_def is_zero_time_def after_def Let_def neg pos
        simp del: not_less split: if_splits)
qed

text \<open>A generated token (CSRF token, browser state or store handle) is 43 characters
  long, decodes back to its 32 random bytes, and passes the check that is applied when the
  browser presents it.\<close>

theorem opaque_token_round_trip:
  "length (token_of f) = 43 \<and> b64_decode (token_of f) = Some (map f [0..<32])
   \<and> validate_opaque_token (token_of f) = None \<and> validate_browser_state (token_of f) (token_of f) = None"
  by (simp add: length_token_of validate_opaque_token_def validate_browser_state_def)
    (simp add: token_of_def b64_round_trip)

text \<open>A redirect is passed on to the browser only when Hydra's answer is an absolute URL
  without credentials or fragment on exactly the scheme, host and port of the configured
  public Hydra URL and under its base path; the text is passed on unchanged.\<close>

theorem hydra_redirect_stays:
  assumes "hydra_redirect cfg r = Inr result"
  shows "\<exists>u. r = Inr (rr_url result) \<and> url_parse (rr_url result) = Some u
    \<and> u_scheme u = u_scheme (deref (cfg_hydra_public_url cfg))
    \<and> u_host u = u_host (deref (cfg_hydra_public_url cfg)) \<and> u_host u \<noteq> []
    \<and> u_user u = None \<and> u_fragment u = [] \<and> rr_browser_state result = []
    \<and> (let base = trim_right_slash (u_path (deref (cfg_hydra_public_url cfg))) in
       if base = [] then True else u_path u = base \<or> has_prefix (u_path u) (base @ ''/''))"
  using assms
  by (auto simp: hydra_redirect_def Let_def split: sum.splits option.splits if_splits)

theorem hydra_redirect_stays_witness:
  "\<exists>u. url_parse ''https://h/x'' = Some u \<and> u_host u = ''h''"
proof -
  have "hydra_redirect sample_config (Inr ''https://h/x'') = Inr \<lparr>rr_url = ''https://h/x'', rr_browser_state = []\<rparr>"
    by (simp add: hydra_redirect_def sample_config_def sample_url_def trim_right_slash_def
        url_parse_def parse_no_fragment_def cut_def get_scheme_def
        is_alpha_def is_digit_def has_prefix_def has_suffix_def text_eval parse_after_query_def
        parse_authority_def last_index_def parse_host_def set_path_def empty_url_def escape_def
        escape_char_def should_escape_def is_alnum_def)
  from hydra_redirect_stays [OF this] show ?thesis
    by (auto simp: sample_config_def sample_url_def)
qed

text \<open>C28. The session claims sent to Hydra, for each of the three destinations: every claim is
  in the client's allowlist for that destination with all its required scopes granted, none
  is a reserved protocol claim, a claim with an identity mapping comes from the Kratos
  identity and never from the policy (and its standard OIDC scope is granted), and
  \<open>email_verified\<close> accompanies an \<open>email\<close> and is true exactly when that address is one
  Kratos has verified.\<close>

theorem filter_claims_sound:
  assumes "validate_config c0 = Inr cfg" and "config_lookup_client cfg cid = Some c"
  shows "destination_ok lib cfg (cc_allowed_id_token_claims c) s scopes
           (cl_id_token (filter_claims lib cfg c cl s scopes))
    \<and> destination_ok lib cfg (cc_allowed_access_token_claims c) s scopes
           (cl_access_token (filter_claims lib cfg c cl s scopes))
    \<and> destination_ok lib cfg (cc_allowed_user_info_claims c) s scopes
           (cl_user_info (filter_claims lib cfg c cl s scopes))"
proof -
  have "config_ok cfg" using validate_config_parts [OF assms(1)] by auto
  note destinations_ok [OF config_ok_client [OF this assms(2)]]
  then show ?thesis by simp
qed

theorem filter_claims_sound_witness:
  "map_get (cl_id_token (filter_claims sample_lib sample_config sample_client
     \<lparr>cl_id_token = [(''sub'', JStr ''x''), (''email'', JStr ''a'')], cl_access_token = [], cl_user_info = []\<rparr>
     sample_session [''email''])) ''sub'' = None"
proof -
  have "config_lookup_client sample_config ''c'' = Some sample_client"
    by (simp add: config_lookup_client_def sample_config_def map_get_def)
  from filter_claims_sound [OF sample_config_validates this, of sample_lib sample_session "[''email'']"
      "\<lparr>cl_id_token = [(''sub'', JStr ''x''), (''email'', JStr ''a'')], cl_access_token = [], cl_user_info = []\<rparr>"]
  have "\<not> is_reserved_claim ''sub'' \<or> map_get (cl_id_token (filter_claims sample_lib sample_config sample_client
     \<lparr>cl_id_token = [(''sub'', JStr ''x''), (''email'', JStr ''a'')], cl_access_token = [], cl_user_info = []\<rparr>
     sample_session [''email''])) ''sub'' = None"
    unfolding destination_ok_def by fastforce
  moreover have "is_reserved_claim ''sub''" by (simp add: is_reserved_claim_def reserved_claims_def text_eval)
  ultimately show ?thesis by simp
qed

end
