(* ===== verification/PolicyPort.thy ===== *)
theory PolicyPort
  imports Checks
begin

text \<open>
  What the service may expect of a policy behind \<open>ports.Policy\<close>: an allowed consent
  decision stays within the user's selection, and a denied one carries nothing. The
  selection is the granted scopes of the request, and its granted audiences or, when there
  are none, all requested audiences. The service checks the decision again; the lemma of
  the locale says that for such a policy the second check can only fail on a duplicate.
  Theories \<open>StaticPolicy\<close> and \<open>HttpPolicy\<close> interpret the locale.
\<close>

definition selected_audiences :: "policy_input \<Rightarrow> string list" where
  "selected_audiences i =
     (if pi_granted_audiences i = [] then pi_requested_audiences i else pi_granted_audiences i)"

definition no_claims :: claims where
  "no_claims = \<lparr>cl_id_token = [], cl_access_token = [], cl_user_info = []\<rparr>"

definition denied :: consent_decision where
  "denied = \<lparr>cd_allowed = False, cd_granted_scopes = [], cd_granted_audiences = [], cd_claims = no_claims\<rparr>"

locale consent_policy =
  fixes decide :: "policy_input \<Rightarrow> consent_decision res"
  assumes within: "\<And>i d. decide i = Inr d \<Longrightarrow> cd_allowed d \<Longrightarrow>
      set (cd_granted_scopes d) \<subseteq> set (pi_granted_scopes i)
      \<and> set (cd_granted_audiences d) \<subseteq> set (selected_audiences i)"
    and denied_empty: "\<And>i d. decide i = Inr d \<Longrightarrow> \<not> cd_allowed d \<Longrightarrow> d = denied"
begin

lemma rechecked:
  assumes "decide i = Inr d" and "cd_allowed d"
    and "distinct (cd_granted_scopes d)" and "distinct (cd_granted_audiences d)"
  shows "validate_requested_subset (pi_granted_scopes i) (cd_granted_scopes d) = None
    \<and> validate_audience_subset (selected_audiences i) (cd_granted_audiences d) = None"
  using within [OF assms(1,2)] assms(3,4) by (auto simp: validate_audience_subset_def)

end

end
