(* ===== verification/StaticPolicy.thy ===== *)
theory StaticPolicy
  imports PolicyPort
begin

text \<open>
  The static policy of \<open>internal/adapters/outbound/policy/static.go\<close>: allowlists of
  subjects and clients, and optional scope rules per subject and client. A Go set
  (\<open>map[string]struct{}\<close>) is a Go map to the unit value; a nil map behaves as the empty
  one. Lists and maps are values here, so the copies the code makes are identities up to
  the empty case.
\<close>

type_synonym go_set = "unit gomap"

record static_policy =
  sp_subjects :: go_set
  sp_clients :: go_set
  sp_subject_scopes :: "go_set gomap gomap"
  sp_require_scopes :: bool
  sp_claims :: claims

fun to_set_loop :: "string list \<Rightarrow> go_set \<Rightarrow> go_set" where
  "to_set_loop [] acc = acc"
| "to_set_loop (v # vs) acc = to_set_loop vs (if v \<noteq> [] then map_put v () acc else acc)"

definition to_set :: "string list \<Rightarrow> go_set" where
  "to_set vs = to_set_loop vs []"

definition to_scope_set :: "string list gomap gomap \<Rightarrow> go_set gomap gomap" where
  "to_scope_set rules =
     map (\<lambda>(subject, clients). (subject, map (\<lambda>(client, scopes). (client, to_set scopes)) clients)) rules"

definition new_static :: "string list \<Rightarrow> string list \<Rightarrow> static_policy" where
  "new_static subjects clients =
     \<lparr>sp_subjects = to_set subjects, sp_clients = to_set clients, sp_subject_scopes = [],
      sp_require_scopes = False, sp_claims = no_claims\<rparr>"

definition new_static_with_scopes ::
  "string list \<Rightarrow> string list \<Rightarrow> string list gomap gomap \<Rightarrow> bool \<Rightarrow> static_policy" where
  "new_static_with_scopes subjects clients scope_rules require =
     (new_static subjects clients)\<lparr>sp_subject_scopes := to_scope_set scope_rules, sp_require_scopes := require\<rparr>"

definition clone_map :: "jval gomap \<Rightarrow> jval gomap" where
  "clone_map source = (if source = [] then [] else source)"

definition clone_claims :: "claims \<Rightarrow> claims" where
  "clone_claims c = \<lparr>cl_id_token = clone_map (cl_id_token c), cl_access_token = clone_map (cl_access_token c),
     cl_user_info = clone_map (cl_user_info c)\<rparr>"

definition clone_strings :: "string list \<Rightarrow> string list" where
  "clone_strings source = (if source = [] then [] else [] @ source)"

definition static_allowed :: "static_policy \<Rightarrow> string \<Rightarrow> string \<Rightarrow> bool" where
  "static_allowed p subject client_id =
     (if map_get (sp_subjects p) ''*'' = None \<and> map_get (sp_subjects p) subject = None then False
      else if sp_clients p = [] then True
      else if map_get (sp_clients p) ''*'' \<noteq> None then True
      else map_get (sp_clients p) client_id \<noteq> None)"

text \<open>\<open>p.SubjectScopes[subject][client]\<close>, with its second result.\<close>

definition scope_rule :: "static_policy \<Rightarrow> string \<Rightarrow> string \<Rightarrow> go_set option" where
  "scope_rule p subject client_id =
     (case map_get (sp_subject_scopes p) subject of
        None \<Rightarrow> None
      | Some clients \<Rightarrow> map_get clients client_id)"

definition static_authorize_login :: "static_policy \<Rightarrow> policy_input \<Rightarrow> bool res" where
  "static_authorize_login p i = Inr (static_allowed p (pi_subject i) (pi_client_id i))"

text \<open>
  The scope rules of \<open>AuthorizeConsent\<close>. Without a rule for the subject and the client the
  rule for \<open>*\<close> applies; without either the loop still runs over an empty set.
\<close>

definition scopes_permitted :: "static_policy \<Rightarrow> policy_input \<Rightarrow> bool" where
  "scopes_permitted p i =
     (let rule = (case scope_rule p (pi_subject i) (pi_client_id i) of
            Some s \<Rightarrow> Some s
          | None \<Rightarrow> scope_rule p ''*'' (pi_client_id i));
          client_scopes = (case rule of Some s \<Rightarrow> s | None \<Rightarrow> []) in
      rule \<noteq> None \<and> list_all (\<lambda>scope. map_get client_scopes scope \<noteq> None) (pi_granted_scopes i))"

definition static_authorize_consent :: "static_policy \<Rightarrow> policy_input \<Rightarrow> consent_decision res" where
  "static_authorize_consent p i =
     (let allowed = static_allowed p (pi_subject i) (pi_client_id i);
          allowed = (if allowed then \<not> list_ex (\<lambda>a. a = []) (pi_requested_audiences i) else allowed);
          allowed = (if allowed \<and> sp_require_scopes p then scopes_permitted p i else allowed) in
      if allowed then
        (let audiences = (if pi_granted_audiences i = [] then pi_requested_audiences i else pi_granted_audiences i) in
         Inr \<lparr>cd_allowed = True, cd_granted_scopes = clone_strings (pi_granted_scopes i),
              cd_granted_audiences = clone_strings audiences, cd_claims = clone_claims (sp_claims p)\<rparr>)
      else Inr \<lparr>cd_allowed = False, cd_granted_scopes = [], cd_granted_audiences = [], cd_claims = no_claims\<rparr>)"

section \<open>Lemmas\<close>

lemma clone_map_id [simp]: "clone_map m = m"
  by (simp add: clone_map_def)

lemma clone_claims_id [simp]: "clone_claims c = c"
  by (simp add: clone_claims_def)

lemma clone_strings_id [simp]: "clone_strings s = s"
  by (simp add: clone_strings_def)

lemma map_get_to_set_loop:
  "map_get (to_set_loop vs acc) k = (if k \<in> set vs \<and> k \<noteq> [] then Some () else map_get acc k)"
  by (induction vs arbitrary: acc) (auto simp: gomap)

lemma map_get_to_set [simp]: "map_get (to_set vs) k = (if k \<in> set vs \<and> k \<noteq> [] then Some () else None)"
  by (simp add: to_set_def map_get_to_set_loop)

lemma to_set_Nil_iff: "to_set vs = [] \<longleftrightarrow> set vs \<subseteq> {[]}"
proof
  assume "to_set vs = []"
  then have n: "map_get (to_set vs) k = None" for k by simp
  have "k = []" if "k \<in> set vs" for k using n [of k] that by (simp split: if_splits)
  then show "set vs \<subseteq> {[]}" by blast
next
  assume "set vs \<subseteq> {[]}"
  then have "map_get (to_set vs) k = None" for k by auto
  then have "k \<notin> fst ` set (to_set vs)" for k using map_get_None_iff by metis
  then show "to_set vs = []" by (cases "to_set vs") auto
qed

lemma map_get_map_snd: "map_get (map (\<lambda>(k, v). (k, f v)) m) k = map_option f (map_get m k)"
  by (induction m) (auto simp: map_get_def)

lemma scope_rule_new:
  "scope_rule (new_static_with_scopes subjects clients rules require) subject client =
     (case map_get rules subject of None \<Rightarrow> None
      | Some cs \<Rightarrow> map_option to_set (map_get cs client))"
  by (simp add: scope_rule_def new_static_with_scopes_def to_scope_set_def map_get_map_snd split: option.split)

lemma static_authorize_consent_cases:
  "static_authorize_consent p i =
     (if static_allowed p (pi_subject i) (pi_client_id i) \<and> [] \<notin> set (pi_requested_audiences i)
         \<and> (if sp_require_scopes p then scopes_permitted p i else True)
      then Inr \<lparr>cd_allowed = True, cd_granted_scopes = pi_granted_scopes i,
             cd_granted_audiences = selected_audiences i, cd_claims = sp_claims p\<rparr>
      else Inr denied)"
  by (auto simp: static_authorize_consent_def selected_audiences_def denied_def Let_def list_ex_iff)

interpretation static: consent_policy "static_authorize_consent p" for p
proof
  fix i d
  assume d: "static_authorize_consent p i = Inr d"
  show "cd_allowed d \<Longrightarrow> set (cd_granted_scopes d) \<subseteq> set (pi_granted_scopes i)
      \<and> set (cd_granted_audiences d) \<subseteq> set (selected_audiences i)"
    using d by (auto simp: static_authorize_consent_cases denied_def split: if_splits)
  show "\<not> cd_allowed d \<Longrightarrow> d = denied"
    using d by (auto simp: static_authorize_consent_cases split: if_splits)
qed

section \<open>Properties\<close>

text \<open>The scope rule that applies to a subject and a client.\<close>

definition rule_scopes :: "string list gomap gomap \<Rightarrow> string \<Rightarrow> string \<Rightarrow> string list option" where
  "rule_scopes rules subject client =
     (case Option.bind (map_get rules subject) (\<lambda>cs. map_get cs client) of
        Some scopes \<Rightarrow> Some scopes
      | None \<Rightarrow> Option.bind (map_get rules ''*'') (\<lambda>cs. map_get cs client))"

text \<open>C33. The static policy allows a consent exactly when the subject is listed (or \<open>*\<close> is),
  the client is listed (or no client or \<open>*\<close> is), no requested audience is empty, and, when
  scope rules are required, the subject's rule for the client, or the one for \<open>*\<close> when there
  is none, exists and lists every selected scope. It then grants exactly the selection.\<close>

theorem static_consent_decision:
  "static_authorize_consent (new_static_with_scopes subjects clients rules require) i =
     Inr (if (''*'' \<in> set subjects \<or> pi_subject i \<in> set subjects \<and> pi_subject i \<noteq> [])
           \<and> (set clients \<subseteq> {[]} \<or> ''*'' \<in> set clients \<or> pi_client_id i \<in> set clients \<and> pi_client_id i \<noteq> [])
           \<and> [] \<notin> set (pi_requested_audiences i)
           \<and> (if require then
                (case rule_scopes rules (pi_subject i) (pi_client_id i) of
                   None \<Rightarrow> False
                 | Some scopes \<Rightarrow> set (pi_granted_scopes i) \<subseteq> set scopes - {[]})
              else True)
         then \<lparr>cd_allowed = True, cd_granted_scopes = pi_granted_scopes i,
                cd_granted_audiences = selected_audiences i, cd_claims = no_claims\<rparr>
         else denied)"
proof -
  let ?p = "new_static_with_scopes subjects clients rules require"
  have a: "static_allowed ?p (pi_subject i) (pi_client_id i) \<longleftrightarrow>
      (''*'' \<in> set subjects \<or> pi_subject i \<in> set subjects \<and> pi_subject i \<noteq> [])
      \<and> (set clients \<subseteq> {[]} \<or> ''*'' \<in> set clients \<or> pi_client_id i \<in> set clients \<and> pi_client_id i \<noteq> [])"
    by (simp add: static_allowed_def new_static_with_scopes_def new_static_def to_set_Nil_iff)
  have s: "scopes_permitted ?p i \<longleftrightarrow> (case rule_scopes rules (pi_subject i) (pi_client_id i) of
        None \<Rightarrow> False
      | Some scopes \<Rightarrow> set (pi_granted_scopes i) \<subseteq> set scopes - {[]})"
    by (auto simp: scopes_permitted_def rule_scopes_def Let_def scope_rule_new list_all_iff
        split: option.splits if_splits)
  have f: "sp_require_scopes ?p = require" "sp_claims ?p = no_claims"
    by (simp_all add: new_static_with_scopes_def new_static_def)
  show ?thesis
    unfolding static_authorize_consent_cases a s f conj_assoc by (simp only: if_distrib [of Inr])
qed

end
