(* ===== verification/HttpClient.thy ===== *)
theory HttpClient
  imports CoreConfig
begin

text \<open>
  What the outbound adapters share of \<open>net/http\<close> and \<open>io\<close>. A request is its method,
  target, headers and body; the transport is a function from a request to a reply or an
  error. A body is the bytes the peer sent and whether reading them ended in an error
  rather than at the end of the stream. Redirects are not followed: the adapters set
  \<open>CheckRedirect\<close> to \<open>http.ErrUseLastResponse\<close>, so a redirect is a reply like any other.
\<close>

record http_request =
  hq_method :: string
  hq_url :: string
  hq_headers :: "(string \<times> string) list"
  hq_body :: string

record http_reply =
  hr_status :: int
  hr_body :: string
  hr_body_fails :: bool

type_synonym transport = "http_request \<Rightarrow> http_reply res"

text \<open>
  \<open>io.ReadAll\<close> (or \<open>io.Copy\<close>) over \<open>io.LimitReader(body, n)\<close>: once \<open>n\<close> bytes are read
  the reader reports the end of the stream and the rest is not looked at.
\<close>

definition read_limited :: "nat \<Rightarrow> http_reply \<Rightarrow> string option" where
  "read_limited n r =
     (if length (hr_body r) \<ge> n then Some (take n (hr_body r))
      else if hr_body_fails r then None else Some (hr_body r))"

definition max_response_bytes :: nat where "max_response_bytes = 2 ^ 20"

text \<open>\<open>drain\<close> of the adapters.\<close>

definition drain :: "string \<Rightarrow> http_reply \<Rightarrow> goerr option" where
  "drain msg r = (if read_limited max_response_bytes r = None then Some (upstream msg) else None)"

definition success_status :: "int \<Rightarrow> bool" where
  "success_status s \<longleftrightarrow> \<not> (s < 200 \<or> s \<ge> 300)"

text \<open>
  \<open>http.NewRequestWithContext\<close> parses the target again; nothing else of it can fail here.
\<close>

definition new_request ::
  "string \<Rightarrow> url \<Rightarrow> (string \<times> string) list \<Rightarrow> string \<Rightarrow> http_request option" where
  "new_request meth u headers body =
     (case url_parse (url_string u) of
        None \<Rightarrow> None
      | Some v \<Rightarrow> Some \<lparr>hq_method = meth, hq_url = url_string v, hq_headers = headers, hq_body = body\<rparr>)"

text \<open>The check of the programs under \<open>realstack\<close> for a URL from the environment.\<close>

definition absolute_http_url :: "string \<Rightarrow> url option" where
  "absolute_http_url v =
     (case url_parse v of
        None \<Rightarrow> None
      | Some u \<Rightarrow>
          if (u_scheme u \<noteq> ''http'' \<and> u_scheme u \<noteq> ''https'') \<or> u_host u = [] \<or> u_user u \<noteq> None
             \<or> u_raw_query u \<noteq> [] \<or> u_fragment u \<noteq> [] then None
          else Some u)"

lemma read_limited_length: "read_limited n r = Some d \<Longrightarrow> length d \<le> n"
  by (auto simp: read_limited_def split: if_splits)

lemma drain_None: "drain msg r = None \<longleftrightarrow> read_limited max_response_bytes r \<noteq> None"
  by (simp add: drain_def)

lemma drain_upstream: "drain msg r = Some e \<Longrightarrow> errors_is e ErrUpstream"
  by (auto simp: drain_def split: if_splits)

end
