(* ===== verification/HttpPolicy.thy ===== *)
theory HttpPolicy
  imports HttpClient PolicyPort
begin

text \<open>
  The remote policy client of \<open>internal/adapters/outbound/policy/http.go\<close>. The transport
  and the JSON codec are parameters: \<open>pc_encode\<close> is \<open>json.Marshal\<close> on a request, \<open>pc_decode\<close>
  is \<open>json.Unmarshal\<close> into a response. Nothing is assumed of them: every statement holds
  whatever the remote service answers and however its answer is decoded.
\<close>

definition contractVersion :: string where "contractVersion = ''v1''"
definition max_request_bytes :: nat where "max_request_bytes = 65536"

record policy_request =
  pq_version :: string
  pq_operation :: string
  pq_issuer :: string
  pq_subject :: string
  pq_client_id :: string
  pq_requested_scopes :: "string list"
  pq_granted_scopes :: "string list"
  pq_requested_audiences :: "string list"
  pq_granted_audiences :: "string list"
  pq_aal :: string
  pq_amr :: "string list"

record claims_response =
  cq_id_token :: "jval gomap"
  cq_access_token :: "jval gomap"
  cq_user_info :: "jval gomap"

record policy_response =
  ps_version :: "string option"
  ps_allowed :: "bool option"
  ps_granted_scopes :: "string list option"
  ps_granted_audiences :: "string list option"
  ps_claims :: "claims_response option"

record policy_codec =
  pc_encode :: "policy_request \<Rightarrow> string option"
  pc_decode :: "string \<Rightarrow> policy_response option"

record http_policy =
  hp_endpoint :: url
  hp_token :: string

definition new_http_policy :: "url option \<Rightarrow> string \<Rightarrow> http_policy res" where
  "new_http_policy endpoint token =
     (case endpoint of
        None \<Rightarrow> Inl (Msg ''policy URL must be an absolute HTTP URL without credentials, query, or fragment'')
      | Some u \<Rightarrow>
          if (u_scheme u \<noteq> ''http'' \<and> u_scheme u \<noteq> ''https'') \<or> u_host u = [] \<or> u_user u \<noteq> None
             \<or> u_fragment u \<noteq> [] \<or> u_raw_query u \<noteq> []
          then Inl (Msg ''policy URL must be an absolute HTTP URL without credentials, query, or fragment'')
          else Inr \<lparr>hp_endpoint = u, hp_token = trim_space token\<rparr>)"

section \<open>The request\<close>

definition contract_strings :: "string list \<Rightarrow> string list" where
  "contract_strings source = (if source = [] then [] else source)"

definition policy_request_of :: "string \<Rightarrow> policy_input \<Rightarrow> policy_request" where
  "policy_request_of operation i =
     \<lparr>pq_version = contractVersion, pq_operation = operation, pq_issuer = pi_issuer i,
      pq_subject = pi_subject i, pq_client_id = pi_client_id i,
      pq_requested_scopes = contract_strings (pi_requested_scopes i),
      pq_granted_scopes = contract_strings (pi_granted_scopes i),
      pq_requested_audiences = contract_strings (pi_requested_audiences i),
      pq_granted_audiences = contract_strings (pi_granted_audiences i),
      pq_aal = pi_aal i, pq_amr = contract_strings (pi_amr i)\<rparr>"

definition policy_headers :: "http_policy \<Rightarrow> (string \<times> string) list" where
  "policy_headers c =
     [(''Accept'', ''application/json''), (''Content-Type'', ''application/json'')]
     @ (if hp_token c \<noteq> [] then [(''Authorization'', ''Bearer '' @ hp_token c)] else [])"

section \<open>The response\<close>

definition claims_from_response :: "claims_response option \<Rightarrow> claims" where
  "claims_from_response v =
     (case v of
        None \<Rightarrow> no_claims
      | Some c \<Rightarrow> \<lparr>cl_id_token = cq_id_token c, cl_access_token = cq_access_token c, cl_user_info = cq_user_info c\<rparr>)"

definition claims_present :: "claims_response option \<Rightarrow> bool" where
  "claims_present v =
     (case v of
        None \<Rightarrow> False
      | Some c \<Rightarrow> cq_id_token c \<noteq> [] \<or> cq_access_token c \<noteq> [] \<or> cq_user_info c \<noteq> [])"

fun validate_values_loop :: "string list \<Rightarrow> string list \<Rightarrow> bool" where
  "validate_values_loop seen [] = True"
| "validate_values_loop seen (v # vs) =
     (if trim_space v = [] then False
      else if v \<in> set seen then False
      else validate_values_loop (v # seen) vs)"

definition validate_values :: "string list \<Rightarrow> bool" where
  "validate_values vs = validate_values_loop [] vs"

definition response_decision :: "policy_response \<Rightarrow> policy_input \<Rightarrow> consent_decision res" where
  "response_decision r i =
     (case (ps_version r, ps_allowed r, ps_granted_scopes r, ps_granted_audiences r) of
        (Some version, Some allowed, Some scopes, Some audiences) \<Rightarrow>
          if version \<noteq> contractVersion then Inl (upstream ''malformed policy response'')
          else if \<not> validate_values scopes then Inl (upstream ''malformed policy scopes'')
          else if \<not> validate_values audiences then Inl (upstream ''malformed policy audiences'')
          else if \<not> allowed then
            (if scopes \<noteq> [] \<or> audiences \<noteq> [] \<or> claims_present (ps_claims r)
             then Inl (upstream ''denied policy response contains grants or claims'')
             else Inr denied)
          else
            (let granted = (if pi_granted_audiences i = [] then pi_requested_audiences i
                            else pi_granted_audiences i) in
             if \<not> slice_subset scopes (pi_granted_scopes i) \<or> \<not> slice_subset audiences granted
             then Inl (upstream ''policy response expands requested grants'')
             else Inr \<lparr>cd_allowed = True, cd_granted_scopes = scopes, cd_granted_audiences = audiences,
                       cd_claims = claims_from_response (ps_claims r)\<rparr>)
      | _ \<Rightarrow> Inl (upstream ''malformed policy response''))"

definition decode_response :: "policy_codec \<Rightarrow> http_reply \<Rightarrow> policy_response res" where
  "decode_response codec r =
     (case read_limited (max_response_bytes + 1) r of
        None \<Rightarrow> Inl (upstream ''read policy response'')
      | Some data \<Rightarrow>
          if length data > max_response_bytes then Inl (upstream ''policy response is too large'')
          else case pc_decode codec data of
            None \<Rightarrow> Inl (upstream ''decode policy response'')
          | Some p \<Rightarrow> Inr p)"

definition http_authorize ::
  "http_policy \<Rightarrow> policy_codec \<Rightarrow> transport \<Rightarrow> string \<Rightarrow> policy_input \<Rightarrow> consent_decision res" where
  "http_authorize c codec send operation i =
     (case pc_encode codec (policy_request_of operation i) of
        None \<Rightarrow> Inl (upstream ''encode policy request'')
      | Some encoded \<Rightarrow>
          if length encoded > max_request_bytes then Inl (upstream ''policy request is too large'')
          else case new_request ''POST'' (hp_endpoint c) (policy_headers c) encoded of
            None \<Rightarrow> Inl (upstream ''create policy request'')
          | Some request \<Rightarrow>
              (case send request of
                 Inl e \<Rightarrow> Inl (Wrap ''policy request failed'' [Sent ErrUpstream, e])
               | Inr response \<Rightarrow>
                   if \<not> success_status (hr_status response)
                   then Inl (upstream ''policy returned status'')
                   else case decode_response codec response of
                     Inl e \<Rightarrow> Inl e
                   | Inr result \<Rightarrow> response_decision result i))"

definition http_authorize_login ::
  "http_policy \<Rightarrow> policy_codec \<Rightarrow> transport \<Rightarrow> policy_input \<Rightarrow> bool res" where
  "http_authorize_login c codec send i =
     (case http_authorize c codec send ''login'' i of
        Inl e \<Rightarrow> Inl e
      | Inr d \<Rightarrow> Inr (cd_allowed d))"

definition http_authorize_consent ::
  "http_policy \<Rightarrow> policy_codec \<Rightarrow> transport \<Rightarrow> policy_input \<Rightarrow> consent_decision res" where
  "http_authorize_consent c codec send i = http_authorize c codec send ''consent'' i"

section \<open>Lemmas\<close>

lemma contract_strings_id [simp]: "contract_strings s = s"
  by (simp add: contract_strings_def)

lemma validate_values_loop_iff:
  "validate_values_loop seen vs \<longleftrightarrow> distinct vs \<and> set vs \<inter> set seen = {} \<and> (\<forall>v\<in>set vs. trim_space v \<noteq> [])"
  by (induction vs arbitrary: seen) auto

lemma validate_values_iff: "validate_values vs \<longleftrightarrow> distinct vs \<and> (\<forall>v\<in>set vs. trim_space v \<noteq> [])"
  by (simp add: validate_values_def validate_values_loop_iff)

lemma response_decision_Inr:
  "response_decision r i = Inr d \<longleftrightarrow>
     (\<exists>allowed scopes audiences.
        ps_version r = Some contractVersion \<and> ps_allowed r = Some allowed
        \<and> ps_granted_scopes r = Some scopes \<and> ps_granted_audiences r = Some audiences
        \<and> validate_values scopes \<and> validate_values audiences
        \<and> (if allowed
           then set scopes \<subseteq> set (pi_granted_scopes i) \<and> set audiences \<subseteq> set (selected_audiences i)
             \<and> d = \<lparr>cd_allowed = True, cd_granted_scopes = scopes, cd_granted_audiences = audiences,
                     cd_claims = claims_from_response (ps_claims r)\<rparr>
           else scopes = [] \<and> audiences = [] \<and> \<not> claims_present (ps_claims r) \<and> d = denied))"
  by (auto simp: response_decision_def selected_audiences_def Let_def split: option.splits if_splits)

lemma http_authorize_Inr:
  assumes "http_authorize c codec send operation i = Inr d"
  obtains encoded request response data r where
    "pc_encode codec (policy_request_of operation i) = Some encoded" "length encoded \<le> max_request_bytes"
    "new_request ''POST'' (hp_endpoint c) (policy_headers c) encoded = Some request"
    "send request = Inr response" "success_status (hr_status response)"
    "hr_body response = data" "length data \<le> max_response_bytes" "pc_decode codec data = Some r"
    "response_decision r i = Inr d"
  using assms
  by (auto simp: http_authorize_def decode_response_def read_limited_def
      split: option.splits if_splits sum.splits)

lemma http_authorize_consent_decision:
  "http_authorize_consent c codec send i = Inr d \<Longrightarrow> \<exists>r. response_decision r i = Inr d"
  unfolding http_authorize_consent_def by (erule http_authorize_Inr) blast

interpretation http: consent_policy "http_authorize_consent c codec send" for c codec send
proof
  fix i d
  assume "http_authorize_consent c codec send i = Inr d"
  then obtain r where r: "response_decision r i = Inr d" using http_authorize_consent_decision by blast
  show "cd_allowed d \<Longrightarrow> set (cd_granted_scopes d) \<subseteq> set (pi_granted_scopes i)
      \<and> set (cd_granted_audiences d) \<subseteq> set (selected_audiences i)"
    using r by (auto simp: response_decision_Inr denied_def split: if_splits)
  show "\<not> cd_allowed d \<Longrightarrow> d = denied"
    using r by (auto simp: response_decision_Inr split: if_splits)
qed

section \<open>Properties\<close>

definition sample_codec :: policy_codec where
  "sample_codec = \<lparr>pc_encode = (\<lambda>q. Some ''q''),
     pc_decode = (\<lambda>d. Some \<lparr>ps_version = Some ''v1'', ps_allowed = Some True, ps_granted_scopes = Some [''email''],
       ps_granted_audiences = Some [], ps_claims = None\<rparr>)\<rparr>"

definition sample_http_policy :: http_policy where
  "sample_http_policy = \<lparr>hp_endpoint = sample_url ''p'', hp_token = ''t''\<rparr>"

definition sample_policy_input :: policy_input where
  "sample_policy_input = \<lparr>pi_issuer = [], pi_subject = ''u'', pi_client_id = ''c'', pi_requested_scopes = [''email''],
     pi_granted_scopes = [''email''], pi_requested_audiences = [], pi_granted_audiences = [], pi_aal = ''aal1'',
     pi_amr = []\<rparr>"

definition sample_reply :: http_reply where
  "sample_reply = \<lparr>hr_status = 200, hr_body = ''r'', hr_body_fails = False\<rparr>"

lemma sample_new_request:
  "new_request ''POST'' (sample_url ''p'') hs body =
     Some \<lparr>hq_method = ''POST'', hq_url = ''https://p'', hq_headers = hs, hq_body = body\<rparr>"
proof -
  have s: "url_string (sample_url ''p'') = ''https://p''"
    by (simp add: url_string_def url_front_def sample_url_def empty_url_def escaped_path_def escaped_fragment_def
        valid_encoded_def escape_def escape_char_def should_escape_def is_alnum_def is_alpha_def is_digit_def)
  have "url_parse ''https://p'' = Some (sample_url ''p'')"
    by (simp add: url_parse_def parse_no_fragment_def cut_def get_scheme_def is_alpha_def is_digit_def
        has_prefix_def has_suffix_def text_eval parse_after_query_def parse_authority_def last_index_def
        parse_host_def set_path_def empty_url_def escape_def should_escape_def is_alnum_def sample_url_def)
  with s show ?thesis by (simp add: new_request_def)
qed

lemma sample_http_authorize:
  "http_authorize sample_http_policy sample_codec (\<lambda>q. Inr sample_reply) operation sample_policy_input =
     Inr \<lparr>cd_allowed = True, cd_granted_scopes = [''email''], cd_granted_audiences = [], cd_claims = no_claims\<rparr>"
proof -
  have v: "validate_values [''email'']"
    by (simp add: validate_values_def text_eval)
  show ?thesis
    using v by (simp add: http_authorize_def sample_codec_def sample_http_policy_def max_request_bytes_def
        sample_new_request sample_reply_def success_status_def decode_response_def read_limited_def
        max_response_bytes_def response_decision_def sample_policy_input_def contractVersion_def
        claims_from_response_def validate_values_def)
qed

text \<open>C32. The remote policy fails closed: a login or a consent is allowed only when the
  service answered the request that carries this operation and these inputs, with a success
  status and a body of at most a mebibyte that decodes to a version 1 response with an
  explicit \<open>allowed\<close> and explicit grants, none blank or repeated, within the selection.\<close>

theorem http_policy_fails_closed:
  assumes "http_authorize c codec send operation i = Inr d" and "cd_allowed d"
  shows "\<exists>request response r.
    pc_encode codec (policy_request_of operation i) = Some (hq_body request)
    \<and> length (hq_body request) \<le> 65536 \<and> hq_method request = ''POST''
    \<and> hq_headers request = policy_headers c
    \<and> send request = Inr response \<and> 200 \<le> hr_status response \<and> hr_status response < 300
    \<and> length (hr_body response) \<le> 2 ^ 20 \<and> pc_decode codec (hr_body response) = Some r
    \<and> ps_version r = Some ''v1'' \<and> ps_allowed r = Some True
    \<and> ps_granted_scopes r = Some (cd_granted_scopes d)
    \<and> ps_granted_audiences r = Some (cd_granted_audiences d)
    \<and> distinct (cd_granted_scopes d) \<and> distinct (cd_granted_audiences d)
    \<and> set (cd_granted_scopes d) \<subseteq> set (pi_granted_scopes i)
    \<and> set (cd_granted_audiences d) \<subseteq> set (selected_audiences i)
    \<and> (\<forall>v. v \<in> set (cd_granted_scopes d) \<union> set (cd_granted_audiences d) \<longrightarrow> trim_space v \<noteq> [])"
proof -
  obtain encoded request response data r where h:
    "pc_encode codec (policy_request_of operation i) = Some encoded" "length encoded \<le> max_request_bytes"
    "new_request ''POST'' (hp_endpoint c) (policy_headers c) encoded = Some request"
    "send request = Inr response" "success_status (hr_status response)"
    "hr_body response = data" "length data \<le> max_response_bytes" "pc_decode codec data = Some r"
    "response_decision r i = Inr d"
    by (rule http_authorize_Inr [OF assms(1)])
  have q: "hq_body request = encoded" "hq_method request = ''POST''" "hq_headers request = policy_headers c"
    using h(3) by (auto simp: new_request_def split: option.splits)
  show ?thesis
    using h assms(2) q
    by (intro exI [of _ request] exI [of _ response] exI [of _ r])
      (auto simp: response_decision_Inr validate_values_iff success_status_def max_request_bytes_def
        max_response_bytes_def contractVersion_def denied_def split: if_splits)
qed

theorem http_policy_fails_closed_witness:
  "\<exists>request :: http_request. hq_headers request = policy_headers sample_http_policy \<and> hq_method request = ''POST''
     \<and> length (hq_body request) \<le> 65536"
proof -
  have "cd_allowed \<lparr>cd_allowed = True, cd_granted_scopes = [''email''], cd_granted_audiences = [],
      cd_claims = no_claims\<rparr>" by simp
  from http_policy_fails_closed [OF sample_http_authorize [of "''login''"] this]
  obtain request :: http_request where "hq_headers request = policy_headers sample_http_policy"
    "hq_method request = ''POST''" "length (hq_body request) \<le> 65536"
    by (elim exE conjE) (rule that, assumption+)
  then show ?thesis by blast
qed

text \<open>Whatever goes wrong in a call of the remote policy (encoding, size, transport,
  status, body, decoding, version, malformed or expanding grants, a denial with grants) is
  reported as an upstream failure.\<close>

theorem http_policy_errors_upstream:
  assumes "http_authorize c codec send operation i = Inl e"
  shows "errors_is e ErrUpstream"
  using assms
  by (auto simp: http_authorize_def decode_response_def response_decision_def Let_def
      split: option.splits if_splits sum.splits)

theorem http_policy_errors_upstream_witness:
  "errors_is (Wrap ''policy request failed'' [Sent ErrUpstream, Msg ''t'']) ErrUpstream"
proof -
  have "http_authorize sample_http_policy sample_codec (\<lambda>q. Inl (Msg ''t'')) ''login'' sample_policy_input =
      Inl (Wrap ''policy request failed'' [Sent ErrUpstream, Msg ''t''])"
    by (simp add: http_authorize_def sample_codec_def sample_http_policy_def max_request_bytes_def sample_new_request)
  then show ?thesis by (rule http_policy_errors_upstream)
qed

text \<open>A consent that the remote policy allows always passes the checks the service makes
  of the decision: its scopes and audiences are without duplicates and within the
  selection, so the acceptance cannot fail there.\<close>

theorem http_consent_passes_recheck:
  assumes "http_authorize_consent c codec send i = Inr d" and "cd_allowed d"
  shows "validate_requested_subset (pi_granted_scopes i) (cd_granted_scopes d) = None
    \<and> validate_audience_subset (selected_audiences i) (cd_granted_audiences d) = None"
proof -
  obtain r where "response_decision r i = Inr d" using http_authorize_consent_decision [OF assms(1)] by blast
  then have "distinct (cd_granted_scopes d)" "distinct (cd_granted_audiences d)"
    using assms(2) by (auto simp: response_decision_Inr validate_values_iff denied_def split: if_splits)
  then show ?thesis by (rule http.rechecked [OF assms])
qed

theorem http_consent_passes_recheck_witness:
  "validate_requested_subset [''email''] [''email''] = None"
  using http_consent_passes_recheck [OF sample_http_authorize [of "''consent''", folded http_authorize_consent_def]]
  by (simp add: sample_policy_input_def)

end
