(* ===== verification/Store.thy ===== *)
theory Store
  imports Ports
begin

text \<open>
  The contract of a transaction store, in layers. \<open>consuming_store\<close> is what a
  completion relies on: lookups that change nothing, and a consume that returns a
  transaction only when it removes it. \<open>transaction_store\<close> adds what the start flows rely
  on: a fresh handle for each created transaction, and no change to other entries except
  the removal of expired ones. \<open>creating_store\<close> and \<open>bounded_store\<close> lie between them. \<open>contents\<close> is the abstract view of a store state, a partial
  map from handles to transactions.

  \<open>store_spec\<close> is the abstract specification: which results an operation may have on a
  partial map, and what it leaves. Every store that keeps the contract refines it.
\<close>

section \<open>The contract\<close>

text \<open>An entry, if there is one, expires before the given transaction does.\<close>

definition expired_before :: "transaction \<Rightarrow> transaction option \<Rightarrow> bool" where
  "expired_before tx entry \<longleftrightarrow>
     (case entry of None \<Rightarrow> True | Some old \<Rightarrow> tx_expires_at old < tx_expires_at tx)"

locale consuming_store =
  fixes ops :: "'s store_ops"
    and contents :: "'s \<Rightarrow> string \<Rightarrow> transaction option"
    and inv :: "'s \<Rightarrow> bool"
  assumes get_pure: "\<And>h r s s'. inv s \<Longrightarrow> run_state (so_get ops h) s = (r, s') \<Longrightarrow>
      inv s' \<and> contents s' = contents s"
    and get_found: "\<And>h tx s s'. inv s \<Longrightarrow> run_state (so_get ops h) s = (Inr tx, s') \<Longrightarrow>
      contents s h = Some tx"
    and consume_keeps: "\<And>h r s s'. inv s \<Longrightarrow> run_state (so_consume ops h) s = (r, s') \<Longrightarrow>
      inv s' \<and> (\<forall>h'. contents s' h' = contents s h' \<or> h' = h \<and> contents s' h' = None)"
    and consume_found: "\<And>h tx s s'. inv s \<Longrightarrow> run_state (so_consume ops h) s = (Inr tx, s') \<Longrightarrow>
      contents s h = Some tx \<and> contents s' h = None"

locale transaction_store = consuming_store ops contents inv
  for ops :: "'s store_ops"
    and contents :: "'s \<Rightarrow> string \<Rightarrow> transaction option"
    and inv :: "'s \<Rightarrow> bool" +
  assumes create_keeps: "\<And>tx r s s'. inv s \<Longrightarrow> run_state (so_create ops tx) s = (r, s') \<Longrightarrow>
      inv s' \<and> (\<forall>h. r \<noteq> Inr h \<longrightarrow> contents s' h = contents s h
        \<or> contents s' h = None \<and> expired_before tx (contents s h))"
    and create_fresh: "\<And>tx h s s'. inv s \<Longrightarrow> run_state (so_create ops tx) s = (Inr h, s') \<Longrightarrow>
      contents s' h = Some tx \<and> expired_before tx (contents s h)"

text \<open>
  What a creation may do when its caller cannot know how often it took effect: entries may
  vanish, and an entry that appears is the transaction to be created.
\<close>

locale creating_store = consuming_store ops contents inv
  for ops :: "'s store_ops"
    and contents :: "'s \<Rightarrow> string \<Rightarrow> transaction option"
    and inv :: "'s \<Rightarrow> bool" +
  assumes create_adds: "\<And>tx r s s'. inv s \<Longrightarrow> run_state (so_create ops tx) s = (r, s') \<Longrightarrow>
      inv s' \<and> (\<forall>h. contents s' h \<in> {contents s h, None, Some tx})"

sublocale transaction_store \<subseteq> creating_store
proof
  fix tx r s s'
  assume inv: "inv s" and run: "run_state (so_create ops tx) s = (r, s')"
  have "contents s' h \<in> {contents s h, None, Some tx}" for h
  proof (cases "r = Inr h")
    case True
    then show ?thesis using create_fresh [OF inv, of tx h s'] run by simp
  next
    case False
    then show ?thesis using conjunct2 [OF create_keeps [OF inv run]] by auto
  qed
  then show "inv s' \<and> (\<forall>h. contents s' h \<in> {contents s h, None, Some tx})"
    using conjunct1 [OF create_keeps [OF inv run]] by blast
qed

text \<open>The number of entries that one creation may leave.\<close>

locale bounded_store = creating_store ops contents inv
  for ops :: "'s store_ops"
    and contents :: "'s \<Rightarrow> string \<Rightarrow> transaction option"
    and inv :: "'s \<Rightarrow> bool" +
  fixes width :: nat
  assumes width_pos: "0 < width"
    and create_few: "\<And>tx r s s'. inv s \<Longrightarrow> run_state (so_create ops tx) s = (r, s') \<Longrightarrow>
      \<exists>H. finite H \<and> card H \<le> width \<and> (\<forall>h. h \<notin> H \<longrightarrow> contents s' h \<in> {contents s h, None})"

sublocale transaction_store \<subseteq> once: bounded_store ops contents inv 1
proof
  fix tx r s s'
  assume inv: "inv s" and run: "run_state (so_create ops tx) s = (r, s')"
  let ?H = "case r of Inl e \<Rightarrow> {} | Inr h \<Rightarrow> {h}"
  have "contents s' h \<in> {contents s h, None}" if "h \<notin> ?H" for h
    using conjunct2 [OF create_keeps [OF inv run], THEN spec, of h] that by (cases r) auto
  moreover have "finite ?H \<and> card ?H \<le> 1" by (simp split: sum.split)
  ultimately show "\<exists>H. finite H \<and> card H \<le> 1 \<and> (\<forall>h. h \<notin> H \<longrightarrow> contents s' h \<in> {contents s h, None})" by blast
qed simp

section \<open>Sequences of operations\<close>

datatype store_op = OpCreate transaction | OpGet string | OpConsume string
datatype store_result = Handle "string res" | Found "transaction res"

fun exec_op :: "'s store_ops \<Rightarrow> store_op \<Rightarrow> 's \<Rightarrow> store_result \<times> 's" where
  "exec_op ops (OpCreate tx) s = apfst Handle (run_state (so_create ops tx) s)"
| "exec_op ops (OpGet h) s = apfst Found (run_state (so_get ops h) s)"
| "exec_op ops (OpConsume h) s = apfst Found (run_state (so_consume ops h) s)"

fun exec_ops :: "'s store_ops \<Rightarrow> store_op list \<Rightarrow> 's \<Rightarrow> (store_op \<times> store_result) list \<times> 's" where
  "exec_ops ops [] s = ([], s)"
| "exec_ops ops (op # rest) s =
     (let (r, s1) = exec_op ops op s; (trace, s2) = exec_ops ops rest s1 in
      ((op, r) # trace, s2))"

fun created :: "string \<Rightarrow> store_op \<times> store_result \<Rightarrow> bool" where
  "created h (op, Handle (Inr h')) = (h' = h)"
| "created h _ = False"

fun consumed :: "string \<Rightarrow> store_op \<times> store_result \<Rightarrow> bool" where
  "consumed h (OpConsume h', Found (Inr tx)) = (h' = h)"
| "consumed h _ = False"

definition times_created :: "string \<Rightarrow> (store_op \<times> store_result) list \<Rightarrow> nat" where
  "times_created h tr = length (filter (created h) tr)"

definition times_consumed :: "string \<Rightarrow> (store_op \<times> store_result) list \<Rightarrow> nat" where
  "times_consumed h tr = length (filter (consumed h) tr)"

definition live :: "('s \<Rightarrow> string \<Rightarrow> transaction option) \<Rightarrow> 's \<Rightarrow> string \<Rightarrow> nat" where
  "live contents s h = (if contents s h = None then 0 else 1)"

context transaction_store
begin

lemma exec_op_inv:
  assumes "inv s" and "exec_op ops op s = (r, s')"
  shows "inv s'"
proof (cases op)
  case (OpCreate tx)
  then obtain r0 where "run_state (so_create ops tx) s = (r0, s')"
    using assms(2) by (cases "run_state (so_create ops tx) s") simp
  then show ?thesis by (rule conjunct1 [OF create_keeps [OF assms(1)]])
next
  case (OpGet h)
  then obtain r0 where "run_state (so_get ops h) s = (r0, s')"
    using assms(2) by (cases "run_state (so_get ops h) s") simp
  then show ?thesis by (rule conjunct1 [OF get_pure [OF assms(1)]])
next
  case (OpConsume h)
  then obtain r0 where "run_state (so_consume ops h) s = (r0, s')"
    using assms(2) by (cases "run_state (so_consume ops h) s") simp
  then show ?thesis by (rule conjunct1 [OF consume_keeps [OF assms(1)]])
qed

lemma exec_op_counts:
  assumes "inv s" and "exec_op ops op s = (r, s')"
  shows "times_consumed h [(op, r)] + live contents s' h \<le> times_created h [(op, r)] + live contents s h"
proof (cases op)
  case (OpCreate tx)
  obtain r0 s0 where raw: "run_state (so_create ops tx) s = (r0, s0)" by fastforce
  have "(Handle r0, s0) = (r, s')" using assms(2) by (simp only: OpCreate exec_op.simps raw apfst_conv)
  then have r0: "run_state (so_create ops tx) s = (r0, s')" "r = Handle r0" using raw by simp_all
  have k: "\<forall>h. r0 \<noteq> Inr h \<longrightarrow> contents s' h = contents s h
      \<or> contents s' h = None \<and> expired_before tx (contents s h)"
    by (rule conjunct2 [OF create_keeps [OF assms(1) r0(1)]])
  show ?thesis
  proof (cases "r0 = Inr h")
    case True
    then show ?thesis by (simp add: OpCreate r0 times_consumed_def times_created_def live_def)
  next
    case False
    then have "contents s' h = contents s h
        \<or> contents s' h = None \<and> expired_before tx (contents s h)"
      using k [THEN spec, of h] by simp
    then have "live contents s' h \<le> live contents s h" by (elim disjE conjE) (simp_all add: live_def)
    moreover have "times_consumed h [(op, r)] = 0" by (simp add: OpCreate times_consumed_def)
    ultimately show ?thesis by simp
  qed
next
  case (OpGet g)
  obtain r0 s0 where raw: "run_state (so_get ops g) s = (r0, s0)" by fastforce
  have "(Found r0, s0) = (r, s')" using assms(2) by (simp only: OpGet exec_op.simps raw apfst_conv)
  then have r0: "run_state (so_get ops g) s = (r0, s')" "r = Found r0" using raw by simp_all
  then show ?thesis using get_pure [OF assms(1) r0(1)]
    by (simp add: OpGet times_consumed_def times_created_def live_def)
next
  case (OpConsume g)
  obtain r0 s0 where raw: "run_state (so_consume ops g) s = (r0, s0)" by fastforce
  have "(Found r0, s0) = (r, s')" using assms(2) by (simp only: OpConsume exec_op.simps raw apfst_conv)
  then have r0: "run_state (so_consume ops g) s = (r0, s')" "r = Found r0" using raw by simp_all
  have k: "\<forall>h'. contents s' h' = contents s h' \<or> h' = g \<and> contents s' h' = None"
    by (rule conjunct2 [OF consume_keeps [OF assms(1) r0(1)]])
  show ?thesis
  proof (cases r0)
    case (Inl e)
    then have "times_consumed h [(op, r)] = 0" by (simp add: OpConsume r0 times_consumed_def)
    moreover have "live contents s' h \<le> live contents s h"
      using k [THEN spec, of h] by (auto simp: live_def)
    ultimately show ?thesis by simp
  next
    case (Inr tx)
    have f: "contents s g = Some tx \<and> contents s' g = None"
      by (rule consume_found [OF assms(1), of g tx s']) (simp add: r0(1) Inr [symmetric])
    have "times_consumed h [(op, r)] = (if g = h then 1 else 0)"
      by (simp add: OpConsume r0(2) Inr times_consumed_def)
    then show ?thesis using k [THEN spec, of h] f by (auto simp: live_def)
  qed
qed

lemma single_use:
  "inv s \<Longrightarrow> exec_ops ops os s = (tr, s') \<Longrightarrow>
   times_consumed h tr + live contents s' h \<le> times_created h tr + live contents s h"
proof (induction os arbitrary: s tr)
  case Nil
  then show ?case by (simp add: times_consumed_def times_created_def)
next
  case (Cons op os)
  obtain r s1 tr1 where o: "exec_op ops op s = (r, s1)"
      "exec_ops ops os s1 = (tr1, s')" "tr = (op, r) # tr1"
    using Cons.prems(2) by (auto split: prod.splits)
  have "times_consumed h tr1 + live contents s' h \<le> times_created h tr1 + live contents s1 h"
    using Cons.IH [OF exec_op_inv [OF Cons.prems(1) o(1)] o(2)] .
  moreover have "times_consumed h tr = times_consumed h [(op, r)] + times_consumed h tr1"
    "times_created h tr = times_created h [(op, r)] + times_created h tr1"
    by (simp_all add: times_consumed_def times_created_def o(3))
  ultimately show ?case using exec_op_counts [OF Cons.prems(1) o(1), of h] by linarith
qed

text \<open>A handle the store does not hold is refused, and stays refused.\<close>

lemma absent_refused:
  "inv s \<Longrightarrow> contents s h = None \<Longrightarrow> \<exists>e. fst (run_state (so_consume ops h) s) = Inl e"
  using consume_found [of s h _ "snd (run_state (so_consume ops h) s)"]
  by (cases "fst (run_state (so_consume ops h) s)") (auto simp: prod_eq_iff)

lemma consume_removes:
  assumes "inv s" and "run_state (so_consume ops h) s = (Inr tx, s')"
  shows "\<exists>e. fst (run_state (so_consume ops h) s') = Inl e"
  using absent_refused [of s' h] conjunct1 [OF consume_keeps [OF assms]] conjunct2 [OF consume_found [OF assms]]
  by simp

end

section \<open>The abstract store\<close>

text \<open>
  What an operation with a given result may do to a partial map from handles to
  transactions. \<open>pruned tx m m'\<close>: entries that expire before \<open>tx\<close> may be gone.
\<close>

definition pruned :: "transaction \<Rightarrow> (string \<Rightarrow> transaction option) \<Rightarrow> (string \<Rightarrow> transaction option) \<Rightarrow> bool" where
  "pruned tx m m' \<longleftrightarrow> (\<forall>h. m' h = m h \<or> m' h = None \<and> expired_before tx (m h))"

inductive store_spec ::
  "(string \<Rightarrow> transaction option) \<Rightarrow> store_op \<times> store_result \<Rightarrow> (string \<Rightarrow> transaction option) \<Rightarrow> bool" where
  spec_create: "pruned tx m m' \<Longrightarrow> expired_before tx (m h) \<Longrightarrow>
     store_spec m (OpCreate tx, Handle (Inr h)) (m'(h \<mapsto> tx))"
| spec_create_fails: "pruned tx m m' \<Longrightarrow> store_spec m (OpCreate tx, Handle (Inl e)) m'"
| spec_get: "m h = Some tx \<Longrightarrow> store_spec m (OpGet h, Found (Inr tx)) m"
| spec_get_fails: "store_spec m (OpGet h, Found (Inl e)) m"
| spec_consume: "m h = Some tx \<Longrightarrow> store_spec m (OpConsume h, Found (Inr tx)) (m(h := None))"
| spec_consume_fails: "m' = m \<or> m' = m(h := None) \<Longrightarrow> store_spec m (OpConsume h, Found (Inl e)) m'"

inductive store_run ::
  "(string \<Rightarrow> transaction option) \<Rightarrow> (store_op \<times> store_result) list \<Rightarrow> (string \<Rightarrow> transaction option) \<Rightarrow> bool" where
  run_done: "store_run m [] m"
| run_step: "store_spec m x m1 \<Longrightarrow> store_run m1 tr m' \<Longrightarrow> store_run m (x # tr) m'"

inductive_cases store_specE: "store_spec m x m'"
inductive_simps store_run_Nil [simp]: "store_run m [] m'"
inductive_simps store_run_Cons: "store_run m (x # tr) m'"

context transaction_store
begin

text \<open>One operation of a store that keeps the contract is a step of the abstract store.\<close>

lemma exec_op_refines:
  assumes "inv s" and "exec_op ops op s = (r, s')"
  shows "store_spec (contents s) (op, r) (contents s')"
proof (cases op)
  case (OpCreate tx)
  obtain r0 where raw: "run_state (so_create ops tx) s = (r0, s')" and r: "r = Handle r0"
    using assms(2) OpCreate by (cases "run_state (so_create ops tx) s") auto
  have k: "\<forall>h. r0 \<noteq> Inr h \<longrightarrow> contents s' h = contents s h
      \<or> contents s' h = None \<and> expired_before tx (contents s h)"
    by (rule conjunct2 [OF create_keeps [OF assms(1) raw]])
  show ?thesis
  proof (cases r0)
    case (Inl e)
    then show ?thesis using k by (auto simp: OpCreate r pruned_def intro: spec_create_fails)
  next
    case (Inr h)
    let ?m = "(contents s')(h := contents s h)"
    have f: "contents s' h = Some tx" "expired_before tx (contents s h)"
      using create_fresh [OF assms(1), of tx h s'] raw Inr by simp_all
    have "pruned tx (contents s) ?m" using k Inr by (simp add: pruned_def)
    then have "store_spec (contents s) (OpCreate tx, Handle (Inr h)) (?m(h \<mapsto> tx))"
      using f(2) by (rule spec_create)
    moreover have "?m(h \<mapsto> tx) = contents s'" using f(1) by (simp add: fun_eq_iff)
    ultimately show ?thesis by (simp only: OpCreate r Inr)
  qed
next
  case (OpGet h)
  obtain r0 where raw: "run_state (so_get ops h) s = (r0, s')" and r: "r = Found r0"
    using assms(2) OpGet by (cases "run_state (so_get ops h) s") auto
  have same: "contents s' = contents s" by (rule conjunct2 [OF get_pure [OF assms(1) raw]])
  show ?thesis
  proof (cases r0)
    case (Inr tx)
    then show ?thesis using get_found [OF assms(1), of h tx s'] raw
      by (simp add: OpGet r same spec_get)
  qed (simp add: OpGet r same spec_get_fails)
next
  case (OpConsume h)
  obtain r0 where raw: "run_state (so_consume ops h) s = (r0, s')" and r: "r = Found r0"
    using assms(2) OpConsume by (cases "run_state (so_consume ops h) s") auto
  have k: "\<forall>h'. contents s' h' = contents s h' \<or> h' = h \<and> contents s' h' = None"
    by (rule conjunct2 [OF consume_keeps [OF assms(1) raw]])
  have upd: "contents s' = (contents s)(h := contents s' h)" using k by (auto simp: fun_eq_iff)
  show ?thesis
  proof (cases r0)
    case (Inl e)
    have "contents s' h = contents s h \<or> contents s' h = None"
      using k [THEN spec, of h] by auto
    then have "contents s' = contents s \<or> contents s' = (contents s)(h := None)"
    proof
      assume "contents s' h = contents s h"
      then show ?thesis using k by (auto simp: fun_eq_iff)
    next
      assume "contents s' h = None"
      then show ?thesis using k by (auto simp: fun_eq_iff)
    qed
    from spec_consume_fails [OF this] show ?thesis by (simp only: OpConsume r Inl)
  next
    case (Inr tx)
    have f: "contents s h = Some tx" "contents s' h = None"
      using consume_found [OF assms(1), of h tx s'] raw Inr by simp_all
    then have "(contents s)(h := None) = contents s'" using upd by simp
    with spec_consume [of "contents s" h tx, OF f(1)] show ?thesis by (simp only: OpConsume r Inr)
  qed
qed

lemma exec_ops_refines:
  "inv s \<Longrightarrow> exec_ops ops os s = (tr, s') \<Longrightarrow> store_run (contents s) tr (contents s')"
proof (induction os arbitrary: s tr)
  case Nil
  then show ?case by simp
next
  case (Cons op os)
  obtain r s1 tr1 where o: "exec_op ops op s = (r, s1)" "exec_ops ops os s1 = (tr1, s')" "tr = (op, r) # tr1"
    using Cons.prems(2) by (auto split: prod.splits)
  show ?case unfolding o(3)
    by (rule run_step [OF exec_op_refines [OF Cons.prems(1) o(1)] Cons.IH [OF exec_op_inv [OF Cons.prems(1) o(1)] o(2)]])
qed

end

end
