(* ===== verification/RedisStore.thy ===== *)
theory RedisStore
  imports Store Checks
begin

text \<open>
  The shared store of \<open>internal/adapters/outbound/state/redis.go\<close>. The Redis server and
  the network are parameters: three server commands on a server state of any type, and,
  for each call, how often the server runs the command (the client retries) and whether an
  error reaches the caller instead of the last reply. The Lua script that consumes a
  transaction is source and modelled here, as one atomic step over the server's commands.
  The JSON codec of transactions is a parameter as well.

  \<open>redis_laws\<close> is the documented behaviour the code relies on, over \<open>stored\<close>, the value
  last set and not deleted: expiry and eviction only hide a stored value from \<open>GET\<close>. Under
  it the store keeps the contract \<open>consuming_store\<close>, so a completion over Redis has the
  guarantees of a completion over the memory store.
\<close>

section \<open>Redis\<close>

record 'r redis_server =
  rd_setnx :: "string \<Rightarrow> string \<Rightarrow> int \<Rightarrow> 'r \<Rightarrow> bool \<times> 'r"
  rd_get :: "string \<Rightarrow> 'r \<Rightarrow> string option \<times> 'r"
  rd_del :: "string \<Rightarrow> 'r \<Rightarrow> 'r"

definition redis_laws :: "'r redis_server \<Rightarrow> ('r \<Rightarrow> string \<Rightarrow> string option) \<Rightarrow> bool" where
  "redis_laws srv stored \<longleftrightarrow>
     (\<forall>k r v r'. rd_get srv k r = (v, r') \<longrightarrow>
        stored r' = stored r \<and> (case v of None \<Rightarrow> True | Some x \<Rightarrow> stored r k = Some x))
     \<and> (\<forall>k r. stored (rd_del srv k r) = (stored r)(k := None))
     \<and> (\<forall>k v ttl r ok r'. rd_setnx srv k v ttl r = (ok, r') \<longrightarrow>
        stored r' = (if ok then (stored r)(k \<mapsto> v) else stored r))"

text \<open>The script \<open>consumeScript\<close>.\<close>

definition consume_script :: "'r redis_server \<Rightarrow> string \<Rightarrow> 'r \<Rightarrow> string option \<times> 'r" where
  "consume_script srv k r =
     (case rd_get srv k r of
        (None, r1) \<Rightarrow> (None, r1)
      | (Some v, r1) \<Rightarrow> (Some v, rd_del srv k r1))"

text \<open>A command that the server runs \<open>n\<close> times in a row, with the reply of the last run.\<close>

fun repeat_run :: "nat \<Rightarrow> ('r \<Rightarrow> 'a \<times> 'r) \<Rightarrow> 'r \<Rightarrow> 'a option \<times> 'r" where
  "repeat_run 0 f r = (None, r)"
| "repeat_run (Suc n) f r =
     (case f r of (a, r1) \<Rightarrow>
        (case repeat_run n f r1 of
           (None, r2) \<Rightarrow> (Some a, r2)
         | (Some b, r2) \<Rightarrow> (Some b, r2)))"

section \<open>The store\<close>

record 'r redis_env =
  re_server :: "'r redis_server"
  re_net :: "nat \<Rightarrow> nat \<times> goerr option"
  re_now :: "nat \<Rightarrow> time"
  re_rand :: "nat \<Rightarrow> (nat \<Rightarrow> char) option"
  re_encode :: "transaction \<Rightarrow> string option"
  re_decode :: "string \<Rightarrow> transaction option"
  re_prefix :: string

record 'r redis_state =
  rs_server :: 'r
  rs_tick :: nat

definition default_key_prefix :: string where
  "default_key_prefix = ''hydra-kratos-login-consent:transaction:''"

definition max_transaction_bytes :: nat where "max_transaction_bytes = 65536"

definition redis_key :: "'r redis_env \<Rightarrow> string \<Rightarrow> string" where
  "redis_key env handle = re_prefix env @ handle"

definition redis_call :: "'r redis_env \<Rightarrow> ('r \<Rightarrow> 'a \<times> 'r) \<Rightarrow> ('r redis_state, 'a res) state" where
  "redis_call env cmd = State (\<lambda>s.
     case re_net env (rs_tick s) of (n, err) \<Rightarrow>
     case repeat_run n cmd (rs_server s) of (a, r) \<Rightarrow>
       (case err of
          Some e \<Rightarrow> Inl e
        | None \<Rightarrow> (case a of Some v \<Rightarrow> Inr v | None \<Rightarrow> Inl (Msg ''connection failed'')),
        s\<lparr>rs_server := r, rs_tick := Suc (rs_tick s)\<rparr>))"

definition redis_time :: "'r redis_env \<Rightarrow> ('r redis_state, time) state" where
  "redis_time env = State (\<lambda>s. (re_now env (rs_tick s), s\<lparr>rs_tick := Suc (rs_tick s)\<rparr>))"

definition redis_random_handle :: "'r redis_env \<Rightarrow> ('r redis_state, string res) state" where
  "redis_random_handle env = State (\<lambda>s.
     (case re_rand env (rs_tick s) of
        None \<Rightarrow> Inl (Msg ''random source failed'')
      | Some bytes \<Rightarrow> Inr (token_of bytes), s\<lparr>rs_tick := Suc (rs_tick s)\<rparr>))"

fun redis_create_rounds :: "nat \<Rightarrow> 'r redis_env \<Rightarrow> string \<Rightarrow> int \<Rightarrow> ('r redis_state, string res) state" where
  "redis_create_rounds 0 env payload ttl = State_Monad.return (Inl (Sent ErrUpstream))"
| "redis_create_rounds (Suc n) env payload ttl = do {
     r \<leftarrow> redis_random_handle env;
     case r of
       Inl e \<Rightarrow> State_Monad.return (Inl (Wrap ''create transaction handle'' [e]))
     | Inr handle \<Rightarrow> do {
         c \<leftarrow> redis_call env (rd_setnx (re_server env) (redis_key env handle) payload ttl);
         case c of
           Inl e \<Rightarrow> State_Monad.return (Inl (Wrap ''store transaction in redis'' [e]))
         | Inr was_set \<Rightarrow>
             if was_set then State_Monad.return (Inr handle)
             else redis_create_rounds n env payload ttl }}"

definition redis_create :: "'r redis_env \<Rightarrow> transaction \<Rightarrow> ('r redis_state, string res) state" where
  "redis_create env tx =
     (if is_zero_time (tx_expires_at tx) then State_Monad.return (Inl (Sent ErrExpiredTransaction))
      else do {
        now \<leftarrow> redis_time env;
        if \<not> after (tx_expires_at tx) now then State_Monad.return (Inl (Sent ErrExpiredTransaction))
        else case re_encode env tx of
          None \<Rightarrow> State_Monad.return (Inl (Msg ''marshal transaction''))
        | Some payload \<Rightarrow>
            if length payload > max_transaction_bytes
            then State_Monad.return (Inl (Msg ''transaction exceeds byte limit''))
            else do {
              later_now \<leftarrow> redis_time env;
              let ttl = time_sub (tx_expires_at tx) later_now;
              if ttl \<le> 0 then State_Monad.return (Inl (Sent ErrExpiredTransaction))
              else redis_create_rounds 3 env payload ttl }})"

text \<open>The end of \<open>Get\<close> and \<open>Consume\<close>: a missing value, then the decoding and the expiry.\<close>

definition redis_load :: "'r redis_env \<Rightarrow> string \<Rightarrow> string option res \<Rightarrow> ('r redis_state, transaction res) state" where
  "redis_load env msg r =
     (case r of
        Inl e \<Rightarrow> State_Monad.return (Inl (Wrap msg [e]))
      | Inr None \<Rightarrow> State_Monad.return (Inl (Sent ErrReplay))
      | Inr (Some payload) \<Rightarrow>
          (case re_decode env payload of
             None \<Rightarrow> State_Monad.return (Inl (Msg ''unmarshal transaction''))
           | Some tx \<Rightarrow> do {
               now \<leftarrow> redis_time env;
               if \<not> after (tx_expires_at tx) now then State_Monad.return (Inl (Sent ErrExpiredTransaction))
               else State_Monad.return (Inr tx) }))"

definition redis_get :: "'r redis_env \<Rightarrow> string \<Rightarrow> ('r redis_state, transaction res) state" where
  "redis_get env handle =
     (if handle = [] then State_Monad.return (Inl (Sent ErrInvalidTransaction))
      else do {
        r \<leftarrow> redis_call env (rd_get (re_server env) (redis_key env handle));
        redis_load env ''get transaction from redis'' r })"

definition redis_consume :: "'r redis_env \<Rightarrow> string \<Rightarrow> ('r redis_state, transaction res) state" where
  "redis_consume env handle =
     (if handle = [] then State_Monad.return (Inl (Sent ErrInvalidTransaction))
      else do {
        r \<leftarrow> redis_call env (consume_script (re_server env) (redis_key env handle));
        redis_load env ''consume transaction from redis'' r })"

definition redis_ops :: "'r redis_env \<Rightarrow> 'r redis_state store_ops" where
  "redis_ops env = \<lparr>so_create = redis_create env, so_get = redis_get env, so_consume = redis_consume env\<rparr>"

section \<open>Construction\<close>

definition validate_redis_url :: "string \<Rightarrow> bool \<Rightarrow> goerr option" where
  "validate_redis_url redis_url require_tls =
     (case url_parse (trim_space redis_url) of
        None \<Rightarrow> Some (Msg ''parse redis URL: invalid URL'')
      | Some u \<Rightarrow>
          if u_scheme u \<noteq> ''redis'' \<and> u_scheme u \<noteq> ''rediss''
          then Some (Msg ''redis URL must use redis or rediss scheme'')
          else if require_tls \<and> u_scheme u \<noteq> ''rediss''
          then Some (Msg ''redis URL must use rediss outside development and test'')
          else if parse_bool (values_get (url_query u) ''skip_verify'') = Some True
          then Some (Msg ''redis URL must not disable TLS certificate verification'')
          else None)"

definition redact_redis_url :: "string \<Rightarrow> string" where
  "redact_redis_url raw =
     (case url_parse raw of
        None \<Rightarrow> ''<redacted redis url>''
      | Some u \<Rightarrow>
          url_string (case u_user u of
              None \<Rightarrow> u
            | Some (Userinfo name password) \<Rightarrow> u\<lparr>u_user := Some (Userinfo name None)\<rparr>))"

text \<open>
  \<open>NewRedisStore\<close>; \<open>parse_options\<close> says whether the client library accepts the URL. The
  result is the key prefix, the only part of the store that the code computes.
\<close>

definition new_redis_store :: "(string \<Rightarrow> bool) \<Rightarrow> string \<Rightarrow> string \<Rightarrow> string res" where
  "new_redis_store parse_options redis_url key_prefix =
     (let u = trim_space redis_url in
      case validate_redis_url u False of
        Some e \<Rightarrow> Inl e
      | None \<Rightarrow>
          if \<not> parse_options u then Inl (Msg (''parse redis URL '' @ redact_redis_url u))
          else Inr (if key_prefix = [] then default_key_prefix else key_prefix))"

text \<open>\<open>Ready\<close> and \<open>Close\<close>, of the answer of the client library; \<open>is_closed\<close> is \<open>ErrClosed\<close>.\<close>

definition redis_ready :: "goerr option \<Rightarrow> goerr option" where
  "redis_ready ping = map_option (\<lambda>e. Wrap ''redis readiness'' [e]) ping"

definition redis_close :: "(goerr \<Rightarrow> bool) \<Rightarrow> goerr option \<Rightarrow> goerr option" where
  "redis_close is_closed closed =
     (case closed of
        None \<Rightarrow> None
      | Some e \<Rightarrow> if is_closed e then None else Some (Wrap ''close redis client'' [e]))"

section \<open>Runs of commands\<close>

text \<open>The abstract contents: the transactions that the stored values decode to.\<close>

definition redis_contents ::
  "'r redis_env \<Rightarrow> ('r \<Rightarrow> string \<Rightarrow> string option) \<Rightarrow> 'r redis_state \<Rightarrow> string \<Rightarrow> transaction option" where
  "redis_contents env stored s h =
     (case stored (rs_server s) (redis_key env h) of None \<Rightarrow> None | Some p \<Rightarrow> re_decode env p)"

lemma redis_key_eq [simp]: "redis_key env h = redis_key env h' \<longleftrightarrow> h = h'"
  by (simp add: redis_key_def)

lemma get_law:
  assumes "redis_laws srv stored" and "rd_get srv k r = (v, r')"
  shows "stored r' = stored r" and "v = Some x \<Longrightarrow> stored r k = Some x"
  using assms unfolding redis_laws_def by (fastforce split: option.splits)+

lemma del_law: "redis_laws srv stored \<Longrightarrow> stored (rd_del srv k r) = (stored r)(k := None)"
  by (simp add: redis_laws_def)

lemma setnx_law:
  "redis_laws srv stored \<Longrightarrow> rd_setnx srv k v ttl r = (ok, r') \<Longrightarrow>
   stored r' = (if ok then (stored r)(k \<mapsto> v) else stored r)"
  by (simp add: redis_laws_def)

lemma consume_script_law:
  assumes "redis_laws srv stored" and "consume_script srv k r = (v, r')"
  shows "stored r' = (case v of None \<Rightarrow> stored r | Some x \<Rightarrow> (stored r)(k := None))"
    and "v = Some x \<Longrightarrow> stored r k = Some x"
  using assms
  by (auto simp: consume_script_def get_law del_law [OF assms(1)] split: prod.splits option.splits)

lemma repeat_get:
  assumes "redis_laws srv stored"
  shows "repeat_run n (rd_get srv k) r = (a, r') \<Longrightarrow>
    stored r' = stored r \<and> (\<forall>x. a = Some (Some x) \<longrightarrow> stored r k = Some x)"
proof (induction n arbitrary: r a)
  case (Suc n)
  obtain v r1 where f: "rd_get srv k r = (v, r1)" by fastforce
  obtain b where g: "repeat_run n (rd_get srv k) r1 = (b, r')" "a = (case b of None \<Rightarrow> Some v | Some c \<Rightarrow> Some c)"
    using Suc.prems f by (auto split: prod.splits option.splits)
  show ?case using Suc.IH [OF g(1)] g(2) get_law [OF assms f] by (auto split: option.splits)
qed simp

lemma repeat_consume:
  assumes "redis_laws srv stored"
  shows "repeat_run n (consume_script srv k) r = (a, r') \<Longrightarrow>
    (stored r' = stored r \<or> stored r' = (stored r)(k := None))
    \<and> (\<forall>x. a = Some (Some x) \<longrightarrow> stored r k = Some x \<and> stored r' k = None)"
proof (induction n arbitrary: r a)
  case (Suc n)
  obtain v r1 where f: "consume_script srv k r = (v, r1)" by fastforce
  obtain b where g: "repeat_run n (consume_script srv k) r1 = (b, r')" "a = (case b of None \<Rightarrow> Some v | Some c \<Rightarrow> Some c)"
    using Suc.prems f by (auto split: prod.splits option.splits)
  show ?case
    using Suc.IH [OF g(1)] g(2) consume_script_law [OF assms f] by (auto split: option.splits)
qed simp

lemma redis_load_post:
  "wp (redis_load env msg v) (\<lambda>r s'. rs_server s' = rs_server s
      \<and> (\<forall>tx. r = Inr tx \<longrightarrow> (\<exists>p. v = Inr (Some p) \<and> re_decode env p = Some tx))) s"
  by (auto simp: redis_load_def redis_time_def wp split: sum.split option.split)

lemma redis_call_post:
  assumes "\<And>n a r'. repeat_run n cmd (rs_server s) = (a, r') \<Longrightarrow> P a r'"
    and "\<And>r s'. P (case r of Inl e \<Rightarrow> None | Inr v \<Rightarrow> Some v) (rs_server s') \<or> (\<exists>e a. r = Inl e \<and> P a (rs_server s'))
      \<Longrightarrow> Q r s'"
  shows "wp (redis_call env cmd) Q s"
  unfolding redis_call_def wp_State
  by (auto split: prod.split option.split intro!: assms(2)) (use assms(1) in \<open>fastforce+\<close>)

section \<open>The contract over Redis\<close>

lemma redis_get_post:
  assumes "redis_laws (re_server env) stored"
  shows "wp (redis_get env h) (\<lambda>r s'. stored (rs_server s') = stored (rs_server s)
     \<and> (\<forall>tx. r = Inr tx \<longrightarrow> redis_contents env stored s h = Some tx)) s"
proof (cases "h = []")
  case False
  show ?thesis unfolding redis_get_def using False
    by (simp add: wp)
      (rule redis_call_post [where P = "\<lambda>a r'. stored r' = stored (rs_server s)
          \<and> (\<forall>x. a = Some (Some x) \<longrightarrow> stored (rs_server s) (redis_key env h) = Some x)"],
       erule repeat_get [OF assms],
       rule wp_mono [OF redis_load_post],
       auto simp: redis_contents_def split: sum.splits)
qed (simp add: redis_get_def wp)

lemma redis_consume_post:
  assumes "redis_laws (re_server env) stored"
  shows "wp (redis_consume env h) (\<lambda>r s'.
     (stored (rs_server s') = stored (rs_server s)
       \<or> stored (rs_server s') = (stored (rs_server s))(redis_key env h := None))
     \<and> (\<forall>tx. r = Inr tx \<longrightarrow> redis_contents env stored s h = Some tx \<and> stored (rs_server s') (redis_key env h) = None)) s"
proof (cases "h = []")
  case False
  show ?thesis unfolding redis_consume_def using False
    by (simp add: wp)
      (rule redis_call_post [where P = "\<lambda>a r'. (stored r' = stored (rs_server s)
          \<or> stored r' = (stored (rs_server s))(redis_key env h := None))
          \<and> (\<forall>x. a = Some (Some x) \<longrightarrow> stored (rs_server s) (redis_key env h) = Some x
               \<and> stored r' (redis_key env h) = None)"],
       erule repeat_consume [OF assms],
       rule wp_mono [OF redis_load_post],
       auto simp: redis_contents_def split: sum.splits)
qed (simp add: redis_consume_def wp)

lemma redis_contents_upd:
  "stored (rs_server s') = (stored (rs_server s))(redis_key env h := None) \<Longrightarrow>
   redis_contents env stored s' = (redis_contents env stored s)(h := None)"
  by (simp add: redis_contents_def fun_eq_iff)

lemma redis_contents_same:
  "stored (rs_server s') = stored (rs_server s) \<Longrightarrow> redis_contents env stored s' = redis_contents env stored s"
  by (simp add: redis_contents_def fun_eq_iff)

lemma redis_store_contract:
  assumes "redis_laws (re_server env) stored"
  shows "consuming_store (redis_ops env) (redis_contents env stored) (\<lambda>s. True)"
proof
  fix h r s s'
  assume "run_state (so_get (redis_ops env) h) s = (r, s')"
  then have "stored (rs_server s') = stored (rs_server s)"
    using wpD [OF redis_get_post [OF assms, of h s]] by (simp add: redis_ops_def)
  from redis_contents_same [OF this]
  show "True \<and> redis_contents env stored s' = redis_contents env stored s" by simp
next
  fix h tx s s'
  assume "run_state (so_get (redis_ops env) h) s = (Inr tx, s')"
  then show "redis_contents env stored s h = Some tx"
    using wpD [OF redis_get_post [OF assms]] by (simp add: redis_ops_def)
next
  fix h r s s'
  assume "run_state (so_consume (redis_ops env) h) s = (r, s')"
  then have "redis_contents env stored s' = redis_contents env stored s
      \<or> redis_contents env stored s' = (redis_contents env stored s)(h := None)"
    using wpD [OF redis_consume_post [OF assms, of h s]] redis_contents_same [of stored s' s env] redis_contents_upd [of stored s' s env h]
    by (fastforce simp: redis_ops_def)
  then show "True \<and> (\<forall>h'. redis_contents env stored s' h' = redis_contents env stored s h'
      \<or> h' = h \<and> redis_contents env stored s' h' = None)" by (auto split: if_splits)
next
  fix h tx s s'
  assume "run_state (so_consume (redis_ops env) h) s = (Inr tx, s')"
  then have "redis_contents env stored s h = Some tx" "stored (rs_server s') (redis_key env h) = None"
    using wpD [OF redis_consume_post [OF assms, of h s]] by (simp_all add: redis_ops_def)
  then show "redis_contents env stored s h = Some tx \<and> redis_contents env stored s' h = None"
    by (simp add: redis_contents_def)
qed

section \<open>Creating and redeeming\<close>

lemma repeat_setnx:
  assumes "redis_laws srv stored"
  shows "repeat_run n (rd_setnx srv k v ttl) r = (Some True, r') \<Longrightarrow> stored r' k = Some v"
proof (induction n arbitrary: r)
  case (Suc n)
  obtain ok r1 where f: "rd_setnx srv k v ttl r = (ok, r1)" by fastforce
  show ?case
  proof (cases n)
    case 0
    then show ?thesis using Suc.prems f setnx_law [OF assms f] by simp
  next
    case (Suc m)
    obtain a r2 where g: "rd_setnx srv k v ttl r1 = (a, r2)" by fastforce
    have "fst (repeat_run n (rd_setnx srv k v ttl) r1) \<noteq> None"
      using Suc g by (auto split: prod.splits option.splits)
    then have "repeat_run n (rd_setnx srv k v ttl) r1 = (Some True, r')"
      using Suc.prems f by (auto split: prod.splits option.splits)
    then show ?thesis by (rule Suc.IH)
  qed
qed simp

lemma redis_create_rounds_post:
  assumes "redis_laws (re_server env) stored"
  shows "wp (redis_create_rounds n env payload ttl) (\<lambda>r s'. \<forall>h. r = Inr h \<longrightarrow>
     length h = 43 \<and> stored (rs_server s') (redis_key env h) = Some payload) s"
proof (induction n arbitrary: s)
  case (Suc n)
  have c: "wp (redis_call env (rd_setnx (re_server env) (redis_key env (token_of b)) payload ttl))
      (\<lambda>c. wp (case c of Inl e \<Rightarrow> State_Monad.return (Inl (Wrap ''store transaction in redis'' [e]))
          | Inr was_set \<Rightarrow> if was_set then State_Monad.return (Inr (token_of b))
              else redis_create_rounds n env payload ttl)
        (\<lambda>r s'. \<forall>h. r = Inr h \<longrightarrow> length h = 43 \<and> stored (rs_server s') (redis_key env h) = Some payload)) s" for b s
    using Suc.IH repeat_setnx [OF assms]
    by (auto simp: redis_call_def wp length_token_of split: prod.splits option.splits)
  show ?case using c by (auto simp: redis_random_handle_def wp split: option.splits)
qed (simp add: wp)

lemma redis_create_post:
  assumes "redis_laws (re_server env) stored"
  shows "wp (redis_create env tx) (\<lambda>r s'. \<forall>h. r = Inr h \<longrightarrow> length h = 43
     \<and> (\<exists>payload. re_encode env tx = Some payload \<and> length payload \<le> max_transaction_bytes
          \<and> stored (rs_server s') (redis_key env h) = Some payload)) s"
  using wp_mono [OF redis_create_rounds_post [OF assms]]
  by (auto simp: redis_create_def redis_time_def wp Let_def split: option.split)

text \<open>
  Whatever the network does, a creation stores at most its own payload, though perhaps under
  several handles. \<open>faithful_codec\<close>: what decodes from an encoding is what was encoded.
\<close>

definition faithful_codec :: "'r redis_env \<Rightarrow> bool" where
  "faithful_codec env \<longleftrightarrow>
     (\<forall>tx p tx'. re_encode env tx = Some p \<longrightarrow> re_decode env p = Some tx' \<longrightarrow> tx' = tx)"

definition only_adds :: "('r \<Rightarrow> string \<Rightarrow> string option) \<Rightarrow> string \<Rightarrow> 'r \<Rightarrow> 'r \<Rightarrow> bool" where
  "only_adds stored payload r r' \<longleftrightarrow> (\<forall>k. stored r' k \<in> {stored r k, Some payload})"

lemma only_adds_refl: "only_adds stored payload r r"
  by (simp add: only_adds_def)

lemma only_adds_trans: "only_adds stored p r1 r2 \<Longrightarrow> only_adds stored p r2 r3 \<Longrightarrow> only_adds stored p r1 r3"
  unfolding only_adds_def by (metis insert_iff)

lemma repeat_setnx_adds:
  assumes "redis_laws srv stored"
  shows "only_adds stored v r (snd (repeat_run n (rd_setnx srv k v ttl) r))"
proof (induction n arbitrary: r)
  case (Suc n)
  obtain ok r1 where f: "rd_setnx srv k v ttl r = (ok, r1)" by fastforce
  have "only_adds stored v r r1" using setnx_law [OF assms f] by (simp add: only_adds_def)
  from only_adds_trans [OF this Suc.IH] show ?case by (auto simp: f split: prod.split option.split)
qed (simp add: only_adds_refl)

lemma redis_create_rounds_adds:
  assumes "redis_laws (re_server env) stored"
  shows "wp (redis_create_rounds n env payload ttl) (\<lambda>r s'. only_adds stored payload (rs_server s) (rs_server s')) s"
proof (induction n arbitrary: s)
  case (Suc n)
  have c: "wp (redis_call env (rd_setnx (re_server env) key payload ttl))
      (\<lambda>c. wp (case c of Inl e \<Rightarrow> State_Monad.return (Inl (Wrap ''store transaction in redis'' [e]))
          | Inr was_set \<Rightarrow> if was_set then State_Monad.return (Inr h) else redis_create_rounds n env payload ttl)
        (\<lambda>r s'. only_adds stored payload (rs_server s) (rs_server s'))) s1"
    if same: "rs_server s1 = rs_server s" for key h s1
  proof -
    obtain x s2 where run: "run_state (redis_call env (rd_setnx (re_server env) key payload ttl)) s1 = (x, s2)" by fastforce
    then have "rs_server s2 = snd (repeat_run (fst (re_net env (rs_tick s1))) (rd_setnx (re_server env) key payload ttl) (rs_server s))"
      by (auto simp: redis_call_def case_prod_beta same)
    then have adds: "only_adds stored payload (rs_server s) (rs_server s2)" by (simp add: repeat_setnx_adds [OF assms])
    then have "wp (redis_create_rounds n env payload ttl) (\<lambda>r s'. only_adds stored payload (rs_server s) (rs_server s')) s2"
      by (intro wp_mono [OF Suc.IH]) (rule only_adds_trans)
    then show ?thesis using adds by (subst wp_def) (simp add: run wp split: sum.split)
  qed
  show ?case
  proof (cases "re_rand env (rs_tick s)")
    case None
    then show ?thesis by (simp add: redis_random_handle_def wp only_adds_refl)
  next
    case (Some bytes)
    have "rs_server (s\<lparr>rs_tick := Suc (rs_tick s)\<rparr>) = rs_server s" by simp
    from c [OF this] show ?thesis
      by (simp only: redis_create_rounds.simps redis_random_handle_def wp_bind wp_State Some option.case prod.case sum.case)
  qed
qed (simp add: wp only_adds_refl)

lemma redis_create_adds:
  assumes "redis_laws (re_server env) stored"
  shows "wp (redis_create env tx) (\<lambda>r s'. stored (rs_server s') = stored (rs_server s)
     \<or> (\<exists>p. re_encode env tx = Some p \<and> only_adds stored p (rs_server s) (rs_server s'))) s"
proof -
  have r: "wp (redis_create_rounds 3 env p ttl)
      (\<lambda>r s'. stored (rs_server s') = stored (rs_server s) \<or> only_adds stored p (rs_server s) (rs_server s')) (s\<lparr>rs_tick := k\<rparr>)"
    for p ttl k
    by (rule wp_mono [OF redis_create_rounds_adds [OF assms]]) simp
  show ?thesis by (simp add: redis_create_def redis_time_def wp Let_def r split: option.split)
qed

text \<open>A creation tries at most three handles, so it stores its payload at most three times.\<close>

definition few_keys :: "('r \<Rightarrow> string \<Rightarrow> string option) \<Rightarrow> nat \<Rightarrow> 'r \<Rightarrow> 'r \<Rightarrow> bool" where
  "few_keys stored n r r' \<longleftrightarrow> (\<exists>K. finite K \<and> card K \<le> n \<and> (\<forall>k. k \<notin> K \<longrightarrow> stored r' k = stored r k))"

lemma few_keys_same: "stored r' = stored r \<Longrightarrow> few_keys stored n r r'"
  unfolding few_keys_def by (rule exI [of _ "{}"]) simp

lemma few_keys_trans:
  assumes "few_keys stored m r1 r2" and "few_keys stored n r2 r3"
  shows "few_keys stored (m + n) r1 r3"
proof -
  obtain K L where k: "finite K" "card K \<le> m" "\<forall>k. k \<notin> K \<longrightarrow> stored r2 k = stored r1 k"
    and l: "finite L" "card L \<le> n" "\<forall>k. k \<notin> L \<longrightarrow> stored r3 k = stored r2 k"
    using assms unfolding few_keys_def by blast
  have "card (K \<union> L) \<le> m + n" using card_Un_le [of K L] k(2) l(2) by linarith
  then show ?thesis unfolding few_keys_def
    by (intro exI [of _ "K \<union> L"]) (use k l in simp)
qed

lemma repeat_setnx_few:
  assumes "redis_laws srv stored"
  shows "\<forall>j. j \<noteq> k \<longrightarrow> stored (snd (repeat_run n (rd_setnx srv k v ttl) r)) j = stored r j"
proof (induction n arbitrary: r)
  case (Suc n)
  obtain ok r1 where f: "rd_setnx srv k v ttl r = (ok, r1)" by fastforce
  have "\<forall>j. j \<noteq> k \<longrightarrow> stored r1 j = stored r j" using setnx_law [OF assms f] by simp
  then show ?case using Suc.IH [of r1] by (auto simp: f split: prod.split option.split)
qed simp

lemma redis_create_rounds_few:
  assumes "redis_laws (re_server env) stored"
  shows "wp (redis_create_rounds n env payload ttl) (\<lambda>r s'. few_keys stored n (rs_server s) (rs_server s')) s"
proof (induction n arbitrary: s)
  case (Suc n)
  have c: "wp (redis_call env (rd_setnx (re_server env) key payload ttl))
      (\<lambda>c. wp (case c of Inl e \<Rightarrow> State_Monad.return (Inl (Wrap ''store transaction in redis'' [e]))
          | Inr was_set \<Rightarrow> if was_set then State_Monad.return (Inr h) else redis_create_rounds n env payload ttl)
        (\<lambda>r s'. few_keys stored (Suc n) (rs_server s) (rs_server s'))) s1"
    if same: "rs_server s1 = rs_server s" for key h s1
  proof -
    obtain x s2 where run: "run_state (redis_call env (rd_setnx (re_server env) key payload ttl)) s1 = (x, s2)" by fastforce
    then have "rs_server s2 = snd (repeat_run (fst (re_net env (rs_tick s1))) (rd_setnx (re_server env) key payload ttl) (rs_server s))"
      by (auto simp: redis_call_def case_prod_beta same)
    then have "\<forall>j. j \<noteq> key \<longrightarrow> stored (rs_server s2) j = stored (rs_server s) j" by (simp add: repeat_setnx_few [OF assms])
    then have one: "few_keys stored 1 (rs_server s) (rs_server s2)"
      unfolding few_keys_def by (intro exI [of _ "{key}"]) simp
    have "few_keys stored (Suc n) (rs_server s) (rs_server s3)" if "few_keys stored n (rs_server s2) (rs_server s3)" for s3
      using few_keys_trans [OF one that] by simp
    then have more: "wp (redis_create_rounds n env payload ttl) (\<lambda>r s'. few_keys stored (Suc n) (rs_server s) (rs_server s')) s2"
      by (intro wp_mono [OF Suc.IH])
    have "few_keys stored (Suc n) (rs_server s) (rs_server s2)"
      using few_keys_trans [OF one few_keys_same [of stored "rs_server s2" "rs_server s2" n]] by simp
    then show ?thesis using more by (subst wp_def) (simp add: run wp split: sum.split)
  qed
  show ?case
  proof (cases "re_rand env (rs_tick s)")
    case None
    then show ?thesis by (simp add: redis_random_handle_def wp few_keys_same)
  next
    case (Some bytes)
    have "rs_server (s\<lparr>rs_tick := Suc (rs_tick s)\<rparr>) = rs_server s" by simp
    from c [OF this] show ?thesis
      by (simp only: redis_create_rounds.simps redis_random_handle_def wp_bind wp_State Some option.case prod.case sum.case)
  qed
qed (simp add: wp few_keys_same)

lemma redis_create_few:
  assumes "redis_laws (re_server env) stored"
  shows "wp (redis_create env tx) (\<lambda>r s'. few_keys stored 3 (rs_server s) (rs_server s')) s"
proof -
  have r: "wp (redis_create_rounds 3 env p ttl) (\<lambda>r s'. few_keys stored 3 (rs_server s) (rs_server s')) (s\<lparr>rs_tick := k\<rparr>)"
    for p ttl k
    by (rule wp_mono [OF redis_create_rounds_few [OF assms]]) simp
  show ?thesis by (simp add: redis_create_def redis_time_def wp Let_def r few_keys_same split: option.split)
qed

lemma redis_creating_store:
  assumes "redis_laws (re_server env) stored" and "faithful_codec env"
  shows "creating_store (redis_ops env) (redis_contents env stored) (\<lambda>s. True)"
proof (intro creating_store.intro creating_store_axioms.intro redis_store_contract [OF assms(1)])
  fix tx r s s'
  assume "run_state (so_create (redis_ops env) tx) s = (r, s')"
  then consider "stored (rs_server s') = stored (rs_server s)"
    | p where "re_encode env tx = Some p" "only_adds stored p (rs_server s) (rs_server s')"
    using wpD [OF redis_create_adds [OF assms(1), of tx s]] by (auto simp: redis_ops_def)
  then show "True \<and> (\<forall>h. redis_contents env stored s' h \<in> {redis_contents env stored s h, None, Some tx})"
  proof cases
    case 1
    from redis_contents_same [OF this] show ?thesis by simp
  next
    case (2 p)
    have "re_decode env p = Some tx' \<Longrightarrow> tx' = tx" for tx'
      using assms(2) 2(1) unfolding faithful_codec_def by blast
    then have "re_decode env p \<in> {None, Some tx}" by (cases "re_decode env p") simp_all
    moreover have "stored (rs_server s') (redis_key env h) = stored (rs_server s) (redis_key env h)
        \<or> stored (rs_server s') (redis_key env h) = Some p" for h
      using 2(2) by (simp add: only_adds_def)
    then have "redis_contents env stored s' h = redis_contents env stored s h
        \<or> redis_contents env stored s' h = re_decode env p" for h
      unfolding redis_contents_def by (metis option.simps(5))
    ultimately show ?thesis by (metis insert_iff singletonD)
  qed
qed

lemma redis_bounded_store:
  assumes "redis_laws (re_server env) stored" and "faithful_codec env"
  shows "bounded_store (redis_ops env) (redis_contents env stored) (\<lambda>s. True) 3"
proof (intro bounded_store.intro bounded_store_axioms.intro redis_creating_store [OF assms])
  fix tx r s s'
  assume "run_state (so_create (redis_ops env) tx) s = (r, s')"
  then have "few_keys stored 3 (rs_server s) (rs_server s')"
    using wpD [OF redis_create_few [OF assms(1), of tx s]] by (simp add: redis_ops_def)
  then obtain K where k: "finite K" "card K \<le> 3" "\<forall>k. k \<notin> K \<longrightarrow> stored (rs_server s') k = stored (rs_server s) k"
    unfolding few_keys_def by blast
  let ?H = "{h. redis_key env h \<in> K}"
  have inj: "inj_on (redis_key env) ?H" by (simp add: inj_on_def)
  have sub: "redis_key env ` ?H \<subseteq> K" by blast
  have "finite ?H" "card ?H \<le> 3"
    using inj_on_finite [OF inj sub k(1)] card_inj_on_le [OF inj sub k(1)] k(2) by simp_all
  moreover have "redis_contents env stored s' h = redis_contents env stored s h" if "h \<notin> ?H" for h
    using k(3) that by (simp add: redis_contents_def)
  ultimately show "\<exists>H. finite H \<and> card H \<le> 3 \<and> (\<forall>h. h \<notin> H \<longrightarrow>
      redis_contents env stored s' h \<in> {redis_contents env stored s h, None})" by blast
qed simp

text \<open>One delivered \<open>Consume\<close>, on a stored value and on none.\<close>

lemma consume_hit:
  assumes "h \<noteq> []" and "\<And>n. re_net env n = (1, None)"
    and "rd_get (re_server env) (redis_key env h) (rs_server s) = (Some p, g)"
    and "re_decode env p = Some tx" and "\<And>n. re_now env n < tx_expires_at tx"
  shows "run_state (redis_consume env h) s =
    (Inr tx, s\<lparr>rs_server := rd_del (re_server env) (redis_key env h) g, rs_tick := Suc (Suc (rs_tick s))\<rparr>)"
  using assms
  by (simp add: redis_consume_def redis_call_def redis_load_def redis_time_def after_def consume_script_def
      run_state_bind run_state_return)

lemma consume_miss:
  assumes "h \<noteq> []" and "\<And>n. re_net env n = (1, None)"
    and "rd_get (re_server env) (redis_key env h) (rs_server s) = (None, g)"
  shows "fst (run_state (redis_consume env h) s) = Inl (Sent ErrReplay)"
  using assms
  by (simp add: redis_consume_def redis_call_def redis_load_def consume_script_def run_state_bind run_state_return)

section \<open>Commands of several clients\<close>

text \<open>
  The commands that any number of service instances send, in the order in which the server
  runs them, retries included. The flag says that \<open>SETNX\<close> has set the value or that a value
  was returned.
\<close>

datatype redis_cmd = SetNX string string int | GetValue string | RunConsume string

fun exec_cmds :: "'r redis_server \<Rightarrow> redis_cmd list \<Rightarrow> 'r \<Rightarrow> (redis_cmd \<times> bool) list \<times> 'r" where
  "exec_cmds srv [] r = ([], r)"
| "exec_cmds srv (c # cs) r =
     (let (hit, r1) = (case c of
          SetNX k v ttl \<Rightarrow> rd_setnx srv k v ttl r
        | GetValue k \<Rightarrow> apfst (\<lambda>v. v \<noteq> None) (rd_get srv k r)
        | RunConsume k \<Rightarrow> apfst (\<lambda>v. v \<noteq> None) (consume_script srv k r));
      (trace, r2) = exec_cmds srv cs r1 in ((c, hit) # trace, r2))"

fun key_set :: "string \<Rightarrow> redis_cmd \<times> bool \<Rightarrow> bool" where
  "key_set k (SetNX k' v ttl, hit) = (k' = k \<and> hit)"
| "key_set k _ = False"

fun key_consumed :: "string \<Rightarrow> redis_cmd \<times> bool \<Rightarrow> bool" where
  "key_consumed k (RunConsume k', hit) = (k' = k \<and> hit)"
| "key_consumed k _ = False"

lemma exec_cmds_counts:
  assumes "redis_laws srv stored"
  shows "exec_cmds srv cs r = (tr, r') \<Longrightarrow>
    length (filter (key_consumed k) tr) + (if stored r' k = None then 0 else 1)
      \<le> length (filter (key_set k) tr) + (if stored r k = None then 0 else 1)"
proof (induction cs arbitrary: r tr)
  case (Cons c cs)
  obtain hit r1 tr1 where
    f: "(case c of SetNX k v ttl \<Rightarrow> rd_setnx srv k v ttl r
        | GetValue k \<Rightarrow> apfst (\<lambda>v. v \<noteq> None) (rd_get srv k r)
        | RunConsume k \<Rightarrow> apfst (\<lambda>v. v \<noteq> None) (consume_script srv k r)) = (hit, r1)"
    and g: "exec_cmds srv cs r1 = (tr1, r')" and tr: "tr = (c, hit) # tr1"
    using Cons.prems by (auto simp: Let_def split: prod.splits)
  have "(if key_consumed k (c, hit) then 1 else 0) + (if stored r1 k = None then 0 else 1)
      \<le> (if key_set k (c, hit) then 1 else 0) + (if stored r k = None then 0 else (1::nat))"
    using f
    by (cases c)
      (auto simp: apfst_def map_prod_def setnx_law [OF assms] get_law [OF assms] consume_script_law [OF assms]
         split: prod.splits option.splits if_splits)
  then show ?case using Cons.IH [OF g] by (auto simp: tr split: if_splits)
qed simp

section \<open>Properties\<close>

text \<open>A server that keeps every value until it is deleted; the samples run on it.\<close>

definition map_server :: "string gomap redis_server" where
  "map_server = \<lparr>
     rd_setnx = (\<lambda>k v ttl m. if map_get m k = None then (True, map_put k v m) else (False, m)),
     rd_get = (\<lambda>k m. (map_get m k, m)),
     rd_del = map_del\<rparr>"

lemma map_server_laws: "redis_laws map_server map_get"
  by (auto simp: redis_laws_def map_server_def gomap fun_eq_iff split: option.split)

text \<open>C19. Single use over Redis: whatever commands any number of service instances send, in any
  interleaving and with any retries, the script hands out the value of a key at most once for
  each time the key was set.\<close>

theorem redis_single_use:
  assumes "redis_laws srv stored" and "exec_cmds srv cs r = (tr, r')" and "stored r k = None"
  shows "length (filter (key_consumed k) tr) \<le> length (filter (key_set k) tr)"
  using exec_cmds_counts [OF assms(1,2), of k] assms(3) by simp

theorem redis_single_use_witness:
  "length (filter (key_consumed ''k'') [(SetNX ''k'' ''v'' 1, True), (RunConsume ''k'', True), (RunConsume ''k'', False)])
    \<le> length (filter (key_set ''k'') [(SetNX ''k'' ''v'' 1, True), (RunConsume ''k'', True), (RunConsume ''k'', False)])"
  by (rule redis_single_use [OF map_server_laws, where cs = "[SetNX ''k'' ''v'' 1, RunConsume ''k'', RunConsume ''k'']"
        and r = "[]" and r' = "[]"])
    (simp_all add: consume_script_def map_server_def map_get_def map_put_def map_del_def)

text \<open>Round trip over Redis: a transaction that \<open>Create\<close> stored is returned unchanged by
  \<open>Consume\<close> while it has not expired, and a second \<open>Consume\<close> is a replay; when the codec
  round-trips, the network delivers each command once and the server has not dropped the
  value.\<close>

theorem redis_round_trip:
  assumes "redis_laws (re_server env) stored" and "\<And>k r. fst (rd_get (re_server env) k r) = stored r k"
    and "\<And>p. re_encode env tx = Some p \<Longrightarrow> re_decode env p = Some tx"
    and "\<And>n. re_net env n = (1, None)" and "\<And>n. re_now env n < tx_expires_at tx"
    and "run_state (redis_create env tx) s = (Inr h, s1)"
    and "run_state (redis_consume env h) s1 = (r2, s2)" and "run_state (redis_consume env h) s2 = (r3, s3)"
  shows "r2 = Inr tx \<and> r3 = Inl (Sent ErrReplay)"
proof -
  obtain payload where p: "re_encode env tx = Some payload" "stored (rs_server s1) (redis_key env h) = Some payload"
    and h: "h \<noteq> []"
    using wpD [OF redis_create_post [OF assms(1)] assms(6)] by fastforce
  obtain g where g: "rd_get (re_server env) (redis_key env h) (rs_server s1) = (Some payload, g)"
    using assms(2) [of "redis_key env h" "rs_server s1"] p(2) by (metis prod.collapse)
  have hit: "r2 = Inr tx" "rs_server s2 = rd_del (re_server env) (redis_key env h) g"
    using assms(7) consume_hit [OF h assms(4) g assms(3) [OF p(1)] assms(5)] by auto
  obtain g2 where g2: "rd_get (re_server env) (redis_key env h) (rs_server s2) = (None, g2)"
    using assms(2) [of "redis_key env h" "rs_server s2"] del_law [OF assms(1)] hit(2)
    by (metis fun_upd_same prod.collapse)
  show ?thesis using assms(8) consume_miss [OF h assms(4) g2] hit(1) by simp
qed

definition sample_redis :: "string gomap redis_env" where
  "sample_redis = \<lparr>re_server = map_server, re_net = (\<lambda>n. (1, None)), re_now = (\<lambda>n. 1),
     re_rand = (\<lambda>n. Some (\<lambda>i. CHR ''a'')), re_encode = (\<lambda>tx. Some ''p''),
     re_decode = (\<lambda>p. Some (empty_transaction\<lparr>tx_expires_at := 9\<rparr>)), re_prefix = ''r:''\<rparr>"

theorem redis_round_trip_witness:
  "\<exists>s2. fst (run_state (redis_consume sample_redis (token_of (\<lambda>i. CHR ''a''))) s2) = Inl (Sent ErrReplay)"
proof -
  let ?tx = "empty_transaction\<lparr>tx_expires_at := 9\<rparr>"
  let ?h = "token_of (\<lambda>i. CHR ''a'')"
  let ?s1 = "\<lparr>rs_server = [(''r:'' @ ?h, ''p'')], rs_tick = 4\<rparr>"
  obtain r2 s2 where c2: "run_state (redis_consume sample_redis ?h) ?s1 = (r2, s2)" by fastforce
  obtain r3 s3 where c3: "run_state (redis_consume sample_redis ?h) s2 = (r3, s3)" by fastforce
  have "run_state (redis_create sample_redis ?tx) \<lparr>rs_server = [], rs_tick = 0\<rparr> = (Inr ?h, ?s1)"
    by (simp add: redis_create_def redis_time_def sample_redis_def is_zero_time_def after_def time_sub_def
        empty_transaction_def max_transaction_bytes_def numeral_3_eq_3 redis_random_handle_def redis_call_def
        redis_key_def map_server_def map_put_def Let_def run_state_bind run_state_return)
  note made = this
  have "redis_laws (re_server sample_redis) map_get" "\<And>k r. fst (rd_get (re_server sample_redis) k r) = map_get r k"
    "\<And>p. re_encode sample_redis ?tx = Some p \<Longrightarrow> re_decode sample_redis p = Some ?tx"
    "\<And>n. re_net sample_redis n = (1, None)" "\<And>n. re_now sample_redis n < tx_expires_at ?tx"
    using map_server_laws by (simp_all add: sample_redis_def map_server_def)
  from redis_round_trip [OF this made c2 c3] have "r3 = Inl (Sent ErrReplay)" by (rule conjunct2)
  then show ?thesis using c3 by (metis fst_conv)
qed

end
