(* ===== verification/HttpWire.thy ===== *)
theory HttpWire
  imports GoUrl GoError
begin

text \<open>
  The parts of \<open>net/http\<close> that the HTTP server relies on: request headers, cookies and
  forms, and the responses it writes. A request carries what the library hands over: its
  method, path, raw query, headers, body, and what \<open>mime.ParseMediaType\<close> makes of the
  content type (the media type, and whether it reports an error). The limit on the number of
  cookies of a request is not modelled.
\<close>

section \<open>Requests\<close>

record web_request =
  wq_method :: string
  wq_path :: string
  wq_raw_query :: string
  wq_headers :: "string list gomap"
  wq_media_type :: "string \<times> bool"
  wq_body :: string
  wq_body_fails :: bool

text \<open>\<open>Header.Get\<close> on a canonical name.\<close>

definition header_get :: "web_request \<Rightarrow> string \<Rightarrow> string" where
  "header_get q name = values_get (wq_headers q) name"

definition request_query :: "web_request \<Rightarrow> query_values" where
  "request_query q = fst (parse_query (wq_raw_query q))"

section \<open>Cookies\<close>

text \<open>Bytes of a token (a cookie name) and of a cookie value.\<close>

definition token_byte :: "char \<Rightarrow> bool" where
  "token_byte c \<longleftrightarrow> is_alnum c \<or> c \<in> set ''!#$%&*+-.^_`|~'' \<or> c = CHR 0x27"

definition valid_cookie_value_byte :: "char \<Rightarrow> bool" where
  "valid_cookie_value_byte c \<longleftrightarrow> 32 \<le> byte c \<and> byte c < 127 \<and> c \<notin> {CHR 0x22, CHR '';'', CHR 0x5C}"

definition ascii_blank :: "char \<Rightarrow> bool" where
  "ascii_blank c \<longleftrightarrow> c \<in> {CHR '' '', CHR 0x09, CHR 0x0A, CHR 0x0D}"

definition trim_blank :: "string \<Rightarrow> string" where
  "trim_blank s = rev (dropWhile ascii_blank (rev (dropWhile ascii_blank s)))"

definition parse_cookie_value :: "string \<Rightarrow> string option" where
  "parse_cookie_value raw =
     (let v = (if length raw > 1 \<and> hd raw = CHR 0x22 \<and> last raw = CHR 0x22 then butlast (tl raw) else raw) in
      if list_all valid_cookie_value_byte v then Some v else None)"

definition cookie_part :: "string \<Rightarrow> (string \<times> string) option" where
  "cookie_part p =
     (let part = trim_blank p in
      if part = [] then None
      else let (name, val, _) = cut (CHR ''='') part; n = trim_blank name in
        if n = [] \<or> \<not> list_all token_byte n then None
        else map_option (Pair n) (parse_cookie_value val))"

text \<open>\<open>readCookies\<close>: every well-formed part of every \<open>Cookie\<close> header, in order.\<close>

definition read_cookies :: "web_request \<Rightarrow> (string \<times> string) list" where
  "read_cookies q =
     concat (map (\<lambda>line. List.map_filter cookie_part (split_at (CHR '';'') (trim_blank line)))
       (case map_get (wq_headers q) ''Cookie'' of None \<Rightarrow> [] | Some lines \<Rightarrow> lines))"

text \<open>\<open>Request.Cookie\<close>: the first cookie of that name.\<close>

definition request_cookie :: "web_request \<Rightarrow> string \<Rightarrow> string option" where
  "request_cookie q name = (if name = [] then None else map_of (read_cookies q) name)"

datatype same_site = Lax | NoneSite

record cookie =
  ck_name :: string
  ck_value :: string
  ck_secure :: bool
  ck_same_site :: same_site

definition cookie_value_text :: "string \<Rightarrow> string" where
  "cookie_value_text v =
     (let w = filter valid_cookie_value_byte v in
      if w = [] then w
      else if contains_any w '' ,'' then CHR 0x22 # w @ [CHR 0x22]
      else w)"

text \<open>
  \<open>Cookie.String\<close> for a cookie with path \<open>/\<close> and the attribute \<open>HttpOnly\<close>; empty, and so not
  sent by \<open>http.SetCookie\<close>, when the name is not a token.
\<close>

definition cookie_string :: "cookie \<Rightarrow> string" where
  "cookie_string c =
     (if ck_name c = [] \<or> \<not> list_all token_byte (ck_name c) then []
      else ck_name c @ ''='' @ cookie_value_text (ck_value c) @ ''; Path=/; HttpOnly''
        @ (if ck_secure c then ''; Secure'' else [])
        @ (case ck_same_site c of Lax \<Rightarrow> ''; SameSite=Lax'' | NoneSite \<Rightarrow> ''; SameSite=None''))"

definition set_cookie :: "cookie \<Rightarrow> (string \<times> string) list" where
  "set_cookie c = (if cookie_string c = [] then [] else [(''Set-Cookie'', cookie_string c)])"

section \<open>Forms\<close>

text \<open>\<open>http.MaxBytesReader\<close> read to its end.\<close>

definition read_max_bytes :: "nat \<Rightarrow> web_request \<Rightarrow> string option" where
  "read_max_bytes n q = (if length (wq_body q) > n \<or> wq_body_fails q then None else Some (wq_body q))"

definition copy_values :: "query_values \<Rightarrow> query_values \<Rightarrow> query_values" where
  "copy_values dst src =
     foldl (\<lambda>m kv. map_put (fst kv) (case_option [] id (map_get m (fst kv)) @ snd kv) m) dst src"

text \<open>
  \<open>ParseForm\<close> of a POST whose body is read through the limit: the values of the body, when
  it is a URL-encoded form, before those of the query; \<open>None\<close> when any part reports an
  error.
\<close>

definition post_form :: "nat \<Rightarrow> web_request \<Rightarrow> query_values option" where
  "post_form limit q =
     (let (media, err) = wq_media_type q in
      if media = ''application/x-www-form-urlencoded'' then
        (case read_max_bytes limit q of
           None \<Rightarrow> None
         | Some b \<Rightarrow> (let (vs, bad) = parse_query b in if err \<or> bad then None else Some vs))
      else if err then None else Some [])"

definition parse_form :: "nat \<Rightarrow> web_request \<Rightarrow> query_values option" where
  "parse_form limit q =
     (case post_form limit q of
        None \<Rightarrow> None
      | Some body \<Rightarrow>
          (let (vs, bad) = parse_query (wq_raw_query q) in
           if bad then None else Some (copy_values body vs)))"

section \<open>Responses\<close>

record web_response =
  ws_status :: int
  ws_headers :: "(string \<times> string) list"
  ws_body :: string

text \<open>\<open>hexEscapeNonASCII\<close> and \<open>htmlEscape\<close>, which \<open>http.Redirect\<close> applies to the target.\<close>

definition lower_hex :: "nat \<Rightarrow> char" where
  "lower_hex n = char_of (if n < 10 then 48 + n else 87 + n)"

definition hex_escape_non_ascii :: "string \<Rightarrow> string" where
  "hex_escape_non_ascii s =
     concat (map (\<lambda>c. if byte c \<ge> 128 then [CHR ''%'', lower_hex (byte c div 16), lower_hex (byte c mod 16)] else [c]) s)"

definition html_escape :: "string \<Rightarrow> string" where
  "html_escape s =
     concat (map (\<lambda>c. if c = CHR ''&'' then ''&amp;'' else if c = CHR ''<'' then ''&lt;''
       else if c = CHR ''>'' then ''&gt;'' else if c = CHR 0x22 then ''&#34;''
       else if c = CHR 0x27 then ''&#39;'' else [c]) s)"

text \<open>\<open>http.Redirect\<close> with status 302 to a target that has a scheme, after the headers \<open>hs\<close>.\<close>

definition redirect_found :: "string \<Rightarrow> (string \<times> string) list \<Rightarrow> string \<Rightarrow> web_response" where
  "redirect_found meth hs target =
     \<lparr>ws_status = 302,
      ws_headers = hs @ [(''Location'', hex_escape_non_ascii target)]
        @ (if meth = ''GET'' \<or> meth = ''HEAD'' then [(''Content-Type'', ''text/html; charset=utf-8'')] else []),
      ws_body = (if meth = ''GET'' then ''<a href='' @ [CHR 0x22] @ html_escape target @ [CHR 0x22] @ ''>Found</a>.'' @ [CHR 0x0A, CHR 0x0A]
        else [])\<rparr>"

text \<open>The JSON text of an object with one member whose texts need no escapes.\<close>

definition json_member :: "string \<Rightarrow> string \<Rightarrow> string" where
  "json_member k v =
     ''{'' @ [CHR 0x22] @ k @ [CHR 0x22] @ '':'' @ [CHR 0x22] @ v @ [CHR 0x22] @ ''}'' @ [CHR 0x0A]"

definition json_response :: "int \<Rightarrow> (string \<times> string) list \<Rightarrow> string \<Rightarrow> string \<Rightarrow> web_response" where
  "json_response status hs k v =
     \<lparr>ws_status = status, ws_headers = hs @ [(''Content-Type'', ''application/json'')], ws_body = json_member k v\<rparr>"

end
