(* ===== verification/Kratos.thy ===== *)
theory Kratos
  imports HttpClient HttpWire Ports
begin

text \<open>
  The session adapter of \<open>internal/adapters/outbound/kratos/http.go\<close>. The transport is a
  parameter, and so is the streaming JSON decoder: it is given the bytes the limited reader
  yields and whether reading them ends in an error, and returns the first value it decodes
  into a \<open>sessionResponse\<close>, or fails.
\<close>

section \<open>The session response\<close>

record kratos_address =
  ka_value :: string
  ka_via :: string
  ka_verified :: bool
  ka_status :: string

record session_response =
  sr_active :: bool
  sr_aal :: string
  sr_authenticated_at :: time
  sr_methods :: "string list"
  sr_identity_id :: string
  sr_traits :: "jval gomap"
  sr_metadata_public :: "jval gomap"
  sr_addresses :: "kratos_address list"

type_synonym session_decoder = "string \<Rightarrow> bool \<Rightarrow> session_response option"

fun verified_emails :: "kratos_address list \<Rightarrow> string list" where
  "verified_emails [] = []"
| "verified_emails (a # rest) =
     (if ka_via a = ''email'' \<and> ka_verified a \<and> ka_status a = ''completed'' \<and> trim_space (ka_value a) \<noteq> []
      then trim_space (ka_value a) # verified_emails rest
      else verified_emails rest)"

fun session_amr :: "string list \<Rightarrow> string list" where
  "session_amr [] = []"
| "session_amr (m # rest) = (if m \<noteq> [] then m # session_amr rest else session_amr rest)"

section \<open>The request\<close>

text \<open>
  \<open>Request.AddCookie\<close> of \<open>net/http\<close> on a request without cookies: line breaks in the
  name become dashes, bytes that are not allowed in a value are dropped, and a value with a
  blank or a comma is quoted (\<open>cookie_value_text\<close> of theory \<open>HttpWire\<close>).
\<close>

definition cookie_name_text :: "string \<Rightarrow> string" where
  "cookie_name_text n = map (\<lambda>c. if c = CHR 0x0A \<or> c = CHR 0x0D then CHR ''-'' else c) n"

definition kratos_endpoint :: "url \<Rightarrow> string \<Rightarrow> url" where
  "kratos_endpoint base p = base\<lparr>u_path := trim_right_slash (u_path base) @ p\<rparr>"

definition credential_headers :: "session_credentials \<Rightarrow> (string \<times> string) list" where
  "credential_headers c =
     (if sc_cookie_name c \<noteq> [] \<and> sc_cookie_value c \<noteq> []
      then [(''Cookie'', cookie_name_text (sc_cookie_name c) @ ''='' @ cookie_value_text (sc_cookie_value c))] else [])
     @ (if sc_token c \<noteq> [] then [(''Authorization'', ''Bearer '' @ sc_token c)] else [])"

text \<open>
  What a request to the session endpoint of the Kratos configured at \<open>base\<close> is, said without
  the adapter: a GET of \<open>/sessions/whoami\<close> below the base's path, without a query and without
  a body, that carries the browser's credentials. \<open>http.NewRequest\<close> reads the URL it is given
  back into a URL, whose rendering is the one that is sent.
\<close>

definition whoami_request :: "url \<Rightarrow> session_credentials \<Rightarrow> http_request \<Rightarrow> bool" where
  "whoami_request base credentials q \<longleftrightarrow>
     hq_method q = ''GET'' \<and> hq_headers q = credential_headers credentials \<and> hq_body q = []
     \<and> (\<exists>v. url_parse (url_string (base\<lparr>u_path := trim_right_slash (u_path base) @ ''/sessions/whoami'',
              u_raw_query := []\<rparr>)) = Some v
          \<and> hq_url q = url_string v)"

section \<open>Operations\<close>

definition new_kratos :: "url option \<Rightarrow> url res" where
  "new_kratos base =
     (case base of
        None \<Rightarrow> Inl (Msg ''kratos public url is required'')
      | Some u \<Rightarrow> if u_scheme u = [] \<or> u_host u = [] then Inl (Msg ''kratos public url is required'') else Inr u)"

definition session_of_response :: "session_response \<Rightarrow> session_info" where
  "session_of_response p =
     \<lparr>se_subject = sr_identity_id p, se_aal = sr_aal p, se_amr = session_amr (sr_methods p),
      se_authenticated_at = sr_authenticated_at p, se_identity_traits = sr_traits p,
      se_identity_metadata_public = sr_metadata_public p, se_verified_emails = verified_emails (sr_addresses p)\<rparr>"

definition kratos_validate_session ::
  "url \<Rightarrow> session_decoder \<Rightarrow> transport \<Rightarrow> session_credentials \<Rightarrow> session_info res" where
  "kratos_validate_session base decode send credentials =
     (if sc_cookie_value credentials = [] \<and> sc_token credentials = [] then Inl (Sent ErrUnauthenticated)
      else case new_request ''GET'' ((kratos_endpoint base ''/sessions/whoami'')\<lparr>u_raw_query := []\<rparr>)
                  (credential_headers credentials) [] of
        None \<Rightarrow> Inl (upstream ''create kratos request'')
      | Some request \<Rightarrow>
          (case send request of
             Inl e \<Rightarrow> Inl (Wrap ''kratos request failed'' [Sent ErrUpstream, e])
           | Inr response \<Rightarrow>
               if hr_status response = 401 \<or> hr_status response = 403 then Inl (Sent ErrUnauthenticated)
               else if \<not> success_status (hr_status response) then
                 (case drain ''drain upstream response'' response of
                    Some e \<Rightarrow> Inl e
                  | None \<Rightarrow> Inl (upstream ''kratos returned status''))
               else case decode (take max_response_bytes (hr_body response))
                            (length (hr_body response) < max_response_bytes \<and> hr_body_fails response) of
                 None \<Rightarrow> Inl (upstream ''decode kratos response'')
               | Some payload \<Rightarrow>
                   if \<not> sr_active payload \<or> sr_identity_id payload = [] then Inl (Sent ErrUnauthenticated)
                   else Inr (session_of_response payload)))"

definition kratos_ready :: "url \<Rightarrow> transport \<Rightarrow> goerr option" where
  "kratos_ready base send =
     (case new_request ''GET'' (kratos_endpoint base ''/health/ready'') [] [] of
        None \<Rightarrow> Some (upstream ''create kratos readiness request'')
      | Some request \<Rightarrow>
          (case send request of
             Inl e \<Rightarrow> Some (Wrap ''kratos readiness request failed'' [Sent ErrUpstream, e])
           | Inr response \<Rightarrow>
               if \<not> success_status (hr_status response) then Some (upstream ''kratos returned readiness status'')
               else drain ''drain upstream response'' response))"

section \<open>Lemmas\<close>

lemma session_amr_filter: "session_amr ms = filter (\<lambda>m. m \<noteq> []) ms"
  by (induction ms) auto

lemma verified_emails_iff:
  "e \<in> set (verified_emails as) \<longleftrightarrow>
     e \<noteq> [] \<and> (\<exists>a\<in>set as. ka_via a = ''email'' \<and> ka_verified a \<and> ka_status a = ''completed'' \<and> e = trim_space (ka_value a))"
  by (induction as) auto

lemma cookie_value_safe:
  "c \<in> set (filter valid_cookie_value_byte v) \<Longrightarrow> c \<noteq> CHR '';'' \<and> 32 \<le> byte c \<and> byte c < 127"
  by (auto simp: valid_cookie_value_byte_def)

lemma kratos_session_cases:
  assumes "kratos_validate_session base decode send credentials = Inr s"
  obtains request response payload where
    "sc_cookie_value credentials \<noteq> [] \<or> sc_token credentials \<noteq> []"
    "new_request ''GET'' ((kratos_endpoint base ''/sessions/whoami'')\<lparr>u_raw_query := []\<rparr>)
       (credential_headers credentials) [] = Some request"
    "send request = Inr response" "success_status (hr_status response)"
    "decode (take max_response_bytes (hr_body response))
       (length (hr_body response) < max_response_bytes \<and> hr_body_fails response) = Some payload"
    "sr_active payload" "sr_identity_id payload \<noteq> []" "s = session_of_response payload"
  using assms
  by (auto simp: kratos_validate_session_def split: if_splits option.splits sum.splits)

lemma new_request_whoami:
  assumes "new_request ''GET'' ((kratos_endpoint base ''/sessions/whoami'')\<lparr>u_raw_query := []\<rparr>)
      (credential_headers credentials) [] = Some q"
  shows "whoami_request base credentials q"
  using assms by (auto simp: new_request_def whoami_request_def kratos_endpoint_def split: option.splits)

section \<open>Properties\<close>

definition sample_kratos_payload :: session_response where
  "sample_kratos_payload = \<lparr>sr_active = True, sr_aal = ''aal1'', sr_authenticated_at = 1, sr_methods = [[], ''password''],
     sr_identity_id = ''u'', sr_traits = [], sr_metadata_public = [],
     sr_addresses = [\<lparr>ka_value = '' m '', ka_via = ''email'', ka_verified = True, ka_status = ''completed''\<rparr>]\<rparr>"

definition sample_kratos_credentials :: session_credentials where
  "sample_kratos_credentials = \<lparr>sc_cookie_name = ''s'', sc_cookie_value = ''v;w'', sc_token = []\<rparr>"

lemma sample_whoami:
  "new_request ''GET'' ((kratos_endpoint (sample_url ''k'') ''/sessions/whoami'')\<lparr>u_raw_query := []\<rparr>) hs [] =
     Some \<lparr>hq_method = ''GET'', hq_url = ''https://k/sessions/whoami'', hq_headers = hs, hq_body = []\<rparr>"
proof -
  let ?u = "(sample_url ''k'')\<lparr>u_path := ''/sessions/whoami''\<rparr>"
  have e: "(kratos_endpoint (sample_url ''k'') ''/sessions/whoami'')\<lparr>u_raw_query := []\<rparr> = ?u"
    by (simp add: kratos_endpoint_def sample_url_def empty_url_def trim_right_slash_def)
  have s: "url_string ?u = ''https://k/sessions/whoami''"
    by (simp add: url_string_def url_front_def sample_url_def empty_url_def escaped_path_def escaped_fragment_def
        valid_encoded_def escape_def escape_char_def should_escape_def is_alnum_def is_alpha_def is_digit_def)
  have "url_parse ''https://k/sessions/whoami'' = Some ?u"
    by (simp add: url_parse_def parse_no_fragment_def cut_def get_scheme_def is_alpha_def is_digit_def
        has_prefix_def has_suffix_def text_eval parse_after_query_def parse_authority_def last_index_def
        parse_host_def set_path_def empty_url_def escape_def escape_char_def should_escape_def is_alnum_def sample_url_def)
  with s show ?thesis by (simp add: new_request_def e)
qed

lemma sample_kratos_session:
  "kratos_validate_session (sample_url ''k'') (\<lambda>d e. Some sample_kratos_payload)
     (\<lambda>q. Inr \<lparr>hr_status = 200, hr_body = ''r'', hr_body_fails = False\<rparr>) sample_kratos_credentials
   = Inr (session_of_response sample_kratos_payload)"
  by (simp add: kratos_validate_session_def sample_whoami success_status_def)
    (simp add: sample_kratos_payload_def sample_kratos_credentials_def)

text \<open>C31. A session is returned only when the browser presented a cookie or a token and the
  GET of \<open>/sessions/whoami\<close> of the configured Kratos, with exactly these credentials as its
  headers and no query, was answered with a success status and an active session of an
  identity. The subject is that identity, the assurance, time, traits and metadata are those
  of the answer, and an email is verified only when a completed, verified address of kind
  \<open>email\<close> says so.\<close>

theorem kratos_session_genuine:
  assumes "kratos_validate_session base decode send credentials = Inr s"
  shows "\<exists>request response payload.
      (sc_cookie_value credentials \<noteq> [] \<or> sc_token credentials \<noteq> [])
    \<and> whoami_request base credentials request
    \<and> send request = Inr response \<and> 200 \<le> hr_status response \<and> hr_status response < 300
    \<and> decode (take (2 ^ 20) (hr_body response)) (length (hr_body response) < 2 ^ 20 \<and> hr_body_fails response) = Some payload
    \<and> sr_active payload \<and> se_subject s = sr_identity_id payload \<and> se_subject s \<noteq> []
    \<and> se_aal s = sr_aal payload \<and> se_amr s = filter (\<lambda>m. m \<noteq> []) (sr_methods payload)
    \<and> se_authenticated_at s = sr_authenticated_at payload
    \<and> se_identity_traits s = sr_traits payload \<and> se_identity_metadata_public s = sr_metadata_public payload
    \<and> (\<forall>e. e \<in> set (se_verified_emails s) \<longleftrightarrow> e \<noteq> [] \<and> (\<exists>a. a \<in> set (sr_addresses payload)
          \<and> ka_via a = ''email'' \<and> ka_verified a \<and> ka_status a = ''completed'' \<and> e = trim_space (ka_value a)))"
proof -
  obtain request response payload where h:
    "sc_cookie_value credentials \<noteq> [] \<or> sc_token credentials \<noteq> []"
    "new_request ''GET'' ((kratos_endpoint base ''/sessions/whoami'')\<lparr>u_raw_query := []\<rparr>)
       (credential_headers credentials) [] = Some request"
    "send request = Inr response" "success_status (hr_status response)"
    "decode (take max_response_bytes (hr_body response))
       (length (hr_body response) < max_response_bytes \<and> hr_body_fails response) = Some payload"
    "sr_active payload" "sr_identity_id payload \<noteq> []" "s = session_of_response payload"
    by (rule kratos_session_cases [OF assms])
  note q = new_request_whoami [OF h(2)]
  show ?thesis
    using h q
    by (intro exI [of _ request] exI [of _ response] exI [of _ payload])
      (auto simp: session_of_response_def session_amr_filter verified_emails_iff success_status_def max_response_bytes_def)
qed

theorem kratos_session_genuine_witness:
  "se_subject (session_of_response sample_kratos_payload) \<noteq> []"
  using kratos_session_genuine [OF sample_kratos_session] by blast

text \<open>A failed validation is reported as an unauthenticated browser or as an upstream
  failure. It is unauthenticated when there are no credentials, when Kratos answers 401 or
  403, and when the session it returns is inactive or without an identity; no other answer
  of Kratos is taken for a missing session.\<close>

theorem kratos_failures:
  assumes "kratos_validate_session base decode send credentials = Inl e"
  shows "(errors_is e ErrUpstream \<and> (sc_cookie_value credentials \<noteq> [] \<or> sc_token credentials \<noteq> []))
    \<or> (e = Sent ErrUnauthenticated
       \<and> ((sc_cookie_value credentials = [] \<and> sc_token credentials = [])
          \<or> (\<exists>request response. hq_headers request = credential_headers credentials \<and> send request = Inr response
               \<and> (hr_status response = 401 \<or> hr_status response = 403
                  \<or> 200 \<le> hr_status response \<and> hr_status response < 300
                    \<and> (\<exists>payload. decode (take (2 ^ 20) (hr_body response))
                          (length (hr_body response) < 2 ^ 20 \<and> hr_body_fails response) = Some payload
                        \<and> (\<not> sr_active payload \<or> sr_identity_id payload = []))))))"
proof (cases "sc_cookie_value credentials = [] \<and> sc_token credentials = []")
  case False
  have q: "hq_headers request = credential_headers credentials"
    if "new_request ''GET'' u (credential_headers credentials) [] = Some request" for u request
    using that by (auto simp: new_request_def split: option.splits)
  show ?thesis
    using assms False
    by (auto simp: kratos_validate_session_def success_status_def max_response_bytes_def
        split: if_splits option.splits sum.splits dest!: q drain_upstream)
qed (use assms in \<open>auto simp: kratos_validate_session_def\<close>)

theorem kratos_failures_witness:
  "errors_is (Wrap ''kratos request failed'' [Sent ErrUpstream, Msg ''t'']) ErrUpstream"
proof -
  have "kratos_validate_session (sample_url ''k'') (\<lambda>d e. None) (\<lambda>q. Inl (Msg ''t'')) sample_kratos_credentials
      = Inl (Wrap ''kratos request failed'' [Sent ErrUpstream, Msg ''t''])"
    by (simp add: kratos_validate_session_def sample_whoami) (simp add: sample_kratos_credentials_def)
  from kratos_failures [OF this] show ?thesis by simp
qed

text \<open>The browser's cookie value cannot add a cookie or a header to the request to Kratos:
  the one \<open>Cookie\<close> header is the configured name, free of line breaks, with a value that is
  printable ASCII without a semicolon.\<close>

theorem kratos_cookie_contained:
  assumes "(name, v) \<in> set (credential_headers credentials)" and "name = ''Cookie''"
  shows "\<exists>n w. v = n @ ''='' @ w \<and> length n = length (sc_cookie_name credentials)
    \<and> CHR 0x0A \<notin> set n \<and> CHR 0x0D \<notin> set n \<and> CHR '';'' \<notin> set w \<and> list_all (\<lambda>c. 32 \<le> byte c \<and> byte c < 127) w"
proof -
  have "v = cookie_name_text (sc_cookie_name credentials) @ ''='' @ cookie_value_text (sc_cookie_value credentials)"
    using assms by (auto simp: credential_headers_def split: if_splits)
  moreover have "c \<noteq> CHR '';'' \<and> 32 \<le> byte c \<and> byte c < 127"
    if "c \<in> set (cookie_value_text (sc_cookie_value credentials))" for c
    using that cookie_value_safe by (auto simp: cookie_value_text_def Let_def split: if_splits)
  ultimately show ?thesis
    by (intro exI [of _ "cookie_name_text (sc_cookie_name credentials)"]
        exI [of _ "cookie_value_text (sc_cookie_value credentials)"])
      (auto simp: cookie_name_text_def list_all_iff)
qed

theorem kratos_cookie_contained_witness: "\<exists>n w. ''s=vw'' = n @ ''='' @ w \<and> CHR '';'' \<notin> set w"
proof -
  have "(''Cookie'', ''s=vw'') \<in> set (credential_headers sample_kratos_credentials)"
    by (simp add: credential_headers_def sample_kratos_credentials_def cookie_name_text_def cookie_value_text_def
        valid_cookie_value_byte_def contains_any_def)
  from kratos_cookie_contained [OF this refl] show ?thesis by blast
qed

end
