(* ===== verification/Hydra.thy ===== *)
theory Hydra
  imports Ports
begin

text \<open>
  The Hydra adapter of \<open>internal/adapters/outbound/hydra/http.go\<close>. The generated SDK is a
  parameter: one function per operation, from the challenge and the request body the source
  builds to the response the source reads, which may be a nil pointer, or an error. The
  records hold the fields of the SDK's types that the source reads or sets; an unset field
  of a request body is \<open>None\<close>.
\<close>

section \<open>The SDK\<close>

record hydra_client =
  hc_id :: string
  hc_name :: string
  hc_redirect_uris :: "string list"
  hc_post_logout_redirect_uris :: "string list"
  hc_skip_consent :: bool

record hydra_oidc_context =
  ho_acr_values :: "string list"
  ho_login_hint :: string
  ho_ui_locales :: "string list"
  ho_display :: string

record hydra_login =
  hl_challenge :: string
  hl_client :: hydra_client
  hl_skip :: bool
  hl_subject :: string
  hl_request_url :: string
  hl_oidc_context :: "hydra_oidc_context option"

record hydra_consent =
  hn_challenge :: string
  hn_client :: hydra_client
  hn_skip :: bool
  hn_subject :: string
  hn_request_url :: string
  hn_requested_scope :: "string list"
  hn_requested_audience :: "string list"

record hydra_logout =
  hg_challenge :: string
  hg_client :: hydra_client
  hg_subject :: string
  hg_sid :: string
  hg_request_url :: string

record accept_login_body =
  al_subject :: string
  al_acr :: "string option"
  al_amr :: "string list option"
  al_remember :: "bool option"
  al_remember_for :: "int option"

record accept_consent_body =
  ac_grant_scope :: "string list"
  ac_grant_audience :: "string list option"
  ac_id_token :: "jval gomap"
  ac_access_token :: "jval gomap"
  ac_remember :: "bool option"
  ac_remember_for :: "int option"

record reject_body =
  rb_error :: "string option"
  rb_error_description :: "string option"

text \<open>A redirect response is the field \<open>RedirectTo\<close>.\<close>

record hydra_api =
  ha_get_login :: "string \<Rightarrow> hydra_login option res"
  ha_accept_login :: "string \<Rightarrow> accept_login_body \<Rightarrow> string option res"
  ha_reject_login :: "string \<Rightarrow> reject_body \<Rightarrow> string option res"
  ha_get_consent :: "string \<Rightarrow> hydra_consent option res"
  ha_accept_consent :: "string \<Rightarrow> accept_consent_body \<Rightarrow> string option res"
  ha_reject_consent :: "string \<Rightarrow> reject_body \<Rightarrow> string option res"
  ha_get_logout :: "string \<Rightarrow> hydra_logout option res"
  ha_accept_logout :: "string \<Rightarrow> string option res"
  ha_reject_logout :: "string \<Rightarrow> unit res"
  ha_ready :: "unit res"

section \<open>Helpers\<close>

definition hydra_error :: "goerr \<Rightarrow> goerr" where
  "hydra_error e = Wrap ''hydra request failed'' [Sent ErrUpstream, e]"

definition client_domain :: "hydra_client \<Rightarrow> oauth_client" where
  "client_domain c =
     \<lparr>oc_id = hc_id c, oc_name = hc_name c, oc_redirect_uris = hc_redirect_uris c,
      oc_post_logout_redirect_uris = hc_post_logout_redirect_uris c, oc_skip_consent = hc_skip_consent c\<rparr>"

definition requested_acr_values :: "hydra_oidc_context option \<Rightarrow> string list" where
  "requested_acr_values ctx = (case ctx of None \<Rightarrow> [] | Some c \<Rightarrow> ho_acr_values c)"

definition first_value :: "string list \<Rightarrow> string" where
  "first_value vs = (case vs of [] \<Rightarrow> [] | v # _ \<Rightarrow> v)"

definition parse_oidc_request_url :: "string \<Rightarrow> (string \<times> int option) res" where
  "parse_oidc_request_url request_url =
     (if request_url = [] then Inr ([], None)
      else case url_parse request_url of
        None \<Rightarrow> Inl (hydra_error (Msg ''parse oidc request url''))
      | Some parsed \<Rightarrow>
          (let (query, err) = parse_query (u_raw_query parsed) in
           if err then Inl (hydra_error (Msg ''parse oidc request query''))
           else case (case map_get query ''prompt'' of
                        None \<Rightarrow> Some []
                      | Some vs \<Rightarrow>
                          if length vs \<noteq> 1 \<or> trim_space (vs ! 0) = [] then None
                          else Some (trim_space (vs ! 0))) of
             None \<Rightarrow> Inl (hydra_error (Msg ''invalid oidc prompt''))
           | Some prompt \<Rightarrow>
               (case map_get query ''max_age'' of
                  None \<Rightarrow> Inr (prompt, None)
                | Some vs \<Rightarrow>
                    if length vs \<noteq> 1 then Inl (hydra_error (Msg ''invalid oidc max_age''))
                    else case parse_int64 (trim_space (vs ! 0)) of
                      None \<Rightarrow> Inl (hydra_error (Msg ''invalid oidc max_age''))
                    | Some n \<Rightarrow>
                        if n < 0 then Inl (hydra_error (Msg ''invalid oidc max_age''))
                        else Inr (prompt, Some n))))"

definition post_logout_redirect :: "string \<Rightarrow> string res" where
  "post_logout_redirect request_url =
     (if request_url = [] then Inr []
      else case url_parse request_url of
        None \<Rightarrow> Inl (upstream ''parse hydra logout request'')
      | Some parsed \<Rightarrow>
          (case map_get (url_query parsed) ''post_logout_redirect_uri'' of
             None \<Rightarrow> Inr []
           | Some vs \<Rightarrow>
               if length vs \<noteq> 1 \<or> vs ! 0 = [] then Inl (Sent ErrInvalidRedirect) else Inr (vs ! 0)))"

definition redirect_response :: "string option res \<Rightarrow> string res" where
  "redirect_response r =
     (case r of
        Inl e \<Rightarrow> Inl (hydra_error e)
      | Inr None \<Rightarrow> Inl (hydra_error (Msg ''empty redirect response''))
      | Inr (Some u) \<Rightarrow> if u = [] then Inl (hydra_error (Msg ''empty redirect response'')) else Inr u)"

definition rejection_request :: "rejection \<Rightarrow> reject_body" where
  "rejection_request rj =
     \<lparr>rb_error = (if rj_error rj \<noteq> [] then Some (rj_error rj) else None),
      rb_error_description = (if rj_error_description rj \<noteq> [] then Some (rj_error_description rj) else None)\<rparr>"

section \<open>Operations\<close>

definition hydra_get_login :: "hydra_api \<Rightarrow> string \<Rightarrow> login_request res" where
  "hydra_get_login api challenge =
     (case ha_get_login api challenge of
        Inl e \<Rightarrow> Inl (hydra_error e)
      | Inr None \<Rightarrow> Inl (hydra_error (Msg ''empty login response''))
      | Inr (Some r) \<Rightarrow>
          (case parse_oidc_request_url (hl_request_url r) of
             Inl e \<Rightarrow> Inl e
           | Inr (prompt, max_age) \<Rightarrow>
               (let acr = requested_acr_values (hl_oidc_context r);
                    hints = (case hl_oidc_context r of
                       None \<Rightarrow> no_hints
                     | Some c \<Rightarrow> safe_login_ui_hints
                         \<lparr>hint_login = ho_login_hint c, hint_ui_locales = join_with '' '' (ho_ui_locales c),
                          hint_display = ho_display c\<rparr>) in
                Inr \<lparr>lr_challenge = hl_challenge r, lr_client = client_domain (hl_client r), lr_skip = hl_skip r,
                     lr_subject = hl_subject r, lr_requested_aal = first_value acr,
                     lr_requested_acr_values = acr, lr_prompt = prompt, lr_max_age = max_age,
                     lr_login_hint = hint_login hints, lr_ui_locales = hint_ui_locales hints,
                     lr_display = hint_display hints\<rparr>)))"

definition accept_login_request :: "login_acceptance \<Rightarrow> accept_login_body" where
  "accept_login_request a =
     \<lparr>al_subject = la_subject a,
      al_acr = (if la_acr a \<noteq> [] then Some (la_acr a) else None),
      al_amr = (if la_amr a \<noteq> [] then Some (la_amr a) else None),
      al_remember = (if la_remember a then Some True else None),
      al_remember_for = (if la_remember_for a \<noteq> 0 then Some (la_remember_for a) else None)\<rparr>"

definition hydra_accept_login :: "hydra_api \<Rightarrow> string \<Rightarrow> login_acceptance \<Rightarrow> string res" where
  "hydra_accept_login api challenge a = redirect_response (ha_accept_login api challenge (accept_login_request a))"

definition hydra_reject_login :: "hydra_api \<Rightarrow> string \<Rightarrow> rejection \<Rightarrow> string res" where
  "hydra_reject_login api challenge rj = redirect_response (ha_reject_login api challenge (rejection_request rj))"

definition hydra_get_consent :: "hydra_api \<Rightarrow> string \<Rightarrow> consent_request res" where
  "hydra_get_consent api challenge =
     (case ha_get_consent api challenge of
        Inl e \<Rightarrow> Inl (hydra_error e)
      | Inr None \<Rightarrow> Inl (hydra_error (Msg ''empty consent response''))
      | Inr (Some r) \<Rightarrow>
          (case parse_oidc_request_url (hn_request_url r) of
             Inl e \<Rightarrow> Inl e
           | Inr (prompt, _) \<Rightarrow>
               Inr \<lparr>cr_challenge = hn_challenge r, cr_client = client_domain (hn_client r),
                    cr_subject = hn_subject r, cr_requested_scopes = hn_requested_scope r,
                    cr_requested_audience = hn_requested_audience r, cr_skip = hn_skip r, cr_prompt = prompt\<rparr>))"

definition accept_consent_request :: "consent_acceptance \<Rightarrow> accept_consent_body res" where
  "accept_consent_request a =
     (if cl_user_info (ca_session a) \<noteq> []
      then Inl (Wrap ''unsupported userinfo claims'' [Sent ErrUpstream,
             Msg ''separate UserInfo claims are not supported by the Hydra consent API''])
      else Inr \<lparr>ac_grant_scope = ca_grant_scopes a,
                ac_grant_audience = (if ca_grant_audience a \<noteq> [] then Some (ca_grant_audience a) else None),
                ac_id_token = cl_id_token (ca_session a), ac_access_token = cl_access_token (ca_session a),
                ac_remember = (if ca_remember a then Some True else None),
                ac_remember_for = (if ca_remember_for a \<noteq> 0 then Some (ca_remember_for a) else None)\<rparr>)"

definition hydra_accept_consent :: "hydra_api \<Rightarrow> string \<Rightarrow> consent_acceptance \<Rightarrow> string res" where
  "hydra_accept_consent api challenge a =
     (case accept_consent_request a of
        Inl e \<Rightarrow> Inl e
      | Inr body \<Rightarrow> redirect_response (ha_accept_consent api challenge body))"

definition hydra_reject_consent :: "hydra_api \<Rightarrow> string \<Rightarrow> rejection \<Rightarrow> string res" where
  "hydra_reject_consent api challenge rj = redirect_response (ha_reject_consent api challenge (rejection_request rj))"

definition hydra_get_logout :: "hydra_api \<Rightarrow> string \<Rightarrow> logout_request res" where
  "hydra_get_logout api challenge =
     (case ha_get_logout api challenge of
        Inl e \<Rightarrow> Inl (hydra_error e)
      | Inr None \<Rightarrow> Inl (hydra_error (Msg ''empty logout response''))
      | Inr (Some r) \<Rightarrow>
          (case post_logout_redirect (hg_request_url r) of
             Inl e \<Rightarrow> Inl e
           | Inr uri \<Rightarrow>
               Inr \<lparr>gr_challenge = hg_challenge r, gr_client = client_domain (hg_client r),
                    gr_subject = hg_subject r, gr_session_id = hg_sid r, gr_request_url = hg_request_url r,
                    gr_post_logout_redirect_uri = uri\<rparr>))"

definition hydra_accept_logout :: "hydra_api \<Rightarrow> string \<Rightarrow> string res" where
  "hydra_accept_logout api challenge = redirect_response (ha_accept_logout api challenge)"

definition hydra_reject_logout :: "hydra_api \<Rightarrow> string \<Rightarrow> rejection \<Rightarrow> string res" where
  "hydra_reject_logout api challenge rj =
     (case ha_reject_logout api challenge of Inl e \<Rightarrow> Inl (hydra_error e) | Inr _ \<Rightarrow> Inr [])"

definition hydra_ready :: "hydra_api \<Rightarrow> goerr option" where
  "hydra_ready api = (case ha_ready api of Inl e \<Rightarrow> Some (hydra_error e) | Inr _ \<Rightarrow> None)"

text \<open>\<open>New\<close>: the server URL and the default headers the SDK is configured with.\<close>

definition new_hydra :: "url option \<Rightarrow> string \<Rightarrow> (string \<times> (string \<times> string) list) res" where
  "new_hydra base token =
     (case base of
        None \<Rightarrow> Inl (Msg ''hydra admin url is required'')
      | Some u \<Rightarrow>
          if u_scheme u = [] \<or> u_host u = [] \<or> u_user u \<noteq> None \<or> u_fragment u \<noteq> []
          then Inl (Msg ''hydra admin url is required'')
          else Inr (trim_right_slash (url_string u),
                    if token \<noteq> [] then [(''Authorization'', ''Bearer '' @ token)] else []))"

section \<open>Lemmas\<close>

lemma errors_is_hydra [simp]: "errors_is (hydra_error e) s \<longleftrightarrow> s = ErrUpstream \<or> errors_is e s"
  by (auto simp: hydra_error_def)

lemma parse_oidc_Inr:
  "parse_oidc_request_url url = Inr (prompt, max_age) \<Longrightarrow>
   trim_space prompt = prompt \<and> (\<forall>n. max_age = Some n \<longrightarrow> 0 \<le> n \<and> int64 n)"
  by (auto simp: parse_oidc_request_url_def Let_def trim_space_idem parse_int64_range
      split: if_splits option.splits prod.splits)

lemma parse_oidc_Inl: "parse_oidc_request_url url = Inl e \<Longrightarrow> errors_is e ErrUpstream"
  by (auto simp: parse_oidc_request_url_def Let_def split: if_splits option.splits prod.splits)

lemma post_logout_Inl: "post_logout_redirect url = Inl e \<Longrightarrow> errors_is e ErrUpstream
   \<or> e = Sent ErrInvalidRedirect \<and> (\<exists>u vs. url_parse url = Some u
        \<and> map_get (url_query u) ''post_logout_redirect_uri'' = Some vs \<and> (length vs \<noteq> 1 \<or> hd vs = []))"
proof -
  assume post: "post_logout_redirect url = Inl e"
  have first: "length vs = 1 \<Longrightarrow> vs ! 0 = hd vs" for vs :: "string list" by (cases vs) auto
  show ?thesis
    using post by (auto simp: post_logout_redirect_def first split: if_splits option.splits)
qed

lemma redirect_response_Inl: "redirect_response r = Inl e \<Longrightarrow> errors_is e ErrUpstream"
  by (auto simp: redirect_response_def split: sum.splits option.splits if_splits)

lemma redirect_response_Inr: "redirect_response r = Inr u \<longleftrightarrow> r = Inr (Some u) \<and> u \<noteq> []"
  by (auto simp: redirect_response_def split: sum.splits option.splits if_splits)

section \<open>Properties\<close>

definition sample_hydra_client :: hydra_client where
  "sample_hydra_client = \<lparr>hc_id = ''c'', hc_name = ''n'', hc_redirect_uris = [''https://c''],
     hc_post_logout_redirect_uris = [], hc_skip_consent = False\<rparr>"

definition sample_api :: hydra_api where
  "sample_api = \<lparr>
     ha_get_login = (\<lambda>c. Inr (Some \<lparr>hl_challenge = c, hl_client = sample_hydra_client, hl_skip = False,
        hl_subject = ''u'', hl_request_url = [], hl_oidc_context = None\<rparr>)),
     ha_accept_login = (\<lambda>c b. Inr (Some ''https://h'')), ha_reject_login = (\<lambda>c b. Inr None),
     ha_get_consent = (\<lambda>c. Inr None), ha_accept_consent = (\<lambda>c b. Inr (Some ''https://h'')),
     ha_reject_consent = (\<lambda>c b. Inr None), ha_get_logout = (\<lambda>c. Inr None), ha_accept_logout = (\<lambda>c. Inr None),
     ha_reject_logout = (\<lambda>c. Inr ()), ha_ready = Inr ()\<rparr>"

text \<open>C34. A login request that the adapter returns is well-formed: \<open>max_age\<close> is absent or a
  non-negative 64-bit integer, the prompt has no surrounding white space, the requested
  level is the first requested ACR value, and the presentation hints are bounded and clean.\<close>

theorem hydra_login_request_wf:
  assumes "hydra_get_login api challenge = Inr req"
  shows "(\<forall>n. lr_max_age req = Some n \<longrightarrow> 0 \<le> n \<and> n < 2 ^ 63)
    \<and> trim_space (lr_prompt req) = lr_prompt req
    \<and> lr_requested_aal req = (if lr_requested_acr_values req = [] then [] else hd (lr_requested_acr_values req))
    \<and> safe_login_ui_hints \<lparr>hint_login = lr_login_hint req, hint_ui_locales = lr_ui_locales req, hint_display = lr_display req\<rparr>
       = \<lparr>hint_login = lr_login_hint req, hint_ui_locales = lr_ui_locales req, hint_display = lr_display req\<rparr>"
proof -
  obtain r prompt max_age where p: "ha_get_login api challenge = Inr (Some r)"
    "parse_oidc_request_url (hl_request_url r) = Inr (prompt, max_age)"
    using assms by (auto simp: hydra_get_login_def split: sum.splits option.splits prod.splits)
  note get = assms [unfolded hydra_get_login_def p sum.case option.case prod.case Let_def]
  have none: "hint_login no_hints = []" "hint_ui_locales no_hints = []" "hint_display no_hints = []"
    by (simp_all add: no_hints_def)
  have empty: "safe_login_hint [] = []" "safe_ui_locales [] = []" "safe_display [] = []"
    by (simp_all add: safe_login_hint_def safe_ui_locales_def safe_display_def str_fields_def contains_any_def)
  have idem: "safe_display (safe_display d) = safe_display d" for d by (simp add: safe_display_def)
  show ?thesis
    using get parse_oidc_Inr [OF p(2)]
    by (cases "hl_oidc_context r")
      (auto simp: first_value_def int64_def safe_login_ui_hints_def safe_login_hint_idem safe_ui_locales_idem
        idem none empty split: list.split)
qed

theorem hydra_login_request_wf_witness:
  "trim_space (lr_prompt (projr (hydra_get_login sample_api ''ch''))) = lr_prompt (projr (hydra_get_login sample_api ''ch''))"
proof -
  have "hydra_get_login sample_api ''ch'' = Inr (projr (hydra_get_login sample_api ''ch''))"
    by (simp add: hydra_get_login_def sample_api_def parse_oidc_request_url_def Let_def)
  from hydra_login_request_wf [OF this] show ?thesis by blast
qed

text \<open>What Hydra reads from the bodies of an acceptance.\<close>

definition read_login_body :: "accept_login_body \<Rightarrow> login_acceptance" where
  "read_login_body b = \<lparr>la_subject = al_subject b, la_acr = case_option [] id (al_acr b),
     la_amr = case_option [] id (al_amr b), la_remember = (al_remember b = Some True),
     la_remember_for = case_option 0 id (al_remember_for b)\<rparr>"

definition read_consent_body :: "accept_consent_body \<Rightarrow> consent_acceptance" where
  "read_consent_body b = \<lparr>ca_grant_scopes = ac_grant_scope b,
     ca_grant_audience = case_option [] id (ac_grant_audience b),
     ca_session = \<lparr>cl_id_token = ac_id_token b, cl_access_token = ac_access_token b, cl_user_info = []\<rparr>,
     ca_remember = (ac_remember b = Some True), ca_remember_for = case_option 0 id (ac_remember_for b)\<rparr>"

text \<open>C35. Nothing of an acceptance is lost on the way to Hydra: the body of a login acceptance
  and that of a consent acceptance read back as the acceptance itself, and a consent with
  separate UserInfo claims, which Hydra would drop, is refused as an upstream failure
  whatever the SDK does, so it is not sent.\<close>

theorem hydra_acceptances_faithful:
  "read_login_body (accept_login_request la) = la
   \<and> (case accept_consent_request ca of
        Inr body \<Rightarrow> read_consent_body body = ca
          \<and> hydra_accept_consent api challenge ca = redirect_response (ha_accept_consent api challenge body)
      | Inl e \<Rightarrow> cl_user_info (ca_session ca) \<noteq> [] \<and> errors_is e ErrUpstream
          \<and> hydra_accept_consent api challenge ca = Inl e)"
  by (auto simp: read_login_body_def accept_login_request_def accept_consent_request_def read_consent_body_def
      hydra_accept_consent_def split: sum.split)

text \<open>C36. Every failure of an operation of the adapter, the rejection of a logout included, is
  an upstream failure, but for a logout whose redirect parameter is empty or repeated, which
  is an invalid redirect. A decision that succeeds returns the redirect Hydra answered with,
  which is not empty; only the rejection of a logout has none: it succeeds exactly when Hydra
  accepts it, and returns the empty redirect.\<close>

theorem hydra_failures:
  "(\<forall>e. hydra_get_login api c = Inl e \<or> hydra_accept_login api c la = Inl e \<or> hydra_reject_login api c rj = Inl e
      \<or> hydra_get_consent api c = Inl e \<or> hydra_accept_consent api c ca = Inl e \<or> hydra_reject_consent api c rj = Inl e
      \<or> hydra_accept_logout api c = Inl e \<or> hydra_reject_logout api c rj = Inl e
      \<or> hydra_ready api = Some e \<longrightarrow> errors_is e ErrUpstream)
   \<and> (\<forall>e. hydra_get_logout api c = Inl e \<longrightarrow> errors_is e ErrUpstream
      \<or> e = Sent ErrInvalidRedirect \<and> (\<exists>r u vs. ha_get_logout api c = Inr (Some r) \<and> url_parse (hg_request_url r) = Some u
           \<and> map_get (url_query u) ''post_logout_redirect_uri'' = Some vs \<and> (length vs \<noteq> 1 \<or> hd vs = [])))
   \<and> (\<forall>u. hydra_accept_login api c la = Inr u \<or> hydra_reject_login api c rj = Inr u
      \<or> hydra_accept_consent api c ca = Inr u \<or> hydra_reject_consent api c rj = Inr u
      \<or> hydra_accept_logout api c = Inr u \<longrightarrow> u \<noteq> [])
   \<and> (\<forall>u. (hydra_accept_login api c la = Inr u \<longrightarrow> ha_accept_login api c (accept_login_request la) = Inr (Some u))
      \<and> (hydra_reject_login api c rj = Inr u \<longrightarrow> ha_reject_login api c (rejection_request rj) = Inr (Some u))
      \<and> (hydra_accept_consent api c ca = Inr u \<longrightarrow> (\<exists>body. ha_accept_consent api c body = Inr (Some u)))
      \<and> (hydra_reject_consent api c rj = Inr u \<longrightarrow> ha_reject_consent api c (rejection_request rj) = Inr (Some u))
      \<and> (hydra_accept_logout api c = Inr u \<longrightarrow> ha_accept_logout api c = Inr (Some u))
      \<and> (hydra_reject_logout api c rj = Inr u \<longleftrightarrow> ha_reject_logout api c = Inr () \<and> u = []))"
proof (intro conjI)
  have get: "hydra_get_login api c = Inl e \<Longrightarrow> errors_is e ErrUpstream"
    "hydra_get_consent api c = Inl e \<Longrightarrow> errors_is e ErrUpstream"
    "hydra_reject_logout api c rj = Inl e \<Longrightarrow> errors_is e ErrUpstream"
    "hydra_ready api = Some e \<Longrightarrow> errors_is e ErrUpstream" for e
    by (auto simp: hydra_get_login_def hydra_get_consent_def hydra_reject_logout_def hydra_ready_def Let_def
        split: sum.splits option.splits prod.splits dest: parse_oidc_Inl)
  have decide: "hydra_accept_login api c la = Inl e \<Longrightarrow> errors_is e ErrUpstream"
    "hydra_reject_login api c rj = Inl e \<Longrightarrow> errors_is e ErrUpstream"
    "hydra_accept_consent api c ca = Inl e \<Longrightarrow> errors_is e ErrUpstream"
    "hydra_reject_consent api c rj = Inl e \<Longrightarrow> errors_is e ErrUpstream"
    "hydra_accept_logout api c = Inl e \<Longrightarrow> errors_is e ErrUpstream" for e
    by (auto simp: hydra_accept_login_def hydra_reject_login_def hydra_accept_consent_def hydra_reject_consent_def
        hydra_accept_logout_def accept_consent_request_def split: sum.splits if_splits dest: redirect_response_Inl)
  show "\<forall>e. hydra_get_login api c = Inl e \<or> hydra_accept_login api c la = Inl e \<or> hydra_reject_login api c rj = Inl e
      \<or> hydra_get_consent api c = Inl e \<or> hydra_accept_consent api c ca = Inl e \<or> hydra_reject_consent api c rj = Inl e
      \<or> hydra_accept_logout api c = Inl e \<or> hydra_reject_logout api c rj = Inl e
      \<or> hydra_ready api = Some e \<longrightarrow> errors_is e ErrUpstream"
    using get decide by blast
  show "\<forall>e. hydra_get_logout api c = Inl e \<longrightarrow> errors_is e ErrUpstream
      \<or> e = Sent ErrInvalidRedirect \<and> (\<exists>r u vs. ha_get_logout api c = Inr (Some r) \<and> url_parse (hg_request_url r) = Some u
           \<and> map_get (url_query u) ''post_logout_redirect_uri'' = Some vs \<and> (length vs \<noteq> 1 \<or> hd vs = []))"
    by (auto simp: hydra_get_logout_def split: sum.splits option.splits dest!: post_logout_Inl)
qed (auto simp: hydra_accept_login_def hydra_reject_login_def hydra_accept_consent_def hydra_reject_consent_def
    hydra_accept_logout_def hydra_reject_logout_def redirect_response_Inr split: sum.splits)

theorem hydra_failures_witness:
  "errors_is (hydra_error (Msg ''empty consent response'')) ErrUpstream"
proof -
  have "hydra_get_consent sample_api ''ch'' = Inl (hydra_error (Msg ''empty consent response''))"
    by (simp add: hydra_get_consent_def sample_api_def)
  then show ?thesis using hydra_failures [of sample_api "''ch''"] by blast
qed

end
