(* ===== verification/MemStore.thy ===== *)
theory MemStore
  imports Store
begin

text \<open>
  The in-memory store of \<open>internal/adapters/outbound/state/memory.go\<close>, which keeps the
  contract of theory \<open>Store\<close>. A creation may reuse a handle only when the entry under it
  has already expired. Every operation of the Go type changes its map inside one critical
  section (a creation makes up to three attempts, each in a critical section of its own, of
  which only the last inserts), so concurrent use is some sequence of these operations.
\<close>

section \<open>The memory store\<close>

record mem_store =
  ms_now :: "nat \<Rightarrow> time"
  ms_rand :: "nat \<Rightarrow> (nat \<Rightarrow> char) option"
  ms_tick :: nat
  ms_max_entries :: int
  ms_data :: "transaction gomap"

definition defaultMaxEntries :: int where "defaultMaxEntries = 10000"

definition new_memory_store :: "(nat \<Rightarrow> time) \<Rightarrow> (nat \<Rightarrow> (nat \<Rightarrow> char) option) \<Rightarrow> mem_store" where
  "new_memory_store now rand =
     \<lparr>ms_now = now, ms_rand = rand, ms_tick = 0, ms_max_entries = defaultMaxEntries, ms_data = []\<rparr>"

definition mem_time :: "(mem_store, time) state" where
  "mem_time = State (\<lambda>s. (ms_now s (ms_tick s), s\<lparr>ms_tick := Suc (ms_tick s)\<rparr>))"

definition random_handle :: "(mem_store, string res) state" where
  "random_handle = State (\<lambda>s.
     (case ms_rand s (ms_tick s) of
        None \<Rightarrow> Inl (Msg ''random source failed'')
      | Some bytes \<Rightarrow> Inr (token_of bytes), s\<lparr>ms_tick := Suc (ms_tick s)\<rparr>))"

definition clone_transaction :: "transaction \<Rightarrow> transaction" where
  "clone_transaction tx = tx\<lparr>tx_requested_scopes := [] @ tx_requested_scopes tx,
     tx_requested_audience := [] @ tx_requested_audience tx\<rparr>"

definition remove_expired_locked :: "time \<Rightarrow> transaction gomap \<Rightarrow> transaction gomap" where
  "remove_expired_locked now data = map_filter_entries (\<lambda>h tx. after (tx_expires_at tx) now) data"

text \<open>
  One critical section of \<open>Create\<close>: \<open>Some\<close> is a return, \<open>None\<close> another round.
\<close>

definition create_attempt :: "time \<Rightarrow> transaction \<Rightarrow> string \<Rightarrow> (mem_store, string res option) state" where
  "create_attempt now tx handle = State (\<lambda>s.
     let limit = (if ms_max_entries s \<le> 0 then defaultMaxEntries else ms_max_entries s);
         s1 = s\<lparr>ms_max_entries := limit\<rparr>;
         s2 = (if int (length (ms_data s1)) \<ge> limit
               then s1\<lparr>ms_data := remove_expired_locked now (ms_data s1)\<rparr> else s1) in
     if int (length (ms_data s2)) \<ge> limit then (Some (Inl (Sent ErrUpstream)), s2)
     else if map_get (ms_data s2) handle = None
     then (Some (Inr handle), s2\<lparr>ms_data := map_put handle (clone_transaction tx) (ms_data s2)\<rparr>)
     else (None, s2))"

fun create_rounds :: "nat \<Rightarrow> time \<Rightarrow> transaction \<Rightarrow> (mem_store, string res) state" where
  "create_rounds 0 now tx = State_Monad.return (Inl (Sent ErrUpstream))"
| "create_rounds (Suc n) now tx = do {
     r \<leftarrow> random_handle;
     case r of
       Inl e \<Rightarrow> State_Monad.return (Inl e)
     | Inr handle \<Rightarrow> do {
         a \<leftarrow> create_attempt now tx handle;
         case a of
           Some result \<Rightarrow> State_Monad.return result
         | None \<Rightarrow> create_rounds n now tx }}"

definition mem_create :: "transaction \<Rightarrow> (mem_store, string res) state" where
  "mem_create tx = do {
     now \<leftarrow> mem_time;
     if is_zero_time (tx_expires_at tx) \<or> \<not> after (tx_expires_at tx) now
     then State_Monad.return (Inl (Sent ErrExpiredTransaction))
     else create_rounds 3 now tx }"

definition mem_get :: "string \<Rightarrow> (mem_store, transaction res) state" where
  "mem_get handle =
     (if handle = [] then State_Monad.return (Inl (Sent ErrInvalidTransaction))
      else do {
        found \<leftarrow> State (\<lambda>s. (map_get (ms_data s) handle, s));
        case found of
          None \<Rightarrow> State_Monad.return (Inl (Sent ErrReplay))
        | Some tx \<Rightarrow> do {
            now \<leftarrow> mem_time;
            if \<not> after (tx_expires_at tx) now
            then State_Monad.return (Inl (Sent ErrExpiredTransaction))
            else State_Monad.return (Inr (clone_transaction tx)) }})"

definition mem_consume :: "string \<Rightarrow> (mem_store, transaction res) state" where
  "mem_consume handle =
     (if handle = [] then State_Monad.return (Inl (Sent ErrInvalidTransaction))
      else do {
        found \<leftarrow> State (\<lambda>s. case map_get (ms_data s) handle of
             None \<Rightarrow> (None, s)
           | Some tx \<Rightarrow> (Some tx, s\<lparr>ms_data := map_del handle (ms_data s)\<rparr>));
        case found of
          None \<Rightarrow> State_Monad.return (Inl (Sent ErrReplay))
        | Some tx \<Rightarrow> do {
            now \<leftarrow> mem_time;
            if \<not> after (tx_expires_at tx) now
            then State_Monad.return (Inl (Sent ErrExpiredTransaction))
            else State_Monad.return (Inr (clone_transaction tx)) }})"

definition mem_ops :: "mem_store store_ops" where
  "mem_ops = \<lparr>so_create = mem_create, so_get = mem_get, so_consume = mem_consume\<rparr>"

section \<open>The memory store keeps the contract\<close>

definition mem_contents :: "mem_store \<Rightarrow> string \<Rightarrow> transaction option" where
  "mem_contents s h = map_get (ms_data s) h"

definition mem_limit :: "mem_store \<Rightarrow> int" where
  "mem_limit s = (if ms_max_entries s \<le> 0 then defaultMaxEntries else ms_max_entries s)"

definition mem_inv :: "mem_store \<Rightarrow> bool" where
  "mem_inv s \<longleftrightarrow> wf_map (ms_data s) \<and> int (length (ms_data s)) \<le> mem_limit s"

lemma clone_transaction_id [simp]: "clone_transaction tx = tx"
  by (simp add: clone_transaction_def)

lemma wp_mem_time [wp]: "wp mem_time Q s = Q (ms_now s (ms_tick s)) (s\<lparr>ms_tick := Suc (ms_tick s)\<rparr>)"
  by (simp add: mem_time_def wp_State)

lemma wp_random_handle [wp]:
  "wp random_handle Q s = (let s' = s\<lparr>ms_tick := Suc (ms_tick s)\<rparr> in
     case ms_rand s (ms_tick s) of
       None \<Rightarrow> Q (Inl (Msg ''random source failed'')) s'
     | Some bytes \<Rightarrow> Q (Inr (token_of bytes)) s')"
  by (simp add: random_handle_def wp_State Let_def split: option.split)

text \<open>What an attempt, and so a creation, may change.\<close>

definition create_post :: "transaction \<Rightarrow> mem_store \<Rightarrow> string res option \<Rightarrow> mem_store \<Rightarrow> bool" where
  "create_post tx s r s' \<longleftrightarrow>
     mem_inv s' \<and> mem_limit s' = mem_limit s
     \<and> (\<forall>h. r \<noteq> Some (Inr h) \<longrightarrow> mem_contents s' h = mem_contents s h
          \<or> mem_contents s' h = None \<and> expired_before tx (mem_contents s h))
     \<and> (\<forall>h. r = Some (Inr h) \<longrightarrow> mem_contents s' h = Some tx \<and> expired_before tx (mem_contents s h))"

lemma remove_expired_get:
  "wf_map d \<Longrightarrow> map_get (remove_expired_locked now d) h =
     (case map_get d h of None \<Rightarrow> None | Some tx \<Rightarrow> if after (tx_expires_at tx) now then Some tx else None)"
  by (simp add: remove_expired_locked_def map_get_filter_entries)

lemma create_attempt_post:
  assumes "mem_inv s" and "after (tx_expires_at tx) now"
  shows "wp (create_attempt now tx handle) (create_post tx s) s"
proof -
  define d where "d = (if int (length (ms_data s)) \<ge> mem_limit s
      then remove_expired_locked now (ms_data s) else ms_data s)"
  have wf: "wf_map (ms_data s)" and lim: "int (length (ms_data s)) \<le> mem_limit s"
    using assms(1) by (simp_all add: mem_inv_def)
  have wfd: "wf_map d" using wf by (simp add: d_def remove_expired_locked_def)
  have len: "length d \<le> length (ms_data s)"
    by (simp add: d_def remove_expired_locked_def length_filter_entries_le)
  have gone: "map_get d h = None \<Longrightarrow> expired_before tx (map_get (ms_data s) h)" for h
    using assms(2)
    by (auto simp: d_def remove_expired_get [OF wf] after_def expired_before_def
        split: if_splits option.splits)
  have keep: "map_get d h = map_get (ms_data s) h
      \<or> map_get d h = None \<and> expired_before tx (map_get (ms_data s) h)" for h
    using gone [of h] by (auto simp: d_def remove_expired_get [OF wf] split: option.splits)
  have pos: "0 < mem_limit s" by (simp add: mem_limit_def defaultMaxEntries_def)
  have lim': "mem_limit (s\<lparr>ms_max_entries := mem_limit s, ms_data := x\<rparr>) = mem_limit s" for x
    using pos by (simp add: mem_limit_def)
  let ?s = "s\<lparr>ms_max_entries := mem_limit s, ms_data := d\<rparr>"
  let ?t = "s\<lparr>ms_max_entries := mem_limit s, ms_data := map_put handle tx d\<rparr>"
  have run: "run_state (create_attempt now tx handle) s =
      (if int (length d) \<ge> mem_limit s then (Some (Inl (Sent ErrUpstream)), ?s)
       else if map_get d handle = None then (Some (Inr handle), ?t) else (None, ?s))"
    by (simp add: create_attempt_def Let_def d_def mem_limit_def)
  have "create_post tx s r ?s" if "\<forall>h. r \<noteq> Some (Inr h)" for r
    using that wfd len lim keep
    by (auto simp: create_post_def mem_inv_def lim' mem_contents_def)
  moreover have "create_post tx s (Some (Inr handle)) ?t"
    if "int (length d) < mem_limit s" and "map_get d handle = None"
    using that wfd keep gone [OF that(2)]
    by (auto simp: create_post_def mem_inv_def lim' mem_contents_def gomap length_map_put)
  ultimately show ?thesis by (simp add: wp_def run)
qed

lemma create_post_trans:
  assumes "create_post tx s None s1" and "create_post tx s1 r s2"
  shows "create_post tx s r s2"
proof -
  have keep: "mem_contents s1 h = mem_contents s h
      \<or> mem_contents s1 h = None \<and> expired_before tx (mem_contents s h)" for h
    using assms(1) by (simp add: create_post_def)
  have old: "expired_before tx (mem_contents s1 h) \<Longrightarrow> expired_before tx (mem_contents s h)" for h
    using keep [of h] by auto
  have "mem_contents s2 h = mem_contents s h
      \<or> mem_contents s2 h = None \<and> expired_before tx (mem_contents s h)" if "r \<noteq> Some (Inr h)" for h
  proof -
    have "mem_contents s2 h = mem_contents s1 h
        \<or> mem_contents s2 h = None \<and> expired_before tx (mem_contents s1 h)"
      using assms(2) that by (simp add: create_post_def)
    then show ?thesis using keep [of h] old [of h] by metis
  qed
  then show ?thesis using assms old by (simp add: create_post_def)
qed

lemma create_post_tick: "create_post tx (s\<lparr>ms_tick := n\<rparr>) = create_post tx s"
  by (simp add: create_post_def mem_limit_def mem_contents_def fun_eq_iff)

lemma mem_inv_tick [simp]: "mem_inv (s\<lparr>ms_tick := n\<rparr>) = mem_inv s"
  by (simp add: mem_inv_def mem_limit_def)

lemma create_post_refl:
  "mem_inv s \<Longrightarrow> r = Some (Inl e) \<or> r = None \<Longrightarrow> create_post tx s r (s\<lparr>ms_tick := n\<rparr>)"
  by (auto simp: create_post_def mem_contents_def mem_limit_def)

lemma create_rounds_post:
  assumes "after (tx_expires_at tx) now"
  shows "mem_inv s \<Longrightarrow> wp (create_rounds n now tx) (\<lambda>r. create_post tx s (Some r)) s"
proof (induction n arbitrary: s)
  case 0
  then show ?case using create_post_refl [of s "Some (Inl (Sent ErrUpstream))" "Sent ErrUpstream" tx "ms_tick s"]
    by (simp add: wp)
next
  case (Suc n)
  let ?s = "s\<lparr>ms_tick := Suc (ms_tick s)\<rparr>"
  show ?case
  proof (cases "ms_rand s (ms_tick s)")
    case None
    then show ?thesis
      using create_post_refl [OF Suc.prems] by (simp add: wp Let_def)
  next
    case (Some bytes)
    have inv: "mem_inv ?s" using Suc.prems by simp
    have "wp (create_attempt now tx (token_of bytes))
        (\<lambda>a. wp (case a of Some result \<Rightarrow> State_Monad.return result | None \<Rightarrow> create_rounds n now tx)
           (\<lambda>r. create_post tx s (Some r))) ?s"
    proof (rule wp_mono [OF create_attempt_post [OF inv assms]])
      fix a s1 assume a: "create_post tx ?s a s1"
      show "wp (case a of Some result \<Rightarrow> State_Monad.return result | None \<Rightarrow> create_rounds n now tx)
          (\<lambda>r. create_post tx s (Some r)) s1"
      proof (cases a)
        case None
        then have p: "create_post tx s None s1" using a by (simp add: create_post_tick)
        have "mem_inv s1" using p by (simp add: create_post_def)
        from Suc.IH [OF this] show ?thesis
          by (simp add: None) (erule wp_mono, rule create_post_trans [OF p])
      next
        case (Some result)
        then show ?thesis using a by (simp add: create_post_tick wp)
      qed
    qed
    then show ?thesis by (simp add: wp Some Let_def)
  qed
qed

lemma mem_create_post: "mem_inv s \<Longrightarrow> wp (mem_create tx) (\<lambda>r. create_post tx s (Some r)) s"
proof -
  assume inv: "mem_inv s"
  let ?s = "s\<lparr>ms_tick := Suc (ms_tick s)\<rparr>"
  let ?now = "ms_now s (ms_tick s)"
  show ?thesis
  proof (cases "is_zero_time (tx_expires_at tx) \<or> \<not> after (tx_expires_at tx) ?now")
    case True
    then show ?thesis using create_post_refl [OF inv]
      by (auto simp: mem_create_def wp)
  next
    case False
    then have "wp (create_rounds 3 ?now tx) (\<lambda>r. create_post tx ?s (Some r)) ?s"
      using create_rounds_post inv by simp
    then have "wp (create_rounds 3 ?now tx) (\<lambda>r. create_post tx s (Some r)) ?s"
      by (simp add: create_post_tick)
    then show ?thesis using False by (simp add: mem_create_def wp)
  qed
qed

lemma mem_get_post:
  "wp (mem_get h) (\<lambda>r s'. (\<exists>n. s' = s\<lparr>ms_tick := n\<rparr>)
     \<and> (\<forall>tx. r = Inr tx \<longrightarrow> mem_contents s h = Some tx)) s"
proof -
  have id: "\<exists>n. s = s\<lparr>ms_tick := n\<rparr>" by (rule exI [of _ "ms_tick s"]) simp
  show ?thesis
    by (auto simp: mem_get_def wp mem_contents_def id split: option.split)
qed

lemma mem_consume_post:
  "wp (mem_consume h) (\<lambda>r s'. (s' = s \<and> (\<exists>e. r = Inl e))
      \<or> (\<exists>tx. s' = s\<lparr>ms_data := map_del h (ms_data s), ms_tick := Suc (ms_tick s)\<rparr>
           \<and> mem_contents s h = Some tx \<and> (r = Inr tx \<or> r = Inl (Sent ErrExpiredTransaction)))) s"
  by (auto simp: mem_consume_def wp mem_contents_def split: option.split)

interpretation mem: transaction_store mem_ops mem_contents mem_inv
proof
  fix tx r s s'
  assume inv: "mem_inv s" and run: "run_state (so_create mem_ops tx) s = (r, s')"
  have post: "create_post tx s (Some r) s'"
    using wpD [OF mem_create_post [OF inv]] run by (simp add: mem_ops_def)
  then show "mem_inv s' \<and> (\<forall>h. r \<noteq> Inr h \<longrightarrow> mem_contents s' h = mem_contents s h
      \<or> mem_contents s' h = None \<and> expired_before tx (mem_contents s h))"
    by (simp add: create_post_def)
next
  fix tx h s s'
  assume inv: "mem_inv s" and run: "run_state (so_create mem_ops tx) s = (Inr h, s')"
  have post: "create_post tx s (Some (Inr h)) s'"
    using wpD [OF mem_create_post [OF inv]] run by (simp add: mem_ops_def)
  then show "mem_contents s' h = Some tx \<and> expired_before tx (mem_contents s h)"
    by (simp add: create_post_def)
next
  fix h r s s'
  assume inv: "mem_inv s" and run: "run_state (so_get mem_ops h) s = (r, s')"
  have "\<exists>n. s' = s\<lparr>ms_tick := n\<rparr>" using wpD [OF mem_get_post] run by (simp add: mem_ops_def)
  then show "mem_inv s' \<and> mem_contents s' = mem_contents s"
    using inv by (auto simp: mem_contents_def fun_eq_iff)
next
  fix h tx s s'
  assume run: "run_state (so_get mem_ops h) s = (Inr tx, s')"
  show "mem_contents s h = Some tx" using wpD [OF mem_get_post] run by (simp add: mem_ops_def)
next
  fix h r s s'
  assume inv: "mem_inv s" and run: "run_state (so_consume mem_ops h) s = (r, s')"
  have len: "int (length (map_del h (ms_data s))) \<le> int (length (ms_data s))"
    by (simp add: length_map_del_le)
  have "s' = s \<or> s' = s\<lparr>ms_data := map_del h (ms_data s), ms_tick := Suc (ms_tick s)\<rparr>"
    using wpD [OF mem_consume_post [of h s]] run by (auto simp: mem_ops_def)
  then show "mem_inv s' \<and> (\<forall>h'. mem_contents s' h' = mem_contents s h' \<or> h' = h \<and> mem_contents s' h' = None)"
    using inv len by (auto simp: mem_contents_def mem_inv_def mem_limit_def gomap split: if_splits)
next
  fix h tx s s'
  assume run: "run_state (so_consume mem_ops h) s = (Inr tx, s')"
  show "mem_contents s h = Some tx \<and> mem_contents s' h = None"
    using wpD [OF mem_consume_post [of h s]] run by (auto simp: mem_ops_def mem_contents_def gomap)
qed

lemma create_rounds_handle:
  "wp (create_rounds n now tx) (\<lambda>r s'. \<forall>h. r = Inr h \<longrightarrow> length h = 43) s"
proof (induction n arbitrary: s)
  case (Suc n)
  have a: "wp (create_attempt now tx (token_of b))
      (\<lambda>a. wp (case a of Some result \<Rightarrow> State_Monad.return result | None \<Rightarrow> create_rounds n now tx)
         (\<lambda>r s'. \<forall>h. r = Inr h \<longrightarrow> length h = 43)) s" for b s
    using Suc.IH by (auto simp: create_attempt_def wp_State Let_def wp length_token_of)
  show ?case using a by (simp add: wp Let_def split: option.split)
qed (simp add: wp)

lemma mem_create_handle: "run_state (mem_create tx) s = (Inr h, s') \<Longrightarrow> length h = 43"
proof -
  have "wp (mem_create tx) (\<lambda>r s'. \<forall>h. r = Inr h \<longrightarrow> length h = 43) s"
    using create_rounds_handle by (simp add: mem_create_def wp)
  then show "run_state (mem_create tx) s = (Inr h, s') \<Longrightarrow> length h = 43"
    by (simp add: wp_def)
qed

lemma exec_ops_inv: "mem_inv s \<Longrightarrow> mem_inv (snd (exec_ops mem_ops os s))"
proof (induction os arbitrary: s)
  case (Cons op os)
  obtain r s1 where o: "exec_op mem_ops op s = (r, s1)" by fastforce
  have "mem_inv s1" by (rule mem.exec_op_inv [OF Cons.prems o])
  from Cons.IH [OF this] show ?case by (simp add: o case_prod_beta)
qed simp

lemma new_memory_store_inv: "mem_inv (new_memory_store now rand)"
  by (simp add: mem_inv_def new_memory_store_def mem_limit_def defaultMaxEntries_def)

text \<open>The limit a store was built with is the one it keeps.\<close>

lemma wp_limit:
  "mem_inv s \<Longrightarrow> exec_op mem_ops op s = (r, s') \<Longrightarrow> mem_limit s' = mem_limit s"
proof -
  assume inv: "mem_inv s" and run: "exec_op mem_ops op s = (r, s')"
  show "mem_limit s' = mem_limit s"
  proof (cases op)
    case (OpCreate tx)
    then show ?thesis using run wpD [OF mem_create_post [OF inv, of tx]]
      by (cases "run_state (mem_create tx) s") (simp add: mem_ops_def create_post_def)
  next
    case (OpGet h)
    then show ?thesis using run wpD [OF mem_get_post [of h s]]
      by (cases "run_state (mem_get h) s") (auto simp: mem_ops_def mem_limit_def)
  next
    case (OpConsume h)
    then show ?thesis using run wpD [OF mem_consume_post [of h s]]
      by (cases "run_state (mem_consume h) s") (auto simp: mem_ops_def mem_limit_def)
  qed
qed

lemma exec_ops_limit: "mem_inv s \<Longrightarrow> mem_limit (snd (exec_ops mem_ops os s)) = mem_limit s"
proof (induction os arbitrary: s)
  case (Cons op os)
  obtain r s1 where o: "exec_op mem_ops op s = (r, s1)" by fastforce
  have "mem_inv s1" by (rule mem.exec_op_inv [OF Cons.prems o])
  from Cons.IH [OF this] wp_limit [OF Cons.prems o] show ?case by (simp add: o case_prod_beta)
qed simp

section \<open>Properties\<close>

text \<open>Single use: in every sequence of creations, lookups and consumptions on a new
  memory store, a handle is consumed successfully at most as often as it was handed out.
  Since operations are atomic, this covers every interleaving of concurrent requests: two
  requests that race for one transaction cannot both obtain it.\<close>

theorem memory_store_single_use:
  "times_consumed h (fst (exec_ops mem_ops os (new_memory_store now rand)))
     \<le> times_created h (fst (exec_ops mem_ops os (new_memory_store now rand)))"
proof -
  obtain tr s' where r: "exec_ops mem_ops os (new_memory_store now rand) = (tr, s')" by fastforce
  have "live mem_contents (new_memory_store now rand) h = 0"
    by (simp add: live_def mem_contents_def new_memory_store_def)
  then show ?thesis using mem.single_use [OF new_memory_store_inv r, of h] r by simp
qed

text \<open>C26. Bounded: after any sequence of operations a new memory store holds at most
  10000 transactions, under distinct handles.\<close>

theorem memory_store_bounded:
  "length (ms_data (snd (exec_ops mem_ops os (new_memory_store now rand)))) \<le> 10000
   \<and> wf_map (ms_data (snd (exec_ops mem_ops os (new_memory_store now rand))))"
proof -
  have "mem_inv (snd (exec_ops mem_ops os (new_memory_store now rand)))"
    by (rule exec_ops_inv [OF new_memory_store_inv])
  moreover have "mem_limit (snd (exec_ops mem_ops os (new_memory_store now rand))) = 10000"
    by (simp add: exec_ops_limit [OF new_memory_store_inv])
      (simp add: mem_limit_def new_memory_store_def defaultMaxEntries_def)
  ultimately show ?thesis by (simp add: mem_inv_def)
qed

text \<open>Round trip: a transaction that was stored is read and consumed unchanged under
  its handle while it has not expired, and consuming it once more is reported as a
  replay.\<close>

theorem memory_store_round_trip:
  assumes "mem_inv s" and "run_state (mem_create tx) s = (Inr h, s1)"
    and "tx_expires_at tx > ms_now s1 (ms_tick s1)"
  shows "fst (run_state (mem_get h) s1) = Inr tx
    \<and> fst (run_state (mem_consume h) s1) = Inr tx
    \<and> fst (run_state (mem_consume h) (snd (run_state (mem_consume h) s1))) = Inl (Sent ErrReplay)"
proof -
  have h: "h \<noteq> []" using mem_create_handle [OF assms(2)] by auto
  have c: "map_get (ms_data s1) h = Some tx"
    using mem.create_fresh [OF assms(1), of tx h s1] assms(2)
    by (simp add: mem_ops_def mem_contents_def)
  have "wp (mem_get h) (\<lambda>r s'. r = Inr tx) s1"
    using h c assms(3) by (simp add: mem_get_def wp after_def)
  moreover have "wp (mem_consume h) (\<lambda>r s'. r = Inr tx \<and> map_get (ms_data s') h = None) s1"
    using h c assms(3) by (simp add: mem_consume_def wp after_def gomap)
  moreover have "wp (mem_consume h) (\<lambda>r s'. r = Inl (Sent ErrReplay)) s"
    if "map_get (ms_data s) h = None" for s
    using h that by (simp add: mem_consume_def wp)
  ultimately show ?thesis by (simp add: wp_def case_prod_beta)
qed

theorem memory_store_round_trip_witness:
  "\<exists>s1 h. fst (run_state (mem_consume h) s1) = Inr (empty_transaction\<lparr>tx_expires_at := 9\<rparr>)"
proof -
  let ?s = "new_memory_store (\<lambda>n. int n) (\<lambda>n. Some (\<lambda>i. CHR ''a''))"
  let ?tx = "empty_transaction\<lparr>tx_expires_at := 9\<rparr>"
  let ?s1 = "?s\<lparr>ms_tick := 2, ms_data := [(token_of (\<lambda>i. CHR ''a''), ?tx)]\<rparr>"
  have "run_state (mem_create ?tx) ?s = (Inr (token_of (\<lambda>i. CHR ''a'')), ?s1)"
    by (simp add: mem_create_def mem_time_def new_memory_store_def is_zero_time_def after_def
        empty_transaction_def numeral_eq_Suc random_handle_def create_attempt_def Let_def
        defaultMaxEntries_def map_put_def run_state_bind run_state_return)
  note run = this
  have "tx_expires_at ?tx > ms_now ?s1 (ms_tick ?s1)" by (simp add: new_memory_store_def)
  from memory_store_round_trip [OF new_memory_store_inv run this]
  show ?thesis by (intro exI) (erule conjunct1 [OF conjunct2])
qed

text \<open>C37. Refinement: a run of operations on a new memory store, with the results it gives, is
  a run of the abstract store that starts empty, and leaves the abstract contents.\<close>

theorem memory_store_refines:
  "store_run (\<lambda>h. None) (fst (exec_ops mem_ops os (new_memory_store now rand)))
     (mem_contents (snd (exec_ops mem_ops os (new_memory_store now rand))))"
proof -
  have "mem_contents (new_memory_store now rand) = (\<lambda>h. None)"
    by (simp add: mem_contents_def new_memory_store_def fun_eq_iff)
  then show ?thesis
    using mem.exec_ops_refines [OF new_memory_store_inv prod.collapse [symmetric]] by metis
qed

end
