(* ===== verification/Service.thy ===== *)
theory Service
  imports Checks MemStore
begin

text \<open>
  The provider flows of \<open>internal/core/application/service.go\<close>: \<open>StartLogin\<close>,
  \<open>CompleteLogin\<close>, \<open>StartConsent\<close>, \<open>CompleteConsent\<close>, \<open>StartLogout\<close>,
  \<open>CompleteLogout\<close> and \<open>Ready\<close>, with the methods they share. A flow is a program of
  the state monad over the world of theory \<open>Ports\<close>; its branches and the order of its
  calls are those of the code. The Go methods return a result beside an error in three
  places (the end of \<open>StartLogin\<close>, \<open>StartConsent\<close> and \<open>StartLogout\<close>); the caller
  ignores the result when there is an error, so the model returns the error alone.
\<close>

record 's service =
  sv_cfg :: config
  sv_ports :: ports
  sv_store :: "'s store_ops"
  sv_lib :: golib
  sv_readiness :: nat

text \<open>
  \<open>NewService\<close>: the configuration is validated, and the admission counter is built from it.
  The dependencies are present by type.
\<close>

definition new_service ::
  "config \<Rightarrow> ports \<Rightarrow> 's store_ops \<Rightarrow> golib \<Rightarrow> nat \<Rightarrow> ('s service \<times> admission) res" where
  "new_service cfg p store lib checkers =
     (case validate_config cfg of
        Inl e \<Rightarrow> Inl e
      | Inr cfg' \<Rightarrow>
          Inr (\<lparr>sv_cfg = cfg', sv_ports = p, sv_store = store, sv_lib = lib, sv_readiness = checkers\<rparr>,
               new_transaction_admission (effective_max_pending_transactions cfg')))"

section \<open>Shared steps\<close>

definition now_call :: "'s service \<Rightarrow> ('s world, time) state" where
  "now_call sv = ask (p_now (sv_ports sv))"

definition new_opaque_token :: "'s service \<Rightarrow> ('s world, string res) state" where
  "new_opaque_token sv = do {
     bytes \<leftarrow> ask (p_rand (sv_ports sv));
     case bytes of
       None \<Rightarrow> State_Monad.return (Inl (Msg ''generate transaction csrf token''))
     | Some b \<Rightarrow> State_Monad.return (Inr (token_of b)) }"

definition start_browser_state :: "'s service \<Rightarrow> string \<Rightarrow> ('s world, string res) state" where
  "start_browser_state sv v =
     (if v = [] then new_opaque_token sv
      else case validate_opaque_token v of
        Some e \<Rightarrow> State_Monad.return (Inl e)
      | None \<Rightarrow> State_Monad.return (Inr v))"

definition admission_release :: "string \<Rightarrow> ('s world, unit) state" where
  "admission_release handle = on_admission (\<lambda>a. ((), adm_release handle a))"

definition create_transaction :: "'s service \<Rightarrow> transaction \<Rightarrow> ('s world, string res) state" where
  "create_transaction sv tx = do {
     now \<leftarrow> now_call sv;
     ok \<leftarrow> on_admission (adm_reserve (tx_expires_at tx) now);
     if \<not> ok then State_Monad.return (Inl (Sent ErrUpstream))
     else do {
       r \<leftarrow> on_store (so_create (sv_store sv) tx);
       case r of
         Inl e \<Rightarrow> do {
           on_admission (\<lambda>a. ((), adm_cancel a));
           State_Monad.return (Inl e) }
       | Inr handle \<Rightarrow> do {
           on_admission (\<lambda>a. ((), adm_commit handle (tx_expires_at tx) a));
           State_Monad.return (Inr handle) }}}"

definition load ::
  "'s service \<Rightarrow> string \<Rightarrow> flow \<Rightarrow> string \<Rightarrow> string \<Rightarrow> ('s world, transaction res) state" where
  "load sv handle expected_flow csrf browser_state =
     (if handle = [] \<or> length handle > 256 then State_Monad.return (Inl (Sent ErrInvalidTransaction))
      else do {
        r \<leftarrow> on_store (so_get (sv_store sv) handle);
        case r of
          Inl e \<Rightarrow>
            (if errors_is e ErrExpiredTransaction \<or> errors_is e ErrReplay
             then do { admission_release handle; State_Monad.return (Inl e) }
             else State_Monad.return (Inl e))
        | Inr tx \<Rightarrow>
            if tx_flow tx \<noteq> expected_flow \<or> tx_challenge tx = [] \<or> tx_client_id tx = []
               \<or> tx_csrf_token tx = [] \<or> tx_browser_state tx = []
            then State_Monad.return (Inl (Sent ErrInvalidTransaction))
            else do {
              now \<leftarrow> now_call sv;
              if \<not> after (tx_expires_at tx) now
              then do { admission_release handle; State_Monad.return (Inl (Sent ErrExpiredTransaction)) }
              else case validate_csrf csrf (tx_csrf_token tx) of
                Some e \<Rightarrow> State_Monad.return (Inl e)
              | None \<Rightarrow>
                  (case validate_browser_state browser_state (tx_browser_state tx) of
                     Some e \<Rightarrow> State_Monad.return (Inl e)
                   | None \<Rightarrow> State_Monad.return (Inr tx)) }})"

definition consume :: "'s service \<Rightarrow> string \<Rightarrow> ('s world, transaction res) state" where
  "consume sv handle = do {
     r \<leftarrow> on_store (so_consume (sv_store sv) handle);
     case r of
       Inl e \<Rightarrow>
         (if errors_is e ErrReplay \<or> errors_is e ErrExpiredTransaction
          then do { admission_release handle; State_Monad.return r }
          else State_Monad.return r)
     | Inr tx \<Rightarrow> do { admission_release handle; State_Monad.return r }}"

definition reject_login :: "'s service \<Rightarrow> string \<Rightarrow> string \<Rightarrow> string \<Rightarrow> ('s world, redirect_result res) state" where
  "reject_login sv challenge code description = do {
     let rj = \<lparr>rj_error = code, rj_error_description = description\<rparr>;
     r \<leftarrow> port_call (RejectLogin challenge rj) (\<lambda>n. p_reject_login (sv_ports sv) n challenge rj);
     State_Monad.return (hydra_redirect (sv_cfg sv) r) }"

definition reject_consent :: "'s service \<Rightarrow> string \<Rightarrow> string \<Rightarrow> string \<Rightarrow> ('s world, redirect_result res) state" where
  "reject_consent sv challenge code description = do {
     let rj = \<lparr>rj_error = code, rj_error_description = description\<rparr>;
     r \<leftarrow> port_call (RejectConsent challenge rj) (\<lambda>n. p_reject_consent (sv_ports sv) n challenge rj);
     State_Monad.return (hydra_redirect (sv_cfg sv) r) }"

definition failure_code :: "goerr \<Rightarrow> goerr \<Rightarrow> string" where
  "failure_code public_error cause =
     (if errors_is public_error ErrUpstream \<or> errors_is cause ErrUpstream
      then ''temporarily_unavailable'' else ''access_denied'')"

definition join_failure :: "goerr \<Rightarrow> redirect_result res \<Rightarrow> redirect_result res" where
  "join_failure public_error r = (case r of Inl e \<Rightarrow> Inl (Join [public_error, e]) | Inr x \<Rightarrow> Inr x)"

definition reject_login_failure ::
  "'s service \<Rightarrow> string \<Rightarrow> goerr \<Rightarrow> goerr \<Rightarrow> ('s world, redirect_result res) state" where
  "reject_login_failure sv challenge public_error cause = do {
     r \<leftarrow> reject_login sv challenge (failure_code public_error cause) ''The login could not be completed.'';
     State_Monad.return (join_failure public_error r) }"

definition reject_consent_failure ::
  "'s service \<Rightarrow> string \<Rightarrow> goerr \<Rightarrow> goerr \<Rightarrow> ('s world, redirect_result res) state" where
  "reject_consent_failure sv challenge public_error cause = do {
     r \<leftarrow> reject_consent sv challenge (failure_code public_error cause) ''The consent could not be completed.'';
     State_Monad.return (join_failure public_error r) }"

text \<open>The final error handling of the start flows.\<close>

definition add_if :: "bool \<Rightarrow> string \<Rightarrow> string \<Rightarrow> string res \<Rightarrow> string res" where
  "add_if b name v r =
     (case r of Inl e \<Rightarrow> Inl e | Inr target \<Rightarrow> if b then add_query_value target name v else Inr target)"

definition handoff :: "string \<Rightarrow> string res \<Rightarrow> redirect_result res" where
  "handoff browser_state r =
     (case r of Inl e \<Rightarrow> Inl e
      | Inr target \<Rightarrow> Inr \<lparr>rr_url = target, rr_browser_state = browser_state\<rparr>)"

text \<open>
  What the three start flows do once the transaction is known: bind it to the browser,
  give it a CSRF token, and store it. The continuation builds the redirect.
\<close>

definition open_transaction ::
  "'s service \<Rightarrow> string \<Rightarrow> transaction \<Rightarrow> (string \<Rightarrow> string \<Rightarrow> string res) \<Rightarrow> ('s world, redirect_result res) state" where
  "open_transaction sv browser_state tx redirect = do {
     b \<leftarrow> start_browser_state sv browser_state;
     case b of
       Inl e \<Rightarrow> State_Monad.return (Inl e)
     | Inr bound \<Rightarrow> do {
         t \<leftarrow> new_opaque_token sv;
         case t of
           Inl e \<Rightarrow> State_Monad.return (Inl e)
         | Inr csrf \<Rightarrow> do {
             h \<leftarrow> create_transaction sv (tx\<lparr>tx_browser_state := bound, tx_csrf_token := csrf\<rparr>);
             case h of
               Inl e \<Rightarrow> State_Monad.return (Inl e)
             | Inr handle \<Rightarrow> State_Monad.return (handoff bound (redirect handle csrf)) }}}"

section \<open>Login\<close>

definition login_redirect ::
  "'s service \<Rightarrow> login_request \<Rightarrow> bool \<Rightarrow> string \<Rightarrow> string \<Rightarrow> string \<Rightarrow> string res" where
  "login_redirect sv req force_login required_aal handle csrf =
     add_if (required_aal \<noteq> []) ''aal'' required_aal
       (add_if (lr_max_age req \<noteq> None) ''max_age'' (case lr_max_age req of Some m \<Rightarrow> format_int m | None \<Rightarrow> [])
         (add_if (force_login \<or> lr_max_age req = Some 0) ''force_reauth'' ''true''
           (external_redirect (sv_cfg sv) FlowLogin handle csrf
             \<lparr>hint_login = lr_login_hint req, hint_ui_locales = lr_ui_locales req, hint_display = lr_display req\<rparr>)))"

definition login_policy_input :: "'s service \<Rightarrow> string \<Rightarrow> string \<Rightarrow> string \<Rightarrow> string list \<Rightarrow> policy_input" where
  "login_policy_input sv subject client_id aal amr =
     \<lparr>pi_issuer = policy_issuer (sv_cfg sv), pi_subject = subject, pi_client_id = client_id,
      pi_requested_scopes = [], pi_granted_scopes = [], pi_requested_audiences = [],
      pi_granted_audiences = [], pi_aal = aal, pi_amr = amr\<rparr>"

text \<open>The branch of \<open>StartLogin\<close> that accepts Hydra's own session without a browser step.\<close>

definition accept_remembered_login ::
  "'s service \<Rightarrow> string \<Rightarrow> string \<Rightarrow> string \<Rightarrow> string \<Rightarrow> ('s world, redirect_result res) state" where
  "accept_remembered_login sv challenge subject client_id requested_acr = do {
     let pin = login_policy_input sv subject client_id [] [];
     d \<leftarrow> port_call (AuthorizeLogin pin) (\<lambda>n. p_authorize_login (sv_ports sv) n pin);
     case d of
       Inl e \<Rightarrow> reject_login_failure sv challenge (Sent ErrUpstream) e
     | Inr allowed \<Rightarrow>
         if \<not> allowed then reject_login sv challenge ''access_denied'' ''The login policy denied access.''
         else do {
           let acc = \<lparr>la_subject = subject, la_acr = requested_acr, la_amr = [], la_remember = False, la_remember_for = 0\<rparr>;
           r \<leftarrow> port_call (AcceptLogin challenge acc) (\<lambda>n. p_accept_login (sv_ports sv) n challenge acc);
           State_Monad.return (hydra_redirect (sv_cfg sv) r) }}"

definition start_login :: "'s service \<Rightarrow> string \<Rightarrow> string \<Rightarrow> ('s world, redirect_result res) state" where
  "start_login sv challenge browser_state =
     (case validate_challenge challenge (effective_max_challenge_length (sv_cfg sv)) of
        Some e \<Rightarrow> State_Monad.return (Inl e)
      | None \<Rightarrow> do {
          rq \<leftarrow> port_call (GetLogin challenge) (\<lambda>n. p_get_login (sv_ports sv) n challenge);
          case rq of
            Inl e \<Rightarrow> State_Monad.return (Inl e)
          | Inr req \<Rightarrow>
              if lr_challenge req \<noteq> challenge then State_Monad.return (Inl (Sent ErrInvalidChallenge))
              else case validate_client (sv_cfg sv) (lr_client req) of
                Inl e \<Rightarrow> State_Monad.return (Inl e)
              | Inr client \<Rightarrow>
                  if lr_subject req = [] \<and> lr_skip req then State_Monad.return (Inl (Sent ErrUnauthenticated))
                  else
                    let acr_values = (if lr_requested_acr_values req = [] \<and> lr_requested_aal req \<noteq> []
                          then [lr_requested_aal req] else lr_requested_acr_values req) in
                    case resolve_acr (sv_cfg sv) acr_values of
                      Inl e \<Rightarrow> State_Monad.return (Inl e)
                    | Inr (requested_aal, requested_acr) \<Rightarrow>
                        (case parse_prompt (lr_prompt req) of
                           Inl _ \<Rightarrow> State_Monad.return (Inl (Sent ErrInvalidPrompt))
                         | Inr prompts \<Rightarrow>
                             if (case lr_max_age req of Some m \<Rightarrow> m < 0 | None \<Rightarrow> False)
                             then State_Monad.return (Inl (Sent ErrInvalidAssurance))
                             else
                               let required_aal = higher_aal (cfg_required_aal (sv_cfg sv)) requested_aal;
                                   requires_interaction = (\<not> lr_skip req \<or> required_aal \<noteq> []);
                                   force_login = (ps_login prompts \<or> ps_select_account prompts) in
                               if ps_none prompts \<and> requires_interaction
                               then reject_login sv challenge ''login_required'' ''The login requires user interaction.''
                               else if lr_skip req \<and> \<not> force_login \<and> required_aal = []
                               then accept_remembered_login sv challenge (lr_subject req) (cc_id client) requested_acr
                               else do {
                                 started_at \<leftarrow> now_call sv;
                                 open_transaction sv browser_state
                                   (empty_transaction\<lparr>tx_flow := FlowLogin, tx_challenge := challenge,
                                      tx_client_id := cc_id client, tx_subject := lr_subject req,
                                      tx_requested_aal := requested_aal, tx_requested_acr := requested_acr,
                                      tx_prompt := lr_prompt req, tx_max_age := clone_int64 (lr_max_age req),
                                      tx_started_at := started_at, tx_required_aal := required_aal,
                                      tx_expires_at := started_at + cfg_transaction_ttl (sv_cfg sv)\<rparr>)
                                   (login_redirect sv req force_login required_aal) }) })"

text \<open>The part of \<open>CompleteLogin\<close> after the transaction is consumed.\<close>

definition decide_login ::
  "'s service \<Rightarrow> transaction \<Rightarrow> login_input \<Rightarrow> ('s world, redirect_result res) state" where
  "decide_login sv tx input = do {
     sr \<leftarrow> port_call (ValidateSession (li_credentials input))
       (\<lambda>n. p_validate_session (sv_ports sv) n (li_credentials input));
     case sr of
       Inl e \<Rightarrow> reject_login_failure sv (tx_challenge tx) (Sent ErrUnauthenticated) e
     | Inr s \<Rightarrow>
         if tx_subject tx \<noteq> [] \<and> se_subject s \<noteq> tx_subject tx
         then reject_login_failure sv (tx_challenge tx) (Sent ErrUnauthenticated) (Sent ErrUnauthenticated)
         else do {
           now \<leftarrow> now_call sv;
           if validate_login_freshness tx s now \<noteq> None
           then reject_login sv (tx_challenge tx) ''login_required'' ''The login session is not fresh enough.''
           else if \<not> aal_at_least (se_aal s) (higher_aal (cfg_required_aal (sv_cfg sv)) (tx_requested_aal tx))
           then reject_login_failure sv (tx_challenge tx) (Sent ErrInsufficientAssurance) (Sent ErrInsufficientAssurance)
           else do {
             let pin = login_policy_input sv (se_subject s) (tx_client_id tx) (se_aal s) (se_amr s);
             d \<leftarrow> port_call (AuthorizeLogin pin) (\<lambda>n. p_authorize_login (sv_ports sv) n pin);
             case d of
               Inl e \<Rightarrow> reject_login_failure sv (tx_challenge tx) (Sent ErrUpstream) e
             | Inr allowed \<Rightarrow>
                 if \<not> allowed
                 then reject_login sv (tx_challenge tx) ''access_denied'' ''The login policy denied access.''
                 else do {
                   let acc = \<lparr>la_subject = se_subject s, la_acr = login_acceptance_acr tx s, la_amr = se_amr s,
                              la_remember = li_remember input, la_remember_for = li_remember_for input\<rparr>;
                   r \<leftarrow> port_call (AcceptLogin (tx_challenge tx) acc)
                     (\<lambda>n. p_accept_login (sv_ports sv) n (tx_challenge tx) acc);
                   State_Monad.return (hydra_redirect (sv_cfg sv) r) }}}}"

definition complete_login :: "'s service \<Rightarrow> string \<Rightarrow> login_input \<Rightarrow> ('s world, redirect_result res) state" where
  "complete_login sv handle input = do {
     l \<leftarrow> load sv handle FlowLogin (li_csrf_token input) (li_browser_state input);
     case l of
       Inl e \<Rightarrow> State_Monad.return (Inl e)
     | Inr tx \<Rightarrow>
         (case validate_remember (li_remember input) (li_remember_for input) of
            Some e \<Rightarrow> State_Monad.return (Inl e)
          | None \<Rightarrow> do {
              c \<leftarrow> consume sv handle;
              case c of
                Inl e \<Rightarrow> State_Monad.return (Inl e)
              | Inr _ \<Rightarrow> decide_login sv tx input }) }"

section \<open>Consent\<close>

definition consent_redirect ::
  "'s service \<Rightarrow> consent_request \<Rightarrow> bool \<Rightarrow> string \<Rightarrow> string \<Rightarrow> string res" where
  "consent_redirect sv req skip handle csrf =
     add_if skip ''skip_consent'' ''true''
       (external_consent_redirect_with_audience (sv_cfg sv) handle csrf (oc_name (cr_client req))
          (cr_requested_scopes req) (cr_requested_audience req))"

definition start_consent :: "'s service \<Rightarrow> string \<Rightarrow> string \<Rightarrow> ('s world, redirect_result res) state" where
  "start_consent sv challenge browser_state =
     (case validate_challenge challenge (effective_max_challenge_length (sv_cfg sv)) of
        Some e \<Rightarrow> State_Monad.return (Inl e)
      | None \<Rightarrow> do {
          rq \<leftarrow> port_call (GetConsent challenge) (\<lambda>n. p_get_consent (sv_ports sv) n challenge);
          case rq of
            Inl e \<Rightarrow> State_Monad.return (Inl e)
          | Inr req \<Rightarrow>
              if cr_challenge req \<noteq> challenge then State_Monad.return (Inl (Sent ErrInvalidChallenge))
              else case validate_client (sv_cfg sv) (cr_client req) of
                Inl e \<Rightarrow> State_Monad.return (Inl e)
              | Inr client \<Rightarrow>
                  if cr_subject req = [] then State_Monad.return (Inl (Sent ErrUnauthenticated))
                  else case validate_scopes client (cr_requested_scopes req) of
                    Some e \<Rightarrow> State_Monad.return (Inl e)
                  | None \<Rightarrow>
                  (case validate_audiences client (cr_requested_audience req) of
                    Some e \<Rightarrow> State_Monad.return (Inl e)
                  | None \<Rightarrow>
                  (case parse_prompt (cr_prompt req) of
                    Inl _ \<Rightarrow> State_Monad.return (Inl (Sent ErrInvalidPrompt))
                  | Inr prompts \<Rightarrow>
                      if ps_none prompts \<and> \<not> cr_skip req \<and> \<not> cc_skip_consent client
                      then reject_consent sv challenge ''consent_required'' ''The consent requires user interaction.''
                      else do {
                        now \<leftarrow> now_call sv;
                        open_transaction sv browser_state
                          (empty_transaction\<lparr>tx_flow := FlowConsent, tx_challenge := challenge,
                             tx_client_id := cc_id client, tx_subject := cr_subject req,
                             tx_requested_scopes := cr_requested_scopes req,
                             tx_requested_audience := cr_requested_audience req,
                             tx_required_aal := cfg_required_aal (sv_cfg sv),
                             tx_expires_at := now + cfg_transaction_ttl (sv_cfg sv)\<rparr>)
                          (consent_redirect sv req
                             (\<not> ps_consent prompts \<and> (cr_skip req \<or> cc_skip_consent client))) })) })"

definition accept_consent_decision ::
  "'s service \<Rightarrow> transaction \<Rightarrow> config_client \<Rightarrow> session_info \<Rightarrow> string list \<Rightarrow> string list \<Rightarrow> bool \<Rightarrow> int
     \<Rightarrow> ('s world, redirect_result res) state" where
  "accept_consent_decision sv tx client s scopes audiences remember remember_for =
     (case validate_remember remember remember_for of
        Some e \<Rightarrow> State_Monad.return (Inl e)
      | None \<Rightarrow>
     (case validate_scopes client (tx_requested_scopes tx) of
        Some e \<Rightarrow> reject_consent_failure sv (tx_challenge tx) (Sent ErrInvalidScope) e
      | None \<Rightarrow>
     (case validate_audiences client (tx_requested_audience tx) of
        Some e \<Rightarrow> reject_consent_failure sv (tx_challenge tx) (Sent ErrInvalidAudience) e
      | None \<Rightarrow>
     (case validate_requested_subset (tx_requested_scopes tx) scopes of
        Some e \<Rightarrow> reject_consent_failure sv (tx_challenge tx) (Sent ErrInvalidScope) e
      | None \<Rightarrow>
     (let audiences = (if audiences = [] then tx_requested_audience tx else audiences) in
      case validate_requested_subset (tx_requested_audience tx) audiences of
        Some e \<Rightarrow> reject_consent_failure sv (tx_challenge tx) (Sent ErrInvalidAudience) e
      | None \<Rightarrow> do {
          let pin = \<lparr>pi_issuer = policy_issuer (sv_cfg sv), pi_subject = tx_subject tx, pi_client_id = cc_id client,
                     pi_requested_scopes = tx_requested_scopes tx, pi_granted_scopes = scopes,
                     pi_requested_audiences = tx_requested_audience tx, pi_granted_audiences = audiences,
                     pi_aal = se_aal s, pi_amr = se_amr s\<rparr>;
          dr \<leftarrow> port_call (AuthorizeConsent pin) (\<lambda>n. p_authorize_consent (sv_ports sv) n pin);
          case dr of
            Inl e \<Rightarrow> reject_consent_failure sv (tx_challenge tx) (Sent ErrUpstream) e
          | Inr d \<Rightarrow>
              if \<not> cd_allowed d
              then reject_consent sv (tx_challenge tx) ''access_denied'' ''The consent policy denied access.''
              else case validate_requested_subset scopes (cd_granted_scopes d) of
                Some e \<Rightarrow> reject_consent_failure sv (tx_challenge tx) (Sent ErrUpstream) e
              | None \<Rightarrow>
              (case validate_audience_subset audiences (cd_granted_audiences d) of
                Some e \<Rightarrow> reject_consent_failure sv (tx_challenge tx) (Sent ErrUpstream) e
              | None \<Rightarrow> do {
                  let acc = \<lparr>ca_grant_scopes = cd_granted_scopes d, ca_grant_audience = cd_granted_audiences d,
                     ca_session = filter_claims (sv_lib sv) (sv_cfg sv) client (cd_claims d) s (cd_granted_scopes d),
                     ca_remember = remember, ca_remember_for = remember_for\<rparr>;
                  r \<leftarrow> port_call (AcceptConsent (tx_challenge tx) acc)
                    (\<lambda>n. p_accept_consent (sv_ports sv) n (tx_challenge tx) acc);
                  State_Monad.return (hydra_redirect (sv_cfg sv) r) }) })))))"

text \<open>
  The acceptance branch of \<open>CompleteConsent\<close>, which checks everything once before it
  consumes the transaction.
\<close>

definition accept_consent ::
  "'s service \<Rightarrow> transaction \<Rightarrow> consent_input \<Rightarrow> ('s world, redirect_result res) state" where
  "accept_consent sv tx input =
     (case validate_requested_subset (tx_requested_scopes tx) (ci_grant_scopes input) of
        Some e \<Rightarrow> reject_consent_failure sv (tx_challenge tx) (Sent ErrInvalidScope) e
      | None \<Rightarrow>
     (let audiences = (if ci_grant_audience input = [] then tx_requested_audience tx else ci_grant_audience input) in
      case validate_requested_subset (tx_requested_audience tx) audiences of
        Some e \<Rightarrow> reject_consent_failure sv (tx_challenge tx) (Sent ErrInvalidAudience) e
      | None \<Rightarrow> do {
          sr \<leftarrow> port_call (ValidateSession (ci_credentials input))
            (\<lambda>n. p_validate_session (sv_ports sv) n (ci_credentials input));
          case sr of
            Inl e \<Rightarrow> reject_consent_failure sv (tx_challenge tx) (Sent ErrUnauthenticated) e
          | Inr s \<Rightarrow>
              if se_subject s \<noteq> tx_subject tx
              then reject_consent_failure sv (tx_challenge tx) (Sent ErrUnauthenticated) (Sent ErrUnauthenticated)
              else if \<not> aal_at_least (se_aal s) (higher_aal (cfg_required_aal (sv_cfg sv)) (tx_required_aal tx))
              then reject_consent_failure sv (tx_challenge tx) (Sent ErrInsufficientAssurance) (Sent ErrInsufficientAssurance)
              else case config_lookup_client (sv_cfg sv) (tx_client_id tx) of
                None \<Rightarrow> reject_consent_failure sv (tx_challenge tx) (Sent ErrInvalidClient) (Sent ErrInvalidClient)
              | Some client \<Rightarrow>
              (case validate_scopes client (tx_requested_scopes tx) of
                Some e \<Rightarrow> reject_consent_failure sv (tx_challenge tx) (Sent ErrInvalidScope) e
              | None \<Rightarrow>
              (case validate_audiences client (tx_requested_audience tx) of
                Some e \<Rightarrow> reject_consent_failure sv (tx_challenge tx) (Sent ErrInvalidAudience) e
              | None \<Rightarrow> do {
                  c \<leftarrow> consume sv (ci_transaction input);
                  case c of
                    Inl e \<Rightarrow> State_Monad.return (Inl e)
                  | Inr _ \<Rightarrow> accept_consent_decision sv tx client s (ci_grant_scopes input) audiences
                      (ci_remember input) (ci_remember_for input) })) }))"

definition complete_consent :: "'s service \<Rightarrow> consent_input \<Rightarrow> ('s world, redirect_result res) state" where
  "complete_consent sv input = do {
     l \<leftarrow> load sv (ci_transaction input) FlowConsent (ci_csrf_token input) (ci_browser_state input);
     case l of
       Inl e \<Rightarrow> State_Monad.return (Inl e)
     | Inr tx \<Rightarrow>
         if ci_decision input \<noteq> ''accept'' \<and> ci_decision input \<noteq> ''deny''
         then State_Monad.return (Inl (Sent ErrInvalidDecision))
         else case validate_remember (ci_remember input) (ci_remember_for input) of
           Some e \<Rightarrow> State_Monad.return (Inl e)
         | None \<Rightarrow>
             if ci_decision input = ''deny'' then do {
               c \<leftarrow> consume sv (ci_transaction input);
               case c of
                 Inl e \<Rightarrow> State_Monad.return (Inl e)
               | Inr _ \<Rightarrow> reject_consent sv (tx_challenge tx) ''access_denied'' ''The user denied access.'' }
             else accept_consent sv tx input }"

section \<open>Logout and readiness\<close>

definition start_logout :: "'s service \<Rightarrow> string \<Rightarrow> string \<Rightarrow> ('s world, redirect_result res) state" where
  "start_logout sv challenge browser_state =
     (case validate_challenge challenge (effective_max_challenge_length (sv_cfg sv)) of
        Some e \<Rightarrow> State_Monad.return (Inl e)
      | None \<Rightarrow> do {
          rq \<leftarrow> port_call (GetLogout challenge) (\<lambda>n. p_get_logout (sv_ports sv) n challenge);
          case rq of
            Inl e \<Rightarrow> State_Monad.return (Inl e)
          | Inr req \<Rightarrow>
              if gr_challenge req \<noteq> challenge then State_Monad.return (Inl (Sent ErrInvalidChallenge))
              else case validate_client (sv_cfg sv) (gr_client req) of
                Inl e \<Rightarrow> State_Monad.return (Inl e)
              | Inr client \<Rightarrow>
                  if gr_post_logout_redirect_uri req \<noteq> []
                     \<and> \<not> slice_contains (cc_allowed_post_logout_redirects client) (gr_post_logout_redirect_uri req)
                  then State_Monad.return (Inl (Sent ErrInvalidRedirect))
                  else do {
                    now \<leftarrow> now_call sv;
                    open_transaction sv browser_state
                      (empty_transaction\<lparr>tx_flow := FlowLogout, tx_challenge := challenge,
                         tx_client_id := cc_id client,
                         tx_expires_at := now + cfg_transaction_ttl (sv_cfg sv)\<rparr>)
                      (\<lambda>handle csrf. external_redirect (sv_cfg sv) FlowLogout handle csrf no_hints) } })"

definition complete_logout :: "'s service \<Rightarrow> logout_input \<Rightarrow> ('s world, redirect_result res) state" where
  "complete_logout sv input = do {
     l \<leftarrow> load sv (oi_transaction input) FlowLogout (oi_csrf_token input) (oi_browser_state input);
     case l of
       Inl e \<Rightarrow> State_Monad.return (Inl e)
     | Inr tx \<Rightarrow> do {
         c \<leftarrow> consume sv (oi_transaction input);
         case c of
           Inl e \<Rightarrow> State_Monad.return (Inl e)
         | Inr _ \<Rightarrow> do {
             r \<leftarrow> port_call (AcceptLogout (tx_challenge tx)) (\<lambda>n. p_accept_logout (sv_ports sv) n (tx_challenge tx));
             State_Monad.return (hydra_redirect (sv_cfg sv) r) }}}"

fun ready_loop :: "'s service \<Rightarrow> nat list \<Rightarrow> ('s world, goerr option) state" where
  "ready_loop sv [] = State_Monad.return None"
| "ready_loop sv (i # rest) = do {
     e \<leftarrow> ask (\<lambda>n. p_ready (sv_ports sv) n i);
     case e of
       Some err \<Rightarrow> State_Monad.return (Some err)
     | None \<Rightarrow> ready_loop sv rest }"

definition ready :: "'s service \<Rightarrow> ('s world, goerr option) state" where
  "ready sv = ready_loop sv [0..<sv_readiness sv]"

end
