(* ===== verification/HttpServer.thy ===== *)
theory HttpServer
  imports HttpWire Service
begin

text \<open>
  The HTTP adapter of \<open>internal/adapters/inbound/http/server.go\<close>: the handlers over a
  provider, given by its operations, and the middleware chain. The router is a library and
  a parameter: it gets the table of routes, the method and the path. A response is built
  from the headers set so far; contexts, deadlines and the log lines are not modelled.
  Whether the request passed the admission gate is an argument of \<open>serve\<close>; the gate is
  modelled in theory \<open>Gate\<close>.
\<close>

section \<open>The provider and the server\<close>

record 'w provider =
  pv_start_login :: "string \<Rightarrow> string \<Rightarrow> ('w, redirect_result res) state"
  pv_complete_login :: "string \<Rightarrow> login_input \<Rightarrow> ('w, redirect_result res) state"
  pv_start_consent :: "string \<Rightarrow> string \<Rightarrow> ('w, redirect_result res) state"
  pv_complete_consent :: "consent_input \<Rightarrow> ('w, redirect_result res) state"
  pv_start_logout :: "string \<Rightarrow> string \<Rightarrow> ('w, redirect_result res) state"
  pv_complete_logout :: "logout_input \<Rightarrow> ('w, redirect_result res) state"
  pv_ready :: "('w, goerr option) state"

definition service_provider :: "'s service \<Rightarrow> 's world provider" where
  "service_provider sv =
     \<lparr>pv_start_login = start_login sv, pv_complete_login = complete_login sv,
      pv_start_consent = start_consent sv, pv_complete_consent = complete_consent sv,
      pv_start_logout = start_logout sv, pv_complete_logout = complete_logout sv, pv_ready = ready sv\<rparr>"

record 'w server =
  srv_provider :: "'w provider"
  srv_cfg :: config

definition new_server :: "'w provider option \<Rightarrow> config \<Rightarrow> 'w server res" where
  "new_server p cfg =
     (case p of
        None \<Rightarrow> Inl (Msg ''http service is required'')
      | Some provider \<Rightarrow>
          (case validate_config cfg of
             Inl e \<Rightarrow> Inl (Wrap ''validate http configuration'' [e])
           | Inr cfg' \<Rightarrow> Inr \<lparr>srv_provider = provider, srv_cfg = cfg'\<rparr>))"

definition max_form_bytes :: nat where "max_form_bytes = 32768"
definition loginBrowserStateCookie :: string where "loginBrowserStateCookie = ''provider_login_state''"
definition consentBrowserStateCookie :: string where "consentBrowserStateCookie = ''provider_consent_state''"
definition logoutBrowserStateCookie :: string where "logoutBrowserStateCookie = ''provider_logout_state''"

section \<open>Input\<close>

definition required_query_value :: "query_values \<Rightarrow> string \<Rightarrow> int \<Rightarrow> string res" where
  "required_query_value query name max_length =
     (case map_get query name of
        None \<Rightarrow> Inl (Sent ErrInvalidChallenge)
      | Some vs \<Rightarrow>
          if length vs \<noteq> 1 then Inl (Sent ErrInvalidChallenge)
          else (let v = trim_space (vs ! 0) in
            if v = [] \<or> int (length v) > max_length \<or> contains_any v [CHR 0x0D, CHR 0x0A]
            then Inl (Sent ErrInvalidChallenge) else Inr v))"

definition form_scopes :: "string list \<Rightarrow> string list" where
  "form_scopes vs = concat (map str_fields vs)"

definition remember_options :: "string \<Rightarrow> string \<Rightarrow> (bool \<times> int) res" where
  "remember_options remember_value remember_for_value =
     (let v = to_lower (trim_space remember_value);
          remember = (if remember_value = [] then Some False
            else if v \<in> {''1'', ''on'', ''true''} then Some True
            else if v \<in> {''0'', ''off'', ''false''} then Some False
            else None) in
      case remember of
        None \<Rightarrow> Inl (Sent ErrInvalidRemember)
      | Some r \<Rightarrow>
          if remember_for_value = [] then Inr (r, 0)
          else case parse_int64 remember_for_value of
            None \<Rightarrow> Inl (Sent ErrInvalidRemember)
          | Some n \<Rightarrow>
              if n < 0 \<or> n > 86400 \<or> (\<not> r \<and> n \<noteq> 0) then Inl (Sent ErrInvalidRemember) else Inr (r, n))"

definition valid_request_id :: "string \<Rightarrow> bool" where
  "valid_request_id v =
     (if v = [] \<or> length v > 64 then False
      else list_all (\<lambda>c. (97 \<le> c \<and> c \<le> 122) \<or> (65 \<le> c \<and> c \<le> 90) \<or> (48 \<le> c \<and> c \<le> 57) \<or> c = 45 \<or> c = 95)
             (runes v))"

definition new_request_id :: "(nat \<Rightarrow> char) option \<Rightarrow> string res" where
  "new_request_id rand =
     (case rand of
        None \<Rightarrow> Inl (Msg ''generate request id'')
      | Some bytes \<Rightarrow>
          Inr (concat (map (\<lambda>i. [lower_hex (byte (bytes i) div 16), lower_hex (byte (bytes i) mod 16)]) [0..<16])))"

definition provider_https :: "config \<Rightarrow> bool" where
  "provider_https c = (case cfg_provider_url c of None \<Rightarrow> False | Some u \<Rightarrow> u_scheme u = ''https'')"

definition browser_state_cookie_name :: "config \<Rightarrow> string \<Rightarrow> string" where
  "browser_state_cookie_name c name = (if provider_https c then ''__Host-'' @ name else name)"

definition browser_state_cookie :: "config \<Rightarrow> web_request \<Rightarrow> string \<Rightarrow> string" where
  "browser_state_cookie c q name =
     (case request_cookie q (browser_state_cookie_name c name) of
        None \<Rightarrow> []
      | Some v \<Rightarrow> if length v > 128 then [] else v)"

definition set_browser_state_cookie :: "config \<Rightarrow> string \<Rightarrow> string \<Rightarrow> (string \<times> string) list" where
  "set_browser_state_cookie c name v =
     (if v = [] then []
      else set_cookie \<lparr>ck_name = browser_state_cookie_name c name, ck_value = v, ck_secure = provider_https c,
        ck_same_site = (if provider_https c then NoneSite else Lax)\<rparr>)"

definition session_credentials_of :: "config \<Rightarrow> web_request \<Rightarrow> session_credentials" where
  "session_credentials_of c q =
     (case request_cookie q (cfg_kratos_session_cookie c) of
        None \<Rightarrow> \<lparr>sc_cookie_name = cfg_kratos_session_cookie c, sc_cookie_value = [], sc_token = []\<rparr>
      | Some v \<Rightarrow> \<lparr>sc_cookie_name = cfg_kratos_session_cookie c, sc_cookie_value = v, sc_token = []\<rparr>)"

section \<open>Output\<close>

definition status_for_error :: "goerr \<Rightarrow> int" where
  "status_for_error e =
     (if errors_is e ErrInvalidForm then 400
      else if errors_is e ErrInvalidOrigin \<or> errors_is e ErrPolicyDenied then 403
      else if errors_is e ErrRateLimited then 429
      else if errors_is e ErrUnauthenticated \<or> errors_is e ErrInsufficientAssurance then 401
      else if errors_is e ErrUpstream then 502
      else if list_ex (errors_is e) [ErrInvalidChallenge, ErrInvalidClient, ErrInvalidRedirect, ErrInvalidScope,
          ErrInvalidAudience, ErrInvalidAssurance, ErrInvalidPrompt, ErrInvalidTransaction, ErrExpiredTransaction,
          ErrReplay, ErrInvalidDecision, ErrInvalidCSRF, ErrInvalidBrowserState, ErrInvalidRemember] then 400
      else 500)"

definition public_error :: "int \<Rightarrow> string" where
  "public_error status =
     (if status = 400 then ''invalid_request''
      else if status = 403 then ''access_denied''
      else if status = 401 then ''login_required''
      else if status = 502 then ''temporarily_unavailable''
      else if status = 429 then ''rate_limited''
      else ''server_error'')"

definition write_error :: "(string \<times> string) list \<Rightarrow> goerr \<Rightarrow> web_response" where
  "write_error hs e =
     (let status = status_for_error e in json_response status hs ''error'' (public_error status))"

definition validate_redirect_target :: "string \<Rightarrow> goerr option" where
  "validate_redirect_target target =
     (case url_parse target of
        None \<Rightarrow> Some (Sent ErrInvalidRedirect)
      | Some u \<Rightarrow>
          if (u_scheme u \<noteq> ''http'' \<and> u_scheme u \<noteq> ''https'') \<or> u_host u = [] \<or> u_user u \<noteq> None
             \<or> u_fragment u \<noteq> [] \<or> contains_any target [CHR 0x0D, CHR 0x0A]
          then Some (Sent ErrInvalidRedirect) else None)"

definition redirect_to :: "web_request \<Rightarrow> (string \<times> string) list \<Rightarrow> string \<Rightarrow> web_response" where
  "redirect_to q hs target =
     (case validate_redirect_target target of
        Some e \<Rightarrow> write_error hs e
      | None \<Rightarrow> redirect_found (wq_method q) hs target)"

section \<open>Handlers\<close>

text \<open>The common end of the start handlers and of the completion handlers.\<close>

definition started_response ::
  "config \<Rightarrow> web_request \<Rightarrow> (string \<times> string) list \<Rightarrow> string \<Rightarrow> redirect_result res \<Rightarrow> web_response" where
  "started_response c q hs cookie_name r =
     (case r of
        Inl e \<Rightarrow> write_error hs e
      | Inr result \<Rightarrow>
          redirect_to q (hs @ set_browser_state_cookie c cookie_name (rr_browser_state result)) (rr_url result))"

definition completed_response :: "web_request \<Rightarrow> (string \<times> string) list \<Rightarrow> redirect_result res \<Rightarrow> web_response" where
  "completed_response q hs r =
     (case r of Inl e \<Rightarrow> write_error hs e | Inr result \<Rightarrow> redirect_to q hs (rr_url result))"

definition handle_login ::
  "'w server \<Rightarrow> (string \<times> string) list \<Rightarrow> web_request \<Rightarrow> ('w, web_response) state" where
  "handle_login s hs q =
     (case required_query_value (request_query q) ''login_challenge'' (effective_max_challenge_length (srv_cfg s)) of
        Inl e \<Rightarrow> State_Monad.return (write_error hs e)
      | Inr challenge \<Rightarrow> do {
          r \<leftarrow> pv_start_login (srv_provider s) challenge (browser_state_cookie (srv_cfg s) q loginBrowserStateCookie);
          State_Monad.return (started_response (srv_cfg s) q hs loginBrowserStateCookie r) })"

definition handle_login_callback ::
  "'w server \<Rightarrow> (string \<times> string) list \<Rightarrow> web_request \<Rightarrow> ('w, web_response) state" where
  "handle_login_callback s hs q =
     (let query = request_query q in
      case required_query_value query ''transaction'' 256 of
        Inl e \<Rightarrow> State_Monad.return (write_error hs e)
      | Inr handle \<Rightarrow>
      (case required_query_value query ''csrf'' 256 of
        Inl e \<Rightarrow> State_Monad.return (write_error hs e)
      | Inr csrf \<Rightarrow>
      (case remember_options (values_get query ''remember'') (values_get query ''remember_for'') of
        Inl e \<Rightarrow> State_Monad.return (write_error hs e)
      | Inr (remember, remember_for) \<Rightarrow> do {
          r \<leftarrow> pv_complete_login (srv_provider s) handle
            \<lparr>li_csrf_token = csrf, li_browser_state = browser_state_cookie (srv_cfg s) q loginBrowserStateCookie,
             li_credentials = session_credentials_of (srv_cfg s) q, li_remember = remember,
             li_remember_for = remember_for\<rparr>;
          State_Monad.return (completed_response q hs r) })))"

definition handle_consent ::
  "'w server \<Rightarrow> (string \<times> string) list \<Rightarrow> web_request \<Rightarrow> ('w, web_response) state" where
  "handle_consent s hs q =
     (case required_query_value (request_query q) ''consent_challenge'' (effective_max_challenge_length (srv_cfg s)) of
        Inl e \<Rightarrow> State_Monad.return (write_error hs e)
      | Inr challenge \<Rightarrow> do {
          r \<leftarrow> pv_start_consent (srv_provider s) challenge (browser_state_cookie (srv_cfg s) q consentBrowserStateCookie);
          State_Monad.return (started_response (srv_cfg s) q hs consentBrowserStateCookie r) })"

definition handle_consent_submit ::
  "'w server \<Rightarrow> (string \<times> string) list \<Rightarrow> web_request \<Rightarrow> ('w, web_response) state" where
  "handle_consent_submit s hs q =
     (if \<not> origin_allowed (srv_cfg s) (header_get q ''Origin'')
      then State_Monad.return (write_error hs (Sent ErrInvalidOrigin))
      else case parse_form max_form_bytes q of
        None \<Rightarrow> State_Monad.return (write_error hs (Wrap ''parse consent form'' [Sent ErrInvalidForm]))
      | Some form \<Rightarrow>
      (case remember_options (values_get form ''remember'') (values_get form ''remember_for'') of
        Inl e \<Rightarrow> State_Monad.return (write_error hs e)
      | Inr (remember, remember_for) \<Rightarrow> do {
          r \<leftarrow> pv_complete_consent (srv_provider s)
            \<lparr>ci_transaction = trim_space (values_get form ''transaction''),
             ci_csrf_token = trim_space (values_get form ''csrf''),
             ci_browser_state = browser_state_cookie (srv_cfg s) q consentBrowserStateCookie,
             ci_decision = to_lower (trim_space (values_get form ''decision'')),
             ci_grant_scopes = form_scopes (case_option [] id (map_get form ''grant_scope'')),
             ci_grant_audience = form_scopes (case_option [] id (map_get form ''grant_audience'')),
             ci_credentials = session_credentials_of (srv_cfg s) q,
             ci_remember = remember, ci_remember_for = remember_for\<rparr>;
          State_Monad.return (completed_response q hs r) }))"

definition handle_logout ::
  "'w server \<Rightarrow> (string \<times> string) list \<Rightarrow> web_request \<Rightarrow> ('w, web_response) state" where
  "handle_logout s hs q =
     (case required_query_value (request_query q) ''logout_challenge'' (effective_max_challenge_length (srv_cfg s)) of
        Inl e \<Rightarrow> State_Monad.return (write_error hs e)
      | Inr challenge \<Rightarrow> do {
          r \<leftarrow> pv_start_logout (srv_provider s) challenge (browser_state_cookie (srv_cfg s) q logoutBrowserStateCookie);
          State_Monad.return (started_response (srv_cfg s) q hs logoutBrowserStateCookie r) })"

definition handle_logout_submit ::
  "'w server \<Rightarrow> (string \<times> string) list \<Rightarrow> web_request \<Rightarrow> ('w, web_response) state" where
  "handle_logout_submit s hs q =
     (if \<not> origin_allowed (srv_cfg s) (header_get q ''Origin'')
      then State_Monad.return (write_error hs (Sent ErrInvalidOrigin))
      else case parse_form max_form_bytes q of
        None \<Rightarrow> State_Monad.return (write_error hs (Wrap ''parse logout form'' [Sent ErrInvalidForm]))
      | Some form \<Rightarrow> do {
          r \<leftarrow> pv_complete_logout (srv_provider s)
            \<lparr>oi_transaction = trim_space (values_get form ''transaction''),
             oi_csrf_token = trim_space (values_get form ''csrf''),
             oi_browser_state = browser_state_cookie (srv_cfg s) q logoutBrowserStateCookie\<rparr>;
          State_Monad.return (completed_response q hs r) })"

definition handle_health :: "(string \<times> string) list \<Rightarrow> web_response" where
  "handle_health hs = json_response 200 hs ''status'' ''ok''"

definition handle_ready :: "'w server \<Rightarrow> (string \<times> string) list \<Rightarrow> ('w, web_response) state" where
  "handle_ready s hs = do {
     r \<leftarrow> pv_ready (srv_provider s);
     case r of
       Some e \<Rightarrow> State_Monad.return (write_error hs e)
     | None \<Rightarrow> State_Monad.return (json_response 200 hs ''status'' ''ready'') }"

section \<open>The middleware chain\<close>

datatype route =
    RouteLogin | RouteLoginCallback | RouteConsent | RouteConsentSubmit | RouteLogout | RouteLogoutSubmit
  | RouteHealth | RouteReady

definition routes :: "(string \<times> string \<times> route) list" where
  "routes =
     [(''GET'', ''/login'', RouteLogin),
      (''GET'', ''/login/callback'', RouteLoginCallback),
      (''GET'', ''/consent'', RouteConsent),
      (''POST'', ''/consent'', RouteConsentSubmit),
      (''GET'', ''/logout'', RouteLogout),
      (''POST'', ''/logout'', RouteLogoutSubmit),
      (''GET'', ''/healthz'', RouteHealth),
      (''GET'', ''/readyz'', RouteReady)]"

fun handle_route ::
  "'w server \<Rightarrow> route \<Rightarrow> (string \<times> string) list \<Rightarrow> web_request \<Rightarrow> ('w, web_response) state" where
  "handle_route s RouteLogin hs q = handle_login s hs q"
| "handle_route s RouteLoginCallback hs q = handle_login_callback s hs q"
| "handle_route s RouteConsent hs q = handle_consent s hs q"
| "handle_route s RouteConsentSubmit hs q = handle_consent_submit s hs q"
| "handle_route s RouteLogout hs q = handle_logout s hs q"
| "handle_route s RouteLogoutSubmit hs q = handle_logout_submit s hs q"
| "handle_route s RouteHealth hs q = State_Monad.return (handle_health hs)"
| "handle_route s RouteReady hs q = handle_ready s hs"

text \<open>The router: the route of a method and path, or its own answer to a request it refuses.\<close>

type_synonym router = "(string \<times> string \<times> route) list \<Rightarrow> string \<Rightarrow> string \<Rightarrow> web_response + route"

definition security_headers :: "config \<Rightarrow> (string \<times> string) list" where
  "security_headers c =
     [(''Cache-Control'', ''no-store''),
      (''Content-Security-Policy'', ''default-src '' @ [CHR 0x27] @ ''none'' @ [CHR 0x27] @ ''; frame-ancestors ''
         @ [CHR 0x27] @ ''none'' @ [CHR 0x27] @ ''; base-uri '' @ [CHR 0x27] @ ''none'' @ [CHR 0x27]),
      (''Referrer-Policy'', ''no-referrer''),
      (''X-Content-Type-Options'', ''nosniff''),
      (''X-Frame-Options'', ''DENY'')]
     @ (if provider_https c then [(''Strict-Transport-Security'', ''max-age=31536000; includeSubDomains'')] else [])"

definition request_id_of :: "(nat \<Rightarrow> char) option \<Rightarrow> web_request \<Rightarrow> string res" where
  "request_id_of rand q =
     (let v = header_get q ''X-Request-Id'' in
      if valid_request_id v then Inr v
      else case new_request_id rand of
        Inl e \<Rightarrow> Inl (Wrap ''create request id'' [e])
      | Inr v' \<Rightarrow> Inr v')"

definition serve ::
  "'w server \<Rightarrow> router \<Rightarrow> bool \<Rightarrow> (nat \<Rightarrow> char) option \<Rightarrow> web_request \<Rightarrow> ('w, web_response) state" where
  "serve s pick admitted rand q =
     (let hs = security_headers (srv_cfg s) in
      case request_id_of rand q of
        Inl e \<Rightarrow> State_Monad.return (write_error hs e)
      | Inr rid \<Rightarrow>
          (let hs' = hs @ [(''X-Request-Id'', rid)] in
           if \<not> admitted then State_Monad.return (write_error hs' (Sent ErrRateLimited))
           else case pick routes (wq_method q) (wq_path q) of
             Inl refused \<Rightarrow> State_Monad.return (refused\<lparr>ws_headers := hs' @ ws_headers refused\<rparr>)
           | Inr r \<Rightarrow> handle_route s r hs' q))"

end
