(* ===== verification/Wiring.thy ===== *)
theory Wiring
  imports EnvConfig StaticPolicy HttpPolicy RedisStore Kratos Hydra HttpServer MemStore
begin

text \<open>
  The server command, \<open>cmd/server/main.go\<close>: the checks of the deployment, the choice of the
  store and the policy, and how the adapters become the ports of the service. The JSON
  decoder of the scope rules and the Redis library's \<open>ParseURL\<close> are parameters. The
  listener, its time limits, the signals and the shutdown are not modelled.
\<close>

section \<open>Deployment checks\<close>

definition secure_environment :: "string \<Rightarrow> bool" where
  "secure_environment text =
     (let environment = to_lower (trim_space text) in
      environment \<noteq> [] \<and> environment \<noteq> ''development'' \<and> environment \<noteq> ''test'')"

definition validate_state_configuration :: "env \<Rightarrow> config \<Rightarrow> goerr option" where
  "validate_state_configuration getenv cfg =
     (let named = to_lower (trim_space (getenv ''STATE_STORE''));
          store = (if named = [] then ''memory'' else named);
          secure = secure_environment (cfg_environment cfg) in
      if store \<noteq> ''memory'' \<and> store \<noteq> ''redis'' then Some (Msg ''unsupported state_store: want memory or redis'')
      else if store = ''memory'' \<and> secure
      then Some (Msg ''memory state store cannot be used outside development and test'')
      else if store = ''redis'' \<and> trim_space (getenv ''REDIS_URL'') = []
      then Some (Msg ''REDIS_URL is required for redis state store'')
      else if store = ''redis'' then
        (case validate_redis_url (getenv ''REDIS_URL'') secure of
           Some e \<Rightarrow> Some e
         | None \<Rightarrow>
             if secure \<and> trim_space (getenv ''REDIS_KEY_PREFIX'') = []
             then Some (Msg ''REDIS_KEY_PREFIX is required outside development and test'') else None)
      else None)"

datatype store_choice = MemoryChoice | RedisChoice string

definition new_transaction_store :: "env \<Rightarrow> (string \<Rightarrow> bool) \<Rightarrow> config \<Rightarrow> store_choice res" where
  "new_transaction_store getenv parse_options cfg =
     (let store = to_lower (trim_space (getenv ''STATE_STORE'')) in
      if store = [] \<or> store = ''memory'' then Inr MemoryChoice
      else (let given = trim_space (getenv ''REDIS_KEY_PREFIX'');
                key_prefix = (if given = []
                  then ''hydra-kratos-login-consent:'' @ to_lower (trim_space (cfg_environment cfg)) @ '':transaction:''
                  else given) in
            case new_redis_store parse_options (getenv ''REDIS_URL'') key_prefix of
              Inl e \<Rightarrow> Inl (Wrap ''create redis state store'' [e])
            | Inr p \<Rightarrow> Inr (RedisChoice p)))"

section \<open>The policy\<close>

fun csv_loop :: "string list \<Rightarrow> string list" where
  "csv_loop [] = []"
| "csv_loop (p # ps) = (if trim_space p \<noteq> [] then trim_space p # csv_loop ps else csv_loop ps)"

definition csv_values :: "string \<Rightarrow> string list" where
  "csv_values value = csv_loop (split_at (CHR '','') value)"

type_synonym rules_decoder = "string \<Rightarrow> string list gomap gomap option"

definition subject_scope_rules :: "rules_decoder \<Rightarrow> string \<Rightarrow> string list gomap gomap res" where
  "subject_scope_rules decode text =
     (let value = trim_space text in
      if value = [] then Inr []
      else case decode value of
        None \<Rightarrow> Inl (Msg ''parse allowed_subject_scopes'')
      | Some rules \<Rightarrow> Inr rules)"

definition client_ids :: "config \<Rightarrow> string list" where
  "client_ids cfg = map fst (cfg_clients cfg)"

datatype policy_choice = StaticChoice static_policy | HttpChoice http_policy

definition new_policy :: "env \<Rightarrow> rules_decoder \<Rightarrow> config \<Rightarrow> string \<Rightarrow> policy_choice res" where
  "new_policy getenv decode cfg token =
     (let backend = (if cfg_policy_backend cfg = [] then PolicyBackendStatic else cfg_policy_backend cfg);
          secure = secure_environment (cfg_environment cfg) in
      if backend = PolicyBackendStatic then
        (case subject_scope_rules decode (getenv ''ALLOWED_SUBJECT_SCOPES'') of
           Inl e \<Rightarrow> Inl e
         | Inr rules \<Rightarrow>
             if secure \<and> length rules = 0
             then Inl (Msg ''ALLOWED_SUBJECT_SCOPES is required outside development and test for static policy'')
             else Inr (StaticChoice (new_static_with_scopes (csv_values (getenv ''ALLOWED_SUBJECTS''))
                    (client_ids cfg) rules secure)))
      else if backend = PolicyBackendHTTP then
        (if secure \<and> trim_space token = []
         then Inl (Msg ''POLICY_AUTH_TOKEN is required outside development and test'')
         else case new_http_policy (cfg_policy_url cfg) token of
           Inl e \<Rightarrow> Inl (Wrap ''create http policy'' [e])
         | Inr p \<Rightarrow> Inr (HttpChoice p))
      else Inl (Msg ''unsupported policy backend''))"

section \<open>Assembly\<close>

record wiring =
  wr_cfg :: config
  wr_hydra :: "string \<times> (string \<times> string) list"
  wr_kratos :: url
  wr_store :: store_choice
  wr_policy :: policy_choice

definition wrap_error :: "string \<Rightarrow> 'a res \<Rightarrow> 'a res" where
  "wrap_error msg r = (case r of Inl e \<Rightarrow> Inl (Wrap msg [e]) | Inr x \<Rightarrow> Inr x)"

text \<open>\<open>run\<close> up to the construction of the service.\<close>

definition assemble :: "env_lib \<Rightarrow> rules_decoder \<Rightarrow> (string \<Rightarrow> bool) \<Rightarrow> env \<Rightarrow> wiring res" where
  "assemble lib decode_rules parse_options getenv =
     and_then (wrap_error ''load configuration'' (load_config lib getenv)) (\<lambda>cfg.
     case validate_state_configuration getenv cfg of
       Some e \<Rightarrow> Inl e
     | None \<Rightarrow>
     (let admin_token = trim_space (getenv ''HYDRA_ADMIN_TOKEN'');
          policy_token = trim_space (getenv ''POLICY_AUTH_TOKEN'') in
      if secure_environment (cfg_environment cfg) \<and> admin_token = []
      then Inl (Msg ''HYDRA_ADMIN_TOKEN is required outside development and test'')
      else
        and_then (wrap_error ''create hydra client'' (new_hydra (cfg_hydra_admin_url cfg) admin_token)) (\<lambda>hydra.
        and_then (wrap_error ''create kratos client'' (new_kratos (cfg_kratos_public_url cfg))) (\<lambda>kratos.
        and_then (new_transaction_store getenv parse_options cfg) (\<lambda>store.
        and_then (new_policy getenv decode_rules cfg policy_token) (\<lambda>policy.
        Inr \<lparr>wr_cfg = cfg, wr_hydra = hydra, wr_kratos = kratos, wr_store = store, wr_policy = policy\<rparr>))))))"

text \<open>
  The adapters as the ports of the service. What lies outside (the SDK, the transport, the
  decoders, the clock, the random source, the ping of the store) may answer every call
  differently.
\<close>

record outside =
  ou_api :: "nat \<Rightarrow> hydra_api"
  ou_send :: "nat \<Rightarrow> transport"
  ou_session :: session_decoder
  ou_codec :: policy_codec
  ou_now :: "nat \<Rightarrow> time"
  ou_rand :: "nat \<Rightarrow> (nat \<Rightarrow> char) option"
  ou_ping :: "nat \<Rightarrow> goerr option"

definition adapter_ports :: "outside \<Rightarrow> wiring \<Rightarrow> ports" where
  "adapter_ports out w =
     \<lparr>p_now = ou_now out, p_rand = ou_rand out,
      p_get_login = (\<lambda>n c. hydra_get_login (ou_api out n) c),
      p_accept_login = (\<lambda>n c a. hydra_accept_login (ou_api out n) c a),
      p_reject_login = (\<lambda>n c r. hydra_reject_login (ou_api out n) c r),
      p_get_consent = (\<lambda>n c. hydra_get_consent (ou_api out n) c),
      p_accept_consent = (\<lambda>n c a. hydra_accept_consent (ou_api out n) c a),
      p_reject_consent = (\<lambda>n c r. hydra_reject_consent (ou_api out n) c r),
      p_get_logout = (\<lambda>n c. hydra_get_logout (ou_api out n) c),
      p_accept_logout = (\<lambda>n c. hydra_accept_logout (ou_api out n) c),
      p_validate_session = (\<lambda>n c. kratos_validate_session (wr_kratos w) (ou_session out) (ou_send out n) c),
      p_authorize_login = (\<lambda>n i. case wr_policy w of
          StaticChoice p \<Rightarrow> static_authorize_login p i
        | HttpChoice p \<Rightarrow> http_authorize_login p (ou_codec out) (ou_send out n) i),
      p_authorize_consent = (\<lambda>n i. case wr_policy w of
          StaticChoice p \<Rightarrow> static_authorize_consent p i
        | HttpChoice p \<Rightarrow> http_authorize_consent p (ou_codec out) (ou_send out n) i),
      p_ready = (\<lambda>n i. if i = 0 then hydra_ready (ou_api out n)
        else if i = 1 then kratos_ready (wr_kratos w) (ou_send out n)
        else redis_ready (ou_ping out n))\<rparr>"

definition readiness_count :: "wiring \<Rightarrow> nat" where
  "readiness_count w = (case wr_store w of MemoryChoice \<Rightarrow> 2 | RedisChoice p \<Rightarrow> 3)"

text \<open>The rest of \<open>run\<close>: the service over the chosen store, and the HTTP server over it.\<close>

definition assemble_server ::
  "wiring \<Rightarrow> outside \<Rightarrow> 's store_ops \<Rightarrow> golib \<Rightarrow> ('s world server \<times> admission) res" where
  "assemble_server w out ops lib =
     and_then (wrap_error ''create provider service'' (new_service (wr_cfg w) (adapter_ports out w) ops lib (readiness_count w)))
       (\<lambda>(service, counter).
     and_then (wrap_error ''create http api'' (new_server (Some (service_provider service)) (wr_cfg w)))
       (\<lambda>server. Inr (server, counter)))"

datatype log_level = LevelDebug | LevelInfo | LevelWarn | LevelError

definition logger_level :: "string \<Rightarrow> log_level" where
  "logger_level value =
     (let v = to_lower (trim_space value) in
      if v = ''debug'' then LevelDebug
      else if v = ''warn'' \<or> v = ''warning'' then LevelWarn
      else if v = ''error'' then LevelError
      else LevelInfo)"

section \<open>Lemmas\<close>

lemma secure_environment_core: "secure_environment (cfg_environment cfg) = is_secure_environment cfg"
  by (simp add: secure_environment_def is_secure_environment_def secure_transport_required_def Let_def)

lemma wrap_error_Inr [simp]: "wrap_error msg r = Inr x \<longleftrightarrow> r = Inr x"
  by (simp add: wrap_error_def split: sum.split)

lemma assemble_parts:
  assumes "assemble lib decode_rules parse_options getenv = Inr w"
  shows "load_config lib getenv = Inr (wr_cfg w)"
    and "validate_state_configuration getenv (wr_cfg w) = None"
    and "secure_environment (cfg_environment (wr_cfg w)) \<Longrightarrow> trim_space (getenv ''HYDRA_ADMIN_TOKEN'') \<noteq> []"
    and "new_hydra (cfg_hydra_admin_url (wr_cfg w)) (trim_space (getenv ''HYDRA_ADMIN_TOKEN'')) = Inr (wr_hydra w)"
    and "new_kratos (cfg_kratos_public_url (wr_cfg w)) = Inr (wr_kratos w)"
    and "new_transaction_store getenv parse_options (wr_cfg w) = Inr (wr_store w)"
    and "new_policy getenv decode_rules (wr_cfg w) (trim_space (getenv ''POLICY_AUTH_TOKEN'')) = Inr (wr_policy w)"
  using assms by (auto simp: assemble_def and_then_Inr Let_def split: option.splits if_splits)

lemma validate_redis_url_None:
  assumes "validate_redis_url text secure = None"
  obtains u where "url_parse (trim_space text) = Some u" "secure \<longrightarrow> u_scheme u = ''rediss''"
    "parse_bool (values_get (url_query u) ''skip_verify'') \<noteq> Some True"
  using assms by (auto simp: validate_redis_url_def split: option.splits if_splits)

lemma secure_store:
  assumes "validate_state_configuration getenv cfg = None" and "secure_environment (cfg_environment cfg)"
    and "new_transaction_store getenv parse_options cfg = Inr store"
  obtains u where "store = RedisChoice (trim_space (getenv ''REDIS_KEY_PREFIX''))"
    "trim_space (getenv ''REDIS_KEY_PREFIX'') \<noteq> []"
    "url_parse (trim_space (getenv ''REDIS_URL'')) = Some u" "u_scheme u = ''rediss''"
    "parse_bool (values_get (url_query u) ''skip_verify'') \<noteq> Some True"
proof -
  have n: "to_lower (trim_space (getenv ''STATE_STORE'')) = ''redis''"
    "trim_space (getenv ''REDIS_KEY_PREFIX'') \<noteq> []" "validate_redis_url (getenv ''REDIS_URL'') True = None"
    using assms(1,2) by (auto simp: validate_state_configuration_def Let_def split: if_splits option.splits)
  obtain u where "url_parse (trim_space (getenv ''REDIS_URL'')) = Some u" "True \<longrightarrow> u_scheme u = ''rediss''"
    "parse_bool (values_get (url_query u) ''skip_verify'') \<noteq> Some True"
    by (rule validate_redis_url_None [OF n(3)])
  moreover have "store = RedisChoice (trim_space (getenv ''REDIS_KEY_PREFIX''))"
    using assms(3) n by (auto simp: new_transaction_store_def new_redis_store_def Let_def split: sum.splits option.splits if_splits)
  ultimately show ?thesis using n(2) that by blast
qed

lemma secure_policy:
  assumes "new_policy getenv decode cfg token = Inr choice" and "secure_environment (cfg_environment cfg)"
    and "validate_policy cfg True = None"
  shows "case choice of
      StaticChoice p \<Rightarrow> sp_require_scopes p \<and> sp_subject_scopes p \<noteq> []
    | HttpChoice p \<Rightarrow> hp_token p \<noteq> [] \<and> u_scheme (hp_endpoint p) = ''https''"
proof -
  consider (static) p rules where "choice = StaticChoice (new_static_with_scopes p (client_ids cfg) rules True)" "rules \<noteq> []"
    | (http) p where "choice = HttpChoice p" "new_http_policy (cfg_policy_url cfg) token = Inr p" "trim_space token \<noteq> []"
        "cfg_policy_backend cfg = PolicyBackendHTTP"
    using assms(1,2) by (auto simp: new_policy_def Let_def PolicyBackendStatic_def PolicyBackendHTTP_def
        split: if_splits sum.splits)
  then show ?thesis
  proof cases
    case (static p rules)
    then show ?thesis by (simp add: new_static_with_scopes_def to_scope_set_def)
  next
    case (http p)
    have "validate_url (cfg_policy_url cfg) ''policy URL'' True = None"
      using assms(3) http(4) by (auto simp: validate_policy_def Let_def PolicyBackendHTTP_def PolicyBackendStatic_def
          split: option.splits)
    then obtain u where u: "cfg_policy_url cfg = Some u" "u_scheme u = ''https''"
      by (auto simp: validate_url_None origin_url_def)
    then have "p = \<lparr>hp_endpoint = u, hp_token = trim_space token\<rparr>"
      using http(2) by (auto simp: new_http_policy_def split: if_splits)
    then show ?thesis using u(2) http(1,3) by simp
  qed
qed

text \<open>The adapters' policy keeps the contract of the policy port, whichever was chosen.\<close>

interpretation wired: consent_policy "p_authorize_consent (adapter_ports out w) n" for out w n
proof
  fix i d
  assume "p_authorize_consent (adapter_ports out w) n i = Inr d"
  then consider p where "static_authorize_consent p i = Inr d"
    | p where "http_authorize_consent p (ou_codec out) (ou_send out n) i = Inr d"
    by (auto simp: adapter_ports_def split: policy_choice.splits)
  note decision = this
  show "cd_allowed d \<Longrightarrow> set (cd_granted_scopes d) \<subseteq> set (pi_granted_scopes i)
      \<and> set (cd_granted_audiences d) \<subseteq> set (selected_audiences i)"
    using decision static.within http.within by cases blast+
  show "\<not> cd_allowed d \<Longrightarrow> d = denied"
    using decision static.denied_empty http.denied_empty by cases blast+
qed

section \<open>A sample deployment\<close>

definition sample_secure_env :: env where
  "sample_secure_env n =
     (if n = ''ENVIRONMENT'' then ''production'' else if n = ''STATE_STORE'' then ''redis''
      else if n = ''REDIS_URL'' then ''rediss://r'' else if n = ''REDIS_KEY_PREFIX'' then ''p:''
      else if n = ''HYDRA_ADMIN_TOKEN'' then ''t'' else if n = ''ALLOWED_SUBJECTS'' then ''u''
      else if n = ''ALLOWED_SUBJECT_SCOPES'' then ''r''
      else sample_env n)"

definition sample_rules :: rules_decoder where
  "sample_rules text = Some [(''u'', [(''c'', [''email''])])]"

lemma sample_redis_url: "validate_redis_url ''rediss://r'' secure = None"
proof -
  have u: "url_parse ''rediss://r'' = Some (empty_url\<lparr>u_scheme := ''rediss'', u_host := ''r''\<rparr>)"
    by (simp add: url_parse_def parse_no_fragment_def cut_def get_scheme_def is_alpha_def is_digit_def
      has_prefix_def has_suffix_def text_eval parse_after_query_def parse_authority_def last_index_def
      parse_host_def set_path_def empty_url_def escape_def should_escape_def is_alnum_def)
  have t: "trim_space ''rediss://r'' = ''rediss://r''" by (simp add: text_eval)
  show ?thesis unfolding validate_redis_url_def t u
    by (simp add: empty_url_def url_query_def parse_query_def query_piece_def values_get_def parse_bool_def map_get_def)
qed

definition sample_production :: config where
  "sample_production = sample_loaded\<lparr>cfg_environment := ''production''\<rparr>"

lemma sample_production_validates: "validate_config sample_production = Inr sample_production"
proof -
  have "supported_aal ''aal2''" by (simp add: supported_aal_def aal_level_def text_eval)
  then have a: "aal_at_least ''aal2'' ''aal2''" by (rule aal_at_least_self)
  have u: "validate_url (Some (sample_url h)) n b = None" if "h \<noteq> []" for h n b
    using that by (simp add: validate_url_def sample_url_def empty_url_def)
  show ?thesis
    by (simp add: validate_config_def sample_production_def sample_loaded_def fail_if_def u a validate_claim_mappings_def
      validate_oidc_acr_mappings_def validate_policy_def PolicyBackendStatic_def PolicyBackendHTTP_def
      DefaultTransactionTTL_def MaxTransactionTTL_def Second_def DefaultMaxPendingTransactions_def
      DefaultMaxChallengeLength_def MaxChallengeLengthLimit_def Let_def)
  qed

lemma sample_secure_urls:
  "n \<in> {''PUBLIC_URL'', ''EXTERNAL_UI_URL'', ''HYDRA_ADMIN_URL'', ''HYDRA_PUBLIC_URL'', ''KRATOS_PUBLIC_URL''} \<Longrightarrow>
   required_url sample_secure_env n = required_url sample_env n"
  by (auto simp: required_url_def sample_secure_env_def)

lemma sample_secure_load:
  "load_config sample_env_lib sample_secure_env = Inr sample_production"
proof -
  have "load_config sample_env_lib sample_secure_env
      = validate_config sample_production"
    by (simp add: load_config_def sample_secure_urls sample_required_url and_then_def)
      (simp add: env_number_def lower_or_default_def optional_url_def parse_mappings_json_def parse_acr_mappings_def
        load_clients_def sample_secure_env_def sample_env_def text_eval fill_client_ids_def sample_production_def sample_loaded_def
        env_or_default_def PolicyBackendStatic_def and_then_def)
  then show ?thesis by (simp add: sample_production_validates)
qed

definition sample_wiring :: wiring where
  "sample_wiring = \<lparr>wr_cfg = sample_production,
     wr_hydra = (trim_right_slash (url_string (sample_url ''a'')), [(''Authorization'', ''Bearer t'')]),
     wr_kratos = sample_url ''k'', wr_store = RedisChoice ''p:'',
     wr_policy = StaticChoice (new_static_with_scopes [''u''] [] [(''u'', [(''c'', [''email''])])] True)\<rparr>"

lemma sample_production_secure: "secure_environment (cfg_environment sample_production)"
  by (simp add: secure_environment_def sample_production_def text_eval)

lemma sample_assemble: "assemble sample_env_lib sample_rules (\<lambda>u. True) sample_secure_env = Inr sample_wiring"
proof -
  note e = sample_production_secure
  have p: "trim_space ''p:'' = ''p:''" "trim_space ''t'' = ''t''" by (simp_all add: text_eval)
  have v: "validate_state_configuration sample_secure_env sample_production = None"
    using sample_redis_url e p
    by (simp add: validate_state_configuration_def sample_secure_env_def text_eval Let_def)
  have s: "new_transaction_store sample_secure_env (\<lambda>u. True) sample_production = Inr (RedisChoice ''p:'')"
    using sample_redis_url p
    by (simp add: new_transaction_store_def sample_secure_env_def new_redis_store_def text_eval)
  have b: "cfg_policy_backend sample_production = ''static''" "client_ids sample_production = []"
    by (simp_all add: sample_production_def sample_loaded_def client_ids_def)
  have c: "csv_values ''u'' = [''u'']" by (simp add: csv_values_def text_eval)
  have pol: "new_policy sample_secure_env sample_rules sample_production [] = Inr (wr_policy sample_wiring)"
    using e by (simp add: new_policy_def b PolicyBackendStatic_def subject_scope_rules_def
        sample_secure_env_def text_eval sample_rules_def c sample_wiring_def)
  have h: "new_hydra (cfg_hydra_admin_url sample_production) ''t'' = Inr (wr_hydra sample_wiring)"
    by (simp add: sample_production_def sample_loaded_def new_hydra_def sample_wiring_def)
      (simp add: sample_url_def empty_url_def)
  have k: "new_kratos (cfg_kratos_public_url sample_production) = Inr (sample_url ''k'')"
    by (simp add: sample_production_def sample_loaded_def new_kratos_def) (simp add: sample_url_def empty_url_def)
  have t: "trim_space (sample_secure_env ''HYDRA_ADMIN_TOKEN'') = ''t''"
    "trim_space (sample_secure_env ''POLICY_AUTH_TOKEN'') = []"
    using p by (simp_all add: sample_secure_env_def sample_env_def)
  show ?thesis
    by (simp add: assemble_def and_then_def wrap_error_def sample_secure_load v s pol h k t Let_def)
      (simp add: sample_wiring_def)
qed

section \<open>Properties\<close>

text \<open>C18. Outside development and test the server starts only in a secure deployment: every URL
  of the configuration is https, transactions are kept in Redis over TLS with certificate
  verification and under a key prefix of their own, Hydra is called with an admin token, and
  the policy either has scope rules that it enforces or is remote, over https, with a
  token.\<close>

theorem secure_deployment:
  assumes "assemble lib decode_rules parse_options getenv = Inr w"
    and "secure_environment (cfg_environment (wr_cfg w))"
  shows "list_all (\<lambda>u. \<exists>v. u = Some v \<and> u_scheme v = ''https'')
      [cfg_provider_url (wr_cfg w), cfg_external_ui_url (wr_cfg w), cfg_hydra_admin_url (wr_cfg w),
       cfg_hydra_public_url (wr_cfg w), cfg_kratos_public_url (wr_cfg w)]
    \<and> wr_store w = RedisChoice (trim_space (getenv ''REDIS_KEY_PREFIX''))
    \<and> trim_space (getenv ''REDIS_KEY_PREFIX'') \<noteq> []
    \<and> (\<exists>u. url_parse (trim_space (getenv ''REDIS_URL'')) = Some u \<and> u_scheme u = ''rediss''
         \<and> parse_bool (values_get (url_query u) ''skip_verify'') \<noteq> Some True)
    \<and> (\<exists>token. token \<noteq> [] \<and> snd (wr_hydra w) = [(''Authorization'', ''Bearer '' @ token)])
    \<and> (case wr_policy w of
         StaticChoice p \<Rightarrow> sp_require_scopes p \<and> sp_subject_scopes p \<noteq> []
       | HttpChoice p \<Rightarrow> hp_token p \<noteq> [] \<and> u_scheme (hp_endpoint p) = ''https'')"
proof -
  note parts = assemble_parts [OF assms(1)]
  note loaded = loaded_config [OF parts(1)]
  have sec: "is_secure_environment (wr_cfg w)" using assms(2) by (simp add: secure_environment_core)
  have urls: "list_all (\<lambda>u. \<exists>v. u = Some v \<and> u_scheme v = ''https'')
      [cfg_provider_url (wr_cfg w), cfg_external_ui_url (wr_cfg w), cfg_hydra_admin_url (wr_cfg w),
       cfg_hydra_public_url (wr_cfg w), cfg_kratos_public_url (wr_cfg w)]"
    using loaded(1) sec by (auto simp: config_ok_def origin_url_def)
  obtain u where store: "wr_store w = RedisChoice (trim_space (getenv ''REDIS_KEY_PREFIX''))"
    "trim_space (getenv ''REDIS_KEY_PREFIX'') \<noteq> []"
    "url_parse (trim_space (getenv ''REDIS_URL'')) = Some u" "u_scheme u = ''rediss''"
    "parse_bool (values_get (url_query u) ''skip_verify'') \<noteq> Some True"
    by (rule secure_store [OF parts(2) assms(2) parts(6)])
  have hydra: "snd (wr_hydra w) = [(''Authorization'', ''Bearer '' @ trim_space (getenv ''HYDRA_ADMIN_TOKEN''))]"
    using parts(4) parts(3) [OF assms(2)] by (cases "wr_hydra w") (auto simp: new_hydra_def split: option.splits if_splits)
  have "validate_policy (wr_cfg w) True = None" using loaded(5) sec by simp
  note pol = secure_policy [OF parts(7) assms(2) this]
  show ?thesis
    by (intro conjI exI [of _ u] exI [of _ "trim_space (getenv ''HYDRA_ADMIN_TOKEN'')"])
      (rule urls store hydra pol parts(3) [OF assms(2)])+
qed

theorem secure_deployment_witness:
  "wr_store sample_wiring = RedisChoice (trim_space (sample_secure_env ''REDIS_KEY_PREFIX''))"
proof -
  have "secure_environment (cfg_environment (wr_cfg sample_wiring))"
    using sample_production_secure by (simp add: sample_wiring_def)
  from secure_deployment [OF sample_assemble this] show ?thesis by (rule conjunct1 [OF conjunct2])
qed

end
