(* ===== verification/ServiceProps.thy ===== *)
theory ServiceProps
  imports Service
begin

text \<open>
  What the provider flows guarantee. The lemmas about loading, consuming and storing
  transactions are proved for every store that keeps the contract of theory \<open>Store\<close>:
  the completions need only \<open>consuming_store\<close>, the start flows \<open>creating_store\<close>.
  Theory \<open>Flows\<close> turns them into properties of the service with the memory store, through
  the interpretation of the contract in theory \<open>MemStore\<close>.
\<close>

section \<open>Rules for the shared steps\<close>

lemma wp_now_call [wp]:
  "wp (now_call sv) Q w = Q (p_now (sv_ports sv) (w_tick w)) (w\<lparr>w_tick := Suc (w_tick w)\<rparr>)"
  by (simp add: now_call_def wp)

lemma wp_admission_release [wp]:
  "wp (admission_release h) Q w = Q () (w\<lparr>w_admission := adm_release h (w_admission w)\<rparr>)"
  by (simp add: admission_release_def wp)

text \<open>
  A call of the flow has a number between that of the first call and that of the next
  call after the flow: \<open>during lo hi k\<close>. \<open>tx_presented\<close>: the checks that a presented
  handle, CSRF token and browser state have passed for a stored transaction.
\<close>

definition during :: "nat \<Rightarrow> nat \<Rightarrow> nat \<Rightarrow> bool" where
  "during lo hi k \<longleftrightarrow> lo \<le> k \<and> k < hi"

lemma during_mono: "during lo hi k \<Longrightarrow> lo' \<le> lo \<Longrightarrow> hi \<le> hi' \<Longrightarrow> during lo' hi' k"
  by (simp add: during_def)

definition tx_presented ::
  "'s service \<Rightarrow> nat \<Rightarrow> nat \<Rightarrow> transaction \<Rightarrow> flow \<Rightarrow> string \<Rightarrow> string \<Rightarrow> bool" where
  "tx_presented sv lo hi tx flow csrf browser_state \<longleftrightarrow>
     tx_flow tx = flow \<and> tx_challenge tx \<noteq> [] \<and> tx_client_id tx \<noteq> []
     \<and> csrf \<noteq> [] \<and> csrf = tx_csrf_token tx
     \<and> validate_opaque_token browser_state = None \<and> browser_state = tx_browser_state tx
     \<and> (\<exists>k. during lo hi k \<and> p_now (sv_ports sv) k < tx_expires_at tx)"

lemma tx_presented_mono:
  "tx_presented sv lo hi tx flow csrf b \<Longrightarrow> lo' \<le> lo \<Longrightarrow> hi \<le> hi' \<Longrightarrow> tx_presented sv lo' hi' tx flow csrf b"
  unfolding tx_presented_def using during_mono by blast

context consuming_store
begin

definition same_contents :: "'s world \<Rightarrow> 's world \<Rightarrow> bool" where
  "same_contents w w' \<longleftrightarrow>
     w_log w' = w_log w \<and> w_tick w \<le> w_tick w'
     \<and> inv (w_store w') \<and> contents (w_store w') = contents (w_store w)"

definition only_removed :: "string \<Rightarrow> 's world \<Rightarrow> 's world \<Rightarrow> bool" where
  "only_removed h w w' \<longleftrightarrow>
     w_log w' = w_log w \<and> w_tick w \<le> w_tick w' \<and> inv (w_store w')
     \<and> (\<forall>h'. h' \<noteq> h \<longrightarrow> contents (w_store w') h' = contents (w_store w) h')
     \<and> (contents (w_store w') h = contents (w_store w) h \<or> contents (w_store w') h = None)"

lemma wp_get:
  assumes "inv (w_store w)"
    and "\<And>e s'. inv s' \<Longrightarrow> contents s' = contents (w_store w) \<Longrightarrow> Q (Inl e) (w\<lparr>w_store := s'\<rparr>)"
    and "\<And>tx s'. inv s' \<Longrightarrow> contents s' = contents (w_store w) \<Longrightarrow> contents (w_store w) h = Some tx
       \<Longrightarrow> Q (Inr tx) (w\<lparr>w_store := s'\<rparr>)"
  shows "wp (on_store (so_get ops h)) Q w"
proof -
  obtain r s' where r: "run_state (so_get ops h) (w_store w) = (r, s')" by fastforce
  have p: "inv s'" "contents s' = contents (w_store w)"
    using get_pure [OF assms(1) r] by simp_all
  show ?thesis
  proof (cases r)
    case (Inl e)
    then show ?thesis using p assms(2) by (subst wp_on_store) (simp add: wp_def r)
  next
    case (Inr tx)
    then have "contents (w_store w) h = Some tx" using get_found [OF assms(1)] r by simp
    then show ?thesis using p assms(3) Inr by (subst wp_on_store) (simp add: wp_def r)
  qed
qed

lemma wp_load:
  assumes "sv_store sv = ops" and "inv (w_store w)"
    and err: "\<And>e w'. same_contents w w' \<Longrightarrow> Q (Inl e) w'"
    and ok: "\<And>tx w'. same_contents w w' \<Longrightarrow> contents (w_store w) h = Some tx
       \<Longrightarrow> tx_presented sv (w_tick w) (w_tick w') tx flow csrf browser_state \<Longrightarrow> Q (Inr tx) w'"
  shows "wp (load sv h flow csrf browser_state) Q w"
proof (cases "h = [] \<or> length h > 256")
  case True
  then show ?thesis using err [of w] assms(2) by (auto simp: load_def wp same_contents_def)
next
  case False
  have err': "\<And>e w'. w_log w' = w_log w \<Longrightarrow> w_tick w \<le> w_tick w' \<Longrightarrow> inv (w_store w') \<Longrightarrow> contents (w_store w') = contents (w_store w)
      \<Longrightarrow> Q (Inl e) w'"
    using err by (simp add: same_contents_def)
  have ok': "\<And>tx w'. w_log w' = w_log w \<Longrightarrow> w_tick w \<le> w_tick w' \<Longrightarrow> inv (w_store w') \<Longrightarrow> contents (w_store w') = contents (w_store w)
      \<Longrightarrow> contents (w_store w) h = Some tx \<Longrightarrow> tx_presented sv (w_tick w) (w_tick w') tx flow csrf browser_state
      \<Longrightarrow> Q (Inr tx) w'"
    using ok by (simp add: same_contents_def)
  show ?thesis
    unfolding load_def assms(1)
    using False
    by (simp add: wp)
      (rule wp_get [OF assms(2)];
       auto simp: wp validate_browser_state_None tx_presented_def after_def during_def
         split: option.split intro!: err' ok')
qed

lemma wp_consume:
  assumes "sv_store sv = ops" and "inv (w_store w)"
    and err: "\<And>e w'. only_removed h w w' \<Longrightarrow> Q (Inl e) w'"
    and ok: "\<And>tx w'. only_removed h w w' \<Longrightarrow> contents (w_store w) h = Some tx
       \<Longrightarrow> contents (w_store w') h = None \<Longrightarrow> Q (Inr tx) w'"
  shows "wp (consume sv h) Q w"
proof -
  obtain r s' where r: "run_state (so_consume ops h) (w_store w) = (r, s')" by fastforce
  have p: "inv s'" "\<forall>h'. contents s' h' = contents (w_store w) h' \<or> h' = h \<and> contents s' h' = None"
    using consume_keeps [OF assms(2) r] by simp_all
  have rem: "only_removed h w w'" if "w_log w' = w_log w" "w_tick w \<le> w_tick w'" "w_store w' = s'" for w'
    using that p by (auto simp: only_removed_def)
  show ?thesis
  proof (cases r)
    case (Inl e)
    then show ?thesis using r
      by (auto simp: consume_def assms(1) wp wp_on_store wp_def [of "so_consume ops h"] intro!: err rem)
  next
    case (Inr tx)
    then have "contents (w_store w) h = Some tx" "contents s' h = None"
      using consume_found [OF assms(2)] r by simp_all
    then show ?thesis using r Inr
      by (auto simp: consume_def assms(1) wp wp_on_store wp_def [of "so_consume ops h"] intro!: ok rem)
  qed
qed

text \<open>A handle the store does not hold cannot be loaded.\<close>

lemma wp_load_absent:
  assumes "sv_store sv = ops" and "inv (w_store w)" and "contents (w_store w) h = None"
    and "\<And>e w'. same_contents w w' \<Longrightarrow> Q (Inl e) w'"
  shows "wp (load sv h flow csrf browser_state) Q w"
proof (rule wp_load [OF assms(1,2)])
  show "\<And>e w'. same_contents w w' \<Longrightarrow> Q (Inl e) w'" by (rule assms(4))
qed (simp add: assms(3))

end

section \<open>Deciding a login\<close>

text \<open>
  \<open>login_justified\<close>: an acceptance of a login carries the subject, assurance and methods of
  a session that Kratos validated for the presented credentials, and that session passed
  every check.
\<close>

definition login_justified ::
  "'s service \<Rightarrow> nat \<Rightarrow> nat \<Rightarrow> transaction \<Rightarrow> login_input \<Rightarrow> string \<Rightarrow> login_acceptance \<Rightarrow> bool" where
  "login_justified sv lo hi tx input challenge acc \<longleftrightarrow>
     challenge = tx_challenge tx
     \<and> (\<exists>k m j s. during lo hi k \<and> during lo hi m \<and> during lo hi j
          \<and> p_validate_session (sv_ports sv) k (li_credentials input) = Inr s
          \<and> (tx_subject tx = [] \<or> se_subject s = tx_subject tx)
          \<and> validate_login_freshness tx s (p_now (sv_ports sv) m) = None
          \<and> aal_at_least (se_aal s) (higher_aal (cfg_required_aal (sv_cfg sv)) (tx_requested_aal tx))
          \<and> p_authorize_login (sv_ports sv) j
              (login_policy_input sv (se_subject s) (tx_client_id tx) (se_aal s) (se_amr s)) = Inr True
          \<and> acc = \<lparr>la_subject = se_subject s, la_acr = login_acceptance_acr tx s, la_amr = se_amr s,
                 la_remember = li_remember input, la_remember_for = li_remember_for input\<rparr>)"

lemma login_justified_mono:
  "login_justified sv lo hi tx input c acc \<Longrightarrow> lo' \<le> lo \<Longrightarrow> hi \<le> hi' \<Longrightarrow> login_justified sv lo' hi' tx input c acc"
  unfolding login_justified_def
  by (erule conj_forward, assumption, (erule ex_forward)+) (auto intro: during_mono)

lemmas reject_defs = reject_login_failure_def reject_login_def reject_consent_failure_def reject_consent_def

definition one_decision :: "'s world \<Rightarrow> string \<Rightarrow> event list \<Rightarrow> 's world \<Rightarrow> bool" where
  "one_decision w challenge es w' \<longleftrightarrow>
     w_log w' = w_log w @ es \<and> w_tick w \<le> w_tick w' \<and> w_store w' = w_store w
     \<and> w_admission w' = w_admission w \<and> length (decisions es) = 1"

lemma decide_login_post:
  "wp (decide_login sv tx input) (\<lambda>r w'. \<exists>es. one_decision w (tx_challenge tx) es w'
      \<and> (\<forall>c acc. AcceptLogin c acc \<in> set es \<longrightarrow> login_justified sv (w_tick w) (w_tick w') tx input c acc)
      \<and> (\<forall>c rj. RejectLogin c rj \<in> set es \<longrightarrow> c = tx_challenge tx)) w"
proof -
  let ?acc = "\<lambda>s sub. \<lparr>la_subject = sub, la_acr = login_acceptance_acr tx s, la_amr = se_amr s,
     la_remember = li_remember input, la_remember_for = li_remember_for input\<rparr>"
  have just: "login_justified sv (w_tick w) hi tx input (tx_challenge tx) (?acc s sub)"
    if "p_validate_session (sv_ports sv) (w_tick w) (li_credentials input) = Inr s"
      "tx_subject tx = [] \<or> se_subject s = tx_subject tx" "sub = se_subject s"
      "validate_login_freshness tx s (p_now (sv_ports sv) (Suc (w_tick w))) = None"
      "aal_at_least (se_aal s) (higher_aal (cfg_required_aal (sv_cfg sv)) (tx_requested_aal tx))"
      "p_authorize_login (sv_ports sv) (Suc (Suc (w_tick w)))
         (login_policy_input sv sub (tx_client_id tx) (se_aal s) (se_amr s)) = Inr True"
      "Suc (Suc (w_tick w)) < hi" for s sub hi
    unfolding login_justified_def
    by (intro conjI refl exI [of _ "w_tick w"] exI [of _ "Suc (w_tick w)"] exI [of _ "Suc (Suc (w_tick w))"]
        exI [of _ s]) (use that in \<open>auto simp: during_def\<close>)
  show ?thesis
    unfolding decide_login_def reject_defs Let_def
    by (simp add: wp one_decision_def decisions_def split: sum.split) (auto intro!: just)
qed

section \<open>Completing a flow\<close>

text \<open>What a completed flow has told Hydra.\<close>

definition login_done :: "'s service \<Rightarrow> login_input \<Rightarrow> nat \<Rightarrow> nat \<Rightarrow> transaction \<Rightarrow> event list \<Rightarrow> bool" where
  "login_done sv input lo hi tx es \<longleftrightarrow>
     tx_presented sv lo hi tx FlowLogin (li_csrf_token input) (li_browser_state input)
     \<and> length (decisions es) = 1
     \<and> (\<forall>c acc. AcceptLogin c acc \<in> set es \<longrightarrow> login_justified sv lo hi tx input c acc)
     \<and> (\<forall>c rj. RejectLogin c rj \<in> set es \<longrightarrow> c = tx_challenge tx)"

definition logout_done :: "'s service \<Rightarrow> logout_input \<Rightarrow> nat \<Rightarrow> nat \<Rightarrow> transaction \<Rightarrow> event list \<Rightarrow> bool" where
  "logout_done sv input lo hi tx es \<longleftrightarrow>
     tx_presented sv lo hi tx FlowLogout (oi_csrf_token input) (oi_browser_state input)
     \<and> es = [AcceptLogout (tx_challenge tx)]"

context consuming_store
begin

text \<open>
  How a completion can end for the handle \<open>h\<close>: without any call to another system and with
  an error, or with the transaction consumed and the calls \<open>es\<close> made for it.
\<close>

definition completion ::
  "'s world \<Rightarrow> string \<Rightarrow> (nat \<Rightarrow> nat \<Rightarrow> transaction \<Rightarrow> event list \<Rightarrow> bool) \<Rightarrow> 'a res \<Rightarrow> 's world \<Rightarrow> bool" where
  "completion w h P r w' \<longleftrightarrow>
     only_removed h w (w'\<lparr>w_log := w_log w\<rparr>)
     \<and> ((w_log w' = w_log w \<and> (\<exists>e. r = Inl e))
        \<or> (\<exists>es tx. w_log w' = w_log w @ es \<and> contents (w_store w) h = Some tx
             \<and> contents (w_store w') h = None \<and> P (w_tick w) (w_tick w') tx es))"

lemma completion_error:
  "only_removed h w w' \<Longrightarrow> completion w h P (Inl e) w'"
  by (simp add: completion_def only_removed_def)

lemma same_contents_removed: "same_contents w w' \<Longrightarrow> only_removed h w w'"
  by (simp add: same_contents_def only_removed_def)

lemma completion_error_same: "same_contents w w' \<Longrightarrow> completion w h P (Inl e) w'"
  by (rule completion_error [OF same_contents_removed])

lemma only_removed_trans: "same_contents w w1 \<Longrightarrow> only_removed h w1 w2 \<Longrightarrow> only_removed h w w2"
  by (simp add: same_contents_def only_removed_def)

lemma completion_done:
  assumes "same_contents w w1" and "only_removed h w1 w2" and "contents (w_store w2) h = None"
    and "contents (w_store w) h = Some tx" and "w_log w' = w_log w2 @ es" and "w_store w' = w_store w2"
    and "w_tick w2 \<le> w_tick w'" and "P (w_tick w) (w_tick w') tx es"
  shows "completion w h P r w'"
  using assms by (auto simp: completion_def same_contents_def only_removed_def)

lemma complete_login_post:
  assumes "sv_store sv = ops" and "inv (w_store w)"
  shows "wp (complete_login sv h input) (completion w h (login_done sv input)) w"
proof -
  have loaded: "wp (case validate_remember (li_remember input) (li_remember_for input) of
      Some e \<Rightarrow> State_Monad.return (Inl e)
    | None \<Rightarrow> do { c \<leftarrow> consume sv h;
        case c of Inl e \<Rightarrow> State_Monad.return (Inl e) | Inr _ \<Rightarrow> decide_login sv tx input })
    (completion w h (login_done sv input)) w1"
    if w1: "same_contents w w1" and tx: "contents (w_store w) h = Some tx"
      and pres: "tx_presented sv (w_tick w) (w_tick w1) tx FlowLogin (li_csrf_token input) (li_browser_state input)" for tx w1
  proof (cases "validate_remember (li_remember input) (li_remember_for input)")
    case (Some e)
    then show ?thesis using completion_error [OF same_contents_removed [OF w1]] by (simp add: wp)
  next
    case None
    have inv1: "inv (w_store w1)" using w1 by (simp add: same_contents_def)
    have "wp (consume sv h) (\<lambda>c. wp (case c of Inl e \<Rightarrow> State_Monad.return (Inl e)
        | Inr _ \<Rightarrow> decide_login sv tx input) (completion w h (login_done sv input))) w1"
    proof (rule wp_consume [OF assms(1) inv1])
      fix e w2 assume "only_removed h w1 w2"
      then show "wp (case Inl e of Inl e \<Rightarrow> State_Monad.return (Inl e)
          | Inr _ \<Rightarrow> decide_login sv tx input) (completion w h (login_done sv input)) w2"
        using completion_error [OF only_removed_trans [OF w1]] by (simp add: wp)
    next
      fix tx' w2 assume c: "only_removed h w1 w2" "contents (w_store w2) h = None"
      show "wp (case Inr tx' of Inl e \<Rightarrow> State_Monad.return (Inl e)
          | Inr _ \<Rightarrow> decide_login sv tx input) (completion w h (login_done sv input)) w2"
        unfolding sum.case
      proof (rule wp_mono [OF decide_login_post], elim exE conjE)
        fix r w' es
        assume d: "one_decision w2 (tx_challenge tx) es w'"
          "\<forall>c acc. AcceptLogin c acc \<in> set es \<longrightarrow> login_justified sv (w_tick w2) (w_tick w') tx input c acc"
          "\<forall>c rj. RejectLogin c rj \<in> set es \<longrightarrow> c = tx_challenge tx"
        have tick: "w_tick w \<le> w_tick w2" "w_tick w1 \<le> w_tick w'"
          using w1 c(1) d(1) by (auto simp: same_contents_def only_removed_def one_decision_def)
        have "\<forall>c acc. AcceptLogin c acc \<in> set es \<longrightarrow> login_justified sv (w_tick w) (w_tick w') tx input c acc"
          using d(2) by (blast intro: login_justified_mono [OF _ tick(1) le_refl])
        then have "login_done sv input (w_tick w) (w_tick w') tx es"
          using d(1,3) tx_presented_mono [OF pres le_refl tick(2)]
          by (auto simp: login_done_def one_decision_def)
        then show "completion w h (login_done sv input) r w'"
          using d(1) by (intro completion_done [OF w1 c tx, of w' es]) (auto simp: one_decision_def)
      qed
    qed
    then show ?thesis by (simp add: None wp)
  qed
  show ?thesis
    unfolding complete_login_def wp_bind
    by (rule wp_load [OF assms], simp add: wp completion_error_same, simp only: sum.case, erule (2) loaded)
qed

lemma complete_logout_post:
  assumes "sv_store sv = ops" and "inv (w_store w)"
  shows "wp (complete_logout sv input) (completion w (oi_transaction input) (logout_done sv input)) w"
proof -
  let ?h = "oi_transaction input"
  have loaded: "wp (consume sv ?h) (\<lambda>c. wp (case c of Inl e \<Rightarrow> State_Monad.return (Inl e)
      | Inr _ \<Rightarrow> do {
          r \<leftarrow> port_call (AcceptLogout (tx_challenge tx)) (\<lambda>n. p_accept_logout (sv_ports sv) n (tx_challenge tx));
          State_Monad.return (hydra_redirect (sv_cfg sv) r) })
      (completion w ?h (logout_done sv input))) w1"
    if w1: "same_contents w w1" and tx: "contents (w_store w) ?h = Some tx"
      and pres: "tx_presented sv (w_tick w) (w_tick w1) tx FlowLogout (oi_csrf_token input) (oi_browser_state input)" for tx w1
  proof (rule wp_consume [OF assms(1)])
    show "inv (w_store w1)" using w1 by (simp add: same_contents_def)
  next
    fix e w2 assume "only_removed ?h w1 w2"
    then show "wp (case Inl e of Inl e \<Rightarrow> State_Monad.return (Inl e)
      | Inr _ \<Rightarrow> do {
          r \<leftarrow> port_call (AcceptLogout (tx_challenge tx)) (\<lambda>n. p_accept_logout (sv_ports sv) n (tx_challenge tx));
          State_Monad.return (hydra_redirect (sv_cfg sv) r) })
      (completion w ?h (logout_done sv input)) w2"
      using completion_error [OF only_removed_trans [OF w1]] by (simp add: wp)
  next
    fix tx' w2 assume c: "only_removed ?h w1 w2" "contents (w_store w2) ?h = None"
    show "wp (case Inr tx' of Inl e \<Rightarrow> State_Monad.return (Inl e)
      | Inr _ \<Rightarrow> do {
          r \<leftarrow> port_call (AcceptLogout (tx_challenge tx)) (\<lambda>n. p_accept_logout (sv_ports sv) n (tx_challenge tx));
          State_Monad.return (hydra_redirect (sv_cfg sv) r) })
      (completion w ?h (logout_done sv input)) w2"
      using tx_presented_mono [OF pres le_refl, of "Suc (w_tick w2)"] c(1)
      by (auto simp: wp logout_done_def only_removed_def intro!: completion_done [OF w1 c tx])
  qed
  show ?thesis
    unfolding complete_logout_def wp_bind
    by (rule wp_load [OF assms], simp add: wp completion_error_same, simp only: sum.case wp_bind, erule (2) loaded)
qed

end

section \<open>Deciding a consent\<close>

definition effective_audiences :: "transaction \<Rightarrow> consent_input \<Rightarrow> string list" where
  "effective_audiences tx input =
     (if ci_grant_audience input = [] then tx_requested_audience tx else ci_grant_audience input)"

definition consent_policy_input ::
  "'s service \<Rightarrow> transaction \<Rightarrow> config_client \<Rightarrow> session_info \<Rightarrow> string list \<Rightarrow> string list \<Rightarrow> policy_input" where
  "consent_policy_input sv tx client s scopes audiences =
     \<lparr>pi_issuer = policy_issuer (sv_cfg sv), pi_subject = tx_subject tx, pi_client_id = cc_id client,
      pi_requested_scopes = tx_requested_scopes tx, pi_granted_scopes = scopes,
      pi_requested_audiences = tx_requested_audience tx, pi_granted_audiences = audiences,
      pi_aal = se_aal s, pi_amr = se_amr s\<rparr>"

text \<open>
  \<open>consent_checked\<close>: the session and the client have passed the checks for the stored
  request. \<open>consent_justified\<close>: an acceptance grants what the policy allowed, out of what
  the user selected, out of what was requested, out of what the client may have.
\<close>

definition consent_checked ::
  "'s service \<Rightarrow> nat \<Rightarrow> nat \<Rightarrow> transaction \<Rightarrow> consent_input \<Rightarrow> config_client \<Rightarrow> session_info \<Rightarrow> bool" where
  "consent_checked sv lo hi tx input client s \<longleftrightarrow>
     (\<exists>k. during lo hi k \<and> p_validate_session (sv_ports sv) k (ci_credentials input) = Inr s)
     \<and> se_subject s = tx_subject tx
     \<and> aal_at_least (se_aal s) (higher_aal (cfg_required_aal (sv_cfg sv)) (tx_required_aal tx))
     \<and> config_lookup_client (sv_cfg sv) (tx_client_id tx) = Some client
     \<and> set (ci_grant_scopes input) \<subseteq> set (tx_requested_scopes tx)
     \<and> set (tx_requested_scopes tx) \<subseteq> set (cc_allowed_scopes client)
     \<and> set (effective_audiences tx input) \<subseteq> set (tx_requested_audience tx)
     \<and> set (tx_requested_audience tx) \<subseteq> set (cc_allowed_audiences client)"

definition consent_justified ::
  "'s service \<Rightarrow> nat \<Rightarrow> nat \<Rightarrow> transaction \<Rightarrow> consent_input \<Rightarrow> string \<Rightarrow> consent_acceptance \<Rightarrow> bool" where
  "consent_justified sv lo hi tx input challenge acc \<longleftrightarrow>
     challenge = tx_challenge tx \<and> ci_decision input = ''accept''
     \<and> (\<exists>client s j d.
          consent_checked sv lo hi tx input client s \<and> during lo hi j
          \<and> p_authorize_consent (sv_ports sv) j
              (consent_policy_input sv tx client s (ci_grant_scopes input) (effective_audiences tx input)) = Inr d
          \<and> cd_allowed d
          \<and> ca_grant_scopes acc = cd_granted_scopes d \<and> distinct (ca_grant_scopes acc)
          \<and> set (ca_grant_scopes acc) \<subseteq> set (ci_grant_scopes input)
          \<and> ca_grant_audience acc = cd_granted_audiences d \<and> distinct (ca_grant_audience acc)
          \<and> set (ca_grant_audience acc) \<subseteq> set (effective_audiences tx input)
          \<and> ca_session acc = filter_claims (sv_lib sv) (sv_cfg sv) client (cd_claims d) s (ca_grant_scopes acc)
          \<and> ca_remember acc = ci_remember input \<and> ca_remember_for acc = ci_remember_for input)"

lemma consent_checked_mono:
  "consent_checked sv lo hi tx input client s \<Longrightarrow> lo' \<le> lo \<Longrightarrow> hi \<le> hi' \<Longrightarrow> consent_checked sv lo' hi' tx input client s"
  unfolding consent_checked_def using during_mono by meson

lemma accept_consent_decision_post:
  assumes "ci_decision input = ''accept''" and "consent_checked sv lo (w_tick w) tx input client s"
    and lo: "lo \<le> w_tick w"
    and "validate_remember (ci_remember input) (ci_remember_for input) = None"
    and "validate_scopes client (tx_requested_scopes tx) = None"
    and "validate_audiences client (tx_requested_audience tx) = None"
    and "validate_requested_subset (tx_requested_scopes tx) (ci_grant_scopes input) = None"
    and "validate_requested_subset (tx_requested_audience tx) (effective_audiences tx input) = None"
  shows "wp (accept_consent_decision sv tx client s (ci_grant_scopes input) (effective_audiences tx input)
      (ci_remember input) (ci_remember_for input)) (\<lambda>r w'. \<exists>es. one_decision w (tx_challenge tx) es w'
      \<and> (\<forall>c acc. AcceptConsent c acc \<in> set es \<longrightarrow> consent_justified sv lo (w_tick w') tx input c acc)
      \<and> (\<forall>c rj. RejectConsent c rj \<in> set es \<longrightarrow> c = tx_challenge tx)) w"
proof -
  have eff: "(if effective_audiences tx input = [] then tx_requested_audience tx else effective_audiences tx input)
      = effective_audiences tx input"
    by (simp add: effective_audiences_def)
  have just: "consent_justified sv lo hi tx input (tx_challenge tx)
      \<lparr>ca_grant_scopes = cd_granted_scopes d, ca_grant_audience = cd_granted_audiences d,
       ca_session = filter_claims (sv_lib sv) (sv_cfg sv) client (cd_claims d) s (cd_granted_scopes d),
       ca_remember = ci_remember input, ca_remember_for = ci_remember_for input\<rparr>"
    if "w_tick w < hi" "p_authorize_consent (sv_ports sv) (w_tick w) (consent_policy_input sv tx client s (ci_grant_scopes input)
          (effective_audiences tx input)) = Inr d" "cd_allowed d"
      "validate_requested_subset (ci_grant_scopes input) (cd_granted_scopes d) = None"
      "validate_audience_subset (effective_audiences tx input) (cd_granted_audiences d) = None" for hi d
    unfolding consent_justified_def
    by (intro conjI exI [of _ client] exI [of _ s] exI [of _ "w_tick w"] exI [of _ d]
        consent_checked_mono [OF assms(2) le_refl])
      (use that assms(1) lo in \<open>simp_all add: during_def\<close>)
  show ?thesis
    unfolding accept_consent_decision_def reject_defs Let_def assms(4-8) option.case eff
      consent_policy_input_def [symmetric]
    by (simp add: wp one_decision_def decisions_def split: sum.split option.split
        del: validate_subset_None) (auto intro: just simp del: validate_subset_None)
qed

text \<open>What a consent completion may have told Hydra.\<close>

definition consent_events ::
  "'s service \<Rightarrow> nat \<Rightarrow> nat \<Rightarrow> transaction \<Rightarrow> consent_input \<Rightarrow> event list \<Rightarrow> bool" where
  "consent_events sv lo hi tx input es \<longleftrightarrow>
     length (decisions es) \<le> 1
     \<and> (\<forall>c acc. AcceptConsent c acc \<in> set es \<longrightarrow> consent_justified sv lo hi tx input c acc)
     \<and> (\<forall>c rj. RejectConsent c rj \<in> set es \<longrightarrow> c = tx_challenge tx)"

context consuming_store
begin

text \<open>
  A completion of a consent ends without calls; or with an error after the session was
  checked but the transaction could not be consumed; or with a rejection that leaves the
  transaction in the store; or with the transaction consumed.
\<close>

definition consent_completion ::
  "'s service \<Rightarrow> 's world \<Rightarrow> consent_input \<Rightarrow> 'a res \<Rightarrow> 's world \<Rightarrow> bool" where
  "consent_completion sv w input r w' \<longleftrightarrow>
     only_removed (ci_transaction input) w (w'\<lparr>w_log := w_log w\<rparr>)
     \<and> ((w_log w' = w_log w \<and> (\<exists>e. r = Inl e))
        \<or> (\<exists>es tx. w_log w' = w_log w @ es \<and> contents (w_store w) (ci_transaction input) = Some tx
             \<and> tx_presented sv (w_tick w) (w_tick w') tx FlowConsent (ci_csrf_token input) (ci_browser_state input)
             \<and> consent_events sv (w_tick w) (w_tick w') tx input es
             \<and> ((\<exists>e. r = Inl e \<and> decisions es = [])
                \<or> (\<exists>rj. decisions es = [RejectConsent (tx_challenge tx) rj]
                     \<and> contents (w_store w') (ci_transaction input) = Some tx)
                \<or> (length (decisions es) = 1 \<and> contents (w_store w') (ci_transaction input) = None))))"

lemma consent_completion_error: "only_removed (ci_transaction input) w w' \<Longrightarrow> consent_completion sv w input (Inl e) w'"
  by (simp add: consent_completion_def only_removed_def)

lemma consent_completion_rejected:
  assumes "same_contents w w1" and "contents (w_store w) (ci_transaction input) = Some tx"
    and "tx_presented sv (w_tick w) (w_tick w1) tx FlowConsent (ci_csrf_token input) (ci_browser_state input)"
    and "w_log w' = w_log w1 @ es" and "w_tick w1 \<le> w_tick w'" and "w_store w' = w_store w1"
    and "es = [RejectConsent (tx_challenge tx) rj] \<or> es = [ValidateSession cred, RejectConsent (tx_challenge tx) rj]"
  shows "consent_completion sv w input r w'"
  using assms tx_presented_mono [OF assms(3) le_refl assms(5)]
  by (auto simp: consent_completion_def same_contents_def only_removed_def consent_events_def decisions_def)

lemma consent_completion_consumed:
  assumes "same_contents w w1" and "only_removed (ci_transaction input) w2 w3"
    and "w_log w2 = w_log w1 @ es1" and "w_store w2 = w_store w1" and "decisions es1 = []"
    and tick: "w_tick w1 \<le> w_tick w2" "w_tick w3 \<le> w_tick w'"
    and "contents (w_store w) (ci_transaction input) = Some tx"
    and "contents (w_store w3) (ci_transaction input) = None"
    and pres: "tx_presented sv (w_tick w) (w_tick w1) tx FlowConsent (ci_csrf_token input) (ci_browser_state input)"
    and "w_log w' = w_log w3 @ es2" and "w_store w' = w_store w3" and "length (decisions es2) = 1"
    and "consent_events sv (w_tick w) (w_tick w') tx input es2"
    and "\<And>c a. AcceptConsent c a \<notin> set es1" "\<And>c a. RejectConsent c a \<notin> set es1"
  shows "consent_completion sv w input r w'"
proof -
  have d: "decisions (es1 @ es2) = decisions es2" using assms(5) by (simp add: decisions_def)
  have hi: "w_tick w1 \<le> w_tick w'" using tick assms(2) by (simp add: only_removed_def)
  have lg: "w_log w' = w_log w3 @ es2" and st: "w_store w' = w_store w3" by fact+
  have "w_log w' = w_log w @ (es1 @ es2)"
    using assms(1,2,3) lg by (simp add: same_contents_def only_removed_def)
  moreover have "only_removed (ci_transaction input) w (w'\<lparr>w_log := w_log w\<rparr>)"
    using assms(1,2,4) st hi by (simp add: same_contents_def only_removed_def)
  moreover have "consent_events sv (w_tick w) (w_tick w') tx input (es1 @ es2)"
    using assms d by (auto simp: consent_events_def)
  moreover have "length (decisions (es1 @ es2)) = 1" using assms d by simp
  moreover have "contents (w_store w') (ci_transaction input) = None" using assms st by simp
  moreover note tx_presented_mono [OF pres le_refl hi]
  ultimately show ?thesis
    using assms(8) unfolding consent_completion_def by blast
qed

lemma accept_consent_post:
  assumes "sv_store sv = ops" and "inv (w_store w)" and w1: "same_contents w w1"
    and tx: "contents (w_store w) (ci_transaction input) = Some tx"
    and pres: "tx_presented sv (w_tick w) (w_tick w1) tx FlowConsent (ci_csrf_token input) (ci_browser_state input)"
    and rem: "validate_remember (ci_remember input) (ci_remember_for input) = None"
    and acc: "ci_decision input = ''accept''"
  shows "wp (accept_consent sv tx input) (consent_completion sv w input) w1"
proof -
  note rejected = consent_completion_rejected [OF w1 tx pres]
  let ?ev = "ValidateSession (ci_credentials input)"
  let ?w2 = "w1\<lparr>w_tick := Suc (w_tick w1), w_log := w_log w1 @ [?ev]\<rparr>"
  have consumed: "wp (consume sv (ci_transaction input)) (\<lambda>c. wp (case c of Inl e \<Rightarrow> State_Monad.return (Inl e)
      | Inr _ \<Rightarrow> accept_consent_decision sv tx client s (ci_grant_scopes input) (effective_audiences tx input)
           (ci_remember input) (ci_remember_for input)) (consent_completion sv w input)) ?w2"
    if checked: "consent_checked sv (w_tick w) (w_tick ?w2) tx input client s"
      and v: "validate_scopes client (tx_requested_scopes tx) = None"
        "validate_audiences client (tx_requested_audience tx) = None"
        "validate_requested_subset (tx_requested_scopes tx) (ci_grant_scopes input) = None"
        "validate_requested_subset (tx_requested_audience tx) (effective_audiences tx input) = None" for client s
  proof (rule wp_consume [OF assms(1)])
    show "inv (w_store ?w2)" using w1 by (simp add: same_contents_def)
  next
    fix e w3 assume c: "only_removed (ci_transaction input) ?w2 w3"
    have "consent_completion sv w input (Inl e) w3"
      using c w1 tx tx_presented_mono [OF pres le_refl, of "w_tick w3"]
      by (auto simp: consent_completion_def only_removed_def same_contents_def consent_events_def decisions_def)
    then show "wp (case Inl e of Inl e \<Rightarrow> State_Monad.return (Inl e)
      | Inr _ \<Rightarrow> accept_consent_decision sv tx client s (ci_grant_scopes input) (effective_audiences tx input)
           (ci_remember input) (ci_remember_for input)) (consent_completion sv w input) w3"
      by (simp add: wp)
  next
    fix tx' w3 assume c: "only_removed (ci_transaction input) ?w2 w3"
      and gone: "contents (w_store w3) (ci_transaction input) = None"
    have lo: "w_tick w \<le> w_tick w3" "w_tick ?w2 \<le> w_tick w3"
      using c w1 by (auto simp: only_removed_def same_contents_def)
    note checked' = consent_checked_mono [OF checked le_refl lo(2)]
    show "wp (case Inr tx' of Inl e \<Rightarrow> State_Monad.return (Inl e)
      | Inr _ \<Rightarrow> accept_consent_decision sv tx client s (ci_grant_scopes input) (effective_audiences tx input)
           (ci_remember input) (ci_remember_for input)) (consent_completion sv w input) w3"
      unfolding sum.case
    proof (rule wp_mono [OF accept_consent_decision_post [OF acc checked' lo(1) rem v]], elim exE conjE)
      fix r w' es
      assume d: "one_decision w3 (tx_challenge tx) es w'"
        "\<forall>c acc. AcceptConsent c acc \<in> set es \<longrightarrow> consent_justified sv (w_tick w) (w_tick w') tx input c acc"
        "\<forall>c rj. RejectConsent c rj \<in> set es \<longrightarrow> c = tx_challenge tx"
      show "consent_completion sv w input r w'"
        by (rule consent_completion_consumed [OF w1 c, where ?es1.0 = "[?ev]" and ?es2.0 = es])
          (use d tx gone pres in \<open>auto simp: one_decision_def decisions_def consent_events_def\<close>)
    qed
  qed
  have rej: "wp (reject_consent_failure sv (tx_challenge tx) public_error cause) (consent_completion sv w input) w'"
    if "w' = w1 \<or> w' = ?w2" for public_error cause w'
    using that unfolding reject_defs Let_def by (auto simp: wp intro!: rejected)
  note unfolds = accept_consent_def Let_def effective_audiences_def [symmetric] wp rej
  show ?thesis
  proof (cases "validate_requested_subset (tx_requested_scopes tx) (ci_grant_scopes input)")
    case (Some e)
    then show ?thesis by (simp add: unfolds)
  next
    case None
    note v1 = None
    show ?thesis
    proof (cases "validate_requested_subset (tx_requested_audience tx) (effective_audiences tx input)")
      case (Some e)
      then show ?thesis by (simp add: unfolds v1)
    next
      case None
      note v2 = None
      show ?thesis
      proof (cases "p_validate_session (sv_ports sv) (w_tick w1) (ci_credentials input)")
        case (Inl e)
        then show ?thesis by (simp add: unfolds v1 v2)
      next
        case (Inr s)
        note unfolds = unfolds v1 v2 Inr
        show ?thesis
        proof (cases "se_subject s \<noteq> tx_subject tx
            \<or> \<not> aal_at_least (se_aal s) (higher_aal (cfg_required_aal (sv_cfg sv)) (tx_required_aal tx))")
          case True
          then show ?thesis by (auto simp: unfolds)
        next
          case False
          show ?thesis
          proof (cases "config_lookup_client (sv_cfg sv) (tx_client_id tx)")
            case None
            then show ?thesis using False by (simp add: unfolds)
          next
            case (Some client)
            note unfolds = unfolds Some
            show ?thesis
            proof (cases "validate_scopes client (tx_requested_scopes tx) = None
                \<and> validate_audiences client (tx_requested_audience tx) = None")
              case True
              have "during (w_tick w) (w_tick ?w2) (w_tick w1)"
                using w1 by (simp add: during_def same_contents_def)
              then have "consent_checked sv (w_tick w) (w_tick ?w2) tx input client s"
                using False True Some Inr v1 v2 unfolding consent_checked_def by auto
              from consumed [OF this _ _ v1 v2] True False
              show ?thesis
                by (simp add: unfolds cong: sum.case_cong
                    del: validate_subset_None validate_scopes_None validate_audiences_None)
            next
              case bad: False
              then show ?thesis using False
                by (auto simp: unfolds simp del: validate_scopes_None validate_audiences_None split: option.split)
            qed
          qed
        qed
      qed
    qed
  qed
qed

lemma complete_consent_post:
  assumes "sv_store sv = ops" and "inv (w_store w)"
  shows "wp (complete_consent sv input) (consent_completion sv w input) w"
proof -
  have loaded: "wp (if ci_decision input \<noteq> ''accept'' \<and> ci_decision input \<noteq> ''deny''
         then State_Monad.return (Inl (Sent ErrInvalidDecision))
         else case validate_remember (ci_remember input) (ci_remember_for input) of
           Some e \<Rightarrow> State_Monad.return (Inl e)
         | None \<Rightarrow>
             if ci_decision input = ''deny'' then do {
               c \<leftarrow> consume sv (ci_transaction input);
               case c of
                 Inl e \<Rightarrow> State_Monad.return (Inl e)
               | Inr _ \<Rightarrow> reject_consent sv (tx_challenge tx) ''access_denied'' ''The user denied access.'' }
             else accept_consent sv tx input) (consent_completion sv w input) w1"
    if w1: "same_contents w w1" and tx: "contents (w_store w) (ci_transaction input) = Some tx"
      and pres: "tx_presented sv (w_tick w) (w_tick w1) tx FlowConsent (ci_csrf_token input) (ci_browser_state input)" for tx w1
  proof -
    have err: "consent_completion sv w input (Inl e) w1" for e
      by (rule consent_completion_error [OF same_contents_removed [OF w1]])
    have deny: "wp (consume sv (ci_transaction input)) (\<lambda>c. wp (case c of Inl e \<Rightarrow> State_Monad.return (Inl e)
        | Inr _ \<Rightarrow> reject_consent sv (tx_challenge tx) ''access_denied'' ''The user denied access.'')
          (consent_completion sv w input)) w1"
    proof (rule wp_consume [OF assms(1)])
      show "inv (w_store w1)" using w1 by (simp add: same_contents_def)
    next
      fix e w2 assume "only_removed (ci_transaction input) w1 w2"
      then show "wp (case Inl e of Inl e \<Rightarrow> State_Monad.return (Inl e)
        | Inr _ \<Rightarrow> reject_consent sv (tx_challenge tx) ''access_denied'' ''The user denied access.'')
          (consent_completion sv w input) w2"
        using consent_completion_error [OF only_removed_trans [OF w1]] by (simp add: wp)
    next
      fix tx' w2 assume c: "only_removed (ci_transaction input) w1 w2"
          "contents (w_store w2) (ci_transaction input) = None"
      show "wp (case Inr tx' of Inl e \<Rightarrow> State_Monad.return (Inl e)
        | Inr _ \<Rightarrow> reject_consent sv (tx_challenge tx) ''access_denied'' ''The user denied access.'')
          (consent_completion sv w input) w2"
        unfolding sum.case reject_consent_def Let_def wp_bind wp_port_call wp_return
        by (rule consent_completion_consumed [OF w1 c(1), where ?es1.0 = "[]"])
          (use c tx pres in \<open>auto simp: decisions_def consent_events_def\<close>)
    qed
    show ?thesis
    proof (cases "validate_remember (ci_remember input) (ci_remember_for input)")
      case (Some e)
      then show ?thesis by (simp add: wp err)
    next
      case None
      then show ?thesis
        using deny accept_consent_post [OF assms w1 tx pres None]
        by (simp add: wp err del: validate_remember_None)
    qed
  qed
  show ?thesis
    unfolding complete_consent_def wp_bind
    by (rule wp_load [OF assms], simp add: wp consent_completion_error [OF same_contents_removed],
        simp only: sum.case, erule (2) loaded)
qed

end

section \<open>Starting a flow\<close>

lemma clone_int64_id [simp]: "clone_int64 v = v"
  by (simp add: clone_int64_def split: option.split)

text \<open>
  \<open>tx_opened\<close>: how a start flow stores a transaction. The browser is given the state the
  transaction is bound to. \<open>drawn sv lo v\<close>: \<open>v\<close> is a token of the random source, read not
  before the call \<open>lo\<close>.
\<close>

definition drawn :: "'s service \<Rightarrow> nat \<Rightarrow> string \<Rightarrow> bool" where
  "drawn sv lo v \<longleftrightarrow> (\<exists>k bytes. lo \<le> k \<and> p_rand (sv_ports sv) k = Some bytes \<and> v = token_of bytes)"

lemma drawnI: "lo \<le> k \<Longrightarrow> p_rand (sv_ports sv) k = Some bytes \<Longrightarrow> drawn sv lo (token_of bytes)"
  by (auto simp: drawn_def)

lemma drawn_mono: "drawn sv lo v \<Longrightarrow> lo' \<le> lo \<Longrightarrow> drawn sv lo' v"
  unfolding drawn_def using le_trans by blast

definition tx_opened ::
  "'s service \<Rightarrow> nat \<Rightarrow> nat \<Rightarrow> flow \<Rightarrow> string \<Rightarrow> string \<Rightarrow> oauth_client \<Rightarrow> transaction \<Rightarrow> bool" where
  "tx_opened sv lo hi flow challenge browser_state oc tx \<longleftrightarrow>
     tx_flow tx = flow \<and> tx_challenge tx = challenge \<and> challenge \<noteq> []
     \<and> length (tx_csrf_token tx) = 43 \<and> drawn sv lo (tx_csrf_token tx)
     \<and> validate_opaque_token (tx_browser_state tx) = None
     \<and> (browser_state = [] \<or> tx_browser_state tx = browser_state)
     \<and> (\<exists>client. validate_client (sv_cfg sv) oc = Inr client \<and> tx_client_id tx = cc_id client)
     \<and> (\<exists>k. during lo hi k \<and> tx_expires_at tx = p_now (sv_ports sv) k + cfg_transaction_ttl (sv_cfg sv))"

lemma tx_opened_mono:
  "tx_opened sv lo hi flow c b oc tx \<Longrightarrow> hi \<le> hi' \<Longrightarrow> tx_opened sv lo hi' flow c b oc tx"
  unfolding tx_opened_def using during_mono [OF _ le_refl] by blast

text \<open>The values \<open>StartLogin\<close> resolves: the requested \<open>acr_values\<close>, or the one requested level.\<close>

definition asked_acr_values :: "login_request \<Rightarrow> string list" where
  "asked_acr_values req =
     (if lr_requested_acr_values req = [] \<and> lr_requested_aal req \<noteq> [] then [lr_requested_aal req]
      else lr_requested_acr_values req)"

definition login_opened :: "'s service \<Rightarrow> string \<Rightarrow> string \<Rightarrow> nat \<Rightarrow> nat \<Rightarrow> transaction \<Rightarrow> bool" where
  "login_opened sv challenge browser_state lo hi tx \<longleftrightarrow>
     (\<exists>k req prompts. during lo hi k \<and> p_get_login (sv_ports sv) k challenge = Inr req
          \<and> tx_opened sv lo hi FlowLogin challenge browser_state (lr_client req) tx
          \<and> parse_prompt (lr_prompt req) = Inr prompts
          \<and> tx_subject tx = lr_subject req \<and> tx_prompt tx = lr_prompt req \<and> tx_max_age tx = lr_max_age req
          \<and> resolve_acr (sv_cfg sv) (asked_acr_values req) = Inr (tx_requested_aal tx, tx_requested_acr tx)
          \<and> tx_required_aal tx = higher_aal (cfg_required_aal (sv_cfg sv)) (tx_requested_aal tx)
          \<and> \<not> ps_none prompts)"

lemma login_opened_mono: "login_opened sv c b lo hi tx \<Longrightarrow> hi \<le> hi' \<Longrightarrow> login_opened sv c b lo hi' tx"
  unfolding login_opened_def using during_mono [OF _ le_refl] tx_opened_mono by blast

definition logout_opened :: "'s service \<Rightarrow> string \<Rightarrow> string \<Rightarrow> nat \<Rightarrow> nat \<Rightarrow> transaction \<Rightarrow> bool" where
  "logout_opened sv challenge browser_state lo hi tx \<longleftrightarrow>
     (\<exists>k req client. during lo hi k \<and> p_get_logout (sv_ports sv) k challenge = Inr req
        \<and> tx_opened sv lo hi FlowLogout challenge browser_state (gr_client req) tx
        \<and> validate_client (sv_cfg sv) (gr_client req) = Inr client
        \<and> (gr_post_logout_redirect_uri req = []
            \<or> gr_post_logout_redirect_uri req \<in> set (cc_allowed_post_logout_redirects client)))"

lemma logout_opened_mono: "logout_opened sv c b lo hi tx \<Longrightarrow> hi \<le> hi' \<Longrightarrow> logout_opened sv c b lo hi' tx"
  unfolding logout_opened_def using during_mono [OF _ le_refl] tx_opened_mono by blast

definition silent_login ::
  "'s service \<Rightarrow> nat \<Rightarrow> nat \<Rightarrow> string \<Rightarrow> string \<Rightarrow> login_acceptance \<Rightarrow> bool" where
  "silent_login sv lo hi challenge c acc \<longleftrightarrow>
     c = challenge
     \<and> (\<exists>k j req client prompts aal acr. during lo hi k \<and> during lo hi j
          \<and> p_get_login (sv_ports sv) k challenge = Inr req \<and> lr_challenge req = challenge
          \<and> lr_skip req \<and> lr_subject req \<noteq> []
          \<and> validate_client (sv_cfg sv) (lr_client req) = Inr client
          \<and> parse_prompt (lr_prompt req) = Inr prompts \<and> \<not> ps_login prompts \<and> \<not> ps_select_account prompts
          \<and> resolve_acr (sv_cfg sv) (asked_acr_values req) = Inr (aal, acr)
          \<and> higher_aal (cfg_required_aal (sv_cfg sv)) aal = []
          \<and> p_authorize_login (sv_ports sv) j (login_policy_input sv (lr_subject req) (cc_id client) [] []) = Inr True
          \<and> acc = \<lparr>la_subject = lr_subject req, la_acr = acr, la_amr = [], la_remember = False,
                 la_remember_for = 0\<rparr>)"

definition login_start_events :: "'s service \<Rightarrow> string \<Rightarrow> nat \<Rightarrow> nat \<Rightarrow> event list \<Rightarrow> bool" where
  "login_start_events sv challenge lo hi es \<longleftrightarrow>
     (\<forall>c acc. AcceptLogin c acc \<in> set es \<longrightarrow> silent_login sv lo hi challenge c acc)"

lemma login_start_events_mono:
  "login_start_events sv c lo hi es \<Longrightarrow> hi \<le> hi' \<Longrightarrow> login_start_events sv c lo hi' es"
  unfolding login_start_events_def silent_login_def using during_mono [OF _ le_refl] by meson

definition consent_opened :: "'s service \<Rightarrow> string \<Rightarrow> string \<Rightarrow> nat \<Rightarrow> nat \<Rightarrow> transaction \<Rightarrow> bool" where
  "consent_opened sv challenge browser_state lo hi tx \<longleftrightarrow>
     (\<exists>k req client. during lo hi k \<and> p_get_consent (sv_ports sv) k challenge = Inr req
        \<and> tx_opened sv lo hi FlowConsent challenge browser_state (cr_client req) tx
        \<and> tx_subject tx = cr_subject req \<and> tx_subject tx \<noteq> []
        \<and> tx_required_aal tx = cfg_required_aal (sv_cfg sv)
        \<and> tx_requested_scopes tx = cr_requested_scopes req
        \<and> tx_requested_audience tx = cr_requested_audience req
        \<and> validate_client (sv_cfg sv) (cr_client req) = Inr client
        \<and> distinct (tx_requested_scopes tx) \<and> set (tx_requested_scopes tx) \<subseteq> set (cc_allowed_scopes client)
        \<and> distinct (tx_requested_audience tx) \<and> set (tx_requested_audience tx) \<subseteq> set (cc_allowed_audiences client))"

lemma consent_opened_mono: "consent_opened sv c b lo hi tx \<Longrightarrow> hi \<le> hi' \<Longrightarrow> consent_opened sv c b lo hi' tx"
  unfolding consent_opened_def using during_mono [OF _ le_refl] tx_opened_mono by blast

definition no_acceptance :: "event list \<Rightarrow> bool" where
  "no_acceptance es \<longleftrightarrow> list_all (\<lambda>e. \<not> is_acceptance e) es"

context creating_store
begin

definition opened ::
  "'s world \<Rightarrow> (transaction \<Rightarrow> bool) \<Rightarrow> redirect_result res \<Rightarrow> 's world \<Rightarrow> bool" where
  "opened w P r w' \<longleftrightarrow>
     inv (w_store w') \<and> w_log w' = w_log w \<and> w_tick w \<le> w_tick w'
     \<and> (\<forall>h tx. contents (w_store w') h = Some tx \<longrightarrow> contents (w_store w) h = Some tx
          \<or> P tx \<and> (\<forall>res. r = Inr res \<longrightarrow> rr_browser_state res = tx_browser_state tx))"

lemma opened_same: "inv (w_store w) \<Longrightarrow> w_log w' = w_log w \<Longrightarrow> w_tick w \<le> w_tick w' \<Longrightarrow> w_store w' = w_store w \<Longrightarrow> opened w P r w'"
  by (simp add: opened_def)

lemma opened_new:
  assumes "inv (w_store w')" and "w_log w' = w_log w" and "w_tick w \<le> w_tick w'"
    and "\<And>h tx'. contents (w_store w') h = Some tx' \<Longrightarrow> contents (w_store w) h = Some tx' \<or> tx' = t"
    and "P t" and "\<And>res. r = Inr res \<Longrightarrow> rr_browser_state res = tx_browser_state t"
  shows "opened w P r w'"
  using assms unfolding opened_def by blast

lemma wp_create_transaction:
  assumes "sv_store sv = ops" and "inv (w_store w)"
    and Q: "\<And>r w'. w_log w' = w_log w \<Longrightarrow> w_tick w \<le> w_tick w' \<Longrightarrow> inv (w_store w')
       \<Longrightarrow> (\<And>h tx'. contents (w_store w') h = Some tx' \<Longrightarrow> contents (w_store w) h = Some tx' \<or> tx' = tx) \<Longrightarrow> Q r w'"
  shows "wp (create_transaction sv tx) Q w"
proof -
  obtain ok_r a where a: "adm_reserve (tx_expires_at tx) (p_now (sv_ports sv) (w_tick w)) (w_admission w) = (ok_r, a)"
    by fastforce
  obtain r s' where r: "run_state (so_create ops tx) (w_store w) = (r, s')" by fastforce
  have adds: "\<forall>h. contents s' h \<in> {contents (w_store w) h, None, Some tx}"
    by (rule conjunct2 [OF create_adds [OF assms(2) r]])
  have k: "inv s'" "contents s' h = Some tx' \<Longrightarrow> contents (w_store w) h = Some tx' \<or> tx' = tx" for h tx'
    using conjunct1 [OF create_adds [OF assms(2) r]] adds [THEN spec, of h] by auto
  show ?thesis
  proof (cases ok_r)
    case False
    then show ?thesis using a assms(2) by (simp add: create_transaction_def wp) (rule Q, simp_all)
  next
    case True
    then show ?thesis using a r k
      by (cases r) (simp_all add: create_transaction_def assms(1) wp wp_on_store wp_def [of "so_create ops tx"], (rule Q; simp)+)
  qed
qed

lemma wp_new_opaque_token:
  assumes "\<And>e. Q (Inl e) (w\<lparr>w_tick := Suc (w_tick w)\<rparr>)"
    and "\<And>b. p_rand (sv_ports sv) (w_tick w) = Some b \<Longrightarrow> Q (Inr (token_of b)) (w\<lparr>w_tick := Suc (w_tick w)\<rparr>)"
  shows "wp (new_opaque_token sv) Q w"
  using assms by (simp add: new_opaque_token_def wp split: option.split)

lemma wp_start_browser_state:
  assumes "\<And>e n. w_tick w \<le> n \<Longrightarrow> Q (Inl e) (w\<lparr>w_tick := n\<rparr>)"
    and "\<And>b n. w_tick w \<le> n \<Longrightarrow> validate_opaque_token b = None \<Longrightarrow> v = [] \<or> b = v \<Longrightarrow> Q (Inr b) (w\<lparr>w_tick := n\<rparr>)"
  shows "wp (start_browser_state sv v) Q w"
proof (cases "v = []")
  case True
  have "wp (new_opaque_token sv) Q w"
  proof (rule wp_new_opaque_token)
    fix b
    have "validate_opaque_token (token_of b) = None"
      by (simp add: validate_opaque_token_def length_token_of) (simp add: token_of_def b64_round_trip)
    then show "Q (Inr (token_of b)) (w\<lparr>w_tick := Suc (w_tick w)\<rparr>)" using assms(2) [of "Suc (w_tick w)"] True by simp
  qed (simp add: assms(1))
  then show ?thesis using True by (simp add: start_browser_state_def)
next
  case False
  have "Q x w" if "\<And>n. w_tick w \<le> n \<Longrightarrow> Q x (w\<lparr>w_tick := n\<rparr>)" for x
    using that [of "w_tick w"] by simp
  then show ?thesis using False assms
    by (simp add: start_browser_state_def wp split: option.split)
qed

lemma open_transaction_post:
  assumes "sv_store sv = ops" and "inv (w_store w)"
    and P: "\<And>b c n. validate_opaque_token b = None \<Longrightarrow> browser_state = [] \<or> b = browser_state \<Longrightarrow>
        w_tick w \<le> n \<Longrightarrow> p_rand (sv_ports sv) n = Some c \<Longrightarrow>
        P (tx\<lparr>tx_browser_state := b, tx_csrf_token := token_of c\<rparr>)"
  shows "wp (open_transaction sv browser_state tx redirect) (opened w P) w"
  unfolding open_transaction_def wp_bind
proof (rule wp_start_browser_state)
  fix b n assume n: "w_tick w \<le> n" and b: "validate_opaque_token b = None" "browser_state = [] \<or> b = browser_state"
  show "wp (case Inr b of Inl e \<Rightarrow> State_Monad.return (Inl e)
     | Inr bound \<Rightarrow> do {
         t \<leftarrow> new_opaque_token sv;
         case t of
           Inl e \<Rightarrow> State_Monad.return (Inl e)
         | Inr csrf \<Rightarrow> do {
             h \<leftarrow> create_transaction sv (tx\<lparr>tx_browser_state := bound, tx_csrf_token := csrf\<rparr>);
             case h of
               Inl e \<Rightarrow> State_Monad.return (Inl e)
             | Inr handle \<Rightarrow> State_Monad.return (handoff bound (redirect handle csrf)) }})
      (opened w P) (w\<lparr>w_tick := n\<rparr>)"
    unfolding sum.case wp_bind
  proof (rule wp_new_opaque_token)
    fix c assume c: "p_rand (sv_ports sv) (w_tick (w\<lparr>w_tick := n\<rparr>)) = Some c"
    show "wp (case Inr (token_of c) of
           Inl e \<Rightarrow> State_Monad.return (Inl e)
         | Inr csrf \<Rightarrow> do {
             h \<leftarrow> create_transaction sv (tx\<lparr>tx_browser_state := b, tx_csrf_token := csrf\<rparr>);
             case h of
               Inl e \<Rightarrow> State_Monad.return (Inl e)
             | Inr handle \<Rightarrow> State_Monad.return (handoff b (redirect handle csrf)) })
        (opened w P) (w\<lparr>w_tick := n, w_tick := Suc (w_tick (w\<lparr>w_tick := n\<rparr>))\<rparr>)"
      unfolding sum.case wp_bind
    proof (rule wp_create_transaction [OF assms(1)])
      fix r and w' :: "'s world"
      assume "w_log w' = w_log (w\<lparr>w_tick := n, w_tick := Suc (w_tick (w\<lparr>w_tick := n\<rparr>))\<rparr>)"
        "w_tick (w\<lparr>w_tick := n, w_tick := Suc (w_tick (w\<lparr>w_tick := n\<rparr>))\<rparr>) \<le> w_tick w'" "inv (w_store w')"
        and "\<And>h tx'. contents (w_store w') h = Some tx'
          \<Longrightarrow> contents (w_store (w\<lparr>w_tick := n, w_tick := Suc (w_tick (w\<lparr>w_tick := n\<rparr>))\<rparr>)) h = Some tx'
            \<or> tx' = tx\<lparr>tx_browser_state := b, tx_csrf_token := token_of c\<rparr>"
      then show "wp (case r of Inl e \<Rightarrow> State_Monad.return (Inl e)
             | Inr handle \<Rightarrow> State_Monad.return (handoff b (redirect handle (token_of c)))) (opened w P) w'"
        using n
        by (cases r) (auto simp: wp handoff_def intro!: P [OF b n] c [simplified]
            opened_new [where t = "tx\<lparr>tx_browser_state := b, tx_csrf_token := token_of c\<rparr>" and P = P] split: sum.splits)
    qed (simp add: assms(2))
  qed (use n in \<open>simp add: wp opened_same assms(2)\<close>)
qed (simp add: wp opened_same assms(2))


text \<open>
  The outcome of a start flow: calls to other systems, and new transactions as \<open>P\<close>
  describes them. When Hydra is told a decision, no transaction is stored. \<open>later P\<close>:
  what \<open>P\<close> says up to a call number stays true up to a later one.
\<close>

definition later :: "(nat \<Rightarrow> nat \<Rightarrow> 'a \<Rightarrow> bool) \<Rightarrow> bool" where
  "later P \<longleftrightarrow> (\<forall>lo hi hi' x. P lo hi x \<longrightarrow> hi \<le> hi' \<longrightarrow> P lo hi' x)"

lemma laterD: "later P \<Longrightarrow> P lo hi x \<Longrightarrow> hi \<le> hi' \<Longrightarrow> P lo hi' x"
  by (auto simp: later_def)

definition started ::
  "'s world \<Rightarrow> (nat \<Rightarrow> nat \<Rightarrow> transaction \<Rightarrow> bool) \<Rightarrow> (nat \<Rightarrow> nat \<Rightarrow> event list \<Rightarrow> bool)
     \<Rightarrow> redirect_result res \<Rightarrow> 's world \<Rightarrow> bool" where
  "started w P E r w' \<longleftrightarrow>
     (\<exists>es. w_log w' = w_log w @ es \<and> E (w_tick w) (w_tick w') es \<and> length (decisions es) \<le> 1
        \<and> opened w (P (w_tick w) (w_tick w')) r (w'\<lparr>w_log := w_log w\<rparr>)
        \<and> (decisions es \<noteq> [] \<longrightarrow> w_store w' = w_store w))"

lemma started_stay:
  "inv (w_store w) \<Longrightarrow> w_log w' = w_log w @ es \<Longrightarrow> w_tick w \<le> w_tick w' \<Longrightarrow> w_store w' = w_store w
     \<Longrightarrow> E (w_tick w) (w_tick w') es \<Longrightarrow> length (decisions es) \<le> 1 \<Longrightarrow> started w P E r w'"
  by (simp add: started_def opened_def)

lemma started_opened:
  assumes "opened w1 (P (w_tick w) (w_tick w1)) r w'" and "w_log w1 = w_log w @ es" and "w_tick w \<le> w_tick w1"
    and "w_store w1 = w_store w" and "E (w_tick w) (w_tick w1) es" and "decisions es = []"
    and "later P" and "later E"
  shows "started w P E r w'"
proof -
  have le: "w_tick w1 \<le> w_tick w'" using assms(1) by (simp add: opened_def)
  have "P (w_tick w) (w_tick w1) tx \<Longrightarrow> P (w_tick w) (w_tick w') tx" for tx
    by (rule laterD [OF assms(7) _ le])
  moreover have "E (w_tick w) (w_tick w') es" by (rule laterD [OF assms(8,5) le])
  ultimately show ?thesis using assms(1-4,6) le unfolding started_def opened_def by fastforce
qed

lemma wp_open_started:
  assumes "sv_store sv = ops" and "inv (w_store w)"
    and "w_log w1 = w_log w @ es" and "w_tick w \<le> w_tick w1" and "w_store w1 = w_store w"
    and "E (w_tick w) (w_tick w1) es" and "decisions es = []" and "later P" and "later E"
    and "\<And>b c n. validate_opaque_token b = None \<Longrightarrow> browser_state = [] \<or> b = browser_state \<Longrightarrow>
        w_tick w \<le> n \<Longrightarrow> p_rand (sv_ports sv) n = Some c \<Longrightarrow>
        P (w_tick w) (w_tick w1) (tx\<lparr>tx_browser_state := b, tx_csrf_token := token_of c\<rparr>)"
  shows "wp (open_transaction sv browser_state tx redirect) (started w P E) w1"
proof (rule wp_mono [OF open_transaction_post [where P = "P (w_tick w) (w_tick w1)", OF assms(1)]])
  show "inv (w_store w1)" using assms(2,5) by simp
next
  fix r w' assume "opened w1 (P (w_tick w) (w_tick w1)) r w'"
  then show "started w P E r w'" using assms(3-9) by (rule started_opened)
next
  fix b c n assume "validate_opaque_token b = None" "browser_state = [] \<or> b = browser_state" "w_tick w1 \<le> n"
    "p_rand (sv_ports sv) n = Some c"
  then show "P (w_tick w) (w_tick w1) (tx\<lparr>tx_browser_state := b, tx_csrf_token := token_of c\<rparr>)"
    using assms(4) by (intro assms(10)) simp_all
qed

lemma later_rules:
  "later (login_opened sv c b)" "later (consent_opened sv c b)" "later (logout_opened sv c b)"
  "later (login_start_events sv c)" "later (\<lambda>lo hi. E)"
  by (auto simp: later_def intro: login_opened_mono consent_opened_mono logout_opened_mono login_start_events_mono)

lemma start_login_post:
  assumes "sv_store sv = ops" and "inv (w_store w)"
  shows "wp (start_login sv challenge browser_state)
      (started w (login_opened sv challenge browser_state) (login_start_events sv challenge)) w"
proof -
  let ?Q = "started w (login_opened sv challenge browser_state) (login_start_events sv challenge)"
  let ?g = "GetLogin challenge"
  let ?w1 = "w\<lparr>w_tick := Suc (w_tick w), w_log := w_log w @ [?g]\<rparr>"
  have stay: "?Q r w'" if "w_log w' = w_log w @ es" "w_store w' = w_store w"
      "\<forall>c acc. AcceptLogin c acc \<in> set es \<longrightarrow> silent_login sv (w_tick w) (w_tick w') challenge c acc"
      "length (decisions es) \<le> 1" "w_tick w \<le> w_tick w'" for r w' es
    by (rule started_stay [OF assms(2) that(1,5,2) _ that(4)]) (simp add: login_start_events_def that(3))
  have e0: "?Q (Inl e) w" for e by (rule stay [of _ "[]"]) (simp_all add: decisions_def)
  have e1: "?Q (Inl e) ?w1" for e by (rule stay [of _ "[?g]"]) (simp_all add: decisions_def)
  show ?thesis
  proof (cases "validate_challenge challenge (effective_max_challenge_length (sv_cfg sv))")
    case (Some e)
    then show ?thesis by (simp add: start_login_def wp e0)
  next
    case None
    have ch: "challenge \<noteq> []" using None by (auto simp: validate_challenge_def split: if_splits)
    show ?thesis
    proof (cases "p_get_login (sv_ports sv) (w_tick w) challenge")
      case (Inl e)
      then show ?thesis by (simp add: start_login_def wp e1 None)
    next
      case (Inr req)
      define vals where "vals = (if lr_requested_acr_values req = [] \<and> lr_requested_aal req \<noteq> []
          then [lr_requested_aal req] else lr_requested_acr_values req)"
      note u = start_login_def Let_def wp e1 None Inr vals_def [symmetric]
      show ?thesis
      proof (cases "lr_challenge req = challenge")
        case False
        then show ?thesis by (simp add: u)
      next
        case same: True
        note u = u same
        show ?thesis
        proof (cases "validate_client (sv_cfg sv) (lr_client req)")
          case (Inl e)
          then show ?thesis by (simp add: u)
        next
          case client: (Inr client)
          note u = u client
          show ?thesis
          proof (cases "lr_subject req = [] \<and> lr_skip req")
            case True
            then show ?thesis by (simp add: u)
          next
            case subj: False
            note u = u subj
            show ?thesis
            proof (cases "resolve_acr (sv_cfg sv) vals")
              case (Inl e)
              then show ?thesis using subj by (simp add: u)
            next
              case acr: (Inr acrs)
              obtain raal racr where acrs: "acrs = (raal, racr)" by (cases acrs)
              note u = u acr acrs
              show ?thesis
              proof (cases "parse_prompt (lr_prompt req)")
                case (Inl e)
                then show ?thesis using subj by (simp add: u)
              next
                case pr: (Inr prompts)
                note u = u pr
                define raal' where "raal' = higher_aal (cfg_required_aal (sv_cfg sv)) raal"
                note u = u raal'_def [symmetric]
                show ?thesis
                proof (cases "case lr_max_age req of Some m \<Rightarrow> m < 0 | None \<Rightarrow> False")
                  case True
                  then show ?thesis using subj by (simp add: u)
                next
                  case age: False
                  note u = u age
                  show ?thesis
                  proof (cases "ps_none prompts \<and> (\<not> lr_skip req \<or> raal' \<noteq> [])")
                    case True
                    have "?Q r (w\<lparr>w_tick := Suc (Suc (w_tick w)), w_log := w_log w @ [?g, RejectLogin challenge x]\<rparr>)" for r x
                      by (rule stay [of _ "[?g, RejectLogin challenge x]"]) (simp_all add: decisions_def)
                    then show ?thesis using True subj by (simp add: u reject_login_def)
                  next
                    case silent: False
                    show ?thesis
                    proof (cases "lr_skip req \<and> \<not> (ps_login prompts \<or> ps_select_account prompts) \<and> raal' = []")
                      case True
                      let ?acc = "\<lparr>la_subject = lr_subject req, la_acr = racr, la_amr = [], la_remember = False,
                          la_remember_for = 0\<rparr>"
                      have just: "silent_login sv (w_tick w) hi challenge challenge ?acc"
                        if "w_tick w \<le> j" "j < hi" "p_authorize_login (sv_ports sv) j (login_policy_input sv (lr_subject req) (cc_id client) [] []) = Inr True" for j hi
                        unfolding silent_login_def
                        by (intro conjI exI [of _ "w_tick w"] exI [of _ j] exI [of _ req] exI [of _ client]
                            exI [of _ prompts] exI [of _ raal] exI [of _ racr])
                          (use that True subj Inr same client pr acr in
                            \<open>simp_all add: acrs raal'_def during_def asked_acr_values_def vals_def\<close>)
                      show ?thesis
                        using True subj
                        by (simp add: u accept_remembered_login_def reject_login_failure_def reject_login_def
                            split: sum.split)
                          (auto intro!: stay simp: decisions_def just [of "Suc (w_tick w)"])
                    next
                      case interactive: False
                      let ?w2 = "?w1\<lparr>w_tick := Suc (w_tick ?w1)\<rparr>"
                      have "wp (open_transaction sv browser_state
                          (empty_transaction\<lparr>tx_flow := FlowLogin, tx_challenge := challenge,
                             tx_client_id := cc_id client, tx_subject := lr_subject req,
                             tx_requested_aal := raal, tx_requested_acr := racr,
                             tx_prompt := lr_prompt req, tx_max_age := clone_int64 (lr_max_age req),
                             tx_started_at := p_now (sv_ports sv) (w_tick ?w1), tx_required_aal := raal',
                             tx_expires_at := p_now (sv_ports sv) (w_tick ?w1) + cfg_transaction_ttl (sv_cfg sv)\<rparr>)
                          redirect) ?Q ?w2" for redirect
                      proof (rule wp_open_started [OF assms, where es = "[?g]"])
                        fix b c n assume b: "validate_opaque_token b = None" "browser_state = [] \<or> b = browser_state"
                          "w_tick w \<le> n" "p_rand (sv_ports sv) n = Some c"
                        show "login_opened sv challenge browser_state (w_tick w) (w_tick ?w2)
                            (empty_transaction\<lparr>tx_flow := FlowLogin, tx_challenge := challenge,
                             tx_client_id := cc_id client, tx_subject := lr_subject req,
                             tx_requested_aal := raal, tx_requested_acr := racr,
                             tx_prompt := lr_prompt req, tx_max_age := clone_int64 (lr_max_age req),
                             tx_started_at := p_now (sv_ports sv) (w_tick ?w1), tx_required_aal := raal',
                             tx_expires_at := p_now (sv_ports sv) (w_tick ?w1) + cfg_transaction_ttl (sv_cfg sv),
                             tx_browser_state := b, tx_csrf_token := token_of c\<rparr>)"
                          unfolding login_opened_def
                        proof (intro conjI exI [of _ "w_tick w"] exI [of _ req] exI [of _ prompts])
                        qed (use b ch client Inr pr acr [unfolded acrs] silent interactive parse_prompt_none_alone [OF pr]
                            in \<open>auto simp: asked_acr_values_def vals_def tx_opened_def length_token_of drawnI [OF b(3,4)] raal'_def during_def
                              intro!: exI [of _ "Suc (w_tick w)"]\<close>)
                      qed (simp_all add: decisions_def login_start_events_def later_rules)
                      then show ?thesis using silent interactive subj by (auto simp: u)
                    qed
                  qed
                qed
              qed
            qed
          qed
        qed
      qed
    qed
  qed
qed


lemma start_consent_post:
  assumes "sv_store sv = ops" and "inv (w_store w)"
  shows "wp (start_consent sv challenge browser_state)
      (started w (consent_opened sv challenge browser_state) (\<lambda>lo hi. no_acceptance)) w"
proof -
  let ?Q = "started w (consent_opened sv challenge browser_state) (\<lambda>lo hi. no_acceptance)"
  let ?g = "GetConsent challenge"
  let ?w1 = "w\<lparr>w_tick := Suc (w_tick w), w_log := w_log w @ [?g]\<rparr>"
  have e0: "?Q (Inl e) w" for e
    by (rule started_stay [OF assms(2), of _ "[]"]) (simp_all add: decisions_def no_acceptance_def)
  have e1: "?Q (Inl e) ?w1" for e
    by (rule started_stay [OF assms(2), of _ "[?g]"]) (simp_all add: decisions_def no_acceptance_def)
  show ?thesis
  proof (cases "validate_challenge challenge (effective_max_challenge_length (sv_cfg sv))")
    case (Some e)
    then show ?thesis by (simp add: start_consent_def wp e0)
  next
    case None
    have ch: "challenge \<noteq> []" using None by (auto simp: validate_challenge_def split: if_splits)
    show ?thesis
    proof (cases "p_get_consent (sv_ports sv) (w_tick w) challenge")
      case (Inl e)
      then show ?thesis by (simp add: start_consent_def wp e1 None)
    next
      case (Inr req)
      note u = start_consent_def Let_def wp e1 None Inr
      show ?thesis
      proof (cases "cr_challenge req = challenge")
        case False
        then show ?thesis by (simp add: u)
      next
        case same: True
        note u = u same
        show ?thesis
        proof (cases "validate_client (sv_cfg sv) (cr_client req)")
          case (Inl e)
          then show ?thesis by (simp add: u)
        next
          case client: (Inr client)
          note u = u client
          show ?thesis
          proof (cases "cr_subject req = []")
            case True
            then show ?thesis by (simp add: u)
          next
            case subj: False
            note u = u subj
            show ?thesis
            proof (cases "validate_scopes client (cr_requested_scopes req) = None
                \<and> validate_audiences client (cr_requested_audience req) = None")
              case False
              then show ?thesis
                by (auto simp: u simp del: validate_scopes_None validate_audiences_None split: option.split)
            next
              case valid: True
              have v: "validate_scopes client (cr_requested_scopes req) = None"
                "validate_audiences client (cr_requested_audience req) = None" using valid by simp_all
              note u = u v
              show ?thesis
              proof (cases "parse_prompt (cr_prompt req)")
                case (Inl e)
                then show ?thesis by (simp add: u)
              next
                case pr: (Inr prompts)
                note u = u pr
                show ?thesis
                proof (cases "ps_none prompts \<and> \<not> cr_skip req \<and> \<not> cc_skip_consent client")
                  case True
                  have "?Q r (w\<lparr>w_tick := Suc (Suc (w_tick w)), w_log := w_log w @ [?g, RejectConsent challenge x]\<rparr>)" for r x
                    by (rule started_stay [OF assms(2), of _ "[?g, RejectConsent challenge x]"])
                      (simp_all add: decisions_def no_acceptance_def)
                  then show ?thesis using True by (simp add: u reject_consent_def)
                next
                  case interactive: False
                  let ?w2 = "?w1\<lparr>w_tick := Suc (w_tick ?w1)\<rparr>"
                  have "wp (open_transaction sv browser_state
                      (empty_transaction\<lparr>tx_flow := FlowConsent, tx_challenge := challenge,
                         tx_client_id := cc_id client, tx_subject := cr_subject req,
                         tx_requested_scopes := cr_requested_scopes req,
                         tx_requested_audience := cr_requested_audience req,
                         tx_required_aal := cfg_required_aal (sv_cfg sv),
                         tx_expires_at := p_now (sv_ports sv) (w_tick ?w1) + cfg_transaction_ttl (sv_cfg sv)\<rparr>)
                      redirect) ?Q ?w2" for redirect
                  proof (rule wp_open_started [OF assms, of _ "[?g]"])
                    fix b c n assume b: "validate_opaque_token b = None" "browser_state = [] \<or> b = browser_state"
                          "w_tick w \<le> n" "p_rand (sv_ports sv) n = Some c"
                    show "consent_opened sv challenge browser_state (w_tick w) (w_tick ?w2)
                      (empty_transaction\<lparr>tx_flow := FlowConsent, tx_challenge := challenge,
                         tx_client_id := cc_id client, tx_subject := cr_subject req,
                         tx_requested_scopes := cr_requested_scopes req,
                         tx_requested_audience := cr_requested_audience req,
                         tx_required_aal := cfg_required_aal (sv_cfg sv),
                         tx_expires_at := p_now (sv_ports sv) (w_tick ?w1) + cfg_transaction_ttl (sv_cfg sv),
                         tx_browser_state := b, tx_csrf_token := token_of c\<rparr>)"
                      unfolding consent_opened_def
                      by (intro conjI exI [of _ "w_tick w"] exI [of _ req] exI [of _ client])
                        (use b ch client subj v Inr in \<open>auto simp: tx_opened_def length_token_of drawnI [OF b(3,4)] during_def
                            intro!: exI [of _ "Suc (w_tick w)"]\<close>)
                  qed (simp_all add: decisions_def no_acceptance_def later_rules)
                  then show ?thesis using interactive by (auto simp: u)
                qed
              qed
            qed
          qed
        qed
      qed
    qed
  qed
qed


lemma start_logout_post:
  assumes "sv_store sv = ops" and "inv (w_store w)"
  shows "wp (start_logout sv challenge browser_state)
      (started w (logout_opened sv challenge browser_state) (\<lambda>lo hi es. decisions es = [])) w"
proof -
  let ?Q = "started w (logout_opened sv challenge browser_state) (\<lambda>lo hi es. decisions es = [])"
  let ?g = "GetLogout challenge"
  let ?w1 = "w\<lparr>w_tick := Suc (w_tick w), w_log := w_log w @ [?g]\<rparr>"
  have e0: "?Q (Inl e) w" for e
    by (rule started_stay [OF assms(2), of _ "[]"]) (simp_all add: decisions_def)
  have e1: "?Q (Inl e) ?w1" for e
    by (rule started_stay [OF assms(2), of _ "[?g]"]) (simp_all add: decisions_def)
  show ?thesis
  proof (cases "validate_challenge challenge (effective_max_challenge_length (sv_cfg sv))")
    case (Some e)
    then show ?thesis by (simp add: start_logout_def wp e0)
  next
    case None
    have ch: "challenge \<noteq> []" using None by (auto simp: validate_challenge_def split: if_splits)
    show ?thesis
    proof (cases "p_get_logout (sv_ports sv) (w_tick w) challenge")
      case (Inl e)
      then show ?thesis by (simp add: start_logout_def wp e1 None)
    next
      case (Inr req)
      note u = start_logout_def Let_def wp e1 None Inr
      show ?thesis
      proof (cases "validate_client (sv_cfg sv) (gr_client req)")
        case (Inl e)
        then show ?thesis by (simp add: u)
      next
        case client: (Inr client)
        show ?thesis
        proof (cases "gr_post_logout_redirect_uri req = []
            \<or> gr_post_logout_redirect_uri req \<in> set (cc_allowed_post_logout_redirects client)")
          case False
          then show ?thesis using client by (simp add: u)
        next
          case post: True
          let ?w2 = "?w1\<lparr>w_tick := Suc (w_tick ?w1)\<rparr>"
          have "wp (open_transaction sv browser_state
              (empty_transaction\<lparr>tx_flow := FlowLogout, tx_challenge := challenge,
                 tx_client_id := cc_id client,
                 tx_expires_at := p_now (sv_ports sv) (w_tick ?w1) + cfg_transaction_ttl (sv_cfg sv)\<rparr>)
              redirect) ?Q ?w2" for redirect
          proof (rule wp_open_started [OF assms, of _ "[?g]"])
            fix b c n assume b: "validate_opaque_token b = None" "browser_state = [] \<or> b = browser_state"
                          "w_tick w \<le> n" "p_rand (sv_ports sv) n = Some c"
            show "logout_opened sv challenge browser_state (w_tick w) (w_tick ?w2)
                (empty_transaction\<lparr>tx_flow := FlowLogout, tx_challenge := challenge,
                 tx_client_id := cc_id client,
                 tx_expires_at := p_now (sv_ports sv) (w_tick ?w1) + cfg_transaction_ttl (sv_cfg sv),
                 tx_browser_state := b, tx_csrf_token := token_of c\<rparr>)"
              unfolding logout_opened_def
              by (intro conjI exI [of _ "w_tick w"] exI [of _ req] exI [of _ client])
                (use b ch client Inr post in \<open>auto simp: tx_opened_def length_token_of drawnI [OF b(3,4)] during_def
                    intro!: exI [of _ "Suc (w_tick w)"]\<close>)
          qed (simp_all add: decisions_def later_rules)
          then show ?thesis using client by (auto simp: u)
        qed
      qed
    qed
  qed
qed

end

end
