(* ===== verification/Flows.thy ===== *)
theory Flows
  imports ServiceProps
begin

text \<open>
  The properties of the provider flows over the memory store: what Hydra may be told and
  when, that a consumed handle is useless, what a start flow stores, and that a flow whose
  checks pass does succeed. They instantiate the lemmas of theory \<open>ServiceProps\<close> at
  the interpretation \<open>mem\<close> of the store contract.
\<close>

section \<open>Outcomes over the memory store\<close>

text \<open>
  The calls a flow makes to Hydra, Kratos and the policy when it runs in the world \<open>w\<close>,
  and the store it leaves behind.
\<close>

definition calls_of :: "('s world, 'a) state \<Rightarrow> 's world \<Rightarrow> event list" where
  "calls_of m w = drop (length (w_log w)) (w_log (snd (run_state m w)))"

definition store_after :: "(mem_store world, 'a) state \<Rightarrow> mem_store world \<Rightarrow> string \<Rightarrow> transaction option" where
  "store_after m w = mem_contents (w_store (snd (run_state m w)))"

text \<open>
  The number of the first call after a flow. The calls of a flow that runs in \<open>w\<close> are
  those with a number \<open>during (w_tick w) (end_tick m w)\<close>.
\<close>

definition end_tick :: "('s world, 'a) state \<Rightarrow> 's world \<Rightarrow> nat" where
  "end_tick m w = w_tick (snd (run_state m w))"

lemma calls_of_append: "w_log (snd (run_state m w)) = w_log w @ es \<Longrightarrow> calls_of m w = es"
  by (simp add: calls_of_def)

lemma wp_snd: "wp m Q w \<Longrightarrow> Q (fst (run_state m w)) (snd (run_state m w))"
  by (simp add: wp_def case_prod_beta)

lemma completion_cases:
  assumes "mem.completion w h P (fst (run_state m w)) (snd (run_state m w))"
  shows "calls_of m w = [] \<and> (\<exists>e. fst (run_state m w) = Inl e)
    \<or> (\<exists>tx. mem_contents (w_store w) h = Some tx \<and> store_after m w h = None
          \<and> P (w_tick w) (end_tick m w) tx (calls_of m w))"
  using assms by (auto simp: mem.completion_def calls_of_def store_after_def end_tick_def)

lemmas login_cases = completion_cases [OF wp_snd [OF mem.complete_login_post]]
lemmas logout_cases = completion_cases [OF wp_snd [OF mem.complete_logout_post]]

lemma consent_cases:
  assumes "sv_store sv = mem_ops" and "mem_inv (w_store w)"
  shows "calls_of (complete_consent sv input) w = [] \<and> (\<exists>e. fst (run_state (complete_consent sv input) w) = Inl e)
    \<or> (\<exists>tx. mem_contents (w_store w) (ci_transaction input) = Some tx
         \<and> tx_presented sv (w_tick w) (end_tick (complete_consent sv input) w) tx FlowConsent
              (ci_csrf_token input) (ci_browser_state input)
         \<and> consent_events sv (w_tick w) (end_tick (complete_consent sv input) w) tx input
              (calls_of (complete_consent sv input) w)
         \<and> (decisions (calls_of (complete_consent sv input) w) = []
            \<or> (\<exists>rj. decisions (calls_of (complete_consent sv input) w) = [RejectConsent (tx_challenge tx) rj])
            \<or> store_after (complete_consent sv input) w (ci_transaction input) = None))"
proof -
  let ?m = "complete_consent sv input"
  have "mem.consent_completion sv w input (fst (run_state ?m w)) (snd (run_state ?m w))"
    by (rule wp_snd [OF mem.complete_consent_post [OF assms]])
  then consider "w_log (snd (run_state ?m w)) = w_log w" "\<exists>e. fst (run_state ?m w) = Inl e"
    | es tx where "w_log (snd (run_state ?m w)) = w_log w @ es"
        "mem_contents (w_store w) (ci_transaction input) = Some tx"
        "tx_presented sv (w_tick w) (end_tick ?m w) tx FlowConsent (ci_csrf_token input) (ci_browser_state input)"
        "consent_events sv (w_tick w) (end_tick ?m w) tx input es"
        "decisions es = [] \<or> (\<exists>rj. decisions es = [RejectConsent (tx_challenge tx) rj])
          \<or> mem_contents (w_store (snd (run_state ?m w))) (ci_transaction input) = None"
    unfolding mem.consent_completion_def end_tick_def by blast
  then show ?thesis
  proof cases
    case 1
    then show ?thesis by (simp add: calls_of_def)
  next
    case (2 es tx)
    then show ?thesis using calls_of_append [OF 2(1)] by (auto simp: store_after_def)
  qed
qed

lemma started_cases:
  assumes "mem.started w P E (fst (run_state m w)) (snd (run_state m w))"
  shows "E (w_tick w) (end_tick m w) (calls_of m w)" and "length (decisions (calls_of m w)) \<le> 1"
    and "store_after m w h = Some tx \<Longrightarrow> mem_contents (w_store w) h = Some tx
      \<or> P (w_tick w) (end_tick m w) tx \<and> (\<forall>res. fst (run_state m w) = Inr res \<longrightarrow> rr_browser_state res = tx_browser_state tx)"
    and "decisions (calls_of m w) \<noteq> [] \<Longrightarrow> store_after m w = mem_contents (w_store w)"
  using assms by (auto simp: mem.started_def mem.opened_def calls_of_def store_after_def end_tick_def)

section \<open>A flow whose checks pass\<close>

text \<open>
  \<open>redeemable\<close>: a stored transaction that has not expired for the clocks of the store and
  of the service; \<open>presentable\<close>: it is presented for its flow with its token by its
  browser.
\<close>

definition redeemable :: "mem_store service \<Rightarrow> mem_store world \<Rightarrow> string \<Rightarrow> transaction \<Rightarrow> bool" where
  "redeemable sv w h tx \<longleftrightarrow>
     h \<noteq> [] \<and> length h \<le> 256 \<and> mem_contents (w_store w) h = Some tx
     \<and> ms_now (w_store w) (ms_tick (w_store w)) < tx_expires_at tx
     \<and> ms_now (w_store w) (Suc (ms_tick (w_store w))) < tx_expires_at tx
     \<and> p_now (sv_ports sv) (w_tick w) < tx_expires_at tx"

definition presentable :: "transaction \<Rightarrow> flow \<Rightarrow> string \<Rightarrow> string \<Rightarrow> bool" where
  "presentable tx flow csrf browser_state \<longleftrightarrow>
     tx_flow tx = flow \<and> tx_challenge tx \<noteq> [] \<and> tx_client_id tx \<noteq> [] \<and> csrf \<noteq> []
     \<and> csrf = tx_csrf_token tx \<and> validate_opaque_token browser_state = None
     \<and> browser_state = tx_browser_state tx"

definition loaded_world :: "mem_store world \<Rightarrow> mem_store world" where
  "loaded_world w = w\<lparr>w_store := (w_store w)\<lparr>ms_tick := Suc (ms_tick (w_store w))\<rparr>, w_tick := Suc (w_tick w)\<rparr>"

definition consumed_world :: "string \<Rightarrow> mem_store world \<Rightarrow> mem_store world" where
  "consumed_world h w = w\<lparr>w_store := (w_store w)\<lparr>ms_data := map_del h (ms_data (w_store w)),
     ms_tick := Suc (ms_tick (w_store w))\<rparr>, w_admission := adm_release h (w_admission w)\<rparr>"

lemma wp_load_mem:
  assumes "sv_store sv = mem_ops" and "redeemable sv w h tx" and "presentable tx flow csrf b"
  shows "wp (load sv h flow csrf b) Q w = Q (Inr tx) (loaded_world w)"
proof -
  have "length b = 43" using assms(3) by (auto simp: presentable_def validate_opaque_token_def split: if_splits)
  then have v: "tx_browser_state tx \<noteq> []" "tx_csrf_token tx \<noteq> []" "validate_csrf csrf (tx_csrf_token tx) = None"
    "validate_browser_state b (tx_browser_state tx) = None"
    using assms(3) by (auto simp: presentable_def validate_browser_state_None)
  moreover have "tx_flow tx = flow" "tx_challenge tx \<noteq> []" "tx_client_id tx \<noteq> []"
    using assms(3) by (simp_all add: presentable_def)
  ultimately show ?thesis using assms(1,2)
    by (simp add: load_def mem_ops_def mem_get_def wp wp_on_store redeemable_def mem_contents_def after_def
        loaded_world_def del: validate_csrf_None)
qed

lemma wp_consume_mem:
  assumes "sv_store sv = mem_ops" and "h \<noteq> []" and "mem_contents (w_store w) h = Some tx"
    and "ms_now (w_store w) (ms_tick (w_store w)) < tx_expires_at tx"
  shows "wp (consume sv h) Q w = Q (Inr tx) (consumed_world h w)"
  using assms
  by (simp add: consume_def mem_ops_def mem_consume_def wp wp_on_store mem_contents_def after_def consumed_world_def)

lemma wp_load_consume:
  assumes "sv_store sv = mem_ops" and "redeemable sv w h tx"
  shows "wp (consume sv h) Q (loaded_world w) = Q (Inr tx) (consumed_world h (loaded_world w))"
  using assms by (intro wp_consume_mem) (simp_all add: redeemable_def loaded_world_def mem_contents_def)

lemma consumed_loaded [simp]:
  "w_tick (consumed_world h (loaded_world w)) = Suc (w_tick w)"
  "w_log (consumed_world h (loaded_world w)) = w_log w"
  "mem_contents (w_store (consumed_world h w)) h = None"
  by (simp_all add: consumed_world_def loaded_world_def mem_contents_def gomap)

text \<open>What a run told the other systems, what it returned and what it left under a handle.\<close>

lemma outcomeI:
  assumes "wp m (\<lambda>r w'. r = res \<and> w_log w' = w_log w @ es \<and> mem_contents (w_store w') h = c) w"
  shows "calls_of m w = es \<and> fst (run_state m w) = res \<and> store_after m w h = c"
  using wp_snd [OF assms] by (simp add: calls_of_append store_after_def)

lemma complete_login_run:
  assumes "sv_store sv = mem_ops" and "redeemable sv w h tx"
    and "presentable tx FlowLogin (li_csrf_token input) (li_browser_state input)"
    and "validate_remember (li_remember input) (li_remember_for input) = None"
    and "p_validate_session (sv_ports sv) (w_tick w + 1) (li_credentials input) = Inr s"
    and "tx_subject tx = [] \<or> se_subject s = tx_subject tx"
    and "validate_login_freshness tx s (p_now (sv_ports sv) (w_tick w + 2)) = None"
    and "aal_at_least (se_aal s) (higher_aal (cfg_required_aal (sv_cfg sv)) (tx_requested_aal tx))"
    and "p_authorize_login (sv_ports sv) (w_tick w + 3)
      (login_policy_input sv (se_subject s) (tx_client_id tx) (se_aal s) (se_amr s)) = Inr True"
    and "acc = \<lparr>la_subject = se_subject s, la_acr = login_acceptance_acr tx s, la_amr = se_amr s,
      la_remember = li_remember input, la_remember_for = li_remember_for input\<rparr>"
  shows "wp (complete_login sv h input) (\<lambda>r w'.
      r = hydra_redirect (sv_cfg sv) (p_accept_login (sv_ports sv) (w_tick w + 4) (tx_challenge tx) acc)
      \<and> w_log w' = w_log w @ [ValidateSession (li_credentials input),
           AuthorizeLogin (login_policy_input sv (se_subject s) (tx_client_id tx) (se_aal s) (se_amr s)),
           AcceptLogin (tx_challenge tx) acc]
      \<and> mem_contents (w_store w') h = None) w"
proof -
  have n: "w_tick w + 2 = Suc (Suc (w_tick w))" "w_tick w + 3 = Suc (Suc (Suc (w_tick w)))"
    "w_tick w + 4 = Suc (Suc (Suc (Suc (w_tick w))))" by simp_all
  show ?thesis
    using assms(4-9) unfolding n assms(10)
    by (auto simp add: complete_login_def decide_login_def Let_def wp wp_load_mem [OF assms(1-3)]
        wp_load_consume [OF assms(1,2)] simp del: validate_remember_None)
qed

lemma complete_logout_run:
  assumes "sv_store sv = mem_ops" and "redeemable sv w (oi_transaction input) tx"
    and "presentable tx FlowLogout (oi_csrf_token input) (oi_browser_state input)"
  shows "wp (complete_logout sv input) (\<lambda>r w'.
      r = hydra_redirect (sv_cfg sv) (p_accept_logout (sv_ports sv) (w_tick w + 1) (tx_challenge tx))
      \<and> w_log w' = w_log w @ [AcceptLogout (tx_challenge tx)]
      \<and> mem_contents (w_store w') (oi_transaction input) = None) w"
  by (simp add: complete_logout_def wp wp_load_mem [OF assms] wp_load_consume [OF assms(1,2)])

lemma complete_consent_run:
  assumes "sv_store sv = mem_ops" and "redeemable sv w (ci_transaction input) tx"
    and "presentable tx FlowConsent (ci_csrf_token input) (ci_browser_state input)"
    and "validate_remember (ci_remember input) (ci_remember_for input) = None"
    and "ci_decision input = ''accept''"
    and "validate_requested_subset (tx_requested_scopes tx) (ci_grant_scopes input) = None"
    and "validate_requested_subset (tx_requested_audience tx) (effective_audiences tx input) = None"
    and "p_validate_session (sv_ports sv) (w_tick w + 1) (ci_credentials input) = Inr s"
    and "se_subject s = tx_subject tx"
    and "aal_at_least (se_aal s) (higher_aal (cfg_required_aal (sv_cfg sv)) (tx_required_aal tx))"
    and "config_lookup_client (sv_cfg sv) (tx_client_id tx) = Some client"
    and "validate_scopes client (tx_requested_scopes tx) = None"
    and "validate_audiences client (tx_requested_audience tx) = None"
    and "p_authorize_consent (sv_ports sv) (w_tick w + 2)
      (consent_policy_input sv tx client s (ci_grant_scopes input) (effective_audiences tx input)) = Inr d"
    and "cd_allowed d"
    and "validate_requested_subset (ci_grant_scopes input) (cd_granted_scopes d) = None"
    and "validate_audience_subset (effective_audiences tx input) (cd_granted_audiences d) = None"
    and "acc = \<lparr>ca_grant_scopes = cd_granted_scopes d, ca_grant_audience = cd_granted_audiences d,
       ca_session = filter_claims (sv_lib sv) (sv_cfg sv) client (cd_claims d) s (cd_granted_scopes d),
       ca_remember = ci_remember input, ca_remember_for = ci_remember_for input\<rparr>"
  shows "wp (complete_consent sv input) (\<lambda>r w'.
      r = hydra_redirect (sv_cfg sv) (p_accept_consent (sv_ports sv) (w_tick w + 3) (tx_challenge tx) acc)
      \<and> w_log w' = w_log w @ [ValidateSession (ci_credentials input),
           AuthorizeConsent (consent_policy_input sv tx client s (ci_grant_scopes input) (effective_audiences tx input)),
           AcceptConsent (tx_challenge tx) acc]
      \<and> mem_contents (w_store w') (ci_transaction input) = None) w"
proof -
  have n: "w_tick w + 2 = Suc (Suc (w_tick w))" "w_tick w + 3 = Suc (Suc (Suc (w_tick w)))" by simp_all
  have eff: "(if effective_audiences tx input = [] then tx_requested_audience tx else effective_audiences tx input)
      = effective_audiences tx input"
    by (simp add: effective_audiences_def)
  have c: "wp (consume sv (ci_transaction input)) Q (loaded_world w\<lparr>w_tick := Suc (Suc (w_tick w)),
      w_log := w_log w @ es\<rparr>)
      = Q (Inr tx) (consumed_world (ci_transaction input)
          (loaded_world w\<lparr>w_tick := Suc (Suc (w_tick w)), w_log := w_log w @ es\<rparr>))" for Q es
    using assms(1,2) by (intro wp_consume_mem) (simp_all add: redeemable_def loaded_world_def mem_contents_def)
  have l: "w_tick (loaded_world w) = Suc (w_tick w)" "w_log (loaded_world w) = w_log w"
    "w_tick (consumed_world h w') = w_tick w'" "w_log (consumed_world h w') = w_log w'" for h w'
    by (simp_all add: loaded_world_def consumed_world_def)
  show ?thesis
    using assms(4-17) unfolding n assms(18)
    by (simp add: complete_consent_def accept_consent_def accept_consent_decision_def Let_def wp
        wp_load_mem [OF assms(1-3)] effective_audiences_def [symmetric] eff consent_policy_input_def [symmetric] l c
        del: validate_subset_None validate_remember_None validate_scopes_None validate_audiences_None)
qed

lemma remembered_login_run:
  assumes "validate_challenge challenge (effective_max_challenge_length (sv_cfg sv)) = None"
    and "p_get_login (sv_ports sv) (w_tick w) challenge = Inr req" and "lr_challenge req = challenge"
    and "validate_client (sv_cfg sv) (lr_client req) = Inr client"
    and "lr_skip req" and "lr_subject req \<noteq> []" and "lr_prompt req = []"
    and "lr_requested_aal req = []" and "lr_requested_acr_values req = []" and "cfg_required_aal (sv_cfg sv) = []"
    and "lr_max_age req = Some m" and "0 \<le> m"
    and "p_authorize_login (sv_ports sv) (w_tick w + 1)
      (login_policy_input sv (lr_subject req) (cc_id client) [] []) = Inr True"
  shows "wp (start_login sv challenge browser) (\<lambda>r w'. w_log w' = w_log w @ [GetLogin challenge,
      AuthorizeLogin (login_policy_input sv (lr_subject req) (cc_id client) [] []),
      AcceptLogin challenge \<lparr>la_subject = lr_subject req, la_acr = [], la_amr = [], la_remember = False,
        la_remember_for = 0\<rparr>]) w"
proof -
  have h: "higher_aal [] [] = []" by (simp add: higher_aal_def)
  show ?thesis using assms
    by (simp add: start_login_def accept_remembered_login_def Let_def wp resolve_acr_Nil parse_prompt_Nil
        no_prompts_def h)
qed

section \<open>A sample provider\<close>

text \<open>
  A service with the sample configuration whose adapters always answer the same, and a store
  that holds one transaction of a given flow under the handle \<open>t\<close>. The properties are
  applied to it below.
\<close>

definition sample_token :: string where
  "sample_token = token_of (\<lambda>i. CHR ''a'')"

definition sample_tx :: "flow \<Rightarrow> transaction" where
  "sample_tx flow = empty_transaction\<lparr>tx_flow := flow, tx_challenge := ''ch'', tx_csrf_token := ''k'',
     tx_browser_state := sample_token, tx_client_id := ''c'', tx_subject := ''u'',
     tx_requested_scopes := [''email''], tx_requested_audience := [''api''], tx_expires_at := 100\<rparr>"

definition sample_oauth_client :: oauth_client where
  "sample_oauth_client = \<lparr>oc_id = ''c'', oc_name = ''n'', oc_redirect_uris = [''https://c''],
     oc_post_logout_redirect_uris = [], oc_skip_consent = False\<rparr>"

definition sample_login_request :: "bool \<Rightarrow> login_request" where
  "sample_login_request skip = \<lparr>lr_challenge = ''ch'', lr_client = sample_oauth_client, lr_skip = skip,
     lr_subject = ''u'', lr_requested_aal = [], lr_requested_acr_values = [], lr_prompt = [],
     lr_max_age = Some 0, lr_login_hint = [], lr_ui_locales = [], lr_display = []\<rparr>"

definition sample_ports :: "bool \<Rightarrow> ports" where
  "sample_ports skip = \<lparr>p_now = (\<lambda>n. 1), p_rand = (\<lambda>n. Some (\<lambda>i. CHR ''a'')),
     p_get_login = (\<lambda>n c. Inr (sample_login_request skip)),
     p_accept_login = (\<lambda>n c a. Inr ''https://h/x''), p_reject_login = (\<lambda>n c r. Inr ''https://h/x''),
     p_get_consent = (\<lambda>n c. Inl (Sent ErrUpstream)),
     p_accept_consent = (\<lambda>n c a. Inr ''https://h/x''), p_reject_consent = (\<lambda>n c r. Inr ''https://h/x''),
     p_get_logout = (\<lambda>n c. Inl (Sent ErrUpstream)), p_accept_logout = (\<lambda>n c. Inr ''https://h/x''),
     p_validate_session = (\<lambda>n c. Inr sample_session), p_authorize_login = (\<lambda>n p. Inr True),
     p_authorize_consent = (\<lambda>n p. Inr \<lparr>cd_allowed = True, cd_granted_scopes = [''email''],
        cd_granted_audiences = [], cd_claims = \<lparr>cl_id_token = [], cl_access_token = [], cl_user_info = []\<rparr>\<rparr>),
     p_ready = (\<lambda>n i. None)\<rparr>"

definition sample_service :: "bool \<Rightarrow> mem_store service" where
  "sample_service skip = \<lparr>sv_cfg = sample_config, sv_ports = sample_ports skip, sv_store = mem_ops,
     sv_lib = sample_lib, sv_readiness = 0\<rparr>"

definition sample_store :: "flow \<Rightarrow> mem_store" where
  "sample_store flow = (new_memory_store (\<lambda>n. 1) (\<lambda>n. Some (\<lambda>i. CHR ''b'')))\<lparr>ms_data := [(''t'', sample_tx flow)]\<rparr>"

definition sample_world :: "flow \<Rightarrow> mem_store world" where
  "sample_world flow = \<lparr>w_store = sample_store flow, w_admission = new_transaction_admission 10,
     w_tick = 0, w_log = []\<rparr>"

definition sample_credentials :: session_credentials where
  "sample_credentials = \<lparr>sc_cookie_name = ''s'', sc_cookie_value = ''v'', sc_token = []\<rparr>"

definition sample_login_input :: login_input where
  "sample_login_input = \<lparr>li_csrf_token = ''k'', li_browser_state = sample_token,
     li_credentials = sample_credentials, li_remember = False, li_remember_for = 0\<rparr>"

definition sample_logout_input :: logout_input where
  "sample_logout_input = \<lparr>oi_transaction = ''t'', oi_csrf_token = ''k'', oi_browser_state = sample_token\<rparr>"

definition sample_consent_input :: "string list \<Rightarrow> consent_input" where
  "sample_consent_input scopes = \<lparr>ci_transaction = ''t'', ci_csrf_token = ''k'',
     ci_browser_state = sample_token, ci_decision = ''accept'', ci_grant_scopes = scopes,
     ci_grant_audience = [], ci_credentials = sample_credentials, ci_remember = False, ci_remember_for = 0\<rparr>"

lemma sample_mem [simp]: "sv_store (sample_service skip) = mem_ops" "mem_inv (w_store (sample_world flow))"
  "w_tick (sample_world flow) = 0" "w_log (sample_world flow) = []"
  by (simp_all add: sample_service_def sample_world_def sample_store_def new_memory_store_def mem_inv_def
      mem_limit_def wf_map_def defaultMaxEntries_def)

lemma sample_parts [simp]:
  "p_validate_session (sv_ports (sample_service skip)) n c = Inr sample_session"
  "p_authorize_login (sv_ports (sample_service skip)) n p = Inr True"
  "p_now (sv_ports (sample_service skip)) n = 1"
  "p_get_login (sv_ports (sample_service skip)) n challenge = Inr (sample_login_request skip)"
  "sv_cfg (sample_service skip) = sample_config"
  "cfg_required_aal sample_config = []" "se_subject sample_session = ''u''" "tx_subject (sample_tx flow) = ''u''"
  "tx_challenge (sample_tx flow) = ''ch''" "tx_requested_aal (sample_tx flow) = []"
  "tx_required_aal (sample_tx flow) = []" "tx_client_id (sample_tx flow) = ''c''"
  "tx_requested_scopes (sample_tx flow) = [''email'']" "tx_requested_audience (sample_tx flow) = [''api'']"
  by (simp_all add: sample_service_def sample_ports_def sample_config_def sample_session_def sample_tx_def
      empty_transaction_def)

lemma sample_contents:
  "mem_contents (w_store (sample_world flow)) h = (if h = ''t'' then Some (sample_tx flow) else None)"
  by (simp add: sample_world_def sample_store_def mem_contents_def map_get_def)

lemma sample_redeemable: "redeemable (sample_service skip) (sample_world flow) ''t'' (sample_tx flow)"
  by (simp add: redeemable_def sample_contents)
    (simp add: sample_world_def sample_store_def new_memory_store_def sample_tx_def)

lemma sample_presentable: "presentable (sample_tx flow) flow ''k'' sample_token"
  using length_token_of [of "\<lambda>i. CHR ''a''"]
  by (simp add: presentable_def sample_tx_def sample_token_def validate_opaque_token_def)
    (simp add: token_of_def b64_round_trip)

lemma sample_fresh: "validate_login_freshness (sample_tx flow) sample_session now = None"
  by (simp add: validate_login_freshness_def prompt_includes_def sample_tx_def empty_transaction_def str_fields_def)

lemma sample_aal: "aal_at_least a []" "higher_aal [] [] = []"
  by (simp_all add: aal_at_least_def higher_aal_def)

lemma sample_lookup: "config_lookup_client sample_config ''c'' = Some sample_client"
  by (simp add: config_lookup_client_def sample_config_def map_get_def)

lemma sample_client_validates: "validate_client sample_config sample_oauth_client = Inr sample_client"
  by (simp add: validate_client_Inr sample_oauth_client_def sample_lookup) (simp add: sample_client_def)

lemma sample_validate_scopes:
  "validate_scopes sample_client [''email''] = None" "validate_audiences sample_client [''api''] = None"
  by (simp_all add: sample_client_def)

definition sample_acceptance :: login_acceptance where
  "sample_acceptance = \<lparr>la_subject = ''u'', la_acr = ''aal1'', la_amr = [], la_remember = False, la_remember_for = 0\<rparr>"

lemma sample_login_run:
  "wp (complete_login (sample_service skip) ''t'' sample_login_input) (\<lambda>r w'.
     r = hydra_redirect (sv_cfg (sample_service skip)) (p_accept_login (sv_ports (sample_service skip))
       (w_tick (sample_world FlowLogin) + 4) (tx_challenge (sample_tx FlowLogin)) sample_acceptance)
     \<and> w_log w' = w_log (sample_world FlowLogin) @ [ValidateSession (li_credentials sample_login_input),
         AuthorizeLogin (login_policy_input (sample_service skip) (se_subject sample_session)
           (tx_client_id (sample_tx FlowLogin)) (se_aal sample_session) (se_amr sample_session)),
         AcceptLogin (tx_challenge (sample_tx FlowLogin)) sample_acceptance]
     \<and> mem_contents (w_store w') ''t'' = None) (sample_world FlowLogin)"
  by (rule complete_login_run)
    (simp_all add: sample_redeemable sample_presentable sample_fresh sample_aal sample_login_input_def,
     simp add: sample_acceptance_def login_acceptance_acr_def sample_session_def sample_tx_def empty_transaction_def)

lemma sample_login_calls:
  "AcceptLogin ''ch'' sample_acceptance
     \<in> set (calls_of (complete_login (sample_service False) ''t'' sample_login_input) (sample_world FlowLogin))"
  using calls_of_append [OF conjunct1 [OF conjunct2 [OF wp_snd [OF sample_login_run [of False]]]]] by simp

lemma sample_logout_calls:
  "calls_of (complete_logout (sample_service False) sample_logout_input) (sample_world FlowLogout) = [AcceptLogout ''ch'']"
proof -
  have "wp (complete_logout (sample_service False) sample_logout_input)
      (\<lambda>r w'. r = hydra_redirect (sv_cfg (sample_service False)) (p_accept_logout (sv_ports (sample_service False))
          (w_tick (sample_world FlowLogout) + 1) (tx_challenge (sample_tx FlowLogout)))
       \<and> w_log w' = w_log (sample_world FlowLogout) @ [AcceptLogout (tx_challenge (sample_tx FlowLogout))]
       \<and> mem_contents (w_store w') (oi_transaction sample_logout_input) = None) (sample_world FlowLogout)"
    by (rule complete_logout_run) (simp_all add: sample_logout_input_def sample_redeemable sample_presentable)
  then show ?thesis using outcomeI by fastforce
qed

definition sample_decision :: consent_decision where
  "sample_decision = \<lparr>cd_allowed = True, cd_granted_scopes = [''email''], cd_granted_audiences = [],
     cd_claims = \<lparr>cl_id_token = [], cl_access_token = [], cl_user_info = []\<rparr>\<rparr>"

lemma sample_authorize:
  "p_authorize_consent (sv_ports (sample_service skip)) n pin = Inr sample_decision"
  by (simp add: sample_service_def sample_ports_def sample_decision_def)

definition sample_consent_acceptance :: consent_acceptance where
  "sample_consent_acceptance = \<lparr>ca_grant_scopes = cd_granted_scopes sample_decision,
     ca_grant_audience = cd_granted_audiences sample_decision,
     ca_session = filter_claims (sv_lib (sample_service False)) (sv_cfg (sample_service False)) sample_client
        (cd_claims sample_decision) sample_session (cd_granted_scopes sample_decision),
     ca_remember = False, ca_remember_for = 0\<rparr>"

lemma sample_consent_parts:
  "validate_requested_subset [''email''] [''email''] = None"
  "effective_audiences (sample_tx flow) (sample_consent_input scopes) = [''api'']"
  "validate_requested_subset [''api''] [''api''] = None"
  "validate_audience_subset [''api''] [] = None"
  by (simp_all add: effective_audiences_def sample_consent_input_def)

lemma sample_consent_run:
  "calls_of (complete_consent (sample_service False) (sample_consent_input [''email''])) (sample_world FlowConsent)
     = [ValidateSession sample_credentials,
        AuthorizeConsent (consent_policy_input (sample_service False) (sample_tx FlowConsent) sample_client
          sample_session [''email''] [''api'']),
        AcceptConsent ''ch'' sample_consent_acceptance]"
proof -
  let ?i = "sample_consent_input [''email'']" and ?w = "sample_world FlowConsent" and ?sv = "sample_service False"
    and ?tx = "sample_tx FlowConsent"
  have "wp (complete_consent ?sv ?i) (\<lambda>r w'.
      r = hydra_redirect (sv_cfg ?sv) (p_accept_consent (sv_ports ?sv) (w_tick ?w + 3) (tx_challenge ?tx) sample_consent_acceptance)
      \<and> w_log w' = w_log ?w @ [ValidateSession (ci_credentials ?i),
           AuthorizeConsent (consent_policy_input ?sv ?tx sample_client sample_session (ci_grant_scopes ?i) (effective_audiences ?tx ?i)),
           AcceptConsent (tx_challenge ?tx) sample_consent_acceptance]
      \<and> mem_contents (w_store w') (ci_transaction ?i) = None) ?w"
    by (rule complete_consent_run [where d = sample_decision])
      (simp_all add: sample_consent_input_def sample_redeemable sample_presentable sample_aal sample_lookup
        sample_validate_scopes sample_consent_parts [unfolded sample_consent_input_def] sample_authorize
        sample_consent_acceptance_def, simp_all add: sample_decision_def)
  then have "calls_of (complete_consent ?sv ?i) ?w = [ValidateSession (ci_credentials ?i),
      AuthorizeConsent (consent_policy_input ?sv ?tx sample_client sample_session (ci_grant_scopes ?i) (effective_audiences ?tx ?i)),
      AcceptConsent (tx_challenge ?tx) sample_consent_acceptance]"
    using outcomeI by fastforce
  then show ?thesis by (simp add: sample_consent_parts) (simp add: sample_consent_input_def)
qed

lemma sample_challenge: "validate_challenge ''ch'' (effective_max_challenge_length sample_config) = None"
  by (simp add: validate_challenge_def effective_max_challenge_length_def sample_config_def
      DefaultMaxChallengeLength_def text_eval)

lemma sample_silent_run:
  "calls_of (start_login (sample_service True) ''ch'' []) (sample_world FlowLogin)
     = [GetLogin ''ch'', AuthorizeLogin (login_policy_input (sample_service True) ''u'' ''c'' [] []),
        AcceptLogin ''ch'' \<lparr>la_subject = ''u'', la_acr = [], la_amr = [], la_remember = False, la_remember_for = 0\<rparr>]"
proof -
  note run = remembered_login_run [of "''ch''" "sample_service True" "sample_world FlowLogin" "sample_login_request True"
      sample_client 0 "[]"]
  note calls_of_append [OF wp_snd [OF run]]
  then show ?thesis
    by (simp add: sample_challenge sample_login_request_def sample_client_validates) (simp add: sample_client_def)
qed

lemma sample_create:
  assumes "tx_expires_at tx = 1 + cfg_transaction_ttl sample_config"
  shows "\<exists>s'. run_state (mem_create tx) (sample_store flow) = (Inr (token_of (\<lambda>i. CHR ''b'')), s')
    \<and> mem_contents s' (token_of (\<lambda>i. CHR ''b'')) = Some tx"
proof -
  have t: "token_of (\<lambda>i. CHR ''b'') \<noteq> ''t''" using length_token_of [of "\<lambda>i. CHR ''b''"] by auto
  have "wp (mem_create tx) (\<lambda>r s'. r = Inr (token_of (\<lambda>i. CHR ''b''))
      \<and> mem_contents s' (token_of (\<lambda>i. CHR ''b'')) = Some tx) (sample_store flow)"
    using assms t
    by (simp add: mem_create_def sample_store_def new_memory_store_def sample_config_def Second_def wp
        is_zero_time_def after_def numeral_3_eq_3 create_attempt_def wp_State defaultMaxEntries_def map_get_def)
      (simp add: mem_contents_def gomap)
  from wp_snd [OF this] show ?thesis by (intro exI [of _ "snd (run_state (mem_create tx) (sample_store flow))"]) (simp add: prod_eq_iff)
qed

lemma sample_reserve:
  "\<exists>a. adm_reserve (1 + cfg_transaction_ttl sample_config) 1 (w_admission (sample_world flow)) = (True, a)"
  by (simp add: adm_reserve_def sample_world_def new_transaction_admission_def sample_config_def Second_def after_def)

lemma sample_start_login:
  "\<exists>tx. store_after (start_login (sample_service False) ''ch'' []) (sample_world FlowLogin)
     (token_of (\<lambda>i. CHR ''b'')) = Some tx"
proof -
  let ?sv = "sample_service False" and ?w = "sample_world FlowLogin"
  have p: "p_rand (sv_ports ?sv) n = Some (\<lambda>i. CHR ''a'')" for n by (simp add: sample_service_def sample_ports_def)
  have o: "wp (open_transaction ?sv [] tx redirect)
      (\<lambda>r w'. \<exists>tx. mem_contents (w_store w') (token_of (\<lambda>i. CHR ''b'')) = Some tx) (?w\<lparr>w_log := l, w_tick := n\<rparr>)"
    if e: "tx_expires_at tx = 1 + cfg_transaction_ttl sample_config" for tx redirect n l
  proof -
    let ?tx = "tx\<lparr>tx_browser_state := token_of (\<lambda>i. CHR ''a''), tx_csrf_token := token_of (\<lambda>i. CHR ''a'')\<rparr>"
    obtain a where a: "adm_reserve (1 + cfg_transaction_ttl sample_config) 1 (w_admission ?w) = (True, a)"
      using sample_reserve by blast
    obtain s' where s': "run_state (mem_create ?tx) (w_store ?w) = (Inr (token_of (\<lambda>i. CHR ''b'')), s')"
      "mem_contents s' (token_of (\<lambda>i. CHR ''b'')) = Some ?tx"
      using sample_create [of ?tx FlowLogin] e by (auto simp: sample_world_def)
    show ?thesis
      by (simp add: open_transaction_def start_browser_state_def new_opaque_token_def create_transaction_def
          wp p e a wp_on_store mem_ops_def s' wp_def [of "mem_create ?tx"])
  qed
  have "wp (start_login ?sv ''ch'' []) (\<lambda>r w'. \<exists>tx. mem_contents (w_store w') (token_of (\<lambda>i. CHR ''b'')) = Some tx) ?w"
    by (simp add: start_login_def Let_def wp sample_challenge sample_login_request_def sample_client_validates
        resolve_acr_Nil parse_prompt_Nil no_prompts_def o sample_aal)
  from wp_snd [OF this] show ?thesis by (simp add: store_after_def)
qed

section \<open>Properties\<close>

text \<open>C7. Hydra is told to accept a login only for a transaction that is in the store, of
  the login flow, unexpired, presented with its CSRF token by the browser it is bound to,
  and that is no longer in the store afterwards; and only with the subject, assurance and
  methods of a session that Kratos validated for the presented credentials, that belongs to
  the bound subject, is fresh enough for \<open>prompt\<close> and \<open>max_age\<close>, satisfies both the
  configured and the requested assurance level, and that the policy allows.\<close>

theorem complete_login_accepts_only_if:
  assumes "sv_store sv = mem_ops" and "mem_inv (w_store w)"
    and "AcceptLogin c acc \<in> set (calls_of (complete_login sv h input) w)"
  shows "\<exists>tx. mem_contents (w_store w) h = Some tx
    \<and> tx_presented sv (w_tick w) (end_tick (complete_login sv h input) w) tx FlowLogin
         (li_csrf_token input) (li_browser_state input)
    \<and> store_after (complete_login sv h input) w h = None
    \<and> login_justified sv (w_tick w) (end_tick (complete_login sv h input) w) tx input c acc"
  using login_cases [OF assms(1,2), of h input] assms(3) by (auto simp: login_done_def)

theorem complete_login_accepts_only_if_witness:
  "\<exists>tx. mem_contents (w_store (sample_world FlowLogin)) ''t'' = Some tx
    \<and> login_justified (sample_service False) 0
        (end_tick (complete_login (sample_service False) ''t'' sample_login_input) (sample_world FlowLogin))
        tx sample_login_input ''ch'' sample_acceptance"
  using complete_login_accepts_only_if [OF _ _ sample_login_calls] by auto

text \<open>C8. Hydra is told to accept a consent only for a transaction presented in the same way
  and consumed, on the decision \<open>accept\<close>, with a validated session of the bound subject at
  the required assurance level, and with grants that the policy allowed: without duplicates,
  out of the scopes the user selected, which were requested and are allowed for the client,
  and likewise for audiences; the session claims are the filtered ones.\<close>

theorem complete_consent_accepts_only_if:
  assumes "sv_store sv = mem_ops" and "mem_inv (w_store w)"
    and "AcceptConsent c acc \<in> set (calls_of (complete_consent sv input) w)"
  shows "\<exists>tx. mem_contents (w_store w) (ci_transaction input) = Some tx
    \<and> tx_presented sv (w_tick w) (end_tick (complete_consent sv input) w) tx FlowConsent
         (ci_csrf_token input) (ci_browser_state input)
    \<and> store_after (complete_consent sv input) w (ci_transaction input) = None
    \<and> consent_justified sv (w_tick w) (end_tick (complete_consent sv input) w) tx input c acc"
proof -
  let ?es = "calls_of (complete_consent sv input) w"
  have d: "AcceptConsent c acc \<in> set (decisions ?es)" using assms(3) by (simp add: decisions_def)
  then show ?thesis
    using consent_cases [OF assms(1,2), of input] assms(3)
    by (auto simp: consent_events_def)
qed

theorem complete_consent_accepts_only_if_witness:
  "\<exists>tx. store_after (complete_consent (sample_service False) (sample_consent_input [''email'']))
        (sample_world FlowConsent) ''t'' = None
    \<and> consent_justified (sample_service False) 0
        (end_tick (complete_consent (sample_service False) (sample_consent_input [''email''])) (sample_world FlowConsent))
        tx (sample_consent_input [''email'']) ''ch'' sample_consent_acceptance"
proof -
  have "AcceptConsent ''ch'' sample_consent_acceptance \<in> set (calls_of (complete_consent (sample_service False)
      (sample_consent_input [''email''])) (sample_world FlowConsent))"
    by (simp add: sample_consent_run)
  from complete_consent_accepts_only_if [OF _ _ this] show ?thesis
    by (auto simp: sample_consent_input_def)
qed

text \<open>C23. No flow tells Hydra more than one decision, in any branch and whatever the adapters
  answer; and a start flow that tells Hydra a decision leaves the store as it was.\<close>

theorem at_most_one_decision:
  assumes "sv_store sv = mem_ops" and "mem_inv (w_store w)"
  shows "length (decisions (calls_of (start_login sv challenge browser) w)) \<le> 1
    \<and> length (decisions (calls_of (complete_login sv h login_in) w)) \<le> 1
    \<and> length (decisions (calls_of (start_consent sv challenge browser) w)) \<le> 1
    \<and> length (decisions (calls_of (complete_consent sv consent_in) w)) \<le> 1
    \<and> decisions (calls_of (start_logout sv challenge browser) w) = []
    \<and> length (decisions (calls_of (complete_logout sv logout_in) w)) \<le> 1"
proof -
  note s = started_cases(2) [OF wp_snd [OF mem.start_login_post [OF assms]]]
    started_cases(2) [OF wp_snd [OF mem.start_consent_post [OF assms]]]
    started_cases(1) [OF wp_snd [OF mem.start_logout_post [OF assms]]]
  have l: "length (decisions (calls_of (complete_login sv h login_in) w)) \<le> 1"
    using login_cases [OF assms, of h login_in] by (auto simp: login_done_def decisions_def)
  have c: "length (decisions (calls_of (complete_consent sv consent_in) w)) \<le> 1"
    using consent_cases [OF assms, of consent_in] by (auto simp: consent_events_def decisions_def)
  have o: "length (decisions (calls_of (complete_logout sv logout_in) w)) \<le> 1"
    using logout_cases [OF assms, of logout_in] by (auto simp: logout_done_def decisions_def)
  show ?thesis using s l c o by simp
qed

theorem at_most_one_decision_witness:
  "length (decisions (calls_of (complete_login (sample_service False) ''t'' sample_login_input)
     (sample_world FlowLogin))) \<le> 1"
  using at_most_one_decision [OF sample_mem(1,2), of _ _ _ FlowLogin] by blast

text \<open>A handle that the store does not hold (consumed, expired and removed, or made up)
  completes nothing: the flow ends with an error and calls neither Hydra nor Kratos nor the
  policy.\<close>

theorem absent_handle_makes_no_call:
  assumes "sv_store sv = mem_ops" and "mem_inv (w_store w)" and "mem_contents (w_store w) h = None"
    and "ci_transaction consent_in = h" and "oi_transaction logout_in = h"
  shows "calls_of (complete_login sv h login_in) w = []
    \<and> calls_of (complete_consent sv consent_in) w = []
    \<and> calls_of (complete_logout sv logout_in) w = []
    \<and> (\<exists>e. fst (run_state (complete_login sv h login_in) w) = Inl e)
    \<and> (\<exists>e. fst (run_state (complete_consent sv consent_in) w) = Inl e)
    \<and> (\<exists>e. fst (run_state (complete_logout sv logout_in) w) = Inl e)"
  using login_cases [OF assms(1,2), of h login_in] consent_cases [OF assms(1,2), of consent_in]
    logout_cases [OF assms(1,2), of logout_in] assms(3-5) by auto

theorem absent_handle_makes_no_call_witness:
  "calls_of (complete_logout (sample_service False) (sample_logout_input\<lparr>oi_transaction := ''x''\<rparr>))
     (sample_world FlowLogout) = []"
  using absent_handle_makes_no_call [OF sample_mem(1,2), of FlowLogout "''x''"
      "sample_consent_input []\<lparr>ci_transaction := ''x''\<rparr>" "sample_logout_input\<lparr>oi_transaction := ''x''\<rparr>" False
      sample_login_input]
  by (simp add: sample_contents)

text \<open>C9. A login is accepted without asking the user only when Hydra reports a session to
  skip for a known subject, no prompt forces the user back, no assurance level is configured
  or requested, the client and all its redirect URIs are allowlisted, and the policy allows
  it; the acceptance then names Hydra's subject and is never remembered.\<close>

theorem silent_login_only_if:
  assumes "sv_store sv = mem_ops" and "mem_inv (w_store w)"
    and "AcceptLogin c acc \<in> set (calls_of (start_login sv challenge browser) w)"
  shows "silent_login sv (w_tick w) (end_tick (start_login sv challenge browser) w) challenge c acc
    \<and> store_after (start_login sv challenge browser) w = mem_contents (w_store w)"
proof -
  let ?m = "start_login sv challenge browser"
  note s = started_cases [OF wp_snd [OF mem.start_login_post [OF assms(1,2)]]]
  have "AcceptLogin c acc \<in> set (decisions (calls_of ?m w))" using assms(3) by (simp add: decisions_def)
  then have "decisions (calls_of ?m w) \<noteq> []" by auto
  then show ?thesis using s(1,4) assms(3) by (auto simp: login_start_events_def)
qed

theorem silent_login_only_if_witness:
  "silent_login (sample_service True) 0
     (end_tick (start_login (sample_service True) ''ch'' []) (sample_world FlowLogin)) ''ch'' ''ch''
     \<lparr>la_subject = ''u'', la_acr = [], la_amr = [], la_remember = False, la_remember_for = 0\<rparr>"
proof -
  have "AcceptLogin ''ch'' \<lparr>la_subject = ''u'', la_acr = [], la_amr = [], la_remember = False, la_remember_for = 0\<rparr>
      \<in> set (calls_of (start_login (sample_service True) ''ch'' []) (sample_world FlowLogin))"
    by (simp add: sample_silent_run)
  from silent_login_only_if [OF _ _ this] show ?thesis by simp
qed

text \<open>C22. Every transaction a start flow adds to the store is bound to the challenge, to an
  allowlisted client and to a browser state that is a well-formed token (the presented one
  when there was one) and is the one returned to the browser; it carries a fresh CSRF token
  and expires one configured lifetime after the clock reading of that request. A login
  transaction records the request's subject, prompt and \<open>max_age\<close> and the merged assurance
  level, and is never opened under \<open>prompt=none\<close>; a consent transaction records a subject
  and only scopes and audiences the client may have.\<close>

theorem started_transactions:
  assumes "sv_store sv = mem_ops" and "mem_inv (w_store w)" and "mem_contents (w_store w) h = None"
  shows "(store_after (start_login sv challenge browser) w h = Some tx
       \<longrightarrow> login_opened sv challenge browser (w_tick w) (end_tick (start_login sv challenge browser) w) tx
       \<and> (\<forall>res. fst (run_state (start_login sv challenge browser) w) = Inr res
            \<longrightarrow> rr_browser_state res = tx_browser_state tx))
    \<and> (store_after (start_consent sv challenge browser) w h = Some tx
       \<longrightarrow> consent_opened sv challenge browser (w_tick w) (end_tick (start_consent sv challenge browser) w) tx
       \<and> (\<forall>res. fst (run_state (start_consent sv challenge browser) w) = Inr res
            \<longrightarrow> rr_browser_state res = tx_browser_state tx))
    \<and> (store_after (start_logout sv challenge browser) w h = Some tx
       \<longrightarrow> logout_opened sv challenge browser (w_tick w) (end_tick (start_logout sv challenge browser) w) tx
       \<and> (\<forall>res. fst (run_state (start_logout sv challenge browser) w) = Inr res
            \<longrightarrow> rr_browser_state res = tx_browser_state tx))"
  using started_cases(3) [OF wp_snd [OF mem.start_login_post [OF assms(1,2)]], of challenge browser h tx]
    started_cases(3) [OF wp_snd [OF mem.start_consent_post [OF assms(1,2)]], of challenge browser h tx]
    started_cases(3) [OF wp_snd [OF mem.start_logout_post [OF assms(1,2)]], of challenge browser h tx]
    assms(3) by simp

theorem started_transactions_witness:
  "\<exists>tx. login_opened (sample_service False) ''ch'' [] 0
     (end_tick (start_login (sample_service False) ''ch'' []) (sample_world FlowLogin)) tx"
proof -
  have "token_of (\<lambda>i. CHR ''b'') \<noteq> ''t''" using length_token_of [of "\<lambda>i. CHR ''b''"] by auto
  then have "mem_contents (w_store (sample_world FlowLogin)) (token_of (\<lambda>i. CHR ''b'')) = None"
    by (simp add: sample_contents)
  from started_transactions [OF sample_mem(1,2) this, of False "''ch''" "[]"] sample_start_login
  show ?thesis by auto
qed

text \<open>Hydra is told to accept a logout only for a transaction of the logout flow that is in
  the store, unexpired, presented with its CSRF token by its browser, and that is no longer in
  the store afterwards; nothing else is called.\<close>

theorem complete_logout_accepts_only_if:
  assumes "sv_store sv = mem_ops" and "mem_inv (w_store w)"
    and "AcceptLogout c \<in> set (calls_of (complete_logout sv input) w)"
  shows "\<exists>tx. mem_contents (w_store w) (oi_transaction input) = Some tx \<and> c = tx_challenge tx
    \<and> tx_presented sv (w_tick w) (end_tick (complete_logout sv input) w) tx FlowLogout
         (oi_csrf_token input) (oi_browser_state input)
    \<and> store_after (complete_logout sv input) w (oi_transaction input) = None
    \<and> calls_of (complete_logout sv input) w = [AcceptLogout c]"
  using logout_cases [OF assms(1,2), of input] assms(3) by (auto simp: logout_done_def)

theorem complete_logout_accepts_only_if_witness:
  "store_after (complete_logout (sample_service False) sample_logout_input) (sample_world FlowLogout) ''t'' = None"
proof -
  have "AcceptLogout ''ch'' \<in> set (calls_of (complete_logout (sample_service False) sample_logout_input)
      (sample_world FlowLogout))"
    by (simp add: sample_logout_calls)
  from complete_logout_accepts_only_if [OF _ _ this] show ?thesis by (auto simp: sample_logout_input_def)
qed

text \<open>C24. A login succeeds when its checks pass: a stored, unexpired transaction presented by
  its browser, with a valid session that is fresh, belongs to the bound subject, meets both
  assurance levels and is allowed by the policy, makes exactly the three calls (session,
  policy, acceptance), returns Hydra's redirect, and is gone from the store.\<close>

theorem complete_login_succeeds:
  assumes "sv_store sv = mem_ops" and "redeemable sv w h tx"
    and "presentable tx FlowLogin (li_csrf_token input) (li_browser_state input)"
    and "validate_remember (li_remember input) (li_remember_for input) = None"
    and "p_validate_session (sv_ports sv) (w_tick w + 1) (li_credentials input) = Inr s"
    and "tx_subject tx = [] \<or> se_subject s = tx_subject tx"
    and "validate_login_freshness tx s (p_now (sv_ports sv) (w_tick w + 2)) = None"
    and "aal_at_least (se_aal s) (higher_aal (cfg_required_aal (sv_cfg sv)) (tx_requested_aal tx))"
    and "p_authorize_login (sv_ports sv) (w_tick w + 3)
      (login_policy_input sv (se_subject s) (tx_client_id tx) (se_aal s) (se_amr s)) = Inr True"
    and "acc = \<lparr>la_subject = se_subject s, la_acr = login_acceptance_acr tx s, la_amr = se_amr s,
      la_remember = li_remember input, la_remember_for = li_remember_for input\<rparr>"
  shows "calls_of (complete_login sv h input) w = [ValidateSession (li_credentials input),
        AuthorizeLogin (login_policy_input sv (se_subject s) (tx_client_id tx) (se_aal s) (se_amr s)),
        AcceptLogin (tx_challenge tx) acc]
    \<and> fst (run_state (complete_login sv h input) w)
      = hydra_redirect (sv_cfg sv) (p_accept_login (sv_ports sv) (w_tick w + 4) (tx_challenge tx) acc)
    \<and> store_after (complete_login sv h input) w h = None"
  by (rule outcomeI [OF complete_login_run [OF assms]])

theorem complete_login_succeeds_witness:
  "store_after (complete_login (sample_service False) ''t'' sample_login_input) (sample_world FlowLogin) ''t'' = None"
proof -
  have "presentable (sample_tx FlowLogin) FlowLogin (li_csrf_token sample_login_input) (li_browser_state sample_login_input)"
    "validate_remember (li_remember sample_login_input) (li_remember_for sample_login_input) = None"
    by (simp_all add: sample_presentable sample_login_input_def)
  from complete_login_succeeds [OF _ sample_redeemable this, of False sample_session] show ?thesis
    by (simp add: sample_fresh sample_aal)
qed

text \<open>C25. A consent succeeds when its checks pass, with the scopes, audiences and claims that
  the policy grants, after exactly the calls for the session, the policy and the acceptance.\<close>

theorem complete_consent_succeeds:
  assumes "sv_store sv = mem_ops" and "redeemable sv w (ci_transaction input) tx"
    and "presentable tx FlowConsent (ci_csrf_token input) (ci_browser_state input)"
    and "validate_remember (ci_remember input) (ci_remember_for input) = None"
    and "ci_decision input = ''accept''"
    and "validate_requested_subset (tx_requested_scopes tx) (ci_grant_scopes input) = None"
    and "validate_requested_subset (tx_requested_audience tx) (effective_audiences tx input) = None"
    and "p_validate_session (sv_ports sv) (w_tick w + 1) (ci_credentials input) = Inr s"
    and "se_subject s = tx_subject tx"
    and "aal_at_least (se_aal s) (higher_aal (cfg_required_aal (sv_cfg sv)) (tx_required_aal tx))"
    and "config_lookup_client (sv_cfg sv) (tx_client_id tx) = Some client"
    and "validate_scopes client (tx_requested_scopes tx) = None"
    and "validate_audiences client (tx_requested_audience tx) = None"
    and "p_authorize_consent (sv_ports sv) (w_tick w + 2)
      (consent_policy_input sv tx client s (ci_grant_scopes input) (effective_audiences tx input)) = Inr d"
    and "cd_allowed d"
    and "validate_requested_subset (ci_grant_scopes input) (cd_granted_scopes d) = None"
    and "validate_audience_subset (effective_audiences tx input) (cd_granted_audiences d) = None"
    and "acc = \<lparr>ca_grant_scopes = cd_granted_scopes d, ca_grant_audience = cd_granted_audiences d,
       ca_session = filter_claims (sv_lib sv) (sv_cfg sv) client (cd_claims d) s (cd_granted_scopes d),
       ca_remember = ci_remember input, ca_remember_for = ci_remember_for input\<rparr>"
  shows "calls_of (complete_consent sv input) w = [ValidateSession (ci_credentials input),
        AuthorizeConsent (consent_policy_input sv tx client s (ci_grant_scopes input) (effective_audiences tx input)),
        AcceptConsent (tx_challenge tx) acc]
    \<and> fst (run_state (complete_consent sv input) w)
      = hydra_redirect (sv_cfg sv) (p_accept_consent (sv_ports sv) (w_tick w + 3) (tx_challenge tx) acc)
    \<and> store_after (complete_consent sv input) w (ci_transaction input) = None"
  by (rule outcomeI [OF complete_consent_run [OF assms]])

theorem complete_consent_succeeds_witness:
  "store_after (complete_consent (sample_service False) (sample_consent_input [''email'']))
     (sample_world FlowConsent) ''t'' = None"
proof -
  let ?i = "sample_consent_input [''email'']"
  have i: "redeemable (sample_service False) (sample_world FlowConsent) (ci_transaction ?i) (sample_tx FlowConsent)"
    "presentable (sample_tx FlowConsent) FlowConsent (ci_csrf_token ?i) (ci_browser_state ?i)"
    "validate_remember (ci_remember ?i) (ci_remember_for ?i) = None" "ci_decision ?i = ''accept''"
    "ci_grant_scopes ?i = [''email'']" "ci_transaction ?i = ''t''"
    by (simp_all add: sample_redeemable sample_presentable sample_consent_input_def)
  have d: "cd_allowed sample_decision" "cd_granted_scopes sample_decision = [''email'']"
    "cd_granted_audiences sample_decision = []" by (simp_all add: sample_decision_def)
  from complete_consent_succeeds [OF _ i(1-4), of sample_session sample_client sample_decision] show ?thesis
    by (simp only: i sample_mem sample_parts sample_consent_parts sample_lookup sample_validate_scopes
        sample_authorize d sample_aal simp_thms)
qed

text \<open>A logout presented by its browser succeeds: the logout is accepted and its
  transaction is gone.\<close>

theorem complete_logout_succeeds:
  assumes "sv_store sv = mem_ops" and "redeemable sv w (oi_transaction input) tx"
    and "presentable tx FlowLogout (oi_csrf_token input) (oi_browser_state input)"
  shows "calls_of (complete_logout sv input) w = [AcceptLogout (tx_challenge tx)]
    \<and> fst (run_state (complete_logout sv input) w)
      = hydra_redirect (sv_cfg sv) (p_accept_logout (sv_ports sv) (w_tick w + 1) (tx_challenge tx))
    \<and> store_after (complete_logout sv input) w (oi_transaction input) = None"
  by (rule outcomeI [OF complete_logout_run [OF assms]])

theorem complete_logout_succeeds_witness:
  "calls_of (complete_logout (sample_service False) sample_logout_input) (sample_world FlowLogout) = [AcceptLogout ''ch'']"
  using complete_logout_succeeds [of "sample_service False" "sample_world FlowLogout" sample_logout_input
      "sample_tx FlowLogout"]
  by (simp add: sample_logout_input_def sample_redeemable sample_presentable)

text \<open>A consent that selects a scope that was not requested is rejected at Hydra, but its
  transaction stays in the store with its CSRF token unspent: the rejections before the
  \<open>consume\<close> of \<open>CompleteConsent\<close> do not consume.\<close>

theorem rejected_consent_keeps_transaction:
  assumes "sv_store sv = mem_ops" and "redeemable sv w (ci_transaction input) tx"
    and "presentable tx FlowConsent (ci_csrf_token input) (ci_browser_state input)"
    and "validate_remember (ci_remember input) (ci_remember_for input) = None"
    and "ci_decision input = ''accept''"
    and "\<not> set (ci_grant_scopes input) \<subseteq> set (tx_requested_scopes tx)"
  shows "(\<exists>rj. calls_of (complete_consent sv input) w = [RejectConsent (tx_challenge tx) rj])
    \<and> store_after (complete_consent sv input) w (ci_transaction input) = Some tx"
proof -
  obtain e where e: "validate_requested_subset (tx_requested_scopes tx) (ci_grant_scopes input) = Some e"
    using assms(6) by (cases "validate_requested_subset (tx_requested_scopes tx) (ci_grant_scopes input)") simp_all
  have "mem_contents (w_store (loaded_world w)) (ci_transaction input) = Some tx"
    using assms(2) by (simp add: redeemable_def loaded_world_def mem_contents_def)
  then have "wp (complete_consent sv input) (\<lambda>r w'. (\<exists>rj. w_log w' = w_log w @ [RejectConsent (tx_challenge tx) rj])
      \<and> mem_contents (w_store w') (ci_transaction input) = Some tx) w"
    using assms(4,5) e
    by (simp add: complete_consent_def accept_consent_def reject_defs Let_def wp wp_load_mem [OF assms(1-3)]
        loaded_world_def del: validate_subset_None validate_remember_None)
  from wp_snd [OF this] show ?thesis by (auto simp: store_after_def dest: calls_of_append)
qed

theorem rejected_consent_keeps_transaction_witness:
  "store_after (complete_consent (sample_service False) (sample_consent_input [''x'']))
     (sample_world FlowConsent) ''t'' = Some (sample_tx FlowConsent)"
  using rejected_consent_keeps_transaction [of "sample_service False" "sample_world FlowConsent"
      "sample_consent_input [''x'']" "sample_tx FlowConsent"]
  by (simp add: sample_consent_input_def sample_redeemable sample_presentable)

text \<open>The freshness bound plays no part in accepting Hydra's own session: whatever
  non-negative \<open>max_age\<close> the request carries (also 0), a request that Hydra reports as
  skippable for a known subject, without a prompt and without an assurance level, is
  accepted when the policy allows it, without reading the clock or a Kratos session.\<close>

theorem remembered_login_ignores_max_age:
  assumes "sv_store sv = mem_ops"
    and "validate_challenge challenge (effective_max_challenge_length (sv_cfg sv)) = None"
    and "p_get_login (sv_ports sv) (w_tick w) challenge = Inr req" and "lr_challenge req = challenge"
    and "validate_client (sv_cfg sv) (lr_client req) = Inr client"
    and "lr_skip req" and "lr_subject req \<noteq> []" and "lr_prompt req = []"
    and "lr_requested_aal req = []" and "lr_requested_acr_values req = []" and "cfg_required_aal (sv_cfg sv) = []"
    and "lr_max_age req = Some m" and "0 \<le> m"
    and "p_authorize_login (sv_ports sv) (w_tick w + 1)
      (login_policy_input sv (lr_subject req) (cc_id client) [] []) = Inr True"
  shows "calls_of (start_login sv challenge browser) w = [GetLogin challenge,
      AuthorizeLogin (login_policy_input sv (lr_subject req) (cc_id client) [] []),
      AcceptLogin challenge \<lparr>la_subject = lr_subject req, la_acr = [], la_amr = [], la_remember = False,
        la_remember_for = 0\<rparr>]"
  by (rule calls_of_append) (rule remembered_login_run [OF assms(2-14), THEN wp_snd])

theorem remembered_login_ignores_max_age_witness:
  "\<exists>acc. AcceptLogin ''ch'' acc \<in> set (calls_of (start_login (sample_service True) ''ch'' []) (sample_world FlowLogin))
    \<and> lr_max_age (sample_login_request True) = Some 0"
  using remembered_login_ignores_max_age [of "sample_service True" "''ch''" "sample_world FlowLogin"
      "sample_login_request True" sample_client 0 "[]"]
  by (simp add: sample_challenge sample_login_request_def sample_client_validates)

end
