(* ===== verification/RedisFlows.thy ===== *)
theory RedisFlows
  imports Flows RedisStore
begin

text \<open>
  The completions over the Redis store. Theory \<open>RedisStore\<close> shows that it keeps
  \<open>consuming_store\<close> on any server with the documented behaviour, and the lemmas of theory
  \<open>ServiceProps\<close> about completions need no more than that.
\<close>

definition redis_after :: "('r redis_state world, 'a) state \<Rightarrow> 'r redis_state world \<Rightarrow> 'r redis_state" where
  "redis_after m w = w_store (snd (run_state m w))"

lemma redis_completion_cases:
  assumes "redis_laws (re_server env) stored"
    and "consuming_store.completion (redis_contents env stored) (\<lambda>s. True) w h P
      (fst (run_state m w)) (snd (run_state m w))"
  shows "calls_of m w = [] \<and> (\<exists>e. fst (run_state m w) = Inl e)
    \<or> (\<exists>tx. redis_contents env stored (w_store w) h = Some tx
          \<and> redis_contents env stored (redis_after m w) h = None
          \<and> P (w_tick w) (end_tick m w) tx (calls_of m w))"
  using assms(2) unfolding consuming_store.completion_def [OF redis_store_contract [OF assms(1)]]
  by (auto simp: calls_of_def redis_after_def end_tick_def)

text \<open>A completion of a login or a logout over Redis either fails without a call to another
  system, or it has loaded and consumed a transaction presented with its token by its browser
  before the clock passed its expiry, and it tells Hydra exactly one decision: of the login,
  an acceptance only for a session that passed every check, whatever the network and the
  server's retries do.\<close>

theorem redis_completions:
  assumes "redis_laws (re_server env) stored" and "sv_store sv = redis_ops env"
  shows "(calls_of (complete_login sv h login_in) w = []
      \<and> (\<exists>e. fst (run_state (complete_login sv h login_in) w) = Inl e)
    \<or> (\<exists>tx. redis_contents env stored (w_store w) h = Some tx
          \<and> redis_contents env stored (redis_after (complete_login sv h login_in) w) h = None
          \<and> login_done sv login_in (w_tick w) (end_tick (complete_login sv h login_in) w) tx
              (calls_of (complete_login sv h login_in) w)))
    \<and> (calls_of (complete_logout sv logout_in) w = []
      \<and> (\<exists>e. fst (run_state (complete_logout sv logout_in) w) = Inl e)
    \<or> (\<exists>tx. redis_contents env stored (w_store w) (oi_transaction logout_in) = Some tx
          \<and> redis_contents env stored (redis_after (complete_logout sv logout_in) w) (oi_transaction logout_in) = None
          \<and> logout_done sv logout_in (w_tick w) (end_tick (complete_logout sv logout_in) w) tx
              (calls_of (complete_logout sv logout_in) w)))"
proof -
  note store = redis_store_contract [OF assms(1)]
  note login = wp_snd [OF consuming_store.complete_login_post [OF store assms(2) TrueI]]
  note logout = wp_snd [OF consuming_store.complete_logout_post [OF store assms(2) TrueI]]
  show ?thesis
    by (intro conjI redis_completion_cases [OF assms(1) login] redis_completion_cases [OF assms(1) logout])
qed

definition sample_redis_service :: "string gomap redis_state service" where
  "sample_redis_service = \<lparr>sv_cfg = sample_config, sv_ports = sample_ports False, sv_store = redis_ops sample_redis,
     sv_lib = sample_lib, sv_readiness = 0\<rparr>"

definition sample_redis_world :: "string gomap redis_state world" where
  "sample_redis_world = \<lparr>w_store = \<lparr>rs_server = [], rs_tick = 0\<rparr>, w_admission = new_transaction_admission 10,
     w_tick = 0, w_log = []\<rparr>"

theorem redis_completions_witness:
  "calls_of (complete_logout sample_redis_service sample_logout_input) sample_redis_world = []"
proof -
  have "redis_laws (re_server sample_redis) map_get" "sv_store sample_redis_service = redis_ops sample_redis"
    using map_server_laws by (simp_all add: sample_redis_def sample_redis_service_def)
  from conjunct2 [OF redis_completions [OF this, of _ _ sample_redis_world sample_logout_input]] show ?thesis
    by (simp add: redis_contents_def sample_redis_world_def)
qed

end
