(* ===== verification/HttpServerProps.thy ===== *)
theory HttpServerProps
  imports HttpServer "HOL-Library.Word"
begin

text \<open>
  What the HTTP server guarantees for every request, whatever the provider behind it does:
  the shape of its responses, which requests reach the provider, and with which values.
\<close>

section \<open>Responses\<close>

definition no_crlf :: "string \<Rightarrow> bool" where
  "no_crlf s \<longleftrightarrow> CHR 0x0D \<notin> set s \<and> CHR 0x0A \<notin> set s"

definition clean_headers :: "(string \<times> string) list \<Rightarrow> bool" where
  "clean_headers hs \<longleftrightarrow> (\<forall>h\<in>set hs. no_crlf (fst h) \<and> no_crlf (snd h))"

text \<open>The bodies and statuses the server writes itself.\<close>

definition error_response :: "web_response \<Rightarrow> bool" where
  "error_response r \<longleftrightarrow>
     (ws_status r, ws_body r) \<in> {(400, json_member ''error'' ''invalid_request''),
       (401, json_member ''error'' ''login_required''), (403, json_member ''error'' ''access_denied''),
       (429, json_member ''error'' ''rate_limited''), (500, json_member ''error'' ''server_error''),
       (502, json_member ''error'' ''temporarily_unavailable'')}"

definition status_response :: "web_response \<Rightarrow> bool" where
  "status_response r \<longleftrightarrow> ws_status r = 200
     \<and> ws_body r \<in> {json_member ''status'' ''ok'', json_member ''status'' ''ready''}"

definition redirect_response_to :: "web_response \<Rightarrow> string \<Rightarrow> bool" where
  "redirect_response_to r target \<longleftrightarrow> ws_status r = 302 \<and> validate_redirect_target target = None
     \<and> (''Location'', hex_escape_non_ascii target) \<in> set (ws_headers r)"

definition well_formed_response :: "(string \<times> string) list \<Rightarrow> web_response \<Rightarrow> bool" where
  "well_formed_response hs r \<longleftrightarrow>
     (\<exists>ts. ws_headers r = hs @ ts \<and> clean_headers ts)
     \<and> (error_response r \<or> status_response r \<or> (\<exists>target. redirect_response_to r target))"

lemma clean_append [simp]: "clean_headers (hs @ ts) \<longleftrightarrow> clean_headers hs \<and> clean_headers ts"
  by (auto simp: clean_headers_def)

lemma well_formed_more: "well_formed_response (hs @ ts) r \<Longrightarrow> clean_headers ts \<Longrightarrow> well_formed_response hs r"
  by (auto simp: well_formed_response_def)

lemma write_error_ok: "well_formed_response hs (write_error hs e)"
  by (auto simp: well_formed_response_def write_error_def json_response_def error_response_def Let_def
      status_for_error_def public_error_def clean_headers_def no_crlf_def)

lemma json_ok: "v \<in> {''ok'', ''ready''} \<Longrightarrow> well_formed_response hs (json_response 200 hs ''status'' v)"
  by (auto simp: well_formed_response_def json_response_def status_response_def clean_headers_def no_crlf_def)

lemma lower_hex_clean: "n < 16 \<Longrightarrow> lower_hex n \<noteq> CHR 0x0D \<and> lower_hex n \<noteq> CHR 0x0A"
proof -
  assume "n < 16"
  then have "48 \<le> byte (lower_hex n)" by (simp add: lower_hex_def)
  then show ?thesis by auto
qed

lemma hex_digits_clean [simp]:
  "no_crlf [lower_hex (byte c div 16), lower_hex (byte c mod 16)]"
proof -
  have "byte c div 16 < 16" using byte_less [of c] by (simp add: less_mult_imp_div_less)
  then show ?thesis using lower_hex_clean [of "byte c div 16"] lower_hex_clean [of "byte c mod 16"]
    by (auto simp: no_crlf_def)
qed

lemma no_crlf_concat: "(\<And>p. p \<in> set ps \<Longrightarrow> no_crlf p) \<Longrightarrow> no_crlf (concat ps)"
  by (auto simp: no_crlf_def)

lemma hex_escape_clean: "no_crlf t \<Longrightarrow> no_crlf (hex_escape_non_ascii t)"
proof -
  assume t: "no_crlf t"
  have "no_crlf p" if "p = [CHR ''%'', lower_hex (byte c div 16), lower_hex (byte c mod 16)]" for p c
    using hex_digits_clean [of c] that by (simp add: no_crlf_def)
  then show ?thesis unfolding hex_escape_non_ascii_def
    by (intro no_crlf_concat) (use t in \<open>auto simp: no_crlf_def [of t] no_crlf_def [of "[c]" for c] split: if_splits\<close>)
qed

lemma redirect_to_ok: "well_formed_response hs (redirect_to q hs target)"
proof (cases "validate_redirect_target target")
  case None
  then have "no_crlf target"
    by (auto simp: validate_redirect_target_def contains_any_def no_crlf_def list_ex_iff split: option.splits if_splits)
  from hex_escape_clean [OF this] show ?thesis using None
    by (auto simp: redirect_to_def well_formed_response_def redirect_response_to_def redirect_found_def
        clean_headers_def no_crlf_def)
qed (simp add: redirect_to_def write_error_ok)

lemma cookie_text_clean: "no_crlf (cookie_value_text v)"
  by (auto simp: no_crlf_def cookie_value_text_def valid_cookie_value_byte_def Let_def)

lemma token_text_clean: "list_all token_byte n \<Longrightarrow> no_crlf n"
  by (auto simp: no_crlf_def list_all_iff token_byte_def is_alnum_def Let_def)

lemma set_cookie_clean: "clean_headers (set_cookie c)"
  using cookie_text_clean [of "ck_value c"] token_text_clean [of "ck_name c"]
  by (auto simp: set_cookie_def cookie_string_def clean_headers_def no_crlf_def split: same_site.split)

lemma started_response_ok: "well_formed_response hs (started_response c q hs name r)"
proof (cases r)
  case (Inr result)
  have "clean_headers (set_browser_state_cookie c name (rr_browser_state result))"
    by (simp add: set_browser_state_cookie_def set_cookie_clean) (simp add: clean_headers_def)
  from well_formed_more [OF redirect_to_ok this] show ?thesis by (simp add: started_response_def Inr)
qed (simp add: started_response_def write_error_ok)

lemma completed_response_ok: "well_formed_response hs (completed_response q hs r)"
  by (simp add: completed_response_def write_error_ok redirect_to_ok split: sum.split)

lemma wp_any: "(\<And>r w'. Q r w') \<Longrightarrow> wp m Q w"
  by (simp add: wp_def split: prod.split)

lemmas response_oks = write_error_ok json_ok redirect_to_ok started_response_ok completed_response_ok

lemma handle_route_ok: "wp (handle_route s rt hs q) (\<lambda>r w'. well_formed_response hs r) w"
  by (cases rt)
    (auto simp: handle_login_def handle_login_callback_def handle_consent_def handle_consent_submit_def
       handle_logout_def handle_logout_submit_def handle_health_def handle_ready_def wp Let_def response_oks
       split: sum.split prod.split option.split intro!: wp_any)

section \<open>Request identifiers\<close>

lemma rune_of_byte:
  assumes "c \<in> set s" and "byte c < 128"
  shows "byte c \<in> set (runes s)"
proof -
  obtain a b where "s = a @ c # b" using assms(1) by (auto simp: in_set_conv_decomp)
  then show ?thesis using assms(2) by (simp add: runes_def segs_append_ascii)
qed

lemma valid_request_id_clean:
  assumes "valid_request_id v"
  shows "no_crlf v"
proof -
  have "c \<notin> set v" if "byte c = 10 \<or> byte c = 13" for c
  proof
    assume "c \<in> set v"
    then have "byte c \<in> set (runes v)" using that rune_of_byte by fastforce
    then show False using that assms by (fastforce simp: valid_request_id_def list_all_iff split: if_splits)
  qed
  then show ?thesis by (simp add: no_crlf_def)
qed

lemma new_request_id_clean: "new_request_id rand = Inr v \<Longrightarrow> no_crlf v"
  by (auto simp: new_request_id_def split: option.splits intro!: no_crlf_concat)

lemma request_id_clean: "request_id_of rand q = Inr v \<Longrightarrow> no_crlf v"
  by (auto simp: request_id_of_def Let_def valid_request_id_clean new_request_id_clean split: if_splits sum.splits)

lemma security_headers_clean: "clean_headers (security_headers c)"
  by (simp add: security_headers_def clean_headers_def no_crlf_def)

section \<open>Requests that reach the provider\<close>

lemma run_return [simp]: "run_state (State_Monad.return x) w = (x, w)"
  by (simp add: run_state_return)

lemma handler_unchanged:
  "\<not> origin_allowed (srv_cfg s) (header_get q ''Origin'') \<or> parse_form max_form_bytes q = None \<Longrightarrow>
   snd (run_state (handle_consent_submit s hs q) w) = w \<and> snd (run_state (handle_logout_submit s hs q) w) = w"
  by (auto simp: handle_consent_submit_def handle_logout_submit_def)

lemma parse_form_limit:
  "parse_form limit q = Some form \<Longrightarrow> fst (wq_media_type q) = ''application/x-www-form-urlencoded'' \<Longrightarrow>
   length (wq_body q) \<le> limit"
  by (auto simp: parse_form_def post_form_def read_max_bytes_def Let_def split: option.splits prod.splits if_splits)

definition exact_router :: "router \<Rightarrow> bool" where
  "exact_router pick \<longleftrightarrow> (\<forall>m p r. pick routes m p = Inr r \<longrightarrow> (m, p, r) \<in> set routes)"

text \<open>The router that compares method and path; its refusal is a bare 404.\<close>

definition table_router :: router where
  "table_router table m p =
     (case find (\<lambda>(m', p', r). m' = m \<and> p' = p) table of
        Some (_, _, r) \<Rightarrow> Inr r
      | None \<Rightarrow> Inl \<lparr>ws_status = 404, ws_headers = [], ws_body = []\<rparr>)"

lemma table_router_exact: "exact_router table_router"
  by (auto simp: exact_router_def table_router_def find_Some_iff split: option.splits) (metis nth_mem)

section \<open>Browser state\<close>

definition token_text :: "string \<Rightarrow> bool" where
  "token_text v \<longleftrightarrow> v \<noteq> [] \<and> (\<forall>c\<in>set v. is_alnum c \<or> c \<in> {CHR ''-'', CHR ''_''})"

lemma token_char:
  assumes "is_alnum c \<or> c \<in> {CHR ''-'', CHR ''_''}"
  shows "45 \<le> byte c" and "byte c < 123" and "byte c \<notin> {59, 61, 92}"
  using assms by (auto simp: is_alnum_def Let_def)

lemma token_text_byte:
  assumes "token_text v" and "c \<in> set v"
  shows "valid_cookie_value_byte c" and "\<not> ascii_blank c" and "token_byte c"
    and "c \<notin> {CHR '';'', CHR ''='', CHR '' '', CHR '','', CHR 0x22}"
proof -
  have t: "is_alnum c \<or> c \<in> {CHR ''-'', CHR ''_''}" using assms by (auto simp: token_text_def)
  note b = token_char [OF t]
  show "c \<notin> {CHR '';'', CHR ''='', CHR '' '', CHR '','', CHR 0x22}" using b by auto
  show "valid_cookie_value_byte c" using b unfolding valid_cookie_value_byte_def by auto
  show "\<not> ascii_blank c" using b unfolding ascii_blank_def by auto
  show "token_byte c" using t by (auto simp: token_byte_def)
qed

lemma token_text_value: "token_text v \<Longrightarrow> cookie_value_text v = v"
proof -
  assume v: "token_text v"
  have "filter valid_cookie_value_byte v = v" using token_text_byte(1) [OF v] by (simp add: filter_id_conv)
  moreover have "\<not> contains_any v '' ,''"
    using token_text_byte(4) [OF v] by (auto simp: contains_any_def list_ex_iff)
  ultimately show ?thesis by (simp add: cookie_value_text_def)
qed

lemma trim_blank_id: "s \<noteq> [] \<Longrightarrow> \<not> ascii_blank (hd s) \<Longrightarrow> \<not> ascii_blank (last s) \<Longrightarrow> trim_blank s = s"
proof -
  assume s: "s \<noteq> []" "\<not> ascii_blank (hd s)" "\<not> ascii_blank (last s)"
  then have "dropWhile ascii_blank s = s" "dropWhile ascii_blank (rev s) = rev s"
    by (simp_all add: dropWhile_eq_self_iff hd_rev)
  then show ?thesis by (simp add: trim_blank_def)
qed

lemma parse_token_value: "token_text v \<Longrightarrow> parse_cookie_value v = Some v"
  using token_text_byte(1,4) [of v "hd v"] token_text_byte(1) [of v]
  by (auto simp: parse_cookie_value_def list_all_iff token_text_def)

lemma cookie_part_pair:
  assumes "token_text n" and "token_text v"
  shows "cookie_part (n @ ''='' @ v) = Some (n, v)"
proof -
  have e: "CHR ''='' \<notin> set n" using token_text_byte(4) [OF assms(1)] by blast
  have "hd n \<in> set n" "last n \<in> set n" "last v \<in> set v" "n \<noteq> []" "v \<noteq> []"
    using assms by (auto simp: token_text_def)
  then have "trim_blank (n @ ''='' @ v) = n @ ''='' @ v" "trim_blank n = n"
    using token_text_byte(2) assms by (auto intro!: trim_blank_id)
  then show ?thesis
    using cut_pair [OF e, of v] parse_token_value [OF assms(2)] token_text_byte(3) [OF assms(1)] \<open>n \<noteq> []\<close>
    by (simp add: cookie_part_def list_all_iff)
qed

lemma cookie_name_texts:
  "token_text ''provider_login_state''" "token_text ''provider_consent_state''" "token_text ''provider_logout_state''"
  "token_text ''__Host-provider_login_state''" "token_text ''__Host-provider_consent_state''"
  "token_text ''__Host-provider_logout_state''"
  by code_simp+

lemma cookie_names:
  assumes "name \<in> {loginBrowserStateCookie, consentBrowserStateCookie, logoutBrowserStateCookie}"
  shows "token_text (browser_state_cookie_name c name)"
  using assms cookie_name_texts
  by (auto simp: browser_state_cookie_name_def loginBrowserStateCookie_def consentBrowserStateCookie_def
      logoutBrowserStateCookie_def)

section \<open>Properties\<close>

definition sample_request :: "string \<Rightarrow> string \<Rightarrow> web_request" where
  "sample_request meth p = \<lparr>wq_method = meth, wq_path = p, wq_raw_query = ''a=b'', wq_headers = [],
     wq_media_type = (''application/octet-stream'', False), wq_body = [], wq_body_fails = False\<rparr>"

text \<open>A provider that counts its calls and fails.\<close>

definition sample_provider :: "nat provider" where
  "sample_provider = (let f = State (\<lambda>n. (Inl (Sent ErrReplay), Suc n)) in
     \<lparr>pv_start_login = (\<lambda>c b. f), pv_complete_login = (\<lambda>h i. f), pv_start_consent = (\<lambda>c b. f),
      pv_complete_consent = (\<lambda>i. f), pv_start_logout = (\<lambda>c b. f), pv_complete_logout = (\<lambda>i. f),
      pv_ready = State (\<lambda>n. (None, Suc n))\<rparr>)"

definition sample_server :: "nat server" where
  "sample_server = \<lparr>srv_provider = sample_provider, srv_cfg = sample_config\<rparr>"

text \<open>C21. Whatever the request and the provider, the server answers with one of six fixed error
  bodies, a fixed status body, or a redirect to an absolute http(s) URL without credentials
  or fragment, unless the router refused the path; no detail of an internal error leaves
  the server. Every response starts with the security headers, and no header holds a line
  break, so a request cannot inject a header.\<close>

theorem server_responses_safe:
  assumes "\<forall>m p own. pick routes m p = Inl own \<longrightarrow> clean_headers (ws_headers own)"
    and "fst (run_state (serve s pick admitted rand q) w) = r"
  shows "(\<exists>ts. ws_headers r = security_headers (srv_cfg s) @ ts)
    \<and> (\<forall>h. h \<in> set (ws_headers r) \<longrightarrow> CHR 0x0D \<notin> set (snd h) \<and> CHR 0x0A \<notin> set (snd h))
    \<and> (error_response r \<or> status_response r \<or> (\<exists>target. redirect_response_to r target)
       \<or> (\<exists>own. pick routes (wq_method q) (wq_path q) = Inl own \<and> ws_body r = ws_body own \<and> ws_status r = ws_status own))"
proof -
  have ok: "well_formed_response (security_headers (srv_cfg s)) r
    \<or> (\<exists>own ts. pick routes (wq_method q) (wq_path q) = Inl own \<and> ws_body r = ws_body own \<and> ws_status r = ws_status own
         \<and> ws_headers r = security_headers (srv_cfg s) @ ts \<and> clean_headers ts)"
  proof (cases "request_id_of rand q")
    case (Inr rid)
    have rid: "clean_headers [(''X-Request-Id'', rid)]"
      using request_id_clean [OF Inr] by (simp add: clean_headers_def no_crlf_def)
    show ?thesis
    proof (cases "admitted \<and> (\<exists>own. pick routes (wq_method q) (wq_path q) = Inl own)")
      case True
      then obtain own where own: "pick routes (wq_method q) (wq_path q) = Inl own" by blast
      have "clean_headers ([(''X-Request-Id'', rid)] @ ws_headers own)"
        using rid assms(1) own by (simp only: clean_append)
      then show ?thesis using assms(2) True own
        by (intro disjI2 exI [of _ own] exI [of _ "[(''X-Request-Id'', rid)] @ ws_headers own"])
          (auto simp: serve_def Inr Let_def)
    next
      case False
      have "well_formed_response (security_headers (srv_cfg s) @ [(''X-Request-Id'', rid)]) r"
        using assms(2) False wpD [OF handle_route_ok prod.collapse [symmetric]]
        by (auto simp: serve_def Inr Let_def write_error_ok split: sum.splits if_splits)
      from well_formed_more [OF this rid] show ?thesis by (rule disjI1)
    qed
  qed (use assms(2) write_error_ok in \<open>auto simp: serve_def Let_def\<close>)
  then have "clean_headers (ws_headers r)"
    using security_headers_clean [of "srv_cfg s"] by (auto simp: well_formed_response_def)
  then have "\<forall>h. h \<in> set (ws_headers r) \<longrightarrow> CHR 0x0D \<notin> set (snd h) \<and> CHR 0x0A \<notin> set (snd h)"
    by (simp add: clean_headers_def no_crlf_def)
  with ok show ?thesis unfolding well_formed_response_def by metis
qed

theorem server_responses_safe_witness:
  "list_all (\<lambda>h. CHR 0x0A \<notin> set (snd h)) (ws_headers (fst (run_state (serve sample_server table_router True
     (Some (\<lambda>i. CHR ''a'')) (sample_request ''GET'' ''/login'')) 0)))"
proof -
  have "\<forall>m p own. table_router routes m p = Inl own \<longrightarrow> clean_headers (ws_headers own)"
    by (auto simp: table_router_def clean_headers_def split: option.splits prod.splits)
  from server_responses_safe [of table_router sample_server True "Some (\<lambda>i. CHR ''a'')"
      "sample_request ''GET'' ''/login''" 0, OF this refl]
  show ?thesis unfolding list_all_iff by blast
qed

text \<open>C20. A request changes the state of the provider only when it was admitted and names a
  known method and path, and a POST only when its \<open>Origin\<close> header is the external UI's and
  its form parses; a URL-encoded body then has at most 32 KiB. A cross-site form, an
  oversized one, or a malformed one never reaches a flow.\<close>

theorem state_changes_need_origin:
  assumes "exact_router pick" and "snd (run_state (serve s pick admitted rand q) w) \<noteq> w"
  shows "admitted
    \<and> (wq_method q = ''GET'' \<and> wq_path q \<in> {''/login'', ''/login/callback'', ''/consent'', ''/logout'', ''/readyz''}
       \<or> wq_method q = ''POST'' \<and> wq_path q \<in> {''/consent'', ''/logout''}
         \<and> origin_allowed (srv_cfg s) (header_get q ''Origin'')
         \<and> (\<exists>form. parse_form 32768 q = Some form)
         \<and> (fst (wq_media_type q) \<noteq> ''application/x-www-form-urlencoded'' \<or> length (wq_body q) \<le> 32768))"
proof -
  obtain rid rt where rt: "admitted" "pick routes (wq_method q) (wq_path q) = Inr rt"
      "snd (run_state (handle_route s rt (security_headers (srv_cfg s) @ [(''X-Request-Id'', rid)]) q) w) \<noteq> w"
    using assms(2) by (auto simp: serve_def Let_def split: sum.splits if_splits)
  then have r: "(wq_method q, wq_path q, rt) \<in> set routes"
    using assms(1) by (auto simp: exact_router_def)
  have post: "origin_allowed (srv_cfg s) (header_get q ''Origin'') \<and> parse_form max_form_bytes q \<noteq> None"
    if "rt = RouteConsentSubmit \<or> rt = RouteLogoutSubmit"
  proof (rule ccontr)
    assume "\<not> (origin_allowed (srv_cfg s) (header_get q ''Origin'') \<and> parse_form max_form_bytes q \<noteq> None)"
    then have "\<not> origin_allowed (srv_cfg s) (header_get q ''Origin'') \<or> parse_form max_form_bytes q = None" by blast
    from handler_unchanged [OF this] show False using rt(3) that by auto
  qed
  have health: "rt \<noteq> RouteHealth" using rt(3) by auto
  show ?thesis
    using r rt(1) post health parse_form_limit [of max_form_bytes q]
    by (auto simp: routes_def max_form_bytes_def)
qed

theorem state_changes_need_origin_witness:
  "wq_path ((sample_request ''GET'' ''/login'')\<lparr>wq_raw_query := ''login_challenge=c''\<rparr>)
     \<in> {''/login'', ''/login/callback'', ''/consent'', ''/logout'', ''/readyz''}"
proof -
  let ?q = "(sample_request ''GET'' ''/login'')\<lparr>wq_raw_query := ''login_challenge=c''\<rparr>"
  have query: "request_query ?q = [(''login_challenge'', [''c''])]" by code_simp
  have "required_query_value [(''login_challenge'', [''c''])] ''login_challenge'' 2048 = Inr ''c''" 
    by (simp add: required_query_value_def map_get_def text_eval)
  moreover have "effective_max_challenge_length sample_config = 2048"
    by (simp add: effective_max_challenge_length_def sample_config_def DefaultMaxChallengeLength_def)
  moreover have "table_router routes ''GET'' ''/login'' = Inr RouteLogin"
    by (simp add: table_router_def routes_def)
  moreover have "\<exists>rid. request_id_of (Some (\<lambda>i. CHR ''a'')) ?q = Inr rid"
    by (cases "valid_request_id (header_get ?q ''X-Request-Id'')") (simp_all add: request_id_of_def new_request_id_def)
  ultimately have "snd (run_state (serve sample_server table_router True (Some (\<lambda>i. CHR ''a'')) ?q) 0) \<noteq> 0"
    using query
    by (auto simp: serve_def sample_server_def sample_provider_def handle_login_def Let_def run_state_bind
        sample_request_def)
  from state_changes_need_origin [OF table_router_exact this] show ?thesis by (auto simp: sample_request_def)
qed

text \<open>The remember options that pass the HTTP layer are exactly those the service accepts:
  an accepted pair passes \<open>validateRemember\<close>, and the texts of a pair are accepted, as that
  pair, exactly if it passes.\<close>

theorem remember_options_agree:
  "(case remember_options v n of Inr (r, secs) \<Rightarrow> validate_remember r secs = None | Inl e \<Rightarrow> e = Sent ErrInvalidRemember)
   \<and> remember_options (if r then ''true'' else ''off'') (format_int (sint (secs :: 64 word)))
      = (if validate_remember r (sint secs) = None then Inr (r, sint secs) else Inl (Sent ErrInvalidRemember))"
proof -
  have t: "to_lower (trim_space ''true'') = ''true''" "to_lower (trim_space ''off'') = ''off''"
    by (simp_all add: text_eval)
  have "int64 (sint secs)" using sint_greater_eq [of secs] sint_less [of secs] by (simp add: int64_def)
  from parse_format_int [OF this] have p: "parse_int64 (format_int (sint secs)) = Some (sint secs)" .
  then have ne: "format_int (sint secs) \<noteq> []" by (auto simp: parse_int64_def)
  have "case remember_options v n of Inr (r, secs) \<Rightarrow> validate_remember r secs = None | Inl e \<Rightarrow> e = Sent ErrInvalidRemember"
    by (auto simp: remember_options_def Let_def split: sum.splits option.splits if_splits)
  then show ?thesis using p ne by (cases r) (auto simp: remember_options_def t)
qed

text \<open>Round trip of the browser state: the value the server sets in its cookie is the value
  it reads from a request that returns the cookie; over https the cookie has the
  \<open>__Host-\<close> prefix with the attributes that prefix demands.\<close>

theorem browser_state_round_trip:
  assumes "token_text v" and "length v \<le> 128"
    and "name \<in> {loginBrowserStateCookie, consentBrowserStateCookie, logoutBrowserStateCookie}"
    and "map_get (wq_headers q) ''Cookie'' = Some [browser_state_cookie_name c name @ ''='' @ v]"
  shows "set_browser_state_cookie c name v =
      [(''Set-Cookie'', browser_state_cookie_name c name @ ''='' @ v @ ''; Path=/; HttpOnly''
         @ (if provider_https c then ''; Secure; SameSite=None'' else ''; SameSite=Lax''))]
    \<and> browser_state_cookie c q name = v"
proof -
  let ?n = "browser_state_cookie_name c name"
  have n: "token_text ?n" by (rule cookie_names [OF assms(3)])
  then have ne: "?n \<noteq> []" "v \<noteq> []" using assms(1) by (auto simp: token_text_def)
  have part: "cookie_part (?n @ ''='' @ v) = Some (?n, v)" by (rule cookie_part_pair [OF n assms(1)])
  have "CHR '';'' \<notin> set (?n @ ''='' @ v)" using token_text_byte(4) n assms(1) by fastforce
  moreover have "trim_blank (?n @ ''='' @ v) = ?n @ ''='' @ v"
    using token_text_byte(2) [OF n] token_text_byte(2) [OF assms(1)] ne by (intro trim_blank_id) auto
  ultimately have "read_cookies q = [(?n, v)]"
    using part by (simp add: read_cookies_def assms(4) map_filter_simps)
  moreover have "list_all token_byte ?n" using token_text_byte(3) [OF n] by (simp add: list_all_iff)
  ultimately show ?thesis using ne assms(2)
    by (simp add: browser_state_cookie_def request_cookie_def set_browser_state_cookie_def set_cookie_def
        cookie_string_def token_text_value [OF assms(1)])
qed

theorem browser_state_round_trip_witness:
  "browser_state_cookie sample_config ((sample_request ''GET'' ''/login'')\<lparr>wq_headers :=
     [(''Cookie'', [browser_state_cookie_name sample_config loginBrowserStateCookie @ ''='' @ ''v1-_''])]\<rparr>)
     loginBrowserStateCookie = ''v1-_''"
proof -
  have "token_text ''v1-_''" by code_simp
  then show ?thesis by (intro conjunct2 [OF browser_state_round_trip]) (simp_all add: map_get_def)
qed

end
