(* ===== verification/Stack.thy ===== *)
theory Stack
  imports Wiring RedisFlows HttpServerProps
begin

text \<open>
  The assembled program: the HTTP server over the service over the adapters. \<open>emits P m\<close>
  says that every call the program \<open>m\<close> makes to another system satisfies \<open>P\<close>, whatever the
  store, the adapters and the state are; the flows are composed of steps for which this is
  immediate. The theorems follow an acceptance at Hydra back to the HTTP request that
  caused it.
\<close>

section \<open>Which calls a program makes\<close>

definition emits :: "(event \<Rightarrow> bool) \<Rightarrow> ('s world, 'a) state \<Rightarrow> bool" where
  "emits P m \<longleftrightarrow> (\<forall>w. \<exists>es. w_log (snd (run_state m w)) = w_log w @ es \<and> list_all P es)"

lemma emits_return: "emits P (State_Monad.return x)"
  by (simp add: emits_def)

lemma emits_bind:
  assumes "emits P m" and "\<And>x. emits P (f x)"
  shows "emits P (State_Monad.bind m f)"
  unfolding emits_def
proof
  fix w
  obtain x w1 where m: "run_state m w = (x, w1)" by fastforce
  obtain es1 where "w_log w1 = w_log w @ es1" "list_all P es1"
    using assms(1) m unfolding emits_def by (metis snd_conv)
  moreover obtain es2 where "w_log (snd (run_state (f x) w1)) = w_log w1 @ es2" "list_all P es2"
    using assms(2) unfolding emits_def by blast
  ultimately show "\<exists>es. w_log (snd (run_state (State_Monad.bind m f) w)) = w_log w @ es \<and> list_all P es"
    by (auto simp: run_state_bind m)
qed

lemma emits_port_call: "P e \<Longrightarrow> emits P (port_call e f)"
  by (simp add: emits_def port_call_def)

lemma emits_ask: "emits P (ask f)"
  by (simp add: emits_def ask_def)

lemma emits_on_store: "emits P (on_store m)"
  by (simp add: emits_def on_store_def split: prod.split)

lemma emits_on_admission: "emits P (on_admission f)"
  by (simp add: emits_def on_admission_def split: prod.split)

lemma emits_if: "(b \<Longrightarrow> emits P m) \<Longrightarrow> (\<not> b \<Longrightarrow> emits P n) \<Longrightarrow> emits P (if b then m else n)"
  by simp

lemma emits_case_sum:
  "(\<And>e. r = Inl e \<Longrightarrow> emits P (f e)) \<Longrightarrow> (\<And>x. r = Inr x \<Longrightarrow> emits P (g x)) \<Longrightarrow>
   emits P (case r of Inl e \<Rightarrow> f e | Inr x \<Rightarrow> g x)"
  by (simp split: sum.split)

lemma emits_case_option:
  "(r = None \<Longrightarrow> emits P m) \<Longrightarrow> (\<And>x. r = Some x \<Longrightarrow> emits P (g x)) \<Longrightarrow>
   emits P (case r of None \<Rightarrow> m | Some x \<Rightarrow> g x)"
  by (simp split: option.split)

lemma emits_case_prod: "(\<And>a b. r = (a, b) \<Longrightarrow> emits P (f a b)) \<Longrightarrow> emits P (case r of (a, b) \<Rightarrow> f a b)"
  by (simp split: prod.split)

lemmas emits_rules = emits_return emits_bind emits_port_call emits_ask emits_on_store emits_on_admission
  emits_if emits_case_sum emits_case_option emits_case_prod

lemmas step_defs = load_def consume_def admission_release_def now_call_def new_opaque_token_def
  start_browser_state_def create_transaction_def open_transaction_def reject_defs

lemma start_login_emits:
  assumes "supported_aal (cfg_required_aal (sv_cfg sv))"
  shows "emits (\<lambda>e. \<not> is_acceptance e) (start_login sv challenge browser)"
proof -
  have "higher_aal (cfg_required_aal (sv_cfg sv)) r \<noteq> []" for r
    using assms by (auto simp: higher_aal_def supported_aal_def split: option.splits)
  then show ?thesis unfolding start_login_def step_defs Let_def by (intro emits_rules) simp_all
qed

lemma complete_login_emits:
  "emits (\<lambda>e. is_acceptance e \<longrightarrow> (\<exists>c a. e = AcceptLogin c a)) (complete_login sv h input)"
  unfolding complete_login_def decide_login_def step_defs Let_def by (intro emits_rules) simp_all

lemma start_consent_emits: "emits (\<lambda>e. \<not> is_acceptance e) (start_consent sv challenge browser)"
  unfolding start_consent_def step_defs Let_def by (intro emits_rules) simp_all

lemma complete_consent_emits:
  "emits (\<lambda>e. is_acceptance e \<longrightarrow> (\<exists>c a. e = AcceptConsent c a)) (complete_consent sv input)"
  unfolding complete_consent_def accept_consent_def accept_consent_decision_def step_defs Let_def
  by (intro emits_rules) simp_all

lemma start_logout_emits: "emits (\<lambda>e. \<not> is_acceptance e) (start_logout sv challenge browser)"
  unfolding start_logout_def step_defs Let_def by (intro emits_rules) simp_all

lemma complete_logout_emits:
  "emits (\<lambda>e. is_acceptance e \<longrightarrow> (\<exists>c. e = AcceptLogout c)) (complete_logout sv input)"
  unfolding complete_logout_def step_defs Let_def by (intro emits_rules) simp_all

lemma ready_loop_emits: "emits P (ready_loop sv is)"
  by (induction sv "is" rule: ready_loop.induct) (auto intro!: emits_rules simp: Let_def)

section \<open>The handlers over the service\<close>

lemma emitsD: "emits P m \<Longrightarrow> e \<in> set (calls_of m w) \<Longrightarrow> P e"
  unfolding emits_def calls_of_def by (metis append_eq_conv_conj list_all_iff)

lemma handler_emits:
  assumes "srv_provider s = service_provider sv" and "supported_aal (cfg_required_aal (sv_cfg sv))"
  shows "emits (\<lambda>e. \<not> is_acceptance e) (handle_login s hs q)"
    and "emits (\<lambda>e. is_acceptance e \<longrightarrow> (\<exists>c a. e = AcceptLogin c a)) (handle_login_callback s hs q)"
    and "emits (\<lambda>e. \<not> is_acceptance e) (handle_consent s hs q)"
    and "emits (\<lambda>e. is_acceptance e \<longrightarrow> (\<exists>c a. e = AcceptConsent c a)) (handle_consent_submit s hs q)"
    and "emits (\<lambda>e. \<not> is_acceptance e) (handle_logout s hs q)"
    and "emits (\<lambda>e. is_acceptance e \<longrightarrow> (\<exists>c. e = AcceptLogout c)) (handle_logout_submit s hs q)"
    and "emits (\<lambda>e. \<not> is_acceptance e) (handle_ready s hs)"
  using assms start_login_emits complete_login_emits start_consent_emits complete_consent_emits start_logout_emits
    complete_logout_emits ready_loop_emits
  by (auto simp: handle_login_def handle_login_callback_def handle_consent_def handle_consent_submit_def
      handle_logout_def handle_logout_submit_def handle_ready_def service_provider_def ready_def Let_def
      intro!: emits_rules)

lemma calls_of_return [simp]: "calls_of (State_Monad.return x) w = []"
  by (simp add: calls_of_def)

lemma serve_route:
  assumes "e \<in> set (calls_of (serve s pick admitted rand q) w)" and "exact_router pick"
  obtains rt hs where "(wq_method q, wq_path q, rt) \<in> set routes"
    "run_state (serve s pick admitted rand q) w = run_state (handle_route s rt hs q) w"
    "e \<in> set (calls_of (handle_route s rt hs q) w)"
proof -
  obtain rid rt where rt: "request_id_of rand q = Inr rid" "admitted"
      "pick routes (wq_method q) (wq_path q) = Inr rt"
    using assms(1) by (auto simp: serve_def Let_def split: sum.splits if_splits)
  then have run: "serve s pick admitted rand q = handle_route s rt (security_headers (srv_cfg s) @ [(''X-Request-Id'', rid)]) q"
    by (simp add: serve_def Let_def)
  show ?thesis
    using that [of rt "security_headers (srv_cfg s) @ [(''X-Request-Id'', rid)]"] rt(3) assms
    by (simp add: run exact_router_def)
qed

lemma served_acceptance:
  assumes "srv_provider s = service_provider sv" and "supported_aal (cfg_required_aal (sv_cfg sv))"
    and "exact_router pick" and "e \<in> set (calls_of (serve s pick admitted rand q) w)" and "is_acceptance e"
  obtains (login) c a hs where "e = AcceptLogin c a" "wq_method q = ''GET''" "wq_path q = ''/login/callback''"
      "run_state (serve s pick admitted rand q) w = run_state (handle_login_callback s hs q) w"
    | (consent) c a hs where "e = AcceptConsent c a" "wq_method q = ''POST''" "wq_path q = ''/consent''"
      "run_state (serve s pick admitted rand q) w = run_state (handle_consent_submit s hs q) w"
      "e \<in> set (calls_of (handle_consent_submit s hs q) w)"
    | (logout) c hs where "e = AcceptLogout c" "wq_method q = ''POST''" "wq_path q = ''/logout''"
      "run_state (serve s pick admitted rand q) w = run_state (handle_logout_submit s hs q) w"
      "e \<in> set (calls_of (handle_logout_submit s hs q) w)"
proof -
  obtain rt hs where rt: "(wq_method q, wq_path q, rt) \<in> set routes"
    "run_state (serve s pick admitted rand q) w = run_state (handle_route s rt hs q) w"
    "e \<in> set (calls_of (handle_route s rt hs q) w)"
    by (rule serve_route [OF assms(4,3)])
  note em = emitsD [OF handler_emits(1) [OF assms(1,2)]] emitsD [OF handler_emits(2) [OF assms(1,2)]]
    emitsD [OF handler_emits(3) [OF assms(1,2)]] emitsD [OF handler_emits(4) [OF assms(1,2)]]
    emitsD [OF handler_emits(5) [OF assms(1,2)]] emitsD [OF handler_emits(6) [OF assms(1,2)]]
    emitsD [OF handler_emits(7) [OF assms(1,2)]]
  show ?thesis
  proof (cases rt)
    case RouteLoginCallback
    then show ?thesis using rt em(2) [of e hs q w] assms(5) by (auto simp: routes_def intro: login)
  next
    case RouteConsentSubmit
    then show ?thesis using rt em(4) [of e hs q w] assms(5) by (auto simp: routes_def intro: consent)
  next
    case RouteLogoutSubmit
    then show ?thesis using rt em(6) [of e hs q w] assms(5) by (auto simp: routes_def intro: logout)
  qed (use rt(3) em(1) [of e hs q w] em(3) [of e hs q w] em(5) [of e hs q w] em(7) [of e hs w] assms(5) in auto)
qed

lemma post_calls_origin:
  "calls_of (handle_consent_submit s hs q) w \<noteq> [] \<or> calls_of (handle_logout_submit s hs q) w \<noteq> [] \<Longrightarrow>
   origin_allowed (srv_cfg s) (header_get q ''Origin'')"
  by (rule ccontr) (simp add: handle_consent_submit_def handle_logout_submit_def)

section \<open>The assembled server\<close>

lemma assemble_server_parts:
  assumes "assemble_server wr out ops lib = Inr (s, counter)"
  obtains sv where "srv_provider s = service_provider sv" "sv_ports sv = adapter_ports out wr" "sv_store sv = ops"
    "validate_config (wr_cfg wr) = Inr (sv_cfg sv)" "srv_cfg s = sv_cfg sv"
proof -
  obtain cfg where c: "validate_config (wr_cfg wr) = Inr cfg"
    "s = \<lparr>srv_provider = service_provider \<lparr>sv_cfg = cfg, sv_ports = adapter_ports out wr, sv_store = ops,
       sv_lib = lib, sv_readiness = readiness_count wr\<rparr>, srv_cfg = cfg\<rparr>"
    using assms by (auto simp: assemble_server_def and_then_Inr new_service_def new_server_def split: sum.splits)
  show ?thesis
    by (rule that [of "\<lparr>sv_cfg = cfg, sv_ports = adapter_ports out wr, sv_store = ops, sv_lib = lib,
        sv_readiness = readiness_count wr\<rparr>"]) (simp_all add: c)
qed

lemma validated_same:
  assumes "validate_config c = Inr c'"
  shows "cfg_required_aal c' = cfg_required_aal c" and "origin_allowed c' v = origin_allowed c v"
    and "browser_state_cookie c' q n = browser_state_cookie c q n"
    and "session_credentials_of c' q = session_credentials_of c q"
proof -
  obtain m where c: "c' = c\<lparr>cfg_identity_claim_mappings := m\<rparr>" by (rule validated_fields [OF assms])
  show "cfg_required_aal c' = cfg_required_aal c" by (simp add: c)
  have f: "cfg_external_ui_url c' = cfg_external_ui_url c" "cfg_provider_url c' = cfg_provider_url c"
    "cfg_kratos_session_cookie c' = cfg_kratos_session_cookie c" by (simp_all add: c)
  show "origin_allowed c' v = origin_allowed c v" unfolding origin_allowed_def f ..
  show "browser_state_cookie c' q n = browser_state_cookie c q n"
    unfolding browser_state_cookie_def browser_state_cookie_name_def provider_https_def f ..
  show "session_credentials_of c' q = session_credentials_of c q" unfolding session_credentials_of_def f ..
qed

lemma callback_run:
  assumes "srv_provider s = service_provider sv" and "calls_of (handle_login_callback s hs q) w \<noteq> []"
  obtains h input where "required_query_value (request_query q) ''transaction'' 256 = Inr h"
    "required_query_value (request_query q) ''csrf'' 256 = Inr (li_csrf_token input)"
    "li_browser_state input = browser_state_cookie (srv_cfg s) q loginBrowserStateCookie"
    "li_credentials input = session_credentials_of (srv_cfg s) q"
    "calls_of (handle_login_callback s hs q) w = calls_of (complete_login sv h input) w"
    "snd (run_state (handle_login_callback s hs q) w) = snd (run_state (complete_login sv h input) w)"
proof -
  obtain h csrf r n where p: "required_query_value (request_query q) ''transaction'' 256 = Inr h"
    "required_query_value (request_query q) ''csrf'' 256 = Inr csrf"
    "remember_options (values_get (request_query q) ''remember'') (values_get (request_query q) ''remember_for'') = Inr (r, n)"
    using assms(2) by (auto simp: handle_login_callback_def Let_def split: sum.splits prod.splits)
  let ?i = "\<lparr>li_csrf_token = csrf, li_browser_state = browser_state_cookie (srv_cfg s) q loginBrowserStateCookie,
     li_credentials = session_credentials_of (srv_cfg s) q, li_remember = r, li_remember_for = n\<rparr>"
  have run: "snd (run_state (handle_login_callback s hs q) w) = snd (run_state (complete_login sv h ?i) w)"
    by (simp add: handle_login_callback_def p Let_def assms(1) service_provider_def run_state_bind split: prod.split)
  show ?thesis by (rule that [of h ?i]) (simp_all add: p run calls_of_def)
qed

section \<open>A sample run\<close>

text \<open>The sample deployment, a Redis server that holds one login transaction, and a browser
  that completes it.\<close>

definition sample_reply_session :: session_response where
  "sample_reply_session = \<lparr>sr_active = True, sr_aal = ''aal2'', sr_authenticated_at = 1, sr_methods = [''password''],
     sr_identity_id = ''u'', sr_traits = [], sr_metadata_public = [], sr_addresses = []\<rparr>"

definition sample_outside :: outside where
  "sample_outside = \<lparr>ou_api = (\<lambda>n. sample_api),
     ou_send = (\<lambda>n q. Inr \<lparr>hr_status = 200, hr_body = [], hr_body_fails = False\<rparr>),
     ou_session = (\<lambda>d e. Some sample_reply_session), ou_codec = sample_codec, ou_now = (\<lambda>n. 1),
     ou_rand = (\<lambda>n. Some (\<lambda>i. CHR ''a'')), ou_ping = (\<lambda>n. None)\<rparr>"

definition sample_renv :: "string gomap redis_env" where
  "sample_renv = sample_redis\<lparr>re_decode := \<lambda>p. Some (sample_tx FlowLogin), re_prefix := ''p:''\<rparr>"

definition sample_stack_service :: "string gomap redis_state service" where
  "sample_stack_service = \<lparr>sv_cfg = sample_production, sv_ports = adapter_ports sample_outside sample_wiring,
     sv_store = redis_ops sample_renv, sv_lib = sample_lib, sv_readiness = 3\<rparr>"

definition sample_stack_server :: "string gomap redis_state world server" where
  "sample_stack_server = \<lparr>srv_provider = service_provider sample_stack_service, srv_cfg = sample_production\<rparr>"

definition sample_stack_world :: "string gomap redis_state world" where
  "sample_stack_world = \<lparr>w_store = \<lparr>rs_server = [(''p:t'', ''v'')], rs_tick = 0\<rparr>,
     w_admission = new_transaction_admission 10, w_tick = 0, w_log = []\<rparr>"

definition sample_callback :: web_request where
  "sample_callback = \<lparr>wq_method = ''GET'', wq_path = ''/login/callback'', wq_raw_query = ''transaction=t&csrf=k'',
     wq_headers = [(''Cookie'', [''__Host-provider_login_state'' @ ''='' @ sample_token, ''ory_kratos_session'' @ ''='' @ ''v''])],
     wq_media_type = (''application/octet-stream'', False), wq_body = [], wq_body_fails = False\<rparr>"

lemma sample_assemble_server:
  "\<exists>counter. assemble_server sample_wiring sample_outside (redis_ops sample_renv) sample_lib
     = Inr (sample_stack_server, counter)"
  by (simp add: assemble_server_def new_service_def new_server_def and_then_def wrap_error_def
      sample_production_validates sample_wiring_def [THEN arg_cong, of wr_cfg] readiness_count_def)
    (simp add: sample_wiring_def sample_production_validates sample_stack_server_def sample_stack_service_def)

lemma one_cookie:
  assumes "token_text n" and "token_text v"
  shows "List.map_filter cookie_part (split_at (CHR '';'') (trim_blank (n @ ''='' @ v))) = [(n, v)]"
proof -
  have ne: "n \<noteq> []" "v \<noteq> []" using assms by (auto simp: token_text_def)
  have "CHR '';'' \<notin> set (n @ ''='' @ v)" using token_text_byte(4) assms by fastforce
  moreover have "trim_blank (n @ ''='' @ v) = n @ ''='' @ v"
    using token_text_byte(2) [OF assms(1)] token_text_byte(2) [OF assms(2)] ne by (intro trim_blank_id) auto
  ultimately show ?thesis using cookie_part_pair [OF assms] by (simp add: map_filter_simps)
qed

lemma sample_token_text: "token_text sample_token" "token_text ''ory_kratos_session''" "token_text ''v''"
  by code_simp+

lemma sample_cookies:
  "read_cookies sample_callback = [(''__Host-provider_login_state'', sample_token), (''ory_kratos_session'', ''v'')]"
proof -
  note t = sample_token_text
  have "map_get (wq_headers sample_callback) ''Cookie''
      = Some [''__Host-provider_login_state'' @ ''='' @ sample_token, ''ory_kratos_session'' @ ''='' @ ''v'']"
    by (simp add: sample_callback_def map_get_def)
  then show ?thesis using one_cookie [OF cookie_name_texts(4) t(1)] one_cookie [OF t(2,3)] unfolding read_cookies_def by simp
qed

lemma sample_https: "provider_https sample_production"
  by (simp add: provider_https_def sample_production_def sample_loaded_def sample_url_def empty_url_def)

definition sample_callback_input :: login_input where
  "sample_callback_input = \<lparr>li_csrf_token = ''k'', li_browser_state = sample_token,
     li_credentials = \<lparr>sc_cookie_name = ''ory_kratos_session'', sc_cookie_value = ''v'', sc_token = []\<rparr>,
     li_remember = False, li_remember_for = 0\<rparr>"

lemma sample_query: "request_query sample_callback = [(''transaction'', [''t'']), (''csrf'', [''k''])]"
  unfolding sample_callback_def request_query_def by code_simp

lemma sample_callback_handler:
  "handle_login_callback sample_stack_server hs sample_callback = do {
     r \<leftarrow> complete_login sample_stack_service ''t'' sample_callback_input;
     State_Monad.return (completed_response sample_callback hs r) }"
proof -
  have v: "required_query_value [(''transaction'', [''t'']), (''csrf'', [''k''])] ''transaction'' 256 = Inr ''t''"
    "required_query_value [(''transaction'', [''t'']), (''csrf'', [''k''])] ''csrf'' 256 = Inr ''k''"
    by (simp_all add: required_query_value_def map_get_def text_eval)
  have b: "browser_state_cookie sample_production sample_callback loginBrowserStateCookie = sample_token"
    using length_token_of [of "\<lambda>i. CHR ''a''"]
    by (simp add: browser_state_cookie_def request_cookie_def browser_state_cookie_name_def sample_https sample_cookies
        loginBrowserStateCookie_def sample_token_def)
  have c: "session_credentials_of sample_production sample_callback
      = \<lparr>sc_cookie_name = ''ory_kratos_session'', sc_cookie_value = ''v'', sc_token = []\<rparr>"
    by (simp add: session_credentials_of_def request_cookie_def sample_cookies sample_production_def sample_loaded_def)
  show ?thesis
    by (simp add: handle_login_callback_def sample_query v sample_stack_server_def b c remember_options_def values_get_def
        map_get_def service_provider_def sample_callback_input_def Let_def)
qed

lemma sample_redis_steps:
  "run_state (redis_get sample_renv ''t'') \<lparr>rs_server = [(''p:t'', ''v'')], rs_tick = k\<rparr>
     = (Inr (sample_tx FlowLogin), \<lparr>rs_server = [(''p:t'', ''v'')], rs_tick = Suc (Suc k)\<rparr>)"
  "run_state (redis_consume sample_renv ''t'') \<lparr>rs_server = [(''p:t'', ''v'')], rs_tick = k\<rparr>
     = (Inr (sample_tx FlowLogin), \<lparr>rs_server = [], rs_tick = Suc (Suc k)\<rparr>)"
  by (simp_all add: redis_get_def redis_consume_def redis_call_def redis_load_def redis_time_def consume_script_def
      redis_key_def sample_renv_def sample_redis_def map_server_def map_get_def map_del_def after_def
      run_state_bind run_state_return sample_tx_def)

lemma sample_ports_answers:
  "p_now (adapter_ports sample_outside sample_wiring) n = 1"
  "p_validate_session (adapter_ports sample_outside sample_wiring) n (li_credentials sample_callback_input)
     = Inr (session_of_response sample_reply_session)"
  "pi_subject i = ''u'' \<Longrightarrow> p_authorize_login (adapter_ports sample_outside sample_wiring) n i = Inr True"
proof -
  show "p_now (adapter_ports sample_outside sample_wiring) n = 1"
    by (simp add: adapter_ports_def sample_outside_def)
  have "kratos_validate_session (sample_url ''k'') (\<lambda>d e. Some sample_reply_session)
      (\<lambda>q. Inr \<lparr>hr_status = 200, hr_body = [], hr_body_fails = False\<rparr>) (li_credentials sample_callback_input)
      = Inr (session_of_response sample_reply_session)"
    by (simp add: kratos_validate_session_def sample_whoami success_status_def)
      (simp add: sample_callback_input_def sample_reply_session_def)
  then show "p_validate_session (adapter_ports sample_outside sample_wiring) n (li_credentials sample_callback_input)
      = Inr (session_of_response sample_reply_session)"
    by (simp add: adapter_ports_def sample_outside_def sample_wiring_def)
  show "pi_subject i = ''u'' \<Longrightarrow> p_authorize_login (adapter_ports sample_outside sample_wiring) n i = Inr True"
    by (simp add: adapter_ports_def sample_wiring_def static_authorize_login_def static_allowed_def
        new_static_with_scopes_def new_static_def) (simp add: to_set_def)
qed

lemma sample_stack_run:
  "\<exists>acc. AcceptLogin ''ch'' acc
     \<in> set (calls_of (complete_login sample_stack_service ''t'' sample_callback_input) sample_stack_world)"
proof -
  have pres: "validate_csrf ''k'' ''k'' = None" "validate_browser_state sample_token sample_token = None"
    using sample_presentable [of FlowLogin] by (simp_all add: presentable_def validate_browser_state_None sample_tx_def)
  have tok: "sample_token \<noteq> []" using length_token_of [of "\<lambda>i. CHR ''a''"] by (auto simp: sample_token_def)
  have fresh: "validate_login_freshness (sample_tx FlowLogin) se now = None" for se now
    by (simp add: validate_login_freshness_def prompt_includes_def sample_tx_def empty_transaction_def str_fields_def)
  have se: "se_subject (session_of_response sample_reply_session) = ''u''"
    "se_aal (session_of_response sample_reply_session) = ''aal2''"
    by (simp_all add: session_of_response_def sample_reply_session_def)
  have "supported_aal ''aal2''" by (simp add: supported_aal_def aal_level_def text_eval)
  then have aal: "aal_at_least ''aal2'' (higher_aal ''aal2'' [])"
    by (auto simp: higher_aal_def aal_at_least_self supported_aal_def split: option.split)
  have cfg: "cfg_required_aal sample_production = ''aal2''"
    by (simp add: sample_production_def sample_loaded_def)
  have tx: "tx_flow (sample_tx FlowLogin) = FlowLogin" "tx_csrf_token (sample_tx FlowLogin) = ''k''"
    "tx_browser_state (sample_tx FlowLogin) = sample_token" "tx_expires_at (sample_tx FlowLogin) = 100"
    "tx_challenge (sample_tx FlowLogin) = ''ch''" "tx_subject (sample_tx FlowLogin) = ''u''"
    "tx_requested_aal (sample_tx FlowLogin) = []"
    by (simp_all add: sample_tx_def empty_transaction_def str_fields_def)
  have rem: "validate_remember False 0 = None" by (simp add: validate_remember_def)
  have inp: "li_csrf_token sample_callback_input = ''k''" "li_browser_state sample_callback_input = sample_token"
    "li_remember sample_callback_input = False" "li_remember_for sample_callback_input = 0"
    by (simp_all add: sample_callback_input_def)
  have sv: "sv_cfg sample_stack_service = sample_production" "sv_store sample_stack_service = redis_ops sample_renv"
    "sv_ports sample_stack_service = adapter_ports sample_outside sample_wiring"
    by (simp_all add: sample_stack_service_def)
  have ports: "pi_subject i = ''u'' \<Longrightarrow> p_authorize_login (adapter_ports sample_outside sample_wiring) n i = Inr True" for n i
    by (rule sample_ports_answers(3))
  have "wp (complete_login sample_stack_service ''t'' sample_callback_input)
      (\<lambda>r w'. \<exists>acc. AcceptLogin ''ch'' acc \<in> set (w_log w')) sample_stack_world"
    unfolding complete_login_def load_def consume_def decide_login_def
    by (simp add: wp wp_on_store wp_def [of "redis_get e h" for e h] wp_def [of "redis_consume e h" for e h]
        sv redis_ops_def sample_stack_world_def sample_redis_steps tx tok inp pres rem
        sample_ports_answers ports after_def Let_def fresh se aal cfg login_policy_input_def)
  then show ?thesis by (auto dest!: wp_snd simp: calls_of_def sample_stack_world_def)
qed

lemma sample_served:
  "\<exists>acc. AcceptLogin ''ch'' acc \<in> set (calls_of
     (serve sample_stack_server table_router True (Some (\<lambda>i. CHR ''a'')) sample_callback) sample_stack_world)"
proof -
  obtain rid where rid: "request_id_of (Some (\<lambda>i. CHR ''a'')) sample_callback = Inr rid"
    by (cases "valid_request_id (header_get sample_callback ''X-Request-Id'')")
      (simp_all add: request_id_of_def new_request_id_def)
  have route: "table_router routes (wq_method sample_callback) (wq_path sample_callback) = Inr RouteLoginCallback"
    by (simp add: table_router_def routes_def sample_callback_def)
  have "calls_of (serve sample_stack_server table_router True (Some (\<lambda>i. CHR ''a'')) sample_callback) sample_stack_world
      = calls_of (complete_login sample_stack_service ''t'' sample_callback_input) sample_stack_world"
    by (simp add: serve_def rid route sample_callback_handler calls_of_def run_state_bind run_state_return Let_def
        split: prod.split)
  then show ?thesis using sample_stack_run by simp
qed

text \<open>Where the acceptance of a login comes from, over any store.\<close>

lemma served_login:
  assumes "assemble lib decode_rules parse_options getenv = Inr wr"
    and "assemble_server wr out ops golib = Inr (s, counter)" and "exact_router pick"
    and "AcceptLogin c acc \<in> set (calls_of (serve s pick admitted rand q) w)"
  obtains sv h input where "sv_ports sv = adapter_ports out wr" "sv_store sv = ops"
    "cfg_required_aal (sv_cfg sv) = cfg_required_aal (wr_cfg wr)"
    "wq_method q = ''GET''" "wq_path q = ''/login/callback''"
    "required_query_value (request_query q) ''transaction'' 256 = Inr h"
    "required_query_value (request_query q) ''csrf'' 256 = Inr (li_csrf_token input)"
    "li_browser_state input = browser_state_cookie (wr_cfg wr) q loginBrowserStateCookie"
    "li_credentials input = session_credentials_of (wr_cfg wr) q"
    "AcceptLogin c acc \<in> set (calls_of (complete_login sv h input) w)"
    "snd (run_state (serve s pick admitted rand q) w) = snd (run_state (complete_login sv h input) w)"
proof -
  obtain sv where sv: "srv_provider s = service_provider sv" "sv_ports sv = adapter_ports out wr"
    "sv_store sv = ops" "validate_config (wr_cfg wr) = Inr (sv_cfg sv)" "srv_cfg s = sv_cfg sv"
    by (rule assemble_server_parts [OF assms(2)])
  note same = validated_same [OF sv(4)]
  have aal: "supported_aal (cfg_required_aal (sv_cfg sv))"
    using loaded_config(2) [OF assemble_parts(1) [OF assms(1)]] same(1) by simp
  have acc: "is_acceptance (AcceptLogin c acc)" by simp
  obtain hs where route: "wq_method q = ''GET''" "wq_path q = ''/login/callback''"
    "run_state (serve s pick admitted rand q) w = run_state (handle_login_callback s hs q) w"
    by (rule served_acceptance [OF sv(1) aal assms(3,4) acc]) simp_all
  then have calls: "calls_of (serve s pick admitted rand q) w = calls_of (handle_login_callback s hs q) w"
    by (simp add: calls_of_def)
  then have ne: "calls_of (handle_login_callback s hs q) w \<noteq> []" using assms(4) by auto
  show ?thesis
    by (rule callback_run [OF sv(1) ne], rule that [OF sv(2,3) same(1) route(1,2)])
      (use assms(4) calls route(3) sv(5) same in simp_all)
qed

text \<open>
  \<open>confirmed_by_kratos\<close>: while the program's calls number \<open>lo\<close> up to \<open>hi\<close> were made, the
  Kratos that the configuration names answered its session endpoint, asked with exactly these
  credentials, with a success status and a body that is read as an active session.
\<close>

definition confirmed_by_kratos ::
  "outside \<Rightarrow> wiring \<Rightarrow> nat \<Rightarrow> nat \<Rightarrow> session_credentials \<Rightarrow> session_response \<Rightarrow> bool" where
  "confirmed_by_kratos out wr lo hi creds payload \<longleftrightarrow>
     (\<exists>kratos n request response.
        cfg_kratos_public_url (wr_cfg wr) = Some kratos \<and> whoami_request kratos creds request
      \<and> lo \<le> n \<and> n < hi \<and> ou_send out n request = Inr response
      \<and> 200 \<le> hr_status response \<and> hr_status response < 300
      \<and> ou_session out (take (2 ^ 20) (hr_body response)) (length (hr_body response) < 2 ^ 20 \<and> hr_body_fails response)
          = Some payload
      \<and> sr_active payload)"

lemma assembled_kratos:
  "assemble lib decode_rules parse_options getenv = Inr wr \<Longrightarrow> cfg_kratos_public_url (wr_cfg wr) = Some (wr_kratos wr)"
  by (drule assemble_parts(5)) (auto simp: new_kratos_def split: option.splits if_splits)

lemma adapter_session:
  assumes "cfg_kratos_public_url (wr_cfg wr) = Some (wr_kratos wr)"
    and "p_validate_session (adapter_ports out wr) n creds = Inr se" and "during lo hi n"
  obtains payload where "confirmed_by_kratos out wr lo hi creds payload" "se = session_of_response payload"
proof -
  have "kratos_validate_session (wr_kratos wr) (ou_session out) (ou_send out n) creds = Inr se"
    using assms(2) by (simp add: adapter_ports_def)
  then show ?thesis
  proof (rule kratos_session_cases)
    fix request response payload
    assume k: "new_request ''GET'' ((kratos_endpoint (wr_kratos wr) ''/sessions/whoami'')\<lparr>u_raw_query := []\<rparr>)
         (credential_headers creds) [] = Some request"
      "ou_send out n request = Inr response" "success_status (hr_status response)"
      "ou_session out (take max_response_bytes (hr_body response))
         (length (hr_body response) < max_response_bytes \<and> hr_body_fails response) = Some payload"
      "sr_active payload" "se = session_of_response payload"
    have "confirmed_by_kratos out wr lo hi creds payload"
      unfolding confirmed_by_kratos_def
      by (rule exI [of _ "wr_kratos wr"], rule exI [of _ n], rule exI [of _ request], rule exI [of _ response])
        (use assms(1,3) new_request_whoami [OF k(1)] k(2-5) in
          \<open>simp add: during_def success_status_def max_response_bytes_def\<close>)
    then show ?thesis using k(6) by (rule that)
  qed
qed

section \<open>Properties\<close>

text \<open>C5. In the assembled program an acceptance reaches Hydra only through the completion
  endpoints: a login through \<open>GET /login/callback\<close>, a consent through \<open>POST /consent\<close> and a
  logout through \<open>POST /logout\<close>, the last two only from the external UI's origin. Since a
  loaded configuration always demands an assurance level, \<open>GET /login\<close> never accepts a
  login.\<close>

theorem acceptances_routed:
  assumes "assemble lib decode_rules parse_options getenv = Inr wr"
    and "assemble_server wr out ops golib = Inr (s, counter)" and "exact_router pick"
    and "e \<in> set (calls_of (serve s pick admitted rand q) w)" and "is_acceptance e"
  shows "(\<exists>c a. e = AcceptLogin c a) \<and> wq_method q = ''GET'' \<and> wq_path q = ''/login/callback''
    \<or> (\<exists>c a. e = AcceptConsent c a) \<and> wq_method q = ''POST'' \<and> wq_path q = ''/consent''
       \<and> origin_allowed (wr_cfg wr) (header_get q ''Origin'')
    \<or> (\<exists>c. e = AcceptLogout c) \<and> wq_method q = ''POST'' \<and> wq_path q = ''/logout''
       \<and> origin_allowed (wr_cfg wr) (header_get q ''Origin'')"
proof -
  obtain sv where sv: "srv_provider s = service_provider sv" "validate_config (wr_cfg wr) = Inr (sv_cfg sv)"
    "srv_cfg s = sv_cfg sv"
    by (rule assemble_server_parts [OF assms(2)])
  note same = validated_same [OF sv(2)]
  have aal: "supported_aal (cfg_required_aal (sv_cfg sv))"
    using loaded_config(2) [OF assemble_parts(1) [OF assms(1)]] same(1) by simp
  note origin = post_calls_origin [of s _ q w, unfolded sv(3) same(2)]
  show ?thesis
  proof (rule served_acceptance [OF sv(1) aal assms(3,4,5)])
    fix c a hs
    assume "e = AcceptConsent c a" "wq_method q = ''POST''" "wq_path q = ''/consent''"
      "e \<in> set (calls_of (handle_consent_submit s hs q) w)"
    then show ?thesis using origin [of hs] by force
  next
    fix c hs
    assume "e = AcceptLogout c" "wq_method q = ''POST''" "wq_path q = ''/logout''"
      "e \<in> set (calls_of (handle_logout_submit s hs q) w)"
    then show ?thesis using origin [of hs] by force
  qed blast
qed

theorem acceptances_routed_witness: "wq_path sample_callback = ''/login/callback''"
proof -
  obtain counter where server: "assemble_server sample_wiring sample_outside (redis_ops sample_renv) sample_lib
      = Inr (sample_stack_server, counter)"
    using sample_assemble_server by blast
  obtain acc where call: "AcceptLogin ''ch'' acc \<in> set (calls_of
      (serve sample_stack_server table_router True (Some (\<lambda>i. CHR ''a'')) sample_callback) sample_stack_world)"
    using sample_served by blast
  show ?thesis
    using acceptances_routed [OF sample_assemble server table_router_exact call] by simp
qed

text \<open>C4. The whole path of a login in production, over Redis: Hydra is told to accept a login
  only while the server answers a \<open>GET /login/callback\<close> that names a transaction the store
  held and no longer holds, with its CSRF token and from the browser that holds its state
  cookie, and only for the identity of an active session that the configured Kratos confirmed
  while that request was answered - its \<open>/sessions/whoami\<close>, asked with the credentials of the
  request's browser, answered with a success status and that session - at the required
  assurance level, when the configured policy allowed it.\<close>

theorem production_login:
  assumes "assemble lib decode_rules parse_options getenv = Inr wr"
    and "assemble_server wr out (redis_ops renv) golib = Inr (s, counter)" and "exact_router pick"
    and "redis_laws (re_server renv) stored"
    and "AcceptLogin c acc \<in> set (calls_of (serve s pick admitted rand q) w)"
  shows "wq_method q = ''GET'' \<and> wq_path q = ''/login/callback''
    \<and> (\<exists>h tx csrf payload m i.
         required_query_value (request_query q) ''transaction'' 256 = Inr h
       \<and> redis_contents renv stored (w_store w) h = Some tx
       \<and> redis_contents renv stored (redis_after (serve s pick admitted rand q) w) h = None
       \<and> tx_flow tx = FlowLogin \<and> c = tx_challenge tx
       \<and> required_query_value (request_query q) ''csrf'' 256 = Inr csrf \<and> csrf = tx_csrf_token tx
       \<and> browser_state_cookie (wr_cfg wr) q loginBrowserStateCookie = tx_browser_state tx
       \<and> confirmed_by_kratos out wr (w_tick w) (w_tick (snd (run_state (serve s pick admitted rand q) w)))
           (session_credentials_of (wr_cfg wr) q) payload
       \<and> la_subject acc = sr_identity_id payload
       \<and> aal_at_least (sr_aal payload) (higher_aal (cfg_required_aal (wr_cfg wr)) (tx_requested_aal tx))
       \<and> w_tick w \<le> m \<and> m < w_tick (snd (run_state (serve s pick admitted rand q) w))
       \<and> p_authorize_login (adapter_ports out wr) m i = Inr True
       \<and> pi_subject i = la_subject acc \<and> pi_client_id i = tx_client_id tx)"
proof -
  obtain sv h input where run: "sv_ports sv = adapter_ports out wr" "sv_store sv = redis_ops renv"
    "cfg_required_aal (sv_cfg sv) = cfg_required_aal (wr_cfg wr)"
    "wq_method q = ''GET''" "wq_path q = ''/login/callback''"
    "required_query_value (request_query q) ''transaction'' 256 = Inr h"
    "required_query_value (request_query q) ''csrf'' 256 = Inr (li_csrf_token input)"
    "li_browser_state input = browser_state_cookie (wr_cfg wr) q loginBrowserStateCookie"
    "li_credentials input = session_credentials_of (wr_cfg wr) q"
    "AcceptLogin c acc \<in> set (calls_of (complete_login sv h input) w)"
    "snd (run_state (serve s pick admitted rand q) w) = snd (run_state (complete_login sv h input) w)"
    by (rule served_login [OF assms(1,2,3,5)])
  note post = wp_snd [OF consuming_store.complete_login_post [OF redis_store_contract [OF assms(4)] run(2) TrueI]]
  obtain tx where tx: "redis_contents renv stored (w_store w) h = Some tx"
    "redis_contents renv stored (redis_after (complete_login sv h input) w) h = None"
    "login_done sv input (w_tick w) (end_tick (complete_login sv h input) w) tx (calls_of (complete_login sv h input) w)"
    using redis_completion_cases [OF assms(4) post [of w h input]] run(10) by auto
  have "login_justified sv (w_tick w) (end_tick (complete_login sv h input) w) tx input c acc"
    using tx(3) run(10) unfolding login_done_def by blast
  then obtain n j se where in_time:
    "during (w_tick w) (end_tick (complete_login sv h input) w) n" "during (w_tick w) (end_tick (complete_login sv h input) w) j"
    and just: "c = tx_challenge tx"
    "p_validate_session (sv_ports sv) n (li_credentials input) = Inr se"
    "aal_at_least (se_aal se) (higher_aal (cfg_required_aal (sv_cfg sv)) (tx_requested_aal tx))"
    "p_authorize_login (sv_ports sv) j (login_policy_input sv (se_subject se) (tx_client_id tx) (se_aal se) (se_amr se)) = Inr True"
    "la_subject acc = se_subject se"
    unfolding login_justified_def by (elim exE conjE) (rule that, simp_all)
  have last: "end_tick (complete_login sv h input) w = w_tick (snd (run_state (serve s pick admitted rand q) w))"
    by (simp add: end_tick_def run(11))
  obtain payload where k: "confirmed_by_kratos out wr (w_tick w) (w_tick (snd (run_state (serve s pick admitted rand q) w)))
      (li_credentials input) payload" "se = session_of_response payload"
    by (rule adapter_session [OF assembled_kratos [OF assms(1)] just(2) [unfolded run(1)] in_time(1) [unfolded last]])
  have active: "w_tick w \<le> j" "j < w_tick (snd (run_state (serve s pick admitted rand q) w))"
    using in_time(2) by (simp_all add: during_def last)
  have pres: "tx_flow tx = FlowLogin" "li_csrf_token input = tx_csrf_token tx" "li_browser_state input = tx_browser_state tx"
    using tx(3) by (simp_all add: login_done_def tx_presented_def)
  show ?thesis
    using run tx(1) tx(2) [unfolded redis_after_def] pres just k active
    by (intro conjI exI [of _ h] exI [of _ tx] exI [of _ "li_csrf_token input"] exI [of _ payload] exI [of _ j]
        exI [of _ "login_policy_input sv (se_subject se) (tx_client_id tx) (se_aal se) (se_amr se)"])
      (simp_all add: redis_after_def session_of_response_def login_policy_input_def)
qed

theorem production_login_witness:
  "redis_contents sample_renv map_get (redis_after
     (serve sample_stack_server table_router True (Some (\<lambda>i. CHR ''a'')) sample_callback) sample_stack_world) ''t'' = None"
proof -
  obtain counter where server: "assemble_server sample_wiring sample_outside (redis_ops sample_renv) sample_lib
      = Inr (sample_stack_server, counter)"
    using sample_assemble_server by blast
  obtain acc where call: "AcceptLogin ''ch'' acc \<in> set (calls_of
      (serve sample_stack_server table_router True (Some (\<lambda>i. CHR ''a'')) sample_callback) sample_stack_world)"
    using sample_served by blast
  have laws: "redis_laws (re_server sample_renv) map_get"
    using map_server_laws by (simp add: sample_renv_def sample_redis_def)
  have "required_query_value (request_query sample_callback) ''transaction'' 256 = Inr ''t''"
    by (simp add: sample_query required_query_value_def map_get_def text_eval)
  then show ?thesis
    using production_login [OF sample_assemble server table_router_exact laws call] by auto
qed


end
