(* ===== verification/StackPosts.thy ===== *)
theory StackPosts
  imports Stack
begin

text \<open>
  The forms of the external UI in the assembled program over Redis: an acceptance that
  answers a POST is followed back through the handler, the service and the store to the
  form, the browser's cookies and, for a consent, Kratos and the policy. The login callback
  is in theory \<open>Stack\<close>.
\<close>

section \<open>The completions over Redis\<close>

lemma redis_consent_acceptance:
  assumes "redis_laws (re_server env) stored" and "sv_store sv = redis_ops env"
    and "AcceptConsent c acc \<in> set (calls_of (complete_consent sv input) w)"
  obtains tx where "redis_contents env stored (w_store w) (ci_transaction input) = Some tx"
    "redis_contents env stored (redis_after (complete_consent sv input) w) (ci_transaction input) = None"
    "tx_presented sv (w_tick w) (end_tick (complete_consent sv input) w) tx FlowConsent
       (ci_csrf_token input) (ci_browser_state input)"
    "consent_justified sv (w_tick w) (end_tick (complete_consent sv input) w) tx input c acc"
proof -
  note store = redis_store_contract [OF assms(1)]
  let ?m = "complete_consent sv input"
  have "AcceptConsent c acc \<in> set (decisions (calls_of ?m w))" using assms(3) by (simp add: decisions_def)
  then show ?thesis
    using wp_snd [OF consuming_store.complete_consent_post [OF store assms(2) TrueI, of input w]] assms(3) that
    unfolding consuming_store.consent_completion_def [OF store]
    by (auto simp: calls_of_def redis_after_def end_tick_def consent_events_def)
qed

lemma redis_logout_acceptance:
  assumes "redis_laws (re_server env) stored" and "sv_store sv = redis_ops env"
    and "AcceptLogout c \<in> set (calls_of (complete_logout sv input) w)"
  obtains tx where "redis_contents env stored (w_store w) (oi_transaction input) = Some tx"
    "redis_contents env stored (redis_after (complete_logout sv input) w) (oi_transaction input) = None"
    "tx_presented sv (w_tick w) (end_tick (complete_logout sv input) w) tx FlowLogout
       (oi_csrf_token input) (oi_browser_state input)"
    "c = tx_challenge tx"
proof -
  note post = wp_snd [OF consuming_store.complete_logout_post [OF redis_store_contract [OF assms(1)] assms(2) TrueI]]
  show ?thesis
    using redis_completion_cases [OF assms(1) post [of w input]] assms(3) that by (auto simp: logout_done_def)
qed

section \<open>What the handlers submit\<close>

definition submitted_consent :: "config \<Rightarrow> web_request \<Rightarrow> query_values \<Rightarrow> bool \<Rightarrow> int \<Rightarrow> consent_input" where
  "submitted_consent cfg q form r n =
     \<lparr>ci_transaction = trim_space (values_get form ''transaction''), ci_csrf_token = trim_space (values_get form ''csrf''),
      ci_browser_state = browser_state_cookie cfg q consentBrowserStateCookie,
      ci_decision = to_lower (trim_space (values_get form ''decision'')),
      ci_grant_scopes = form_scopes (case_option [] id (map_get form ''grant_scope'')),
      ci_grant_audience = form_scopes (case_option [] id (map_get form ''grant_audience'')),
      ci_credentials = session_credentials_of cfg q, ci_remember = r, ci_remember_for = n\<rparr>"

definition submitted_logout :: "config \<Rightarrow> web_request \<Rightarrow> query_values \<Rightarrow> logout_input" where
  "submitted_logout cfg q form =
     \<lparr>oi_transaction = trim_space (values_get form ''transaction''), oi_csrf_token = trim_space (values_get form ''csrf''),
      oi_browser_state = browser_state_cookie cfg q logoutBrowserStateCookie\<rparr>"

lemma consent_submit_run:
  assumes "srv_provider s = service_provider sv" and "calls_of (handle_consent_submit s hs q) w \<noteq> []"
  obtains form r n where "origin_allowed (srv_cfg s) (header_get q ''Origin'')" "parse_form max_form_bytes q = Some form"
    "snd (run_state (handle_consent_submit s hs q) w)
       = snd (run_state (complete_consent sv (submitted_consent (srv_cfg s) q form r n)) w)"
proof -
  obtain form r n where p: "origin_allowed (srv_cfg s) (header_get q ''Origin'')" "parse_form max_form_bytes q = Some form"
    "remember_options (values_get form ''remember'') (values_get form ''remember_for'') = Inr (r, n)"
    using assms(2) by (auto simp: handle_consent_submit_def split: if_splits option.splits sum.splits prod.splits)
  show ?thesis
    by (rule that [OF p(1,2), of r n])
      (simp add: handle_consent_submit_def p assms(1) service_provider_def run_state_bind submitted_consent_def
        split: prod.split)
qed

lemma logout_submit_run:
  assumes "srv_provider s = service_provider sv" and "calls_of (handle_logout_submit s hs q) w \<noteq> []"
  obtains form where "origin_allowed (srv_cfg s) (header_get q ''Origin'')" "parse_form max_form_bytes q = Some form"
    "snd (run_state (handle_logout_submit s hs q) w)
       = snd (run_state (complete_logout sv (submitted_logout (srv_cfg s) q form)) w)"
proof -
  obtain form where p: "origin_allowed (srv_cfg s) (header_get q ''Origin'')" "parse_form max_form_bytes q = Some form"
    using assms(2) by (auto simp: handle_logout_submit_def split: if_splits option.splits)
  show ?thesis
    by (rule that [OF p])
      (simp add: handle_logout_submit_def p assms(1) service_provider_def run_state_bind submitted_logout_def
        split: prod.split)
qed

lemma calls_of_snd: "snd (run_state m w) = snd (run_state n w) \<Longrightarrow> calls_of m w = calls_of n w"
  by (simp add: calls_of_def)

lemma validated_clients:
  assumes "validate_config c = Inr c'"
  shows "config_lookup_client c' n = config_lookup_client c n"
proof -
  obtain m where c: "c' = c\<lparr>cfg_identity_claim_mappings := m\<rparr>" by (rule validated_fields [OF assms])
  show ?thesis by (simp add: c config_lookup_client_def)
qed

section \<open>Where the acceptances come from, over any store\<close>

lemma served_consent:
  assumes "assemble lib decode_rules parse_options getenv = Inr wr"
    and "assemble_server wr out ops golib = Inr (s, counter)" and "exact_router pick"
    and "AcceptConsent c acc \<in> set (calls_of (serve s pick admitted rand q) w)"
  obtains sv form r n where "sv_ports sv = adapter_ports out wr" "sv_store sv = ops"
    "cfg_required_aal (sv_cfg sv) = cfg_required_aal (wr_cfg wr)"
    "config_lookup_client (sv_cfg sv) = config_lookup_client (wr_cfg wr)" "wq_path q = ''/consent''"
    "origin_allowed (wr_cfg wr) (header_get q ''Origin'')" "parse_form max_form_bytes q = Some form"
    "AcceptConsent c acc \<in> set (calls_of (complete_consent sv (submitted_consent (wr_cfg wr) q form r n)) w)"
    "snd (run_state (serve s pick admitted rand q) w)
       = snd (run_state (complete_consent sv (submitted_consent (wr_cfg wr) q form r n)) w)"
proof -
  obtain sv where sv: "srv_provider s = service_provider sv" "sv_ports sv = adapter_ports out wr"
    "sv_store sv = ops" "validate_config (wr_cfg wr) = Inr (sv_cfg sv)" "srv_cfg s = sv_cfg sv"
    by (rule assemble_server_parts [OF assms(2)])
  note same = validated_same [OF sv(4)]
  have aal: "supported_aal (cfg_required_aal (sv_cfg sv))"
    using loaded_config(2) [OF assemble_parts(1) [OF assms(1)]] same(1) by simp
  have acc: "is_acceptance (AcceptConsent c acc)" by simp
  obtain hs where route: "wq_path q = ''/consent''"
    "run_state (serve s pick admitted rand q) w = run_state (handle_consent_submit s hs q) w"
    "AcceptConsent c acc \<in> set (calls_of (handle_consent_submit s hs q) w)"
    by (rule served_acceptance [OF sv(1) aal assms(3,4) acc]) simp_all
  have ne: "calls_of (handle_consent_submit s hs q) w \<noteq> []" using route(3) by auto
  have lookup: "config_lookup_client (sv_cfg sv) = config_lookup_client (wr_cfg wr)"
    using validated_clients [OF sv(4)] by blast
  have input: "submitted_consent (sv_cfg sv) q form r n = submitted_consent (wr_cfg wr) q form r n" for form r n
    unfolding submitted_consent_def same ..
  obtain form r n where run: "origin_allowed (srv_cfg s) (header_get q ''Origin'')" "parse_form max_form_bytes q = Some form"
    "snd (run_state (handle_consent_submit s hs q) w)
       = snd (run_state (complete_consent sv (submitted_consent (srv_cfg s) q form r n)) w)"
    by (rule consent_submit_run [OF sv(1) ne])
  show ?thesis
    by (rule that [OF sv(2,3) same(1) lookup route(1) _ run(2), of r n])
      (use run route sv(5) same(2) calls_of_snd [OF run(3)] in \<open>simp_all add: input\<close>)
qed

lemma served_logout:
  assumes "assemble lib decode_rules parse_options getenv = Inr wr"
    and "assemble_server wr out ops golib = Inr (s, counter)" and "exact_router pick"
    and "AcceptLogout c \<in> set (calls_of (serve s pick admitted rand q) w)"
  obtains sv form where "sv_store sv = ops" "wq_path q = ''/logout''"
    "origin_allowed (wr_cfg wr) (header_get q ''Origin'')" "parse_form max_form_bytes q = Some form"
    "AcceptLogout c \<in> set (calls_of (complete_logout sv (submitted_logout (wr_cfg wr) q form)) w)"
    "snd (run_state (serve s pick admitted rand q) w)
       = snd (run_state (complete_logout sv (submitted_logout (wr_cfg wr) q form)) w)"
proof -
  obtain sv where sv: "srv_provider s = service_provider sv" "sv_store sv = ops"
    "validate_config (wr_cfg wr) = Inr (sv_cfg sv)" "srv_cfg s = sv_cfg sv"
    by (rule assemble_server_parts [OF assms(2)])
  note same = validated_same [OF sv(3)]
  have aal: "supported_aal (cfg_required_aal (sv_cfg sv))"
    using loaded_config(2) [OF assemble_parts(1) [OF assms(1)]] same(1) by simp
  have acc: "is_acceptance (AcceptLogout c)" by simp
  obtain hs where route: "wq_path q = ''/logout''"
    "run_state (serve s pick admitted rand q) w = run_state (handle_logout_submit s hs q) w"
    "AcceptLogout c \<in> set (calls_of (handle_logout_submit s hs q) w)"
    by (rule served_acceptance [OF sv(1) aal assms(3,4) acc]) simp_all
  have ne: "calls_of (handle_logout_submit s hs q) w \<noteq> []" using route(3) by auto
  have input: "submitted_logout (sv_cfg sv) q form = submitted_logout (wr_cfg wr) q form" for form
    unfolding submitted_logout_def same ..
  obtain form where run: "origin_allowed (srv_cfg s) (header_get q ''Origin'')" "parse_form max_form_bytes q = Some form"
    "snd (run_state (handle_logout_submit s hs q) w)
       = snd (run_state (complete_logout sv (submitted_logout (srv_cfg s) q form)) w)"
    by (rule logout_submit_run [OF sv(1) ne])
  show ?thesis
    by (rule that [OF sv(2) route(1) _ run(2)])
      (use run route sv(4) same(2) calls_of_snd [OF run(3)] in \<open>simp_all add: input\<close>)
qed

section \<open>What stands behind a consent\<close>

text \<open>
  \<open>consent_granted\<close>: the configured Kratos confirmed the transaction's subject for the
  credentials of the request (\<open>confirmed_by_kratos\<close> of theory \<open>Stack\<close>), at the required level,
  during the calls number \<open>lo\<close> up to \<open>hi\<close>, and the acceptance grants what the policy allowed, out of what the form selected, the client asked for and the client may have.
\<close>

definition consent_granted ::
  "outside \<Rightarrow> wiring \<Rightarrow> nat \<Rightarrow> nat \<Rightarrow> web_request \<Rightarrow> query_values \<Rightarrow> transaction \<Rightarrow> consent_acceptance \<Rightarrow> bool" where
  "consent_granted out wr lo hi q form tx acc \<longleftrightarrow>
     (\<exists>payload client j i d.
        confirmed_by_kratos out wr lo hi (session_credentials_of (wr_cfg wr) q) payload
      \<and> sr_identity_id payload = tx_subject tx
      \<and> aal_at_least (sr_aal payload) (higher_aal (cfg_required_aal (wr_cfg wr)) (tx_required_aal tx))
      \<and> config_lookup_client (wr_cfg wr) (tx_client_id tx) = Some client
      \<and> during lo hi j \<and> p_authorize_consent (adapter_ports out wr) j i = Inr d \<and> cd_allowed d
      \<and> pi_subject i = tx_subject tx \<and> pi_client_id i = cc_id client
      \<and> ca_grant_scopes acc = cd_granted_scopes d \<and> distinct (ca_grant_scopes acc)
      \<and> set (ca_grant_scopes acc) \<subseteq> set (form_scopes (case_option [] id (map_get form ''grant_scope'')))
          \<inter> set (tx_requested_scopes tx) \<inter> set (cc_allowed_scopes client)
      \<and> ca_grant_audience acc = cd_granted_audiences d \<and> distinct (ca_grant_audience acc)
      \<and> set (ca_grant_audience acc) \<subseteq> set (tx_requested_audience tx) \<inter> set (cc_allowed_audiences client))"

lemma justified_granted:
  assumes "consent_justified sv lo hi tx (submitted_consent (wr_cfg wr) q form r n) c acc"
    and "sv_ports sv = adapter_ports out wr" and "cfg_required_aal (sv_cfg sv) = cfg_required_aal (wr_cfg wr)"
    and "config_lookup_client (sv_cfg sv) = config_lookup_client (wr_cfg wr)"
    and "cfg_kratos_public_url (wr_cfg wr) = Some (wr_kratos wr)"
  shows "consent_granted out wr lo hi q form tx acc"
proof -
  let ?i = "submitted_consent (wr_cfg wr) q form r n"
  obtain client se j d where just: "consent_checked sv lo hi tx ?i client se"
    "p_authorize_consent (adapter_ports out wr) j
       (consent_policy_input sv tx client se (ci_grant_scopes ?i) (effective_audiences tx ?i)) = Inr d" "cd_allowed d"
    "ca_grant_scopes acc = cd_granted_scopes d" "distinct (ca_grant_scopes acc)"
    "set (ca_grant_scopes acc) \<subseteq> set (ci_grant_scopes ?i)"
    "ca_grant_audience acc = cd_granted_audiences d" "distinct (ca_grant_audience acc)"
    "set (ca_grant_audience acc) \<subseteq> set (effective_audiences tx ?i)" "during lo hi j"
    using assms(1) unfolding consent_justified_def assms(2) by (elim conjE exE) (rule that)
  obtain k where session: "p_validate_session (adapter_ports out wr) k (ci_credentials ?i) = Inr se" "during lo hi k"
    using just(1) unfolding consent_checked_def assms(2) by blast
  obtain payload where k: "confirmed_by_kratos out wr lo hi (ci_credentials ?i) payload" "se = session_of_response payload"
    by (rule adapter_session [OF assms(5) session])
  have creds: "ci_credentials ?i = session_credentials_of (wr_cfg wr) q"
    "ci_grant_scopes ?i = form_scopes (case_option [] id (map_get form ''grant_scope''))"
    by (simp_all add: submitted_consent_def)
  have pol: "pi_subject (consent_policy_input sv tx client se gs as) = tx_subject tx"
    "pi_client_id (consent_policy_input sv tx client se gs as) = cc_id client" for gs as
    by (simp_all add: consent_policy_input_def)
  have se: "se_subject se = sr_identity_id payload" "se_aal se = sr_aal payload"
    by (simp_all add: k(2) session_of_response_def)
  note checked = just(1) [unfolded consent_checked_def assms(3,4) se]
  have subset: "set (ca_grant_scopes acc) \<subseteq> set (ci_grant_scopes ?i) \<inter> set (tx_requested_scopes tx) \<inter> set (cc_allowed_scopes client)"
    "set (ca_grant_audience acc) \<subseteq> set (tx_requested_audience tx) \<inter> set (cc_allowed_audiences client)"
    using checked just(6,9) by blast+
  show ?thesis
    unfolding consent_granted_def
    using checked just(2-5,7,8,10) subset k(1) pol unfolding creds by blast
qed

lemma consent_post:
  assumes "assemble lib decode_rules parse_options getenv = Inr wr"
    and "assemble_server wr out (redis_ops renv) golib = Inr (s, counter)" and "exact_router pick"
    and "redis_laws (re_server renv) stored"
    and "AcceptConsent c acc \<in> set (calls_of (serve s pick admitted rand q) w)"
  obtains form tx where "parse_form max_form_bytes q = Some form" "origin_allowed (wr_cfg wr) (header_get q ''Origin'')"
    "redis_contents renv stored (w_store w) (trim_space (values_get form ''transaction'')) = Some tx"
    "redis_contents renv stored (redis_after (serve s pick admitted rand q) w)
       (trim_space (values_get form ''transaction'')) = None"
    "wq_path q = ''/consent''" "trim_space (values_get form ''csrf'') = tx_csrf_token tx" "tx_flow tx = FlowConsent"
    "browser_state_cookie (wr_cfg wr) q consentBrowserStateCookie = tx_browser_state tx"
    "to_lower (trim_space (values_get form ''decision'')) = ''accept''" "c = tx_challenge tx"
    "consent_granted out wr (w_tick w) (w_tick (snd (run_state (serve s pick admitted rand q) w))) q form tx acc"
proof -
  obtain sv form r n where run: "sv_ports sv = adapter_ports out wr" "sv_store sv = redis_ops renv"
    "cfg_required_aal (sv_cfg sv) = cfg_required_aal (wr_cfg wr)"
    "config_lookup_client (sv_cfg sv) = config_lookup_client (wr_cfg wr)" "wq_path q = ''/consent''"
    "origin_allowed (wr_cfg wr) (header_get q ''Origin'')" "parse_form max_form_bytes q = Some form"
    "AcceptConsent c acc \<in> set (calls_of (complete_consent sv (submitted_consent (wr_cfg wr) q form r n)) w)"
    "snd (run_state (serve s pick admitted rand q) w)
       = snd (run_state (complete_consent sv (submitted_consent (wr_cfg wr) q form r n)) w)"
    by (rule served_consent [OF assms(1-3,5)])
  let ?i = "submitted_consent (wr_cfg wr) q form r n"
  obtain tx where tx: "redis_contents renv stored (w_store w) (ci_transaction ?i) = Some tx"
    "redis_contents renv stored (redis_after (complete_consent sv ?i) w) (ci_transaction ?i) = None"
    "tx_presented sv (w_tick w) (end_tick (complete_consent sv ?i) w) tx FlowConsent (ci_csrf_token ?i) (ci_browser_state ?i)"
    "consent_justified sv (w_tick w) (end_tick (complete_consent sv ?i) w) tx ?i c acc"
    by (rule redis_consent_acceptance [OF assms(4) run(2,8)])
  have last: "end_tick (complete_consent sv ?i) w = w_tick (snd (run_state (serve s pick admitted rand q) w))"
    by (simp add: end_tick_def run(9))
  note granted = justified_granted [OF tx(4) run(1,3,4) assembled_kratos [OF assms(1)], unfolded last]
  show ?thesis
    by (rule that [OF run(7,6) _ _ run(5) _ _ _ _ _ granted])
      (use run(9) tx in \<open>simp_all add: tx_presented_def consent_justified_def submitted_consent_def redis_after_def\<close>)
qed

lemma logout_post:
  assumes "assemble lib decode_rules parse_options getenv = Inr wr"
    and "assemble_server wr out (redis_ops renv) golib = Inr (s, counter)" and "exact_router pick"
    and "redis_laws (re_server renv) stored"
    and "AcceptLogout c \<in> set (calls_of (serve s pick admitted rand q) w)"
  obtains form tx where "parse_form max_form_bytes q = Some form" "origin_allowed (wr_cfg wr) (header_get q ''Origin'')"
    "redis_contents renv stored (w_store w) (trim_space (values_get form ''transaction'')) = Some tx"
    "redis_contents renv stored (redis_after (serve s pick admitted rand q) w)
       (trim_space (values_get form ''transaction'')) = None"
    "wq_path q = ''/logout''" "trim_space (values_get form ''csrf'') = tx_csrf_token tx" "tx_flow tx = FlowLogout"
    "browser_state_cookie (wr_cfg wr) q logoutBrowserStateCookie = tx_browser_state tx" "c = tx_challenge tx"
proof -
  obtain sv form where run: "sv_store sv = redis_ops renv" "wq_path q = ''/logout''"
    "origin_allowed (wr_cfg wr) (header_get q ''Origin'')" "parse_form max_form_bytes q = Some form"
    "AcceptLogout c \<in> set (calls_of (complete_logout sv (submitted_logout (wr_cfg wr) q form)) w)"
    "snd (run_state (serve s pick admitted rand q) w)
       = snd (run_state (complete_logout sv (submitted_logout (wr_cfg wr) q form)) w)"
    by (rule served_logout [OF assms(1-3,5)])
  show ?thesis
    by (rule redis_logout_acceptance [OF assms(4) run(1,5)], rule that [OF run(4,3) _ _ run(2)])
      (use run(6) in \<open>simp_all add: redis_after_def submitted_logout_def tx_presented_def\<close>)
qed

section \<open>A sample form\<close>

text \<open>The sample deployment with a logout transaction in its Redis server, and the form that
  completes it.\<close>

definition sample_logout_renv :: "string gomap redis_env" where
  "sample_logout_renv = sample_renv\<lparr>re_decode := \<lambda>p. Some (sample_tx FlowLogout)\<rparr>"

definition sample_logout_service :: "string gomap redis_state service" where
  "sample_logout_service = sample_stack_service\<lparr>sv_store := redis_ops sample_logout_renv\<rparr>"

definition sample_logout_server :: "string gomap redis_state world server" where
  "sample_logout_server = \<lparr>srv_provider = service_provider sample_logout_service, srv_cfg = sample_production\<rparr>"

definition sample_post :: web_request where
  "sample_post = \<lparr>wq_method = ''POST'', wq_path = ''/logout'', wq_raw_query = [],
     wq_headers = [(''Origin'', [''https://u'']),
       (''Cookie'', [''__Host-provider_logout_state'' @ ''='' @ sample_token])],
     wq_media_type = (''application/x-www-form-urlencoded'', False), wq_body = ''transaction=t&csrf=k'',
     wq_body_fails = False\<rparr>"

lemma sample_logout_assembled:
  "\<exists>counter. assemble_server sample_wiring sample_outside (redis_ops sample_logout_renv) sample_lib
     = Inr (sample_logout_server, counter)"
  by (simp add: assemble_server_def new_service_def new_server_def and_then_def wrap_error_def
      sample_production_validates sample_wiring_def [THEN arg_cong, of wr_cfg] readiness_count_def)
    (simp add: sample_wiring_def sample_production_validates sample_logout_server_def sample_logout_service_def
      sample_stack_service_def)

lemma sample_post_form: "parse_form max_form_bytes sample_post = Some [(''transaction'', [''t'']), (''csrf'', [''k''])]"
proof -
  have "parse_query ''transaction=t&csrf=k'' = ([(''transaction'', [''t'']), (''csrf'', [''k''])], False)" by code_simp
  moreover have "parse_query [] = ([], False)" by code_simp
  ultimately show ?thesis
    by (simp add: parse_form_def post_form_def read_max_bytes_def sample_post_def copy_values_def max_form_bytes_def)
qed

lemma sample_post_origin: "origin_allowed sample_production (header_get sample_post ''Origin'')"
proof -
  have "header_get sample_post ''Origin'' = ''https://u''" by (simp add: header_get_def values_get_def sample_post_def map_get_def)
  moreover have "url_parse ''https://u'' = Some (sample_url ''u'')" unfolding sample_url_def by code_simp
  moreover have "cfg_external_ui_url sample_production = Some (sample_url ''u'')"
    by (simp add: sample_production_def sample_loaded_def)
  ultimately show ?thesis by (simp add: origin_allowed_def) (simp add: sample_url_def empty_url_def)
qed

lemma sample_post_cookie:
  "browser_state_cookie sample_production sample_post logoutBrowserStateCookie = sample_token"
proof -
  have "map_get (wq_headers sample_post) ''Cookie'' = Some [''__Host-provider_logout_state'' @ ''='' @ sample_token]"
    by (simp add: sample_post_def map_get_def)
  then have "read_cookies sample_post = [(''__Host-provider_logout_state'', sample_token)]"
    using one_cookie [OF cookie_name_texts(6) sample_token_text(1)] unfolding read_cookies_def by simp
  then show ?thesis
    using length_token_of [of "\<lambda>i. CHR ''a''"]
    by (simp add: browser_state_cookie_def request_cookie_def browser_state_cookie_name_def sample_https
        logoutBrowserStateCookie_def sample_token_def)
qed

lemma sample_logout_steps:
  "run_state (redis_get sample_logout_renv ''t'') \<lparr>rs_server = [(''p:t'', ''v'')], rs_tick = k\<rparr>
     = (Inr (sample_tx FlowLogout), \<lparr>rs_server = [(''p:t'', ''v'')], rs_tick = Suc (Suc k)\<rparr>)"
  "run_state (redis_consume sample_logout_renv ''t'') \<lparr>rs_server = [(''p:t'', ''v'')], rs_tick = k\<rparr>
     = (Inr (sample_tx FlowLogout), \<lparr>rs_server = [], rs_tick = Suc (Suc k)\<rparr>)"
  by (simp_all add: redis_get_def redis_consume_def redis_call_def redis_load_def redis_time_def consume_script_def
      redis_key_def sample_logout_renv_def sample_renv_def sample_redis_def map_server_def map_get_def map_del_def
      after_def run_state_bind run_state_return sample_tx_def)

lemma sample_logout_served:
  "AcceptLogout ''ch'' \<in> set (calls_of
     (serve sample_logout_server table_router True (Some (\<lambda>i. CHR ''a'')) sample_post) sample_stack_world)"
proof -
  let ?i = "\<lparr>oi_transaction = ''t'', oi_csrf_token = ''k'', oi_browser_state = sample_token\<rparr>"
  have pres: "validate_csrf ''k'' ''k'' = None" "validate_browser_state sample_token sample_token = None"
    using sample_presentable [of FlowLogout] by (simp_all add: presentable_def validate_browser_state_None sample_tx_def)
  have tok: "sample_token \<noteq> []" using length_token_of [of "\<lambda>i. CHR ''a''"] by (auto simp: sample_token_def)
  have tx: "tx_flow (sample_tx FlowLogout) = FlowLogout" "tx_csrf_token (sample_tx FlowLogout) = ''k''"
    "tx_browser_state (sample_tx FlowLogout) = sample_token" "tx_expires_at (sample_tx FlowLogout) = 100"
    "tx_challenge (sample_tx FlowLogout) = ''ch''" "tx_client_id (sample_tx FlowLogout) \<noteq> []"
    by (simp_all add: sample_tx_def empty_transaction_def str_fields_def)
  have sv: "sv_store sample_logout_service = redis_ops sample_logout_renv"
    "sv_ports sample_logout_service = adapter_ports sample_outside sample_wiring"
    by (simp_all add: sample_logout_service_def sample_stack_service_def)
  have "wp (complete_logout sample_logout_service ?i) (\<lambda>r w'. AcceptLogout ''ch'' \<in> set (w_log w')) sample_stack_world"
    unfolding complete_logout_def load_def consume_def
    by (simp add: wp wp_on_store wp_def [of "redis_get e h" for e h] wp_def [of "redis_consume e h" for e h]
        sv redis_ops_def sample_stack_world_def sample_logout_steps tx tok pres sample_ports_answers(1) after_def)
  then have run: "AcceptLogout ''ch'' \<in> set (calls_of (complete_logout sample_logout_service ?i) sample_stack_world)"
    by (auto dest!: wp_snd simp: calls_of_def sample_stack_world_def)
  obtain rid where rid: "request_id_of (Some (\<lambda>i. CHR ''a'')) sample_post = Inr rid"
    by (cases "valid_request_id (header_get sample_post ''X-Request-Id'')")
      (simp_all add: request_id_of_def new_request_id_def)
  have route: "table_router routes (wq_method sample_post) (wq_path sample_post) = Inr RouteLogoutSubmit"
    by (simp add: table_router_def routes_def sample_post_def)
  have val: "trim_space (values_get [(''transaction'', [''t'']), (''csrf'', [''k''])] ''transaction'') = ''t''"
    "trim_space (values_get [(''transaction'', [''t'']), (''csrf'', [''k''])] ''csrf'') = ''k''"
    by (simp_all add: values_get_def map_get_def text_eval)
  have "calls_of (serve sample_logout_server table_router True (Some (\<lambda>i. CHR ''a'')) sample_post) sample_stack_world
      = calls_of (complete_logout sample_logout_service ?i) sample_stack_world"
    by (simp add: serve_def rid route handle_logout_submit_def sample_logout_server_def sample_post_origin sample_post_form val
        sample_post_cookie service_provider_def calls_of_def run_state_bind run_state_return Let_def split: prod.split)
  then show ?thesis using run by simp
qed

section \<open>Properties\<close>

text \<open>C6. The whole path of a consent and of a logout in production, over Redis: Hydra is told to
  accept one on a POST only while the server answers a form of the external UI's origin that
  names a transaction the store held and no longer holds, with its CSRF token and from the
  browser that holds its state cookie. A consent was moreover approved in the form, for the
  identity that the configured Kratos confirmed while that request was answered - its
  \<open>/sessions/whoami\<close>, asked with the credentials of the request's browser, answered with an
  active session of that identity - at the required assurance level, and it grants what the configured policy allowed, out of what the form selected, the
  client asked for and the client may have.\<close>

theorem production_posts:
  assumes "assemble lib decode_rules parse_options getenv = Inr wr"
    and "assemble_server wr out (redis_ops renv) golib = Inr (s, counter)" and "exact_router pick"
    and "redis_laws (re_server renv) stored"
    and "e \<in> set (calls_of (serve s pick admitted rand q) w)" and "is_acceptance e" and "wq_method q = ''POST''"
  shows "origin_allowed (wr_cfg wr) (header_get q ''Origin'')
    \<and> (\<exists>form tx. parse_form max_form_bytes q = Some form
       \<and> redis_contents renv stored (w_store w) (trim_space (values_get form ''transaction'')) = Some tx
       \<and> redis_contents renv stored (redis_after (serve s pick admitted rand q) w)
           (trim_space (values_get form ''transaction'')) = None
       \<and> trim_space (values_get form ''csrf'') = tx_csrf_token tx
       \<and> (wq_path q = ''/logout'' \<and> tx_flow tx = FlowLogout
            \<and> browser_state_cookie (wr_cfg wr) q logoutBrowserStateCookie = tx_browser_state tx
            \<and> e = AcceptLogout (tx_challenge tx)
          \<or> wq_path q = ''/consent'' \<and> tx_flow tx = FlowConsent
            \<and> browser_state_cookie (wr_cfg wr) q consentBrowserStateCookie = tx_browser_state tx
            \<and> to_lower (trim_space (values_get form ''decision'')) = ''accept''
            \<and> (\<exists>acc. e = AcceptConsent (tx_challenge tx) acc \<and> consent_granted out wr (w_tick w)
                 (w_tick (snd (run_state (serve s pick admitted rand q) w))) q form tx acc)))"
proof (cases e)
  case (AcceptConsent c acc)
  show ?thesis
    by (rule consent_post [OF assms(1-4), of c acc]) (use assms(5) in \<open>auto simp: AcceptConsent\<close>)
next
  case (AcceptLogout c)
  show ?thesis
    by (rule logout_post [OF assms(1-4), of c]) (use assms(5) in \<open>auto simp: AcceptLogout\<close>)
next
  case (AcceptLogin c acc)
  have "wq_method q = ''GET''"
    by (rule served_login [OF assms(1-3) assms(5) [unfolded AcceptLogin]])
  then show ?thesis using assms(7) by simp
qed (use assms(6) in simp_all)

theorem production_posts_witness:
  "redis_contents sample_logout_renv map_get (redis_after
     (serve sample_logout_server table_router True (Some (\<lambda>i. CHR ''a'')) sample_post) sample_stack_world) ''t'' = None"
proof -
  obtain counter where server: "assemble_server sample_wiring sample_outside (redis_ops sample_logout_renv) sample_lib
      = Inr (sample_logout_server, counter)"
    using sample_logout_assembled by blast
  have laws: "redis_laws (re_server sample_logout_renv) map_get"
    using map_server_laws by (simp add: sample_logout_renv_def sample_renv_def sample_redis_def)
  have post: "wq_method sample_post = ''POST''" by (simp add: sample_post_def)
  have val: "trim_space (values_get [(''transaction'', [''t'']), (''csrf'', [''k''])] ''transaction'') = ''t''"
    by (simp add: values_get_def map_get_def text_eval)
  show ?thesis
    using production_posts [OF sample_assemble server table_router_exact laws sample_logout_served _ post] val
    by (auto simp: sample_post_form)
qed

end
