(* ===== verification/Runs.thy ===== *)
theory Runs
  imports StackPosts
begin

text \<open>
  A server that answers one request after another. \<open>serves\<close> is the step relation of its
  world, a step being any request; another replica of the server, or the same one after a
  restart, may take over at any time, with an admission counter of its own; what holds of every stored transaction is proved by
  induction on it, once for every store that keeps \<open>creating_store\<close>. It gives the
  agreement between the two halves of a flow: what the completion of a flow accepts at Hydra
  is what Hydra itself said when the flow was started, in an earlier request.
\<close>

section \<open>Requests in sequence\<close>

inductive serves :: "'s world server \<Rightarrow> router \<Rightarrow> 's world \<Rightarrow> 's world \<Rightarrow> bool"
  for s :: "'s world server" and pick :: router and w0 :: "'s world" where
  serves_none: "serves s pick w0 w0"
| serves_next: "serves s pick w0 w \<Longrightarrow> serves s pick w0 (snd (run_state (serve s pick admitted rand q) w))"
| serves_replica: "serves s pick w0 w \<Longrightarrow> serves s pick w0 (w\<lparr>w_admission := a\<rparr>)"

text \<open>
  \<open>steps R m\<close>: whatever the world, \<open>m\<close> leaves one that is related to it. A request is one
  operation of the provider, or nothing.
\<close>

definition steps :: "('s world \<Rightarrow> 's world \<Rightarrow> bool) \<Rightarrow> ('s world, 'a) state \<Rightarrow> bool" where
  "steps R m \<longleftrightarrow> (\<forall>w. R w (snd (run_state m w)))"

lemma stepsD: "steps R m \<Longrightarrow> R w (snd (run_state m w))"
  by (simp add: steps_def)

lemma steps_return: "(\<And>w. R w w) \<Longrightarrow> steps R (State_Monad.return x)"
  by (simp add: steps_def run_state_return)

lemma steps_then:
  assumes "steps R m" and "\<And>x. \<exists>y. f x = State_Monad.return y"
  shows "steps R (State_Monad.bind m f)"
  unfolding steps_def
proof
  fix w
  obtain x w' where m: "run_state m w = (x, w')" by fastforce
  obtain y where "f x = State_Monad.return y" using assms(2) by blast
  then show "R w (snd (run_state (State_Monad.bind m f) w))"
    using stepsD [OF assms(1), of w] by (simp add: run_state_bind run_state_return m)
qed

lemma steps_if: "steps R m \<Longrightarrow> steps R n \<Longrightarrow> steps R (if b then m else n)"
  by simp

lemma steps_case_sum: "(\<And>e. steps R (f e)) \<Longrightarrow> (\<And>x. steps R (g x)) \<Longrightarrow> steps R (case r of Inl e \<Rightarrow> f e | Inr x \<Rightarrow> g x)"
  by (simp split: sum.split)

lemma steps_case_option: "steps R m \<Longrightarrow> (\<And>x. steps R (g x)) \<Longrightarrow> steps R (case r of None \<Rightarrow> m | Some x \<Rightarrow> g x)"
  by (simp split: option.split)

lemma steps_case_prod: "(\<And>a b. steps R (f a b)) \<Longrightarrow> steps R (case r of (a, b) \<Rightarrow> f a b)"
  by (simp split: prod.split)

lemma request_steps:
  assumes "srv_provider s = service_provider sv" and refl: "\<And>w. R w w"
    and "\<And>c b. steps R (start_login sv c b)" and "\<And>h i. steps R (complete_login sv h i)"
    and "\<And>c b. steps R (start_consent sv c b)" and "\<And>i. steps R (complete_consent sv i)"
    and "\<And>c b. steps R (start_logout sv c b)" and "\<And>i. steps R (complete_logout sv i)"
    and "steps R (ready sv)"
  shows "steps R (serve s pick admitted rand q)"
proof -
  have ops: "pv_start_login (srv_provider s) = start_login sv" "pv_complete_login (srv_provider s) = complete_login sv"
    "pv_start_consent (srv_provider s) = start_consent sv" "pv_complete_consent (srv_provider s) = complete_consent sv"
    "pv_start_logout (srv_provider s) = start_logout sv" "pv_complete_logout (srv_provider s) = complete_logout sv"
    "pv_ready (srv_provider s) = ready sv"
    by (simp_all add: assms(1) service_provider_def)
  have last: "\<exists>y. (case x of None \<Rightarrow> State_Monad.return a | Some e \<Rightarrow> State_Monad.return (g e)) = State_Monad.return y"
    for x :: "goerr option" and a :: web_response and g
    by (cases x) auto
  note rules = steps_return [OF refl] steps_if steps_case_sum steps_case_option steps_case_prod steps_then assms(3-9) last
  have "steps R (handle_route s rt hs q)" for rt hs
    by (cases rt; simp only: handle_route.simps handle_login_def handle_login_callback_def handle_consent_def
        handle_consent_submit_def handle_logout_def handle_logout_submit_def handle_ready_def Let_def ops;
        intro rules; rule exI, rule HOL.refl)
  then show ?thesis
    unfolding serve_def Let_def by (intro rules)
qed

lemma ready_store: "steps (\<lambda>w w'. w_store w' = w_store w \<and> w_log w' = w_log w \<and> w_tick w \<le> w_tick w') (ready sv)"
proof -
  have "wp (ready_loop sv is) (\<lambda>r w'. w_store w' = w_store w \<and> w_log w' = w_log w \<and> w_tick w \<le> w_tick w') w" for "is" w
  proof (induction "is" arbitrary: w)
    case (Cons i "is")
    show ?case by (auto simp: wp split: option.split intro!: wp_mono [OF Cons.IH])
  qed (simp add: wp)
  from wp_snd [OF this] show ?thesis unfolding steps_def ready_def by blast
qed

text \<open>A start flow looks its challenge up at Hydra before anything else, and only once.\<close>

fun is_lookup :: "event \<Rightarrow> bool" where
  "is_lookup (GetLogin c) = True"
| "is_lookup (GetConsent c) = True"
| "is_lookup (GetLogout c) = True"
| "is_lookup _ = False"

lemma wp_first_call:
  assumes "\<And>x. emits P (f x)"
  shows "wp (State_Monad.bind (port_call e g) f) (\<lambda>r w'. \<exists>es. w_log w' = w_log w @ e # es \<and> list_all P es) w"
proof -
  let ?w1 = "w\<lparr>w_tick := Suc (w_tick w), w_log := w_log w @ [e]\<rparr>"
  have "\<exists>es. w_log (snd (run_state (f x) ?w1)) = w_log w @ e # es \<and> list_all P es" for x
    using assms [of x] unfolding emits_def by (elim allE [of _ ?w1]) auto
  then show ?thesis unfolding wp_bind wp_port_call by (simp add: wp_def case_prod_beta)
qed

lemma starts_ask:
  assumes "validate_challenge challenge (effective_max_challenge_length (sv_cfg sv)) = None"
  shows "\<exists>es. w_log (snd (run_state (start_login sv challenge b) w)) = w_log w @ GetLogin challenge # es
      \<and> list_all (\<lambda>e. \<not> is_lookup e) es"
    and "\<exists>es. w_log (snd (run_state (start_consent sv challenge b) w)) = w_log w @ GetConsent challenge # es
      \<and> list_all (\<lambda>e. \<not> is_lookup e) es"
    and "\<exists>es. w_log (snd (run_state (start_logout sv challenge b) w)) = w_log w @ GetLogout challenge # es
      \<and> list_all (\<lambda>e. \<not> is_lookup e) es"
proof -
  note defs = assms option.case step_defs Let_def
  let ?Q = "\<lambda>e r w'. \<exists>es. w_log w' = w_log w @ e # es \<and> list_all (\<lambda>e. \<not> is_lookup e) es"
  have "wp (start_login sv challenge b) (?Q (GetLogin challenge)) w"
    unfolding start_login_def accept_remembered_login_def defs by (rule wp_first_call) (intro emits_rules; simp)
  then show "\<exists>es. w_log (snd (run_state (start_login sv challenge b) w)) = w_log w @ GetLogin challenge # es
      \<and> list_all (\<lambda>e. \<not> is_lookup e) es" by (rule wp_snd)
  have "wp (start_consent sv challenge b) (?Q (GetConsent challenge)) w"
    unfolding start_consent_def defs by (rule wp_first_call) (intro emits_rules; simp)
  then show "\<exists>es. w_log (snd (run_state (start_consent sv challenge b) w)) = w_log w @ GetConsent challenge # es
      \<and> list_all (\<lambda>e. \<not> is_lookup e) es" by (rule wp_snd)
  have "wp (start_logout sv challenge b) (?Q (GetLogout challenge)) w"
    unfolding start_logout_def defs by (rule wp_first_call) (intro emits_rules; simp)
  then show "\<exists>es. w_log (snd (run_state (start_logout sv challenge b) w)) = w_log w @ GetLogout challenge # es
      \<and> list_all (\<lambda>e. \<not> is_lookup e) es" by (rule wp_snd)
qed

lemma starts_refused:
  assumes "validate_challenge challenge (effective_max_challenge_length (sv_cfg sv)) = Some e"
  shows "snd (run_state (start_login sv challenge b) w) = w" and "snd (run_state (start_consent sv challenge b) w) = w"
    and "snd (run_state (start_logout sv challenge b) w) = w"
  by (simp_all add: start_login_def start_consent_def start_logout_def assms run_state_return)

section \<open>Where a stored transaction comes from\<close>

text \<open>
  \<open>tx_origin\<close>: Hydra was asked about the transaction's challenge, and its answer to a call
  between \<open>lo\<close> and \<open>hi\<close> is what the transaction records.
\<close>

definition tx_origin :: "'s service \<Rightarrow> nat \<Rightarrow> nat \<Rightarrow> event list \<Rightarrow> transaction \<Rightarrow> bool" where
  "tx_origin sv lo hi es tx \<longleftrightarrow>
     (\<exists>b. GetLogin (tx_challenge tx) \<in> set es \<and> login_opened sv (tx_challenge tx) b lo hi tx
        \<or> GetConsent (tx_challenge tx) \<in> set es \<and> consent_opened sv (tx_challenge tx) b lo hi tx
        \<or> GetLogout (tx_challenge tx) \<in> set es \<and> logout_opened sv (tx_challenge tx) b lo hi tx)"

lemma tx_originI:
  "login_opened sv c b lo hi tx \<Longrightarrow> GetLogin c \<in> set es \<Longrightarrow> tx_origin sv lo hi es tx"
  "consent_opened sv c b lo hi tx \<Longrightarrow> GetConsent c \<in> set es \<Longrightarrow> tx_origin sv lo hi es tx"
  "logout_opened sv c b lo hi tx \<Longrightarrow> GetLogout c \<in> set es \<Longrightarrow> tx_origin sv lo hi es tx"
proof -
  have "login_opened sv c b lo hi tx \<or> consent_opened sv c b lo hi tx \<or> logout_opened sv c b lo hi tx
      \<Longrightarrow> tx_challenge tx = c"
    by (auto simp: login_opened_def consent_opened_def logout_opened_def tx_opened_def)
  then show "login_opened sv c b lo hi tx \<Longrightarrow> GetLogin c \<in> set es \<Longrightarrow> tx_origin sv lo hi es tx"
    "consent_opened sv c b lo hi tx \<Longrightarrow> GetConsent c \<in> set es \<Longrightarrow> tx_origin sv lo hi es tx"
    "logout_opened sv c b lo hi tx \<Longrightarrow> GetLogout c \<in> set es \<Longrightarrow> tx_origin sv lo hi es tx"
    unfolding tx_origin_def by blast+
qed

lemma opened_widen:
  assumes "lo' \<le> lo" and "hi \<le> hi'"
  shows "login_opened sv c b lo hi tx \<Longrightarrow> login_opened sv c b lo' hi' tx"
    and "consent_opened sv c b lo hi tx \<Longrightarrow> consent_opened sv c b lo' hi' tx"
    and "logout_opened sv c b lo hi tx \<Longrightarrow> logout_opened sv c b lo' hi' tx"
  using during_mono [OF _ assms] drawn_mono [OF _ assms(1)]
  unfolding login_opened_def consent_opened_def logout_opened_def tx_opened_def by meson+

lemma tx_origin_mono:
  assumes "tx_origin sv lo hi es tx" and "hi \<le> hi'" and "set es \<subseteq> set es'"
  shows "tx_origin sv lo hi' es' tx"
  using assms(1,3) opened_widen [OF le_refl assms(2)] unfolding tx_origin_def by blast

context creating_store
begin

definition originated :: "'s service \<Rightarrow> nat \<Rightarrow> 's world \<Rightarrow> bool" where
  "originated sv lo w \<longleftrightarrow> inv (w_store w) \<and> lo \<le> w_tick w
     \<and> (\<forall>h tx. contents (w_store w) h = Some tx \<longrightarrow> tx_origin sv lo (w_tick w) (w_log w) tx)"

lemma originated_less:
  assumes "originated sv lo w" and "inv (w_store w')" and "w_tick w \<le> w_tick w'" and "set (w_log w) \<subseteq> set (w_log w')"
    and "\<And>h tx. contents (w_store w') h = Some tx \<Longrightarrow> contents (w_store w) h = Some tx"
  shows "originated sv lo w'"
  using assms tx_origin_mono [OF _ assms(3,4)] unfolding originated_def by (meson le_trans)

lemma only_removed_originated:
  assumes "originated sv lo w" and "only_removed h w (w'\<lparr>w_log := w_log w\<rparr>)" and "set (w_log w) \<subseteq> set (w_log w')"
  shows "originated sv lo w'"
proof (rule originated_less [OF assms(1) _ _ assms(3)])
  show "contents (w_store w) h' = Some tx" if "contents (w_store w') h' = Some tx" for h' tx
    using assms(2) that by (cases "h' = h") (auto simp: only_removed_def)
qed (use assms(2) in \<open>simp_all add: only_removed_def\<close>)

lemma started_originated:
  assumes "originated sv lo w" and "started w P E r w'"
    and "\<And>tx. P (w_tick w) (w_tick w') tx \<Longrightarrow> tx_origin sv (w_tick w) (w_tick w') (w_log w') tx"
  shows "originated sv lo w'"
proof -
  obtain es where s: "w_log w' = w_log w @ es" "inv (w_store w')" "w_tick w \<le> w_tick w'"
    "\<And>h tx. contents (w_store w') h = Some tx \<Longrightarrow> contents (w_store w) h = Some tx \<or> P (w_tick w) (w_tick w') tx"
    using assms(2) unfolding started_def opened_def by auto
  have lo: "lo \<le> w_tick w" using assms(1) by (simp add: originated_def)
  have "tx_origin sv lo (w_tick w') (w_log w') tx" if "contents (w_store w') h = Some tx" for h tx
    using s(4) [OF that]
  proof
    assume "contents (w_store w) h = Some tx"
    then have "tx_origin sv lo (w_tick w) (w_log w) tx" using assms(1) by (simp add: originated_def)
    then show ?thesis by (rule tx_origin_mono) (use s in auto)
  next
    assume "P (w_tick w) (w_tick w') tx"
    from assms(3) [OF this] opened_widen [OF lo le_refl] show ?thesis unfolding tx_origin_def by blast
  qed
  then show ?thesis using s(2,3) lo by (simp add: originated_def)
qed

lemma starts_originated:
  assumes "sv_store sv = ops" and "originated sv lo w"
  shows "originated sv lo (snd (run_state (start_login sv c b) w))"
    and "originated sv lo (snd (run_state (start_consent sv c b) w))"
    and "originated sv lo (snd (run_state (start_logout sv c b) w))"
proof -
  have inv: "inv (w_store w)" using assms(2) by (simp add: originated_def)
  note login = wp_snd [OF start_login_post [OF assms(1) inv, of c b]]
  note consent = wp_snd [OF start_consent_post [OF assms(1) inv, of c b]]
  note logout = wp_snd [OF start_logout_post [OF assms(1) inv, of c b]]
  have "originated sv lo (snd (run_state (start_login sv c b) w))
    \<and> originated sv lo (snd (run_state (start_consent sv c b) w))
    \<and> originated sv lo (snd (run_state (start_logout sv c b) w))"
  proof (cases "validate_challenge c (effective_max_challenge_length (sv_cfg sv))")
    case None
    have asked: "GetLogin c \<in> set (w_log (snd (run_state (start_login sv c b) w)))"
      "GetConsent c \<in> set (w_log (snd (run_state (start_consent sv c b) w)))"
      "GetLogout c \<in> set (w_log (snd (run_state (start_logout sv c b) w)))"
      using starts_ask [OF None, where b = b and w = w] by auto
    show ?thesis
      by (intro conjI; rule started_originated [OF assms(2) login] started_originated [OF assms(2) consent]
          started_originated [OF assms(2) logout])
        (erule tx_originI, rule asked)+
  next
    case (Some e)
    then show ?thesis using assms(2) by (simp add: starts_refused)
  qed
  then show "originated sv lo (snd (run_state (start_login sv c b) w))"
    "originated sv lo (snd (run_state (start_consent sv c b) w))"
    "originated sv lo (snd (run_state (start_logout sv c b) w))" by blast+
qed

lemma completions_originated:
  assumes "sv_store sv = ops" and "originated sv lo w"
  shows "originated sv lo (snd (run_state (complete_login sv h login_in) w))"
    and "originated sv lo (snd (run_state (complete_consent sv consent_in) w))"
    and "originated sv lo (snd (run_state (complete_logout sv logout_in) w))"
proof -
  have inv: "inv (w_store w)" using assms(2) by (simp add: originated_def)
  show "originated sv lo (snd (run_state (complete_login sv h login_in) w))"
    by (rule only_removed_originated [OF assms(2), of h])
      (use wp_snd [OF complete_login_post [OF assms(1) inv, of h login_in]] in \<open>auto simp: completion_def\<close>)
  show "originated sv lo (snd (run_state (complete_consent sv consent_in) w))"
    by (rule only_removed_originated [OF assms(2), of "ci_transaction consent_in"])
      (use wp_snd [OF complete_consent_post [OF assms(1) inv, of consent_in]] in \<open>auto simp: consent_completion_def\<close>)
  show "originated sv lo (snd (run_state (complete_logout sv logout_in) w))"
    by (rule only_removed_originated [OF assms(2), of "oi_transaction logout_in"])
      (use wp_snd [OF complete_logout_post [OF assms(1) inv, of logout_in]] in \<open>auto simp: completion_def\<close>)
qed

lemma request_originated:
  assumes "srv_provider s = service_provider sv" and "sv_store sv = ops" and "originated sv lo w"
  shows "originated sv lo (snd (run_state (serve s pick admitted rand q) w))"
proof -
  let ?R = "\<lambda>w w'. originated sv lo w \<longrightarrow> originated sv lo w'"
  have ready: "originated sv lo (snd (run_state (ready sv) w))" if "originated sv lo w" for w
    by (rule originated_less [OF that]) (use that stepsD [OF ready_store [of sv], of w] in \<open>simp_all add: originated_def\<close>)
  have "steps ?R (serve s pick admitted rand q)"
    by (rule request_steps [OF assms(1)])
      (simp_all add: steps_def starts_originated [OF assms(2)] completions_originated [OF assms(2)] ready)
  then show ?thesis using assms(3) by (simp add: steps_def)
qed

lemma serves_originated:
  assumes "serves s pick w0 w" and "srv_provider s = service_provider sv" and "sv_store sv = ops"
    and "originated sv lo w0"
  shows "originated sv lo w"
  using assms(1,4) by induction (simp_all add: request_originated [OF assms(2,3)], simp add: originated_def)

end

end
