(* ===== verification/Agreement.thy ===== *)
theory Agreement
  imports Runs
begin

text \<open>
  The two halves of a flow in the assembled program over Redis. An acceptance at Hydra in
  one request is traced through the stored transaction to Hydra's own answer in an earlier
  request of the same server.
\<close>

section \<open>The transaction behind an acceptance\<close>

lemma login_callback:
  assumes "assemble lib decode_rules parse_options getenv = Inr wr"
    and "assemble_server wr out (redis_ops renv) golib = Inr (s, counter)" and "exact_router pick"
    and "redis_laws (re_server renv) stored"
    and "AcceptLogin c acc \<in> set (calls_of (serve s pick admitted rand q) w)"
  obtains h tx m i where "redis_contents renv stored (w_store w) h = Some tx" "tx_flow tx = FlowLogin"
    "c = tx_challenge tx" "tx_subject tx = [] \<or> la_subject acc = tx_subject tx"
    "p_authorize_login (adapter_ports out wr) m i = Inr True" "pi_subject i = la_subject acc"
    "pi_client_id i = tx_client_id tx"
proof -
  obtain sv h input where run: "sv_ports sv = adapter_ports out wr" "sv_store sv = redis_ops renv"
    "AcceptLogin c acc \<in> set (calls_of (complete_login sv h input) w)"
    by (rule served_login [OF assms(1,2,3,5)])
  note post = wp_snd [OF consuming_store.complete_login_post [OF redis_store_contract [OF assms(4)] run(2) TrueI]]
  obtain tx where tx: "redis_contents renv stored (w_store w) h = Some tx"
    "login_done sv input (w_tick w) (end_tick (complete_login sv h input) w) tx (calls_of (complete_login sv h input) w)"
    using redis_completion_cases [OF assms(4) post [of w h input]] run(3) by auto
  then have just: "login_justified sv (w_tick w) (end_tick (complete_login sv h input) w) tx input c acc"
    using run(3) unfolding login_done_def by blast
  then obtain j se where j: "c = tx_challenge tx" "tx_subject tx = [] \<or> se_subject se = tx_subject tx"
    "p_authorize_login (sv_ports sv) j (login_policy_input sv (se_subject se) (tx_client_id tx) (se_aal se) (se_amr se)) = Inr True"
    "acc = \<lparr>la_subject = se_subject se, la_acr = login_acceptance_acr tx se, la_amr = se_amr se,
       la_remember = li_remember input, la_remember_for = li_remember_for input\<rparr>"
    unfolding login_justified_def by blast
  show ?thesis
    by (rule that [OF tx(1) _ j(1) _ j(3) [unfolded run(1)]])
      (use tx(2) j(2,4) in \<open>simp_all add: login_done_def tx_presented_def login_policy_input_def\<close>)
qed

text \<open>Every transaction that a server finds in Redis has its origin in an earlier request.\<close>

lemma redis_origin:
  fixes renv :: "'r redis_env"
  assumes "assemble_server wr out (redis_ops renv) golib = Inr (s, counter)"
    and "redis_laws (re_server renv) stored" and "faithful_codec renv"
    and "\<And>h. redis_contents renv stored (w_store w0) h = None" and "serves s pick w0 w"
    and "redis_contents renv stored (w_store w) h = Some tx"
  obtains sv :: "'r redis_state service" where "sv_ports sv = adapter_ports out wr"
    "validate_client (sv_cfg sv) = validate_client (wr_cfg wr)" "tx_origin sv (w_tick w0) (w_tick w) (w_log w) tx"
proof -
  obtain sv where sv: "srv_provider s = service_provider sv" "sv_ports sv = adapter_ports out wr"
    "sv_store sv = redis_ops renv" "validate_config (wr_cfg wr) = Inr (sv_cfg sv)"
    by (rule assemble_server_parts [OF assms(1)])
  note store = redis_creating_store [OF assms(2,3)]
  have "creating_store.originated (redis_contents renv stored) (\<lambda>s. True) sv (w_tick w0) w0"
    using assms(4) by (simp add: creating_store.originated_def [OF store])
  from creating_store.serves_originated [OF store assms(5) sv(1,3) this]
  have "tx_origin sv (w_tick w0) (w_tick w) (w_log w) tx"
    using assms(6) by (simp add: creating_store.originated_def [OF store])
  moreover have "validate_client (sv_cfg sv) = validate_client (wr_cfg wr)"
    by (simp add: fun_eq_iff validate_client_def validated_clients [OF sv(4)])
  ultimately show ?thesis by (intro that [OF sv(2)])
qed

lemma opened_flow:
  "login_opened sv c b lo hi tx \<Longrightarrow> tx_flow tx = FlowLogin"
  "consent_opened sv c b lo hi tx \<Longrightarrow> tx_flow tx = FlowConsent"
  "logout_opened sv c b lo hi tx \<Longrightarrow> tx_flow tx = FlowLogout"
  unfolding login_opened_def consent_opened_def logout_opened_def tx_opened_def by blast+

lemma flows_differ: "FlowLogin \<noteq> FlowConsent" "FlowLogin \<noteq> FlowLogout" "FlowConsent \<noteq> FlowLogout"
  by (simp_all add: FlowLogin_def FlowConsent_def FlowLogout_def)

lemma origin_flow:
  assumes "tx_origin sv lo hi es tx"
  shows "tx_flow tx = FlowLogin \<Longrightarrow> GetLogin (tx_challenge tx) \<in> set es \<and> (\<exists>b. login_opened sv (tx_challenge tx) b lo hi tx)"
    and "tx_flow tx = FlowConsent \<Longrightarrow> GetConsent (tx_challenge tx) \<in> set es \<and> (\<exists>b. consent_opened sv (tx_challenge tx) b lo hi tx)"
    and "tx_flow tx = FlowLogout \<Longrightarrow> GetLogout (tx_challenge tx) \<in> set es \<and> (\<exists>b. logout_opened sv (tx_challenge tx) b lo hi tx)"
  using assms flows_differ opened_flow unfolding tx_origin_def by metis+

lemma login_said:
  assumes "tx_origin sv lo hi es tx" and "tx_flow tx = FlowLogin"
  obtains k req client prompts where "GetLogin (tx_challenge tx) \<in> set es" "lo \<le> k" "k < hi"
    "p_get_login (sv_ports sv) k (tx_challenge tx) = Inr req" "validate_client (sv_cfg sv) (lr_client req) = Inr client"
    "parse_prompt (lr_prompt req) = Inr prompts" "\<not> ps_none prompts" "tx_subject tx = lr_subject req"
    "tx_client_id tx = cc_id client"
  using origin_flow(1) [OF assms] unfolding login_opened_def tx_opened_def during_def by blast

lemma consent_said:
  assumes "tx_origin sv lo hi es tx" and "tx_flow tx = FlowConsent"
  obtains k req client where "GetConsent (tx_challenge tx) \<in> set es" "lo \<le> k" "k < hi"
    "p_get_consent (sv_ports sv) k (tx_challenge tx) = Inr req" "validate_client (sv_cfg sv) (cr_client req) = Inr client"
    "tx_subject tx = cr_subject req" "tx_requested_scopes tx = cr_requested_scopes req"
    "tx_requested_audience tx = cr_requested_audience req" "set (tx_requested_scopes tx) \<subseteq> set (cc_allowed_scopes client)"
    "set (tx_requested_audience tx) \<subseteq> set (cc_allowed_audiences client)"
  using origin_flow(2) [OF assms] unfolding consent_opened_def during_def by blast

lemma logout_said:
  assumes "tx_origin sv lo hi es tx" and "tx_flow tx = FlowLogout"
  obtains k req client where "GetLogout (tx_challenge tx) \<in> set es" "lo \<le> k" "k < hi"
    "p_get_logout (sv_ports sv) k (tx_challenge tx) = Inr req" "validate_client (sv_cfg sv) (gr_client req) = Inr client"
    "gr_post_logout_redirect_uri req = [] \<or> gr_post_logout_redirect_uri req \<in> set (cc_allowed_post_logout_redirects client)"
  using origin_flow(3) [OF assms] unfolding logout_opened_def during_def by blast

section \<open>A sample run of two requests\<close>

text \<open>
  The sample deployment with a client. Redis is empty; a browser starts a consent, and then
  submits the form of the external UI with the handle and the CSRF token it was given.
\<close>

definition sample_client_lib :: env_lib where
  "sample_client_lib = sample_env_lib\<lparr>el_clients := \<lambda>t. Some [(''c'', sample_client)]\<rparr>"

definition sample_client_env :: env where
  "sample_client_env n = (if n = ''ALLOWED_CLIENTS'' then ''j'' else sample_secure_env n)"

definition sample_client_config :: config where
  "sample_client_config = sample_production\<lparr>cfg_clients := [(''c'', sample_client)]\<rparr>"

definition sample_client_wiring :: wiring where
  "sample_client_wiring = \<lparr>wr_cfg = sample_client_config, wr_hydra = wr_hydra sample_wiring,
     wr_kratos = sample_url ''k'', wr_store = RedisChoice ''p:'',
     wr_policy = StaticChoice (new_static_with_scopes [''u''] [''c''] [(''u'', [(''c'', [''email''])])] True)\<rparr>"

lemma sample_client_config_validates: "validate_config sample_client_config = Inr sample_client_config"
proof -
  have "supported_aal ''aal2''" by (simp add: supported_aal_def aal_level_def text_eval)
  then have a: "aal_at_least ''aal2'' ''aal2''" by (rule aal_at_least_self)
  have u: "validate_url (Some (sample_url h)) n b = None" if "h \<noteq> []" for h n b
    using that by (simp add: validate_url_def sample_url_def empty_url_def)
  have c: "validate_client_entry True (''c'', sample_client) = None"
    by (rule validate_client_entry_ok [OF sample_client_ok])
      (simp_all add: sample_client_def text_eval validate_claim_allowlist_def validate_claim_entry_def
        is_reserved_claim_def reserved_claims_def)
  have s: "secure_transport_required sample_client_config = True"
    by (simp add: secure_transport_required_def sample_client_config_def sample_production_def text_eval)
  show ?thesis
    unfolding validate_config_def Let_def s
    by (simp add: sample_client_config_def sample_production_def sample_loaded_def fail_if_def u a c
      validate_claim_mappings_def validate_oidc_acr_mappings_def validate_policy_def PolicyBackendStatic_def
      PolicyBackendHTTP_def DefaultTransactionTTL_def MaxTransactionTTL_def Second_def
      DefaultMaxPendingTransactions_def DefaultMaxChallengeLength_def MaxChallengeLengthLimit_def)
qed

lemma sample_client_load: "load_config sample_client_lib sample_client_env = Inr sample_client_config"
proof -
  have e: "sample_client_env n = sample_secure_env n" if "n \<noteq> ''ALLOWED_CLIENTS''" for n
    using that by (simp add: sample_client_env_def)
  have r: "required_url sample_client_env n = required_url sample_secure_env n" if "n \<noteq> ''ALLOWED_CLIENTS''" for n
    unfolding required_url_def e [OF that] ..
  have c: "cc_id sample_client = ''c''" by (simp add: sample_client_def)
  have "load_config sample_client_lib sample_client_env = validate_config sample_client_config"
    by (simp add: load_config_def r sample_secure_urls sample_required_url and_then_def)
      (simp add: env_number_def lower_or_default_def optional_url_def parse_mappings_json_def parse_acr_mappings_def
        load_clients_def e sample_client_lib_def sample_client_env_def sample_secure_env_def sample_env_def text_eval
        fill_client_ids_def c sample_client_config_def sample_production_def sample_loaded_def
        env_or_default_def PolicyBackendStatic_def and_then_def)
  then show ?thesis by (simp add: sample_client_config_validates)
qed

lemma sample_client_assemble:
  "assemble sample_client_lib sample_rules (\<lambda>u. True) sample_client_env = Inr sample_client_wiring"
proof -
  have e: "secure_environment (cfg_environment sample_client_config)"
    by (simp add: secure_environment_def sample_client_config_def sample_production_def text_eval)
  have p: "trim_space ''p:'' = ''p:''" "trim_space ''t'' = ''t''" by (simp_all add: text_eval)
  have v: "validate_state_configuration sample_client_env sample_client_config = None"
    using sample_redis_url e p
    by (simp add: validate_state_configuration_def sample_client_env_def sample_secure_env_def text_eval Let_def)
  have s: "new_transaction_store sample_client_env (\<lambda>u. True) sample_client_config = Inr (RedisChoice ''p:'')"
    using sample_redis_url p
    by (simp add: new_transaction_store_def sample_client_env_def sample_secure_env_def new_redis_store_def text_eval)
  have b: "cfg_policy_backend sample_client_config = ''static''" "client_ids sample_client_config = [''c'']"
    by (simp_all add: sample_client_config_def sample_production_def sample_loaded_def client_ids_def)
  have c: "csv_values ''u'' = [''u'']" by (simp add: csv_values_def text_eval)
  have pol: "new_policy sample_client_env sample_rules sample_client_config [] = Inr (wr_policy sample_client_wiring)"
    using e by (simp add: new_policy_def b PolicyBackendStatic_def subject_scope_rules_def sample_client_env_def
        sample_secure_env_def text_eval sample_rules_def c sample_client_wiring_def)
  have h: "new_hydra (cfg_hydra_admin_url sample_client_config) ''t'' = Inr (wr_hydra sample_wiring)"
    by (simp add: sample_client_config_def sample_production_def sample_loaded_def new_hydra_def sample_wiring_def)
      (simp add: sample_url_def empty_url_def)
  have k: "new_kratos (cfg_kratos_public_url sample_client_config) = Inr (sample_url ''k'')"
    by (simp add: sample_client_config_def sample_production_def sample_loaded_def new_kratos_def)
      (simp add: sample_url_def empty_url_def)
  have t: "trim_space (sample_client_env ''HYDRA_ADMIN_TOKEN'') = ''t''"
    "trim_space (sample_client_env ''POLICY_AUTH_TOKEN'') = []"
    using p by (simp_all add: sample_client_env_def sample_secure_env_def sample_env_def)
  show ?thesis
    by (simp add: assemble_def and_then_def wrap_error_def sample_client_load v s pol h k t Let_def)
      (simp add: sample_client_wiring_def)
qed

text \<open>Hydra asks for one scope for the user \<open>u\<close>; Redis keeps what it is given.\<close>

definition sample_consent_api :: hydra_api where
  "sample_consent_api = sample_api\<lparr>ha_get_consent := \<lambda>c. Inr (Some \<lparr>hn_challenge = c, hn_client = sample_hydra_client,
     hn_skip = False, hn_subject = ''u'', hn_request_url = [], hn_requested_scope = [''email''],
     hn_requested_audience = []\<rparr>)\<rparr>"

definition sample_consent_outside :: outside where
  "sample_consent_outside = sample_outside\<lparr>ou_api := \<lambda>n. sample_consent_api\<rparr>"

definition sample_stored :: transaction where
  "sample_stored = empty_transaction\<lparr>tx_flow := FlowConsent, tx_challenge := ''ch'', tx_client_id := ''c'',
     tx_subject := ''u'', tx_requested_scopes := [''email''], tx_requested_audience := [], tx_required_aal := ''aal2'',
     tx_expires_at := 1 + DefaultTransactionTTL, tx_browser_state := sample_token, tx_csrf_token := sample_token\<rparr>"

definition sample_codec_renv :: "string gomap redis_env" where
  "sample_codec_renv = \<lparr>re_server = map_server, re_net = (\<lambda>n. (1, None)), re_now = (\<lambda>n. 1),
     re_rand = (\<lambda>n. Some (\<lambda>i. CHR ''a'')), re_encode = (\<lambda>tx. if tx = sample_stored then Some ''v'' else None),
     re_decode = (\<lambda>p. if p = ''v'' then Some sample_stored else None), re_prefix = ''p:''\<rparr>"

lemma sample_faithful: "faithful_codec sample_codec_renv"
  by (simp add: faithful_codec_def sample_codec_renv_def)

definition sample_consent_service :: "string gomap redis_state service" where
  "sample_consent_service = \<lparr>sv_cfg = sample_client_config,
     sv_ports = adapter_ports sample_consent_outside sample_client_wiring, sv_store = redis_ops sample_codec_renv,
     sv_lib = sample_lib, sv_readiness = 3\<rparr>"

definition sample_consent_server :: "string gomap redis_state world server" where
  "sample_consent_server = \<lparr>srv_provider = service_provider sample_consent_service, srv_cfg = sample_client_config\<rparr>"

definition sample_empty_world :: "string gomap redis_state world" where
  "sample_empty_world = \<lparr>w_store = \<lparr>rs_server = [], rs_tick = 0\<rparr>, w_admission = new_transaction_admission 10,
     w_tick = 0, w_log = []\<rparr>"

lemma sample_consent_assembled:
  "\<exists>counter. assemble_server sample_client_wiring sample_consent_outside (redis_ops sample_codec_renv) sample_lib
     = Inr (sample_consent_server, counter)"
  by (simp add: assemble_server_def new_service_def new_server_def and_then_def wrap_error_def
      sample_client_config_validates sample_client_wiring_def [THEN arg_cong, of wr_cfg] readiness_count_def)
    (simp add: sample_client_wiring_def sample_client_config_validates sample_consent_server_def sample_consent_service_def)

lemma sample_consent_request:
  "p_get_consent (adapter_ports sample_consent_outside sample_client_wiring) n c
     = Inr \<lparr>cr_challenge = c, cr_client = client_domain sample_hydra_client, cr_subject = ''u'',
         cr_requested_scopes = [''email''], cr_requested_audience = [], cr_skip = False, cr_prompt = []\<rparr>"
  by (simp add: adapter_ports_def sample_consent_outside_def sample_outside_def sample_consent_api_def hydra_get_consent_def
      parse_oidc_request_url_def)

lemma sample_consent_client: "validate_client sample_client_config (client_domain sample_hydra_client) = Inr sample_client"
  by (simp add: validate_client_def client_domain_def sample_hydra_client_def config_lookup_client_def
      sample_client_config_def map_get_def) (simp add: sample_client_def)

lemma sample_token_valid: "validate_opaque_token sample_token = None" "sample_token \<noteq> []" "length sample_token = 43"
  using sample_presentable [of FlowLogin] length_token_of [of "\<lambda>i. CHR ''a''"]
  by (auto simp: presentable_def sample_token_def)

definition sample_filled :: "string gomap redis_state" where
  "sample_filled = \<lparr>rs_server = [(''p:'' @ sample_token, ''v'')], rs_tick = 4\<rparr>"

lemma sample_codec_create:
  "run_state (redis_create sample_codec_renv sample_stored) \<lparr>rs_server = [], rs_tick = 0\<rparr>
     = (Inr sample_token, sample_filled)"
  by (simp add: redis_create_def redis_time_def sample_codec_renv_def is_zero_time_def after_def time_sub_def
      sample_stored_def DefaultTransactionTTL_def Second_def
      max_transaction_bytes_def numeral_3_eq_3 redis_random_handle_def redis_call_def
      redis_key_def map_server_def map_put_def map_get_def Let_def run_state_bind run_state_return sample_token_def
      sample_filled_def)

lemma sample_deployment_parts:
  "sv_cfg sample_consent_service = sample_client_config"
  "sv_ports sample_consent_service = adapter_ports sample_consent_outside sample_client_wiring"
  "sv_store sample_consent_service = redis_ops sample_codec_renv"
  "p_now (adapter_ports sample_consent_outside sample_client_wiring) n = 1"
  "p_rand (adapter_ports sample_consent_outside sample_client_wiring) n = Some (\<lambda>i. CHR ''a'')"
  by (simp_all add: sample_consent_service_def adapter_ports_def sample_consent_outside_def sample_outside_def)

lemma sample_consent_started:
  "wp (start_consent sample_consent_service ''ch'' sample_token)
     (\<lambda>r w'. w_store w' = sample_filled) sample_empty_world"
proof -
  have chal: "validate_challenge ''ch'' (effective_max_challenge_length sample_client_config) = None"
    by (simp add: validate_challenge_def effective_max_challenge_length_def sample_client_config_def sample_production_def
        sample_loaded_def DefaultMaxChallengeLength_def text_eval)
  have cfg: "cfg_required_aal sample_client_config = ''aal2''" "cfg_transaction_ttl sample_client_config = DefaultTransactionTTL"
    by (simp_all add: sample_client_config_def sample_production_def sample_loaded_def)
  have client: "cc_id sample_client = ''c''" "cc_allowed_scopes sample_client = [''email'']"
    "cc_skip_consent sample_client = False" by (simp_all add: sample_client_def)
  have valid: "validate_scopes sample_client [''email''] = None" "validate_audiences sample_client [] = None"
    by (simp_all add: client)
  have prompt: "ps_none no_prompts = False" "ps_consent no_prompts = False" by (simp_all add: no_prompts_def)
  have tx: "empty_transaction\<lparr>tx_flow := FlowConsent, tx_challenge := ''ch'', tx_client_id := ''c'',
     tx_subject := ''u'', tx_requested_scopes := [''email''], tx_requested_audience := [], tx_required_aal := ''aal2'',
     tx_expires_at := 1 + DefaultTransactionTTL, tx_browser_state := sample_token,
     tx_csrf_token := token_of (\<lambda>i. CHR ''a'')\<rparr> = sample_stored"
    by (simp add: sample_stored_def sample_token_def)
  have "fst (adm_reserve (1 + DefaultTransactionTTL) 1 (new_transaction_admission 10))"
    by (simp add: adm_reserve_def new_transaction_admission_def after_def DefaultTransactionTTL_def Second_def)
  then obtain a where reserve: "adm_reserve (1 + DefaultTransactionTTL) 1 (new_transaction_admission 10) = (True, a)"
    by (metis prod.collapse)
  have create: "wp (redis_create sample_codec_renv sample_stored) Q \<lparr>rs_server = [], rs_tick = 0\<rparr>
      = Q (Inr sample_token) sample_filled" for Q
    by (simp add: wp_def sample_codec_create)
  have expires: "tx_expires_at sample_stored = 1 + DefaultTransactionTTL" by (simp add: sample_stored_def)
  have made: "wp (open_transaction sample_consent_service sample_token
      (empty_transaction\<lparr>tx_flow := FlowConsent, tx_challenge := ''ch'', tx_client_id := ''c'',
         tx_subject := ''u'', tx_requested_scopes := [''email''], tx_requested_audience := [], tx_required_aal := ''aal2'',
         tx_expires_at := 1 + DefaultTransactionTTL\<rparr>) redirect)
     (\<lambda>r w'. w_store w' = sample_filled)
     \<lparr>w_store = \<lparr>rs_server = [], rs_tick = 0\<rparr>, w_admission = new_transaction_admission 10, w_tick = k, w_log = l\<rparr>" for redirect k l
    by (simp add: open_transaction_def start_browser_state_def new_opaque_token_def create_transaction_def wp tx expires
        reserve sample_token_valid sample_deployment_parts wp_on_store redis_ops_def create split: prod.split)
  show ?thesis
    by (simp add: start_consent_def wp sample_deployment_parts chal sample_consent_request sample_consent_client client
        valid parse_prompt_Nil prompt cfg sample_empty_world_def made)
qed

text \<open>The browser's two requests.\<close>

definition sample_cookie :: string where
  "sample_cookie = ''__Host-provider_consent_state'' @ ''='' @ sample_token"

definition sample_get :: web_request where
  "sample_get = \<lparr>wq_method = ''GET'', wq_path = ''/consent'', wq_raw_query = ''consent_challenge=ch'',
     wq_headers = [(''Cookie'', [sample_cookie])],
     wq_media_type = (''application/octet-stream'', False), wq_body = [], wq_body_fails = False\<rparr>"

definition sample_approval :: web_request where
  "sample_approval = \<lparr>wq_method = ''POST'', wq_path = ''/consent'', wq_raw_query = [],
     wq_headers = [(''Origin'', [''https://u'']), (''Cookie'', [sample_cookie, ''ory_kratos_session'' @ ''='' @ ''v''])],
     wq_media_type = (''application/x-www-form-urlencoded'', False),
     wq_body = ''transaction='' @ sample_token @ ''&csrf='' @ sample_token @ ''&decision=accept&grant_scope=email'',
     wq_body_fails = False\<rparr>"

lemma sample_request_cookies:
  "read_cookies sample_get = [(''__Host-provider_consent_state'', sample_token)]"
  "read_cookies sample_approval = [(''__Host-provider_consent_state'', sample_token), (''ory_kratos_session'', ''v'')]"
proof -
  note t = sample_token_text
  have "map_get (wq_headers sample_get) ''Cookie'' = Some [sample_cookie]"
    "map_get (wq_headers sample_approval) ''Cookie'' = Some [sample_cookie, ''ory_kratos_session'' @ ''='' @ ''v'']"
    by (simp_all add: sample_get_def sample_approval_def map_get_def)
  then show "read_cookies sample_get = [(''__Host-provider_consent_state'', sample_token)]"
    "read_cookies sample_approval = [(''__Host-provider_consent_state'', sample_token), (''ory_kratos_session'', ''v'')]"
    using one_cookie [OF cookie_name_texts(5) t(1)] one_cookie [OF t(2,3)]
    unfolding read_cookies_def sample_cookie_def by simp_all
qed

lemma sample_client_https: "provider_https sample_client_config"
  by (simp add: provider_https_def sample_client_config_def sample_production_def sample_loaded_def sample_url_def empty_url_def)

lemma sample_browser_states:
  "browser_state_cookie sample_client_config sample_get consentBrowserStateCookie = sample_token"
  "browser_state_cookie sample_client_config sample_approval consentBrowserStateCookie = sample_token"
  using sample_token_valid(3)
  by (simp_all add: browser_state_cookie_def request_cookie_def browser_state_cookie_name_def sample_client_https
      consentBrowserStateCookie_def sample_request_cookies)

lemma sample_approval_form: "parse_form max_form_bytes sample_approval
  = Some [(''transaction'', [sample_token]), (''csrf'', [sample_token]), (''decision'', [''accept'']), (''grant_scope'', [''email''])]"
proof -
  have "parse_query (''transaction='' @ sample_token @ ''&csrf='' @ sample_token @ ''&decision=accept&grant_scope=email'')
    = ([(''transaction'', [sample_token]), (''csrf'', [sample_token]), (''decision'', [''accept'']), (''grant_scope'', [''email''])], False)"
    by code_simp
  moreover have "parse_query [] = ([], False)" by code_simp
  ultimately show ?thesis
    by (simp add: parse_form_def post_form_def read_max_bytes_def sample_approval_def copy_values_def max_form_bytes_def
        sample_token_valid)
qed

definition sample_approval_input :: consent_input where
  "sample_approval_input = \<lparr>ci_transaction = sample_token, ci_csrf_token = sample_token, ci_browser_state = sample_token,
     ci_decision = ''accept'', ci_grant_scopes = [''email''], ci_grant_audience = [],
     ci_credentials = \<lparr>sc_cookie_name = ''ory_kratos_session'', sc_cookie_value = ''v'', sc_token = []\<rparr>,
     ci_remember = False, ci_remember_for = 0\<rparr>"

lemma sample_codec_steps:
  "run_state (redis_get sample_codec_renv sample_token) sample_filled
     = (Inr sample_stored, sample_filled\<lparr>rs_tick := 6\<rparr>)"
  "\<exists>s. run_state (redis_consume sample_codec_renv sample_token) (sample_filled\<lparr>rs_tick := 6\<rparr>) = (Inr sample_stored, s)"
  using sample_token_valid(2)
  by (simp_all add: redis_get_def redis_consume_def redis_call_def redis_load_def redis_time_def consume_script_def
      redis_key_def sample_codec_renv_def map_server_def map_get_def map_del_def after_def sample_filled_def
      run_state_bind run_state_return sample_stored_def DefaultTransactionTTL_def Second_def)

lemma sample_consent_answers:
  "p_validate_session (adapter_ports sample_consent_outside sample_client_wiring) n (ci_credentials sample_approval_input)
     = Inr (session_of_response sample_reply_session)"
  "pi_subject i = ''u'' \<Longrightarrow> pi_client_id i = ''c'' \<Longrightarrow> pi_granted_scopes i = [''email''] \<Longrightarrow> pi_requested_audiences i = [] \<Longrightarrow>
     p_authorize_consent (adapter_ports sample_consent_outside sample_client_wiring) n i
       = Inr \<lparr>cd_allowed = True, cd_granted_scopes = [''email''], cd_granted_audiences = pi_granted_audiences i,
           cd_claims = sp_claims (new_static_with_scopes [''u''] [''c''] [(''u'', [(''c'', [''email''])])] True)\<rparr>"
proof -
  have "kratos_validate_session (sample_url ''k'') (\<lambda>d e. Some sample_reply_session)
      (\<lambda>q. Inr \<lparr>hr_status = 200, hr_body = [], hr_body_fails = False\<rparr>) (ci_credentials sample_approval_input)
      = Inr (session_of_response sample_reply_session)"
    by (simp add: kratos_validate_session_def sample_whoami success_status_def)
      (simp add: sample_approval_input_def sample_reply_session_def)
  then show "p_validate_session (adapter_ports sample_consent_outside sample_client_wiring) n (ci_credentials sample_approval_input)
      = Inr (session_of_response sample_reply_session)"
    by (simp add: adapter_ports_def sample_consent_outside_def sample_outside_def sample_client_wiring_def)
  assume i: "pi_subject i = ''u''" "pi_client_id i = ''c''" "pi_granted_scopes i = [''email'']" "pi_requested_audiences i = []"
  have one: "map_get [(k, v)] k = Some v" for k :: string and v by (simp add: map_get_def)
  have "static_allowed (new_static_with_scopes [''u''] [''c''] [(''u'', [(''c'', [''email''])])] True) ''u'' ''c''"
    by (simp add: static_allowed_def new_static_with_scopes_def new_static_def)
  moreover have "scopes_permitted (new_static_with_scopes [''u''] [''c''] [(''u'', [(''c'', [''email''])])] True) i"
    by (simp add: scopes_permitted_def i scope_rule_new one)
  ultimately show "p_authorize_consent (adapter_ports sample_consent_outside sample_client_wiring) n i
       = Inr \<lparr>cd_allowed = True, cd_granted_scopes = [''email''], cd_granted_audiences = pi_granted_audiences i,
           cd_claims = sp_claims (new_static_with_scopes [''u''] [''c''] [(''u'', [(''c'', [''email''])])] True)\<rparr>"
    by (simp add: adapter_ports_def sample_client_wiring_def static_authorize_consent_cases i selected_audiences_def)
qed

lemma sample_consent_completed:
  assumes "w_store w = sample_filled"
  shows "\<exists>acc. AcceptConsent ''ch'' acc \<in> set (calls_of (complete_consent sample_consent_service sample_approval_input) w)"
proof -
  have pres: "validate_csrf sample_token sample_token = None" "validate_browser_state sample_token sample_token = None"
    using sample_token_valid by (simp_all add: validate_browser_state_None)
  have tx: "tx_flow sample_stored = FlowConsent" "tx_csrf_token sample_stored = sample_token"
    "tx_browser_state sample_stored = sample_token" "tx_challenge sample_stored = ''ch''" "tx_client_id sample_stored = ''c''"
    "tx_subject sample_stored = ''u''" "tx_requested_scopes sample_stored = [''email'']"
    "tx_requested_audience sample_stored = []" "tx_required_aal sample_stored = ''aal2''"
    by (simp_all add: sample_stored_def)
  have live: "after (tx_expires_at sample_stored) 1"
    by (simp add: after_def sample_stored_def DefaultTransactionTTL_def Second_def)
  have inp: "ci_transaction sample_approval_input = sample_token" "ci_csrf_token sample_approval_input = sample_token"
    "ci_browser_state sample_approval_input = sample_token" "ci_decision sample_approval_input = ''accept''"
    "ci_grant_scopes sample_approval_input = [''email'']" "ci_grant_audience sample_approval_input = []"
    "ci_remember sample_approval_input = False" "ci_remember_for sample_approval_input = 0"
    by (simp_all add: sample_approval_input_def)
  have se: "se_subject (session_of_response sample_reply_session) = ''u''"
    "se_aal (session_of_response sample_reply_session) = ''aal2''"
    by (simp_all add: session_of_response_def sample_reply_session_def)
  have "supported_aal ''aal2''" by (simp add: supported_aal_def aal_level_def text_eval)
  then have aal: "aal_at_least ''aal2'' (higher_aal ''aal2'' ''aal2'')"
    by (auto simp: higher_aal_def aal_at_least_self supported_aal_def split: option.split)
  have cfg: "cfg_required_aal sample_client_config = ''aal2''" "config_lookup_client sample_client_config ''c'' = Some sample_client"
    by (simp_all add: sample_client_config_def sample_production_def sample_loaded_def config_lookup_client_def map_get_def)
  have client: "cc_id sample_client = ''c''" by (simp add: sample_client_def)
  have valid: "validate_scopes sample_client [''email''] = None" "validate_audiences sample_client [] = None"
    "validate_remember False 0 = None" "validate_requested_subset [''email''] [''email''] = None"
    "validate_requested_subset [] [] = None" "validate_audience_subset [] [] = None"
    by (simp_all add: sample_client_def validate_remember_def)
  obtain s where consumed: "run_state (redis_consume sample_codec_renv sample_token) (sample_filled\<lparr>rs_tick := 6\<rparr>) = (Inr sample_stored, s)"
    using sample_codec_steps(2) by blast
  have get: "wp (redis_get sample_codec_renv sample_token) Q sample_filled = Q (Inr sample_stored) (sample_filled\<lparr>rs_tick := 6\<rparr>)"
    "wp (redis_consume sample_codec_renv sample_token) Q (sample_filled\<lparr>rs_tick := 6\<rparr>) = Q (Inr sample_stored) s" for Q
    by (simp_all add: wp_def sample_codec_steps(1) consumed)
  have "wp (complete_consent sample_consent_service sample_approval_input)
      (\<lambda>r w'. \<exists>es acc. w_log w' = w_log w @ es \<and> AcceptConsent ''ch'' acc \<in> set es) w"
    unfolding complete_consent_def accept_consent_def accept_consent_decision_def load_def consume_def Let_def
    by (simp add: wp wp_on_store assms sample_deployment_parts redis_ops_def inp get tx sample_token_valid pres live cfg valid
        sample_consent_answers se aal client)
  then show ?thesis by (auto dest!: wp_snd simp: calls_of_def)
qed

abbreviation sample_answer :: "web_request \<Rightarrow> (string gomap redis_state world, web_response) state" where
  "sample_answer \<equiv> serve sample_consent_server table_router True (Some (\<lambda>i. CHR ''a''))"

lemma sample_request_id: "\<exists>rid. request_id_of (Some (\<lambda>i. CHR ''a'')) q = Inr rid"
  by (cases "valid_request_id (header_get q ''X-Request-Id'')") (simp_all add: request_id_of_def new_request_id_def)

lemma sample_get_served: "w_store (snd (run_state (sample_answer sample_get) sample_empty_world)) = sample_filled"
proof -
  obtain rid where rid: "request_id_of (Some (\<lambda>i. CHR ''a'')) sample_get = Inr rid" using sample_request_id by blast
  have route: "table_router routes (wq_method sample_get) (wq_path sample_get) = Inr RouteConsent"
    by (simp add: table_router_def routes_def sample_get_def)
  have "parse_query ''consent_challenge=ch'' = ([(''consent_challenge'', [''ch''])], False)" by code_simp
  then have query: "request_query sample_get = [(''consent_challenge'', [''ch''])]"
    by (simp add: request_query_def sample_get_def)
  have len: "effective_max_challenge_length sample_client_config = DefaultMaxChallengeLength"
    by (simp add: effective_max_challenge_length_def sample_client_config_def sample_production_def sample_loaded_def
        DefaultMaxChallengeLength_def)
  have chal: "required_query_value [(''consent_challenge'', [''ch''])] ''consent_challenge'' DefaultMaxChallengeLength = Inr ''ch''"
    by (simp add: required_query_value_def map_get_def text_eval DefaultMaxChallengeLength_def)
  have "snd (run_state (sample_answer sample_get) sample_empty_world)
      = snd (run_state (start_consent sample_consent_service ''ch'' sample_token) sample_empty_world)"
    by (simp add: serve_def rid route handle_consent_def sample_consent_server_def query len chal sample_browser_states
        service_provider_def run_state_bind run_state_return Let_def split: prod.split)
  then show ?thesis using wp_snd [OF sample_consent_started] by simp
qed

lemma sample_approval_served:
  assumes "w_store w = sample_filled"
  shows "\<exists>acc. AcceptConsent ''ch'' acc \<in> set (calls_of (sample_answer sample_approval) w)"
proof -
  obtain rid where rid: "request_id_of (Some (\<lambda>i. CHR ''a'')) sample_approval = Inr rid" using sample_request_id by blast
  have route: "table_router routes (wq_method sample_approval) (wq_path sample_approval) = Inr RouteConsentSubmit"
    by (simp add: table_router_def routes_def sample_approval_def)
  have "cfg_external_ui_url sample_client_config = cfg_external_ui_url sample_production"
    by (simp add: sample_client_config_def)
  moreover have "header_get sample_approval ''Origin'' = header_get sample_post ''Origin''"
    by (simp add: header_get_def values_get_def sample_approval_def sample_post_def map_get_def)
  ultimately have origin: "origin_allowed sample_client_config (header_get sample_approval ''Origin'')"
    using sample_post_origin by (simp only: origin_allowed_def)
  have tok: "trim_space sample_token = sample_token" by code_simp
  have accept: "to_lower (trim_space ''accept'') = ''accept''" by (simp add: text_eval)
  have scopes: "form_scopes [''email''] = [''email'']" "form_scopes [] = []"
    by (simp_all add: form_scopes_def str_fields_def text_eval)
  have creds: "session_credentials_of sample_client_config sample_approval
      = \<lparr>sc_cookie_name = ''ory_kratos_session'', sc_cookie_value = ''v'', sc_token = []\<rparr>"
    by (simp add: session_credentials_of_def request_cookie_def sample_request_cookies sample_client_config_def
        sample_production_def sample_loaded_def)
  have form: "submitted_consent sample_client_config sample_approval
      [(''transaction'', [sample_token]), (''csrf'', [sample_token]), (''decision'', [''accept'']), (''grant_scope'', [''email''])]
      False 0 = sample_approval_input"
    by (simp add: submitted_consent_def sample_approval_input_def values_get_def map_get_def tok sample_browser_states
        creds accept scopes)
  have "calls_of (sample_answer sample_approval) w = calls_of (complete_consent sample_consent_service sample_approval_input) w"
    using form
    by (simp add: serve_def rid route handle_consent_submit_def sample_consent_server_def origin sample_approval_form
        submitted_consent_def remember_options_def values_get_def map_get_def
        service_provider_def calls_of_def run_state_bind run_state_return Let_def split: prod.split)
  then show ?thesis using sample_consent_completed [OF assms] by simp
qed

section \<open>Properties\<close>

text \<open>C1. Agreement in production, over Redis: a server that starts with an empty Redis and answers
  any sequence of requests, by any number of replicas that share this Redis, accepts a
  challenge at Hydra only after Hydra was asked about this challenge in an earlier request, and only as Hydra answered then: a login of a client of
  the configuration, for the subject Hydra named, if it named one, and not under
  \<open>prompt=none\<close>; a consent for the subject Hydra named, with scopes and audiences that Hydra
  requested and the configuration allows the client; a logout that returns to an address of
  the client. Whatever browsers send, they cannot change what is accepted.\<close>

theorem production_agreement:
  fixes renv :: "'r redis_env"
  assumes "assemble lib decode_rules parse_options getenv = Inr wr"
    and "assemble_server wr out (redis_ops renv) golib = Inr (s, counter)" and "exact_router pick"
    and "redis_laws (re_server renv) stored" and "faithful_codec renv"
    and "\<And>h. redis_contents renv stored (w_store w0) h = None" and "serves s pick w0 w"
    and "e \<in> set (calls_of (serve s pick admitted rand q) w)" and "is_acceptance e"
  shows "\<exists>c k client. w_tick w0 \<le> k \<and> k < w_tick w
    \<and> (GetLogin c \<in> set (w_log w)
        \<and> (\<exists>acc req prompts m i. e = AcceptLogin c acc \<and> p_get_login (adapter_ports out wr) k c = Inr req
             \<and> validate_client (wr_cfg wr) (lr_client req) = Inr client
             \<and> parse_prompt (lr_prompt req) = Inr prompts \<and> \<not> ps_none prompts
             \<and> (lr_subject req = [] \<or> la_subject acc = lr_subject req)
             \<and> p_authorize_login (adapter_ports out wr) m i = Inr True
             \<and> pi_subject i = la_subject acc \<and> pi_client_id i = cc_id client)
      \<or> GetConsent c \<in> set (w_log w)
        \<and> (\<exists>acc req payload. e = AcceptConsent c acc \<and> p_get_consent (adapter_ports out wr) k c = Inr req
             \<and> validate_client (wr_cfg wr) (cr_client req) = Inr client
             \<and> confirmed_by_kratos out wr (w_tick w) (w_tick (snd (run_state (serve s pick admitted rand q) w)))
                 (session_credentials_of (wr_cfg wr) q) payload
             \<and> sr_identity_id payload = cr_subject req
             \<and> set (ca_grant_scopes acc) \<subseteq> set (cr_requested_scopes req) \<inter> set (cc_allowed_scopes client)
             \<and> set (ca_grant_audience acc) \<subseteq> set (cr_requested_audience req) \<inter> set (cc_allowed_audiences client))
      \<or> GetLogout c \<in> set (w_log w)
        \<and> (\<exists>req. e = AcceptLogout c \<and> p_get_logout (adapter_ports out wr) k c = Inr req
             \<and> validate_client (wr_cfg wr) (gr_client req) = Inr client
             \<and> (gr_post_logout_redirect_uri req = []
                 \<or> gr_post_logout_redirect_uri req \<in> set (cc_allowed_post_logout_redirects client))))"
proof (cases e)
  case (AcceptLogin c acc)
  obtain h tx m i where tx: "redis_contents renv stored (w_store w) h = Some tx" "tx_flow tx = FlowLogin"
    "c = tx_challenge tx" "tx_subject tx = [] \<or> la_subject acc = tx_subject tx"
    "p_authorize_login (adapter_ports out wr) m i = Inr True" "pi_subject i = la_subject acc"
    "pi_client_id i = tx_client_id tx"
    by (rule login_callback [OF assms(1-4) assms(8) [unfolded AcceptLogin]])
  obtain sv :: "'r redis_state service" where sv: "sv_ports sv = adapter_ports out wr" "validate_client (sv_cfg sv) = validate_client (wr_cfg wr)"
    "tx_origin sv (w_tick w0) (w_tick w) (w_log w) tx"
    by (rule redis_origin [OF assms(2,4-7) tx(1)])
  show ?thesis
    by (rule login_said [OF sv(3) tx(2)])
      (use tx sv AcceptLogin in metis)
next
  case (AcceptConsent c acc)
  obtain form tx where tx: "redis_contents renv stored (w_store w) (trim_space (values_get form ''transaction'')) = Some tx"
    "tx_flow tx = FlowConsent" "c = tx_challenge tx"
    "consent_granted out wr (w_tick w) (w_tick (snd (run_state (serve s pick admitted rand q) w))) q form tx acc"
    by (rule consent_post [OF assms(1-4) assms(8) [unfolded AcceptConsent]])
  obtain sv :: "'r redis_state service" where sv: "sv_ports sv = adapter_ports out wr" "validate_client (sv_cfg sv) = validate_client (wr_cfg wr)"
    "tx_origin sv (w_tick w0) (w_tick w) (w_log w) tx"
    by (rule redis_origin [OF assms(2,4-7) tx(1)])
  obtain payload where granted: "confirmed_by_kratos out wr (w_tick w)
      (w_tick (snd (run_state (serve s pick admitted rand q) w))) (session_credentials_of (wr_cfg wr) q) payload"
    "sr_identity_id payload = tx_subject tx" "set (ca_grant_scopes acc) \<subseteq> set (tx_requested_scopes tx)"
    "set (ca_grant_audience acc) \<subseteq> set (tx_requested_audience tx)"
    using tx(4) unfolding consent_granted_def by blast
  obtain k req client where said: "GetConsent c \<in> set (w_log w)" "w_tick w0 \<le> k" "k < w_tick w"
    "p_get_consent (adapter_ports out wr) k c = Inr req" "validate_client (wr_cfg wr) (cr_client req) = Inr client"
    "tx_subject tx = cr_subject req" "tx_requested_scopes tx = cr_requested_scopes req"
    "tx_requested_audience tx = cr_requested_audience req" "set (tx_requested_scopes tx) \<subseteq> set (cc_allowed_scopes client)"
    "set (tx_requested_audience tx) \<subseteq> set (cc_allowed_audiences client)"
    by (rule consent_said [OF sv(3) tx(2), unfolded sv(1,2) tx(3) [symmetric]])
  have "set (ca_grant_scopes acc) \<subseteq> set (cr_requested_scopes req) \<inter> set (cc_allowed_scopes client)"
    "set (ca_grant_audience acc) \<subseteq> set (cr_requested_audience req) \<inter> set (cc_allowed_audiences client)"
    "sr_identity_id payload = cr_subject req"
    using granted said by auto
  then show ?thesis using AcceptConsent granted(1) said(1-5) by blast
next
  case (AcceptLogout c)
  obtain form tx where tx: "redis_contents renv stored (w_store w) (trim_space (values_get form ''transaction'')) = Some tx"
    "tx_flow tx = FlowLogout" "c = tx_challenge tx"
    by (rule logout_post [OF assms(1-4) assms(8) [unfolded AcceptLogout]])
  obtain sv :: "'r redis_state service" where sv: "sv_ports sv = adapter_ports out wr" "validate_client (sv_cfg sv) = validate_client (wr_cfg wr)"
    "tx_origin sv (w_tick w0) (w_tick w) (w_log w) tx"
    by (rule redis_origin [OF assms(2,4-7) tx(1)])
  show ?thesis
    by (rule logout_said [OF sv(3) tx(2)])
      (use tx sv AcceptLogout in auto)
qed (use assms(9) in simp_all)

theorem production_agreement_witness:
  "\<exists>k req. p_get_consent (adapter_ports sample_consent_outside sample_client_wiring) k ''ch'' = Inr req
    \<and> GetConsent ''ch'' \<in> set (w_log (snd (run_state (sample_answer sample_get) sample_empty_world)))"
proof -
  let ?w = "snd (run_state (sample_answer sample_get) sample_empty_world)"
  obtain counter where server: "assemble_server sample_client_wiring sample_consent_outside (redis_ops sample_codec_renv) sample_lib
      = Inr (sample_consent_server, counter)"
    using sample_consent_assembled by blast
  have laws: "redis_laws (re_server sample_codec_renv) map_get"
    using map_server_laws by (simp add: sample_codec_renv_def)
  have empty: "redis_contents sample_codec_renv map_get (w_store sample_empty_world) h = None" for h
    by (simp add: redis_contents_def sample_empty_world_def map_get_def)
  have run: "serves sample_consent_server table_router sample_empty_world ?w"
    by (rule serves_next [OF serves_none])
  obtain acc where call: "AcceptConsent ''ch'' acc \<in> set (calls_of (sample_answer sample_approval) ?w)"
    using sample_approval_served [OF sample_get_served] by blast
  from production_agreement [OF sample_client_assemble server table_router_exact laws sample_faithful empty run call]
  show ?thesis by auto
qed

end
