(* ===== verification/Protocol.thy ===== *)
theory Protocol
  imports Agreement "HOL-Library.Multiset"
begin

text \<open>
  The protocol between Hydra and the provider, as an abstract specification, and the proof
  that a server which answers requests refines it. The state is what Hydra was asked about,
  which challenges are pending under which handles, and what was accepted; a challenge is
  named with its flow. Injective agreement, that no challenge is accepted more often than
  it was looked up, is an invariant of the protocol and so of the server.
\<close>

section \<open>The protocol\<close>

type_synonym subject_matter = "flow \<times> string"

record protocol_state =
  pr_asked :: "subject_matter multiset"
  pr_pending :: "string \<Rightarrow> subject_matter option"
  pr_accepted :: "subject_matter multiset"

text \<open>The handles that appear or change between two states.\<close>

definition new_in :: "(string \<Rightarrow> 'a option) \<Rightarrow> (string \<Rightarrow> 'a option) \<Rightarrow> string set" where
  "new_in p p' = {h. p' h \<noteq> None \<and> p' h \<noteq> p h}"

text \<open>
  A step looks a challenge up and leaves it pending under at most \<open>n\<close> handles, or accepts it
  at once; or it takes a pending challenge and accepts it; or it loses pending challenges.
\<close>

inductive protocol :: "nat \<Rightarrow> protocol_state \<Rightarrow> protocol_state \<Rightarrow> bool" for n :: nat where
  pr_open: "finite (new_in p p') \<Longrightarrow> card (new_in p p') \<le> n \<Longrightarrow> (\<forall>h \<in> new_in p p'. p' h = Some x) \<Longrightarrow>
     protocol n \<lparr>pr_asked = A, pr_pending = p, pr_accepted = D\<rparr>
       \<lparr>pr_asked = add_mset x A, pr_pending = p', pr_accepted = D\<rparr>"
| pr_silent: "protocol n \<lparr>pr_asked = A, pr_pending = p, pr_accepted = D\<rparr>
       \<lparr>pr_asked = add_mset x A, pr_pending = p, pr_accepted = add_mset x D\<rparr>"
| pr_accept: "p h = Some x \<Longrightarrow> p' h = None \<Longrightarrow> new_in p p' = {} \<Longrightarrow>
     protocol n \<lparr>pr_asked = A, pr_pending = p, pr_accepted = D\<rparr>
       \<lparr>pr_asked = A, pr_pending = p', pr_accepted = add_mset x D\<rparr>"
| pr_lose: "new_in p p' = {} \<Longrightarrow>
     protocol n \<lparr>pr_asked = A, pr_pending = p, pr_accepted = D\<rparr> \<lparr>pr_asked = A, pr_pending = p', pr_accepted = D\<rparr>"

text \<open>The invariant: acceptances and pending challenges are paid for by lookups.\<close>

definition pending_for :: "(string \<Rightarrow> 'a option) \<Rightarrow> 'a \<Rightarrow> string set" where
  "pending_for p x = {h. p h = Some x}"

definition covered :: "nat \<Rightarrow> protocol_state \<Rightarrow> bool" where
  "covered n s \<longleftrightarrow> (\<forall>x. finite (pending_for (pr_pending s) x)
     \<and> count (pr_accepted s) x + card (pending_for (pr_pending s) x) \<le> n * count (pr_asked s) x)"

lemma coveredD:
  assumes "covered n s"
  shows "finite (pending_for (pr_pending s) x)"
    and "count (pr_accepted s) x + card (pending_for (pr_pending s) x) \<le> n * count (pr_asked s) x"
  using assms unfolding covered_def by blast+

lemma pending_grows: "pending_for p' x \<subseteq> pending_for p x \<union> {h \<in> new_in p p'. p' h = Some x}"
  by (auto simp: pending_for_def new_in_def)

lemma covered_lookup:
  assumes "finite (pending_for p x)" and "a + card (pending_for p x) \<le> n * k"
    and "finite H" and "card H \<le> n" and "pending_for p' x \<subseteq> pending_for p x \<union> H"
  shows "finite (pending_for p' x) \<and> a + card (pending_for p' x) \<le> n * Suc k"
proof -
  have "card (pending_for p' x) \<le> card (pending_for p x \<union> H)" by (rule card_mono) (use assms in auto)
  also have "\<dots> \<le> card (pending_for p x) + card H" by (rule card_Un_le)
  finally have "card (pending_for p' x) \<le> card (pending_for p x) + n" using assms(4) by linarith
  moreover have "finite (pending_for p' x)" using assms(1,3,5) by (meson finite_UnI finite_subset)
  ultimately show ?thesis using assms(2) by simp
qed

lemma covered_smaller:
  assumes "finite (pending_for p x)" and "a + card (pending_for p x) \<le> m" and "pending_for p' x \<subseteq> pending_for p x"
  shows "finite (pending_for p' x) \<and> a + card (pending_for p' x) \<le> m"
  using assms card_mono [OF assms(1,3)] finite_subset [OF assms(3,1)] by linarith

lemma protocol_covered:
  assumes "protocol n s s'" and "covered n s" and "0 < n"
  shows "covered n s'"
  using assms(1,2)
proof cases
  case (pr_open p p' x A D)
  show ?thesis unfolding covered_def
  proof (intro allI)
    fix y
    have y: "finite (pending_for p y)" "count D y + card (pending_for p y) \<le> n * count A y"
      using coveredD [OF assms(2), of y] by (simp_all add: pr_open)
    show "finite (pending_for (pr_pending s') y)
      \<and> count (pr_accepted s') y + card (pending_for (pr_pending s') y) \<le> n * count (pr_asked s') y"
    proof (cases "y = x")
      case True
      then show ?thesis
        using covered_lookup [OF y pr_open(3,4)] pending_grows [of p' y p] by (auto simp: pr_open)
    next
      case False
      then have "pending_for p' y \<subseteq> pending_for p y" using pending_grows [of p' y p] pr_open(5) by auto
      then show ?thesis using covered_smaller [OF y] False by (simp add: pr_open)
    qed
  qed
next
  case (pr_silent A p D x)
  show ?thesis unfolding covered_def
  proof (intro allI)
    fix y
    have "count D y + card (pending_for p y) \<le> n * count A y" "finite (pending_for p y)"
      using coveredD [OF assms(2), of y] by (simp_all add: pr_silent)
    then show "finite (pending_for (pr_pending s') y)
      \<and> count (pr_accepted s') y + card (pending_for (pr_pending s') y) \<le> n * count (pr_asked s') y"
      using assms(3) by (auto simp: pr_silent)
  qed
next
  case (pr_accept p h x p' A D)
  show ?thesis unfolding covered_def
  proof (intro allI)
    fix y
    have y: "finite (pending_for p y)" "count D y + card (pending_for p y) \<le> n * count A y"
      using coveredD [OF assms(2), of y] by (simp_all add: pr_accept)
    have sub: "pending_for p' y \<subseteq> pending_for p y" using pending_grows [of p' y p] pr_accept(5) by auto
    show "finite (pending_for (pr_pending s') y)
      \<and> count (pr_accepted s') y + card (pending_for (pr_pending s') y) \<le> n * count (pr_asked s') y"
    proof (cases "y = x")
      case True
      have "h \<in> pending_for p y" "h \<notin> pending_for p' y" using pr_accept(3,4) True by (simp_all add: pending_for_def)
      then have "pending_for p' y \<subset> pending_for p y" using sub by blast
      then have "card (pending_for p' y) < card (pending_for p y)" by (rule psubset_card_mono [OF y(1)])
      then show ?thesis using y finite_subset [OF sub y(1)] True by (simp add: pr_accept)
    next
      case False
      then show ?thesis using covered_smaller [OF y sub] by (simp add: pr_accept)
    qed
  qed
next
  case (pr_lose p p' A D)
  then have "pending_for p' y \<subseteq> pending_for p y" for y using pending_grows [of p' y p] by auto
  then show ?thesis using covered_smaller [OF coveredD [OF assms(2)]] by (simp add: covered_def pr_lose)
qed

lemma protocol_run_covered: "(protocol n)\<^sup>*\<^sup>* s s' \<Longrightarrow> 0 < n \<Longrightarrow> covered n s \<Longrightarrow> covered n s'"
  by (induction rule: rtranclp_induct) (auto intro: protocol_covered)

section \<open>The server as a run of the protocol\<close>

fun asked_of :: "event \<Rightarrow> subject_matter option" where
  "asked_of (GetLogin c) = Some (FlowLogin, c)"
| "asked_of (GetConsent c) = Some (FlowConsent, c)"
| "asked_of (GetLogout c) = Some (FlowLogout, c)"
| "asked_of _ = None"

fun accepted_of :: "event \<Rightarrow> subject_matter option" where
  "accepted_of (AcceptLogin c a) = Some (FlowLogin, c)"
| "accepted_of (AcceptConsent c a) = Some (FlowConsent, c)"
| "accepted_of (AcceptLogout c) = Some (FlowLogout, c)"
| "accepted_of _ = None"

definition subject_of :: "transaction \<Rightarrow> subject_matter" where
  "subject_of tx = (tx_flow tx, tx_challenge tx)"

definition protocol_view :: "('s \<Rightarrow> string \<Rightarrow> transaction option) \<Rightarrow> 's world \<Rightarrow> protocol_state" where
  "protocol_view contents w =
     \<lparr>pr_asked = mset (List.map_filter asked_of (w_log w)),
      pr_pending = (\<lambda>h. map_option subject_of (contents (w_store w) h)),
      pr_accepted = mset (List.map_filter accepted_of (w_log w))\<rparr>"

lemma map_filter_append: "List.map_filter f (xs @ ys) = List.map_filter f xs @ List.map_filter f ys"
  by (simp add: List.map_filter_def)

lemma map_filter_none: "(\<And>x. x \<in> set xs \<Longrightarrow> f x = None) \<Longrightarrow> List.map_filter f xs = []"
  by (induction xs) (simp_all add: List.map_filter_def)

lemma count_map_filter: "count (mset (List.map_filter f xs)) y = length (filter (\<lambda>x. f x = Some y) xs)"
  by (induction xs) (auto simp: List.map_filter_def)

lemma not_lookup: "\<not> is_lookup e \<Longrightarrow> asked_of e = None"
  by (cases e) simp_all

lemma no_lookups: "list_all (\<lambda>e. \<not> is_lookup e) es \<Longrightarrow> List.map_filter asked_of es = []"
  by (rule map_filter_none) (simp add: list_all_iff not_lookup)

lemma lookup_accepts_nothing: "asked_of e = Some x \<Longrightarrow> accepted_of e = None \<and> \<not> is_decision e"
  by (cases e) simp_all

lemma accepted_is_decision: "accepted_of e \<noteq> None \<Longrightarrow> is_decision e"
  by (cases e) simp_all

text \<open>With at most one decision there is at most one acceptance.\<close>

lemma accepted_decisions: "length (List.map_filter accepted_of es) \<le> length (decisions es)"
proof (induction es)
  case (Cons e es)
  then show ?case using accepted_is_decision [of e] by (auto simp: List.map_filter_def decisions_def)
qed (simp add: List.map_filter_def)

lemma accepted_at_most_one:
  assumes "length (decisions es) \<le> 1" and "\<forall>e \<in> set es. accepted_of e \<in> {None, Some x}"
  shows "List.map_filter accepted_of es = [] \<or> List.map_filter accepted_of es = [x] \<and> decisions es \<noteq> []"
proof -
  let ?as = "List.map_filter accepted_of es"
  have len: "length ?as \<le> 1" using accepted_decisions [of es] assms(1) by linarith
  have mem: "set ?as \<subseteq> {x}" using assms(2) by (force simp: List.map_filter_def)
  show ?thesis
  proof (cases ?as)
    case (Cons a rest)
    then have "?as = [x]" using len mem by simp
    moreover have "decisions es \<noteq> []" using accepted_decisions [of es] Cons by auto
    ultimately show ?thesis by blast
  qed simp
qed

lemma emits_append:
  assumes "emits P m" and "w_log (snd (run_state m w)) = w_log w @ es"
  shows "list_all P es"
proof -
  obtain es' where "w_log (snd (run_state m w)) = w_log w @ es'" "list_all P es'"
    using assms(1) unfolding emits_def by blast
  then show ?thesis using assms(2) by simp
qed

lemma completions_look_nothing_up:
  "emits (\<lambda>e. \<not> is_lookup e) (complete_login sv h li)"
  "emits (\<lambda>e. \<not> is_lookup e) (complete_consent sv ci)"
  "emits (\<lambda>e. \<not> is_lookup e) (complete_logout sv oi)"
  unfolding complete_login_def decide_login_def complete_logout_def step_defs Let_def
    complete_consent_def accept_consent_def accept_consent_decision_def
  by (intro emits_rules; simp)+

lemma start_login_accepts_logins: "emits (\<lambda>e. is_acceptance e \<longrightarrow> (\<exists>c a. e = AcceptLogin c a)) (start_login sv c b)"
  unfolding start_login_def accept_remembered_login_def step_defs Let_def by (intro emits_rules; simp)

context creating_store
begin

abbreviation view :: "'s world \<Rightarrow> protocol_state" where
  "view \<equiv> protocol_view contents"

lemma completion_step:
  assumes "only_removed h w (w'\<lparr>w_log := w_log w\<rparr>)" and log: "w_log w' = w_log w @ es"
    and "list_all (\<lambda>e. \<not> is_lookup e) es"
    and "List.map_filter accepted_of es = []
      \<or> (\<exists>tx. List.map_filter accepted_of es = [subject_of tx]
           \<and> contents (w_store w) h = Some tx \<and> contents (w_store w') h = None)"
  shows "protocol n (view w) (view w')"
proof -
  let ?p = "\<lambda>h. map_option subject_of (contents (w_store w) h)"
  let ?p' = "\<lambda>h. map_option subject_of (contents (w_store w') h)"
  have "contents (w_store w') k \<in> {contents (w_store w) k, None}" for k
    using assms(1) by (cases "k = h") (auto simp: only_removed_def)
  then have new: "new_in ?p ?p' = {}" by (force simp: new_in_def)
  have asked: "List.map_filter asked_of (w_log w') = List.map_filter asked_of (w_log w)"
    by (simp add: log map_filter_append no_lookups [OF assms(3)])
  from assms(4) show ?thesis
  proof (elim disjE exE conjE)
    assume "List.map_filter accepted_of es = []"
    then show ?thesis
      unfolding protocol_view_def asked by (simp only: log map_filter_append append_Nil2) (rule pr_lose [OF new])
  next
    fix tx assume tx: "List.map_filter accepted_of es = [subject_of tx]"
      "contents (w_store w) h = Some tx" "contents (w_store w') h = None"
    have "mset (List.map_filter accepted_of (w_log w')) = add_mset (subject_of tx) (mset (List.map_filter accepted_of (w_log w)))"
      by (simp add: log map_filter_append tx(1))
    then show ?thesis unfolding protocol_view_def asked
      by (simp only:) (rule pr_accept [of _ h _ _ n, OF _ _ new]; simp add: tx)
  qed
qed

lemma start_step:
  assumes started: "started w P E r w'"
    and log: "w_log w' = w_log w @ e # es" and e: "asked_of e = Some x" and es: "list_all (\<lambda>e. \<not> is_lookup e) es"
    and P: "\<And>tx. P (w_tick w) (w_tick w') tx \<Longrightarrow> subject_of tx = x"
    and accepts: "\<forall>e \<in> set es. accepted_of e \<in> {None, Some x}"
    and few: "finite H" "card H \<le> n" "\<And>h. h \<notin> H \<Longrightarrow> contents (w_store w') h \<in> {contents (w_store w) h, None}"
  shows "protocol n (view w) (view w')"
proof -
  let ?p = "\<lambda>h. map_option subject_of (contents (w_store w) h)"
  let ?p' = "\<lambda>h. map_option subject_of (contents (w_store w') h)"
  have s: "length (decisions es) \<le> 1" "decisions es \<noteq> [] \<Longrightarrow> w_store w' = w_store w"
    "\<And>h tx. contents (w_store w') h = Some tx \<Longrightarrow> contents (w_store w) h = Some tx \<or> P (w_tick w) (w_tick w') tx"
    using started log lookup_accepts_nothing [OF e] by (auto simp: started_def opened_def decisions_def)
  have asked: "mset (List.map_filter asked_of (w_log w')) = add_mset x (mset (List.map_filter asked_of (w_log w)))"
    using no_lookups [OF es] by (simp add: log map_filter_append List.map_filter_simps e)
  have acc: "List.map_filter accepted_of (w_log w')
      = List.map_filter accepted_of (w_log w) @ List.map_filter accepted_of es"
    using lookup_accepts_nothing [OF e] by (simp add: log map_filter_append List.map_filter_simps)
  from accepted_at_most_one [OF s(1) accepts] show ?thesis
  proof (elim disjE conjE)
    assume none: "List.map_filter accepted_of es = []"
    have sub: "new_in ?p ?p' \<subseteq> H" using few(3) by (fastforce simp: new_in_def)
    have "\<forall>h \<in> new_in ?p ?p'. ?p' h = Some x"
      using s(3) P by (fastforce simp: new_in_def)
    then show ?thesis unfolding protocol_view_def asked acc none append_Nil2
      by (intro pr_open) (use finite_subset [OF sub few(1)] card_mono [OF few(1) sub] few(2) in linarith)+
  next
    assume one: "List.map_filter accepted_of es = [x]" and "decisions es \<noteq> []"
    then have "contents (w_store w') = contents (w_store w)" using s(2) by simp
    moreover have "mset (List.map_filter accepted_of (w_log w')) = add_mset x (mset (List.map_filter accepted_of (w_log w)))"
      by (simp add: acc one)
    ultimately show ?thesis unfolding protocol_view_def asked by (simp only:) (rule pr_silent)
  qed
qed

text \<open>The operations of the provider, apart from those that store a transaction, are such steps.\<close>

lemma complete_login_refines:
  assumes "sv_store sv = ops" and "inv (w_store w)"
  shows "protocol n (view w) (view (snd (run_state (complete_login sv h li) w)))"
proof -
  let ?m = "complete_login sv h li"
  let ?w' = "snd (run_state ?m w)"
  note kinds = emits_append [OF complete_login_emits] emits_append [OF completions_look_nothing_up(1)]
  have post: "completion w h (login_done sv li) (fst (run_state ?m w)) ?w'"
    by (rule wp_snd [OF complete_login_post [OF assms]])
  then have removed: "only_removed h w (?w'\<lparr>w_log := w_log w\<rparr>)" by (simp add: completion_def)
  from post consider "w_log ?w' = w_log w @ []"
    | es tx where "w_log ?w' = w_log w @ es" "contents (w_store w) h = Some tx" "contents (w_store ?w') h = None"
        "login_done sv li (w_tick w) (w_tick ?w') tx es"
    unfolding completion_def by auto
  then show ?thesis
  proof cases
    case 1
    show ?thesis by (rule completion_step [OF removed 1]) (simp_all add: List.map_filter_def)
  next
    case (2 es tx)
    have "accepted_of e \<in> {None, Some (subject_of tx)}" if "e \<in> set es" for e
      using 2(4) that kinds(1) [OF 2(1)]
      by (cases e) (auto simp: login_done_def tx_presented_def login_justified_def subject_of_def list_all_iff)
    then have "\<forall>e \<in> set es. accepted_of e \<in> {None, Some (subject_of tx)}" by blast
    moreover have "length (decisions es) \<le> 1" using 2(4) by (simp add: login_done_def)
    ultimately have "List.map_filter accepted_of es = [] \<or> List.map_filter accepted_of es = [subject_of tx]"
      using accepted_at_most_one by blast
    then show ?thesis using completion_step [OF removed 2(1) kinds(2) [OF 2(1)]] 2(2,3) by blast
  qed
qed

lemma complete_logout_refines:
  assumes "sv_store sv = ops" and "inv (w_store w)"
  shows "protocol n (view w) (view (snd (run_state (complete_logout sv oi) w)))"
proof -
  let ?m = "complete_logout sv oi"
  let ?w' = "snd (run_state ?m w)"
  let ?h = "oi_transaction oi"
  have post: "completion w ?h (logout_done sv oi) (fst (run_state ?m w)) ?w'"
    by (rule wp_snd [OF complete_logout_post [OF assms]])
  then have removed: "only_removed ?h w (?w'\<lparr>w_log := w_log w\<rparr>)" by (simp add: completion_def)
  from post consider "w_log ?w' = w_log w @ []"
    | tx where "w_log ?w' = w_log w @ [AcceptLogout (tx_challenge tx)]" "contents (w_store w) ?h = Some tx"
        "contents (w_store ?w') ?h = None" "tx_flow tx = FlowLogout"
    unfolding completion_def logout_done_def tx_presented_def by auto
  then show ?thesis
  proof cases
    case 1
    show ?thesis by (rule completion_step [OF removed 1]) (simp_all add: List.map_filter_def)
  next
    case (2 tx)
    show ?thesis by (rule completion_step [OF removed 2(1)]) (simp_all add: 2(2-4) subject_of_def)
  qed
qed

lemma complete_consent_refines:
  assumes "sv_store sv = ops" and "inv (w_store w)"
  shows "protocol n (view w) (view (snd (run_state (complete_consent sv ci) w)))"
proof -
  let ?m = "complete_consent sv ci"
  let ?w' = "snd (run_state ?m w)"
  let ?h = "ci_transaction ci"
  note kinds = emits_append [OF complete_consent_emits] emits_append [OF completions_look_nothing_up(2)]
  have post: "consent_completion sv w ci (fst (run_state ?m w)) ?w'"
    by (rule wp_snd [OF complete_consent_post [OF assms]])
  then have removed: "only_removed ?h w (?w'\<lparr>w_log := w_log w\<rparr>)" by (simp add: consent_completion_def)
  from post consider "w_log ?w' = w_log w @ []"
    | es tx where "w_log ?w' = w_log w @ es" "contents (w_store w) ?h = Some tx" "tx_flow tx = FlowConsent"
        "consent_events sv (w_tick w) (w_tick ?w') tx ci es"
        "(\<forall>e \<in> set (decisions es). accepted_of e = None) \<or> contents (w_store ?w') ?h = None"
    unfolding consent_completion_def tx_presented_def by (fastforce split: if_splits)
  then show ?thesis
  proof cases
    case 1
    show ?thesis by (rule completion_step [OF removed 1]) (simp_all add: List.map_filter_def)
  next
    case (2 es tx)
    have "accepted_of e \<in> {None, Some (subject_of tx)}" if "e \<in> set es" for e
      using 2(3,4) that kinds(1) [OF 2(1)]
      by (cases e) (auto simp: consent_events_def consent_justified_def subject_of_def list_all_iff)
    then have one: "\<forall>e \<in> set es. accepted_of e \<in> {None, Some (subject_of tx)}" by blast
    from 2(5) have "List.map_filter accepted_of es = []
        \<or> List.map_filter accepted_of es = [subject_of tx] \<and> contents (w_store ?w') ?h = None"
    proof
      assume none: "\<forall>e \<in> set (decisions es). accepted_of e = None"
      have "accepted_of e = None" if "e \<in> set es" for e
        using none that accepted_is_decision [of e] by (auto simp: decisions_def)
      then show ?thesis by (simp add: map_filter_none)
    next
      assume "contents (w_store ?w') ?h = None"
      moreover have "length (decisions es) \<le> 1" using 2(4) by (simp add: consent_events_def)
      ultimately show ?thesis using accepted_at_most_one [OF _ one] by blast
    qed
    then show ?thesis using completion_step [OF removed 2(1) kinds(2) [OF 2(1)]] 2(2) by blast
  qed
qed

end

text \<open>
  \<open>fills k m\<close>: whatever the state of the store, \<open>m\<close> leaves at most \<open>k\<close> handles with a
  transaction they did not hold before.
\<close>

context bounded_store
begin

definition fills :: "nat \<Rightarrow> ('s world, 'a) state \<Rightarrow> bool" where
  "fills k m \<longleftrightarrow> (\<forall>w. inv (w_store w) \<longrightarrow> inv (w_store (snd (run_state m w)))
     \<and> (\<exists>H. finite H \<and> card H \<le> k
          \<and> (\<forall>h. h \<notin> H \<longrightarrow> contents (w_store (snd (run_state m w))) h \<in> {contents (w_store w) h, None})))"

lemma fills_none:
  assumes "\<And>w :: 's world. w_store (snd (run_state m w)) = w_store w"
  shows "fills k m"
  unfolding fills_def assms by (intro allI impI conjI exI [of _ "{}"]) simp_all

lemma fills_calls:
  "fills k (State_Monad.return x)" "fills k (port_call e f)" "fills k (ask f)" "fills k (on_admission a)"
  by (rule fills_none, simp add: run_state_return port_call_def ask_def on_admission_def case_prod_beta)+

lemma fills_bind:
  assumes "fills j m" and "\<And>x. fills k (f x)"
  shows "fills (j + k) (State_Monad.bind m f)"
  unfolding fills_def
proof (intro allI impI)
  fix w :: "'s world" assume inv: "inv (w_store w)"
  obtain x w1 where m: "run_state m w = (x, w1)" by fastforce
  let ?w2 = "snd (run_state (f x) w1)"
  obtain H where h: "inv (w_store w1)" "finite H" "card H \<le> j"
    "\<forall>h. h \<notin> H \<longrightarrow> contents (w_store w1) h \<in> {contents (w_store w) h, None}"
    using assms(1) inv m unfolding fills_def by (metis snd_conv)
  obtain K where k: "inv (w_store ?w2)" "finite K" "card K \<le> k"
    "\<forall>h. h \<notin> K \<longrightarrow> contents (w_store ?w2) h \<in> {contents (w_store w1) h, None}"
    using assms(2) h(1) unfolding fills_def by blast
  have "card (H \<union> K) \<le> j + k" using card_Un_le [of H K] h(3) k(3) by linarith
  moreover have "\<forall>h. h \<notin> H \<union> K \<longrightarrow> contents (w_store ?w2) h \<in> {contents (w_store w) h, None}"
    using h(4) k(4) by (metis Un_iff insert_iff empty_iff)
  moreover have "snd (run_state (State_Monad.bind m f) w) = ?w2" by (simp add: run_state_bind m)
  ultimately show "inv (w_store (snd (run_state (State_Monad.bind m f) w)))
    \<and> (\<exists>H. finite H \<and> card H \<le> j + k
        \<and> (\<forall>h. h \<notin> H \<longrightarrow> contents (w_store (snd (run_state (State_Monad.bind m f) w))) h \<in> {contents (w_store w) h, None}))"
    using h(2) k(1,2) by (intro conjI exI [of _ "H \<union> K"]) simp_all
qed

lemma fills_before: "fills 0 m \<Longrightarrow> (\<And>x. fills k (f x)) \<Longrightarrow> fills k (State_Monad.bind m f)"
  using fills_bind [of 0 m k f] by simp

lemma fills_after: "fills k m \<Longrightarrow> (\<And>x. fills 0 (f x)) \<Longrightarrow> fills k (State_Monad.bind m f)"
  using fills_bind [of k m 0 f] by simp

lemma fills_if: "fills k m \<Longrightarrow> fills k m' \<Longrightarrow> fills k (if b then m else m')"
  by simp

lemma fills_case_sum: "(\<And>e. fills k (f e)) \<Longrightarrow> (\<And>x. fills k (g x)) \<Longrightarrow> fills k (case r of Inl e \<Rightarrow> f e | Inr x \<Rightarrow> g x)"
  by (simp split: sum.split)

lemma fills_case_option: "fills k m \<Longrightarrow> (\<And>x. fills k (g x)) \<Longrightarrow> fills k (case r of None \<Rightarrow> m | Some x \<Rightarrow> g x)"
  by (simp split: option.split)

lemma fills_case_prod: "(\<And>a b. fills k (f a b)) \<Longrightarrow> fills k (case r of (a, b) \<Rightarrow> f a b)"
  by (simp split: prod.split)

lemmas fills_rules = fills_calls fills_if fills_case_sum fills_case_option fills_case_prod

lemma fills_create: "fills width (on_store (so_create ops tx))"
  unfolding fills_def
proof (intro allI impI)
  fix w :: "'s world" assume inv: "inv (w_store w)"
  obtain r s' where run: "run_state (so_create ops tx) (w_store w) = (r, s')" by fastforce
  then have "w_store (snd (run_state (on_store (so_create ops tx)) w)) = s'" by (simp add: on_store_def)
  then show "inv (w_store (snd (run_state (on_store (so_create ops tx)) w)))
    \<and> (\<exists>H. finite H \<and> card H \<le> width \<and> (\<forall>h. h \<notin> H \<longrightarrow>
        contents (w_store (snd (run_state (on_store (so_create ops tx)) w))) h \<in> {contents (w_store w) h, None}))"
    using create_adds [OF inv run] create_few [OF inv run] by simp
qed

lemma fills_open:
  assumes "sv_store sv = ops"
  shows "fills width (open_transaction sv b tx redirect)"
proof -
  have "fills width (create_transaction sv t)" for t
    unfolding create_transaction_def now_call_def assms
    by (intro fills_before fills_after [OF fills_create] fills_rules)
  then have stored: "fills width (State_Monad.bind (create_transaction sv t)
      (\<lambda>h. case h of Inl e \<Rightarrow> State_Monad.return (Inl e)
         | Inr handle \<Rightarrow> State_Monad.return (handoff bound (redirect handle csrf))))" for t bound csrf
    by (rule fills_after) (intro fills_rules)
  show ?thesis
    unfolding open_transaction_def new_opaque_token_def start_browser_state_def
    by (rule stored fills_rules fills_before)+
qed

lemma fills_starts:
  assumes "sv_store sv = ops"
  shows "fills width (start_login sv c b)" and "fills width (start_consent sv c b)" and "fills width (start_logout sv c b)"
  unfolding start_login_def accept_remembered_login_def start_consent_def start_logout_def now_call_def Let_def
    reject_defs
  by (intro fills_before fills_rules fills_open [OF assms])+

lemma start_refines:
  assumes "inv (w_store w)" and "fills width m"
    and "started w P E (fst (run_state m w)) (snd (run_state m w))"
    and "w_log (snd (run_state m w)) = w_log w @ e # es \<and> list_all (\<lambda>e. \<not> is_lookup e) es" and "asked_of e = Some x"
    and "\<And>lo hi tx. P lo hi tx \<Longrightarrow> subject_of tx = x"
    and "\<And>lo hi. E lo hi (e # es) \<Longrightarrow> \<forall>e \<in> set es. accepted_of e \<in> {None, Some x}"
  shows "protocol width (view w) (view (snd (run_state m w)))"
proof -
  obtain H where h: "finite H" "card H \<le> width"
    "\<forall>h. h \<notin> H \<longrightarrow> contents (w_store (snd (run_state m w))) h \<in> {contents (w_store w) h, None}"
    using assms(1,2) unfolding fills_def by blast
  have "E (w_tick w) (w_tick (snd (run_state m w))) (e # es)" using assms(3,4) by (auto simp: started_def)
  then have accepts: "\<forall>e \<in> set es. accepted_of e \<in> {None, Some x}" by (rule assms(7))
  show ?thesis
    by (rule start_step [OF assms(3) conjunct1 [OF assms(4)] assms(5) conjunct2 [OF assms(4)] assms(6) accepts h(1,2)])
      (assumption | erule h(3) [rule_format])+
qed

lemma starts_refine:
  assumes "sv_store sv = ops" and inv: "inv (w_store w)"
  shows "protocol width (view w) (view (snd (run_state (start_login sv c b) w)))"
    and "protocol width (view w) (view (snd (run_state (start_consent sv c b) w)))"
    and "protocol width (view w) (view (snd (run_state (start_logout sv c b) w)))"
proof -
  have same: "protocol width (view w) (view w)"
    unfolding protocol_view_def by (rule pr_lose) (simp add: new_in_def)
  have "protocol width (view w) (view (snd (run_state (start_login sv c b) w)))
    \<and> protocol width (view w) (view (snd (run_state (start_consent sv c b) w)))
    \<and> protocol width (view w) (view (snd (run_state (start_logout sv c b) w)))"
  proof (cases "validate_challenge c (effective_max_challenge_length (sv_cfg sv))")
    case (Some e)
    then show ?thesis by (simp add: starts_refused same)
  next
    case None
    note posts = wp_snd [OF start_login_post [OF assms, of c b]] wp_snd [OF start_consent_post [OF assms, of c b]]
      wp_snd [OF start_logout_post [OF assms, of c b]]
    have silent: "\<forall>e \<in> set es. accepted_of e \<in> {None, Some x}"
      if "no_acceptance (e0 # es) \<or> decisions (e0 # es) = []" for e0 x es
    proof
      fix e assume "e \<in> set es"
      then have "\<not> is_acceptance e \<or> \<not> is_decision e"
        using that by (auto simp: no_acceptance_def list_all_iff decisions_def filter_empty_conv split: if_splits)
      then show "accepted_of e \<in> {None, Some x}" by (cases e) simp_all
    qed
    obtain es where login: "w_log (snd (run_state (start_login sv c b) w)) = w_log w @ GetLogin c # es
        \<and> list_all (\<lambda>e. \<not> is_lookup e) es"
      using starts_ask(1) [OF None] by blast
    have kinds: "list_all (\<lambda>e. is_acceptance e \<longrightarrow> (\<exists>c a. e = AcceptLogin c a)) (GetLogin c # es)"
      by (rule emits_append [OF start_login_accepts_logins conjunct1 [OF login]])
    have logins: "\<forall>e \<in> set es. accepted_of e \<in> {None, Some (FlowLogin, c)}"
      if "login_start_events sv c lo hi (GetLogin c # es)" for lo hi
    proof
      fix e assume e: "e \<in> set es"
      have "c' = c" if "e = AcceptLogin c' acc" for c' acc
        using \<open>login_start_events sv c lo hi (GetLogin c # es)\<close> e that
        unfolding login_start_events_def silent_login_def by (meson list.set_intros(2))
      moreover have "is_acceptance e \<longrightarrow> (\<exists>c a. e = AcceptLogin c a)" using kinds e by (simp add: list_all_iff)
      ultimately show "accepted_of e \<in> {None, Some (FlowLogin, c)}" by (cases e) auto
    qed
    obtain es2 where consent: "w_log (snd (run_state (start_consent sv c b) w)) = w_log w @ GetConsent c # es2
        \<and> list_all (\<lambda>e. \<not> is_lookup e) es2"
      using starts_ask(2) [OF None] by blast
    obtain es3 where logout: "w_log (snd (run_state (start_logout sv c b) w)) = w_log w @ GetLogout c # es3
        \<and> list_all (\<lambda>e. \<not> is_lookup e) es3"
      using starts_ask(3) [OF None] by blast
    show ?thesis
    proof (intro conjI)
      show "protocol width (view w) (view (snd (run_state (start_login sv c b) w)))"
        by (rule start_refines [OF inv fills_starts(1) [OF assms(1)] posts(1) login])
          (auto simp: login_opened_def tx_opened_def subject_of_def dest: logins)
      show "protocol width (view w) (view (snd (run_state (start_consent sv c b) w)))"
        by (rule start_refines [OF inv fills_starts(2) [OF assms(1)] posts(2) consent])
          (auto simp: consent_opened_def tx_opened_def subject_of_def dest!: silent [OF disjI1])
      show "protocol width (view w) (view (snd (run_state (start_logout sv c b) w)))"
        by (rule start_refines [OF inv fills_starts(3) [OF assms(1)] posts(3) logout])
          (auto simp: logout_opened_def tx_opened_def subject_of_def dest!: silent [OF disjI2])
    qed
  qed
  then show "protocol width (view w) (view (snd (run_state (start_login sv c b) w)))"
    "protocol width (view w) (view (snd (run_state (start_consent sv c b) w)))"
    "protocol width (view w) (view (snd (run_state (start_logout sv c b) w)))" by blast+
qed

lemma request_refines:
  assumes "srv_provider s = service_provider sv" and "sv_store sv = ops" and "inv (w_store w)"
  shows "inv (w_store (snd (run_state (serve s pick admitted rand q) w)))
    \<and> protocol width (view w) (view (snd (run_state (serve s pick admitted rand q) w)))"
proof -
  let ?R = "\<lambda>w w'. inv (w_store w) \<longrightarrow> inv (w_store w') \<and> protocol width (view w) (view w')"
  have same: "protocol width (view w) (view w')" if "w_store w' = w_store w" "w_log w' = w_log w" for w w'
    unfolding protocol_view_def that by (rule pr_lose) (simp add: new_in_def)
  have starts: "inv (w_store (snd (run_state (start_login sv c b) w)))"
    "inv (w_store (snd (run_state (start_consent sv c b) w)))"
    "inv (w_store (snd (run_state (start_logout sv c b) w)))" if "inv (w_store w)" for w c b
    using fills_starts [OF assms(2), of c b] that unfolding fills_def by blast+
  have completions: "inv (w_store (snd (run_state (complete_login sv h li) w)))"
    "inv (w_store (snd (run_state (complete_consent sv ci) w)))"
    "inv (w_store (snd (run_state (complete_logout sv oi) w)))" if "inv (w_store w)" for w h li ci oi
    using wp_snd [OF complete_login_post [OF assms(2) that, of h li]] wp_snd [OF complete_consent_post [OF assms(2) that, of ci]]
      wp_snd [OF complete_logout_post [OF assms(2) that, of oi]]
    by (simp_all add: completion_def consent_completion_def only_removed_def)
  have "steps ?R (serve s pick admitted rand q)"
    by (rule request_steps [OF assms(1)])
      (simp_all add: steps_def same starts completions starts_refine [OF assms(2)] complete_login_refines [OF assms(2)]
        complete_consent_refines [OF assms(2)] complete_logout_refines [OF assms(2)] stepsD [OF ready_store])
  then show ?thesis using assms(3) by (simp add: steps_def)
qed

lemma serves_refines:
  assumes "serves s pick w0 w" and "srv_provider s = service_provider sv" and "sv_store sv = ops" and "inv (w_store w0)"
  shows "inv (w_store w) \<and> (protocol width)\<^sup>*\<^sup>* (view w0) (view w)"
  using assms(1)
proof induction
  case serves_none
  then show ?case using assms(4) by simp
next
  case (serves_next w admitted rand q)
  then show ?case
    using request_refines [OF assms(2,3), of w pick admitted rand q] by (auto intro: rtranclp.rtrancl_into_rtrancl)
next
  case (serves_replica w a)
  then show ?case by (simp add: protocol_view_def)
qed

text \<open>From an empty store and log, no challenge is accepted more often than it may be pending.\<close>

lemma serves_counts:
  assumes "serves s pick w0 w" and "srv_provider s = service_provider sv" and "sv_store sv = ops" and "inv (w_store w0)"
    and "\<And>h. contents (w_store w0) h = None" and "w_log w0 = []"
  shows "length (filter (\<lambda>e. accepted_of e = Some x) (w_log w))
    \<le> width * length (filter (\<lambda>e. asked_of e = Some x) (w_log w))"
proof -
  have start: "covered width (view w0)"
    by (simp add: covered_def protocol_view_def pending_for_def assms(5,6))
  have "(protocol width)\<^sup>*\<^sup>* (view w0) (view w)" using serves_refines [OF assms(1-4)] by simp
  then have "covered width (view w)" by (rule protocol_run_covered) (rule width_pos, rule start)
  from coveredD(2) [OF this, of x] show ?thesis by (simp add: protocol_view_def count_map_filter)
qed

end

section \<open>Properties\<close>

definition protocol_start :: protocol_state where
  "protocol_start = \<lparr>pr_asked = {#}, pr_pending = (\<lambda>h. None), pr_accepted = {#}\<rparr>"

lemma view_start: "(\<And>h. contents (w_store w) h = None) \<Longrightarrow> w_log w = [] \<Longrightarrow> protocol_view contents w = protocol_start"
  by (simp add: protocol_view_def protocol_start_def)

text \<open>C3. Injective agreement over the memory store: an assembled server that starts with an empty
  store and answers any sequence of requests refines the protocol in which a lookup makes a
  challenge pending under at most one handle. So for each challenge of each flow the server
  has at every moment told Hydra to accept it at most as often as it looked it up: no
  redirect, form or cookie, however often it is sent again, makes it accept twice.\<close>

theorem memory_injective_agreement:
  assumes "assemble_server wr out mem_ops golib = Inr (s, counter)" and "serves s pick w0 w"
    and "w_store w0 = new_memory_store now rand" and "w_log w0 = []"
  shows "(protocol 1)\<^sup>*\<^sup>* protocol_start (protocol_view mem_contents w)
    \<and> length (filter (\<lambda>e. accepted_of e = Some (f, c)) (w_log w))
        \<le> length (filter (\<lambda>e. asked_of e = Some (f, c)) (w_log w))"
proof -
  obtain sv where sv: "srv_provider s = service_provider sv" "sv_store sv = mem_ops"
    by (rule assemble_server_parts [OF assms(1)])
  have inv: "mem_inv (w_store w0)"
    by (simp add: assms(3) new_memory_store_def mem_inv_def mem_limit_def wf_map_def defaultMaxEntries_def)
  have empty: "mem_contents (w_store w0) h = None" for h
    by (simp add: assms(3) new_memory_store_def mem_contents_def map_get_def)
  have "protocol_view mem_contents w0 = protocol_start" by (rule view_start) (rule empty, rule assms(4))
  then show ?thesis
    using mem.once.serves_refines [OF assms(2) sv inv] mem.once.serves_counts [OF assms(2) sv inv empty assms(4), of "(f, c)"]
    by simp
qed

definition sample_memory_server :: "mem_store world server" where
  "sample_memory_server = \<lparr>srv_provider = service_provider \<lparr>sv_cfg = sample_client_config,
     sv_ports = adapter_ports sample_consent_outside sample_client_wiring, sv_store = mem_ops,
     sv_lib = sample_lib, sv_readiness = 3\<rparr>, srv_cfg = sample_client_config\<rparr>"

definition sample_memory_world :: "mem_store world" where
  "sample_memory_world = \<lparr>w_store = new_memory_store (\<lambda>n. 1) (\<lambda>n. Some (\<lambda>i. CHR ''a'')),
     w_admission = new_transaction_admission 10, w_tick = 0, w_log = []\<rparr>"

lemma sample_memory_assembled:
  "\<exists>counter. assemble_server sample_client_wiring sample_consent_outside mem_ops sample_lib = Inr (sample_memory_server, counter)"
  by (simp add: assemble_server_def new_service_def new_server_def and_then_def wrap_error_def
      sample_client_config_validates sample_client_wiring_def [THEN arg_cong, of wr_cfg] readiness_count_def)
    (simp add: sample_client_wiring_def sample_client_config_validates sample_memory_server_def)

theorem memory_injective_agreement_witness:
  "(protocol 1)\<^sup>*\<^sup>* protocol_start (protocol_view mem_contents
     (snd (run_state (serve sample_memory_server table_router True None sample_get) sample_memory_world)))"
proof -
  obtain counter where server: "assemble_server sample_client_wiring sample_consent_outside mem_ops sample_lib
      = Inr (sample_memory_server, counter)"
    using sample_memory_assembled by blast
  have run: "serves sample_memory_server table_router sample_memory_world
      (snd (run_state (serve sample_memory_server table_router True None sample_get) sample_memory_world))"
    by (rule serves_next [OF serves_none])
  have "w_store sample_memory_world = new_memory_store (\<lambda>n. 1) (\<lambda>n. Some (\<lambda>i. CHR ''a''))" "w_log sample_memory_world = []"
    by (simp_all add: sample_memory_world_def)
  from memory_injective_agreement [OF server run this] show ?thesis by blast
qed

text \<open>C2. Over Redis, behind a network that may lose answers and make the client send a command
  again, an assembled server refines the same protocol with at most three handles for a
  lookup: the three handles one creation may try, each of which stays behind when the
  command that set it is sent again and then finds it taken. This holds for any sequence of
  requests and for replicas of the server that take turns. Only a lookup makes a challenge pending, and each acceptance takes one pending
  challenge of the same flow away, or follows the lookup in the same request.\<close>

theorem redis_refines_protocol:
  assumes "assemble_server wr out (redis_ops renv) golib = Inr (s, counter)"
    and "redis_laws (re_server renv) stored" and "faithful_codec renv" and "serves s pick w0 w"
    and "\<And>h. redis_contents renv stored (w_store w0) h = None" and "w_log w0 = []"
  shows "(protocol 3)\<^sup>*\<^sup>* protocol_start (protocol_view (redis_contents renv stored) w)
    \<and> length (filter (\<lambda>e. accepted_of e = Some (f, c)) (w_log w))
        \<le> 3 * length (filter (\<lambda>e. asked_of e = Some (f, c)) (w_log w))"
proof -
  obtain sv where sv: "srv_provider s = service_provider sv" "sv_store sv = redis_ops renv"
    by (rule assemble_server_parts [OF assms(1)])
  note store = redis_bounded_store [OF assms(2,3)]
  have "protocol_view (redis_contents renv stored) w0 = protocol_start" by (rule view_start) (rule assms(5), rule assms(6))
  then show ?thesis
    using bounded_store.serves_refines [OF store assms(4) sv TrueI]
      bounded_store.serves_counts [OF store assms(4) sv TrueI assms(5,6), of "(f, c)"]
    by simp
qed

theorem redis_refines_protocol_witness:
  "(protocol 3)\<^sup>*\<^sup>* protocol_start (protocol_view (redis_contents sample_codec_renv map_get)
     (snd (run_state (sample_answer sample_approval) (snd (run_state (sample_answer sample_get) sample_empty_world)))))"
proof -
  obtain counter where server: "assemble_server sample_client_wiring sample_consent_outside (redis_ops sample_codec_renv) sample_lib
      = Inr (sample_consent_server, counter)"
    using sample_consent_assembled by blast
  have laws: "redis_laws (re_server sample_codec_renv) map_get"
    using map_server_laws by (simp add: sample_codec_renv_def)
  have run: "serves sample_consent_server table_router sample_empty_world
      (snd (run_state (sample_answer sample_approval) (snd (run_state (sample_answer sample_get) sample_empty_world))))"
    by (rule serves_next [OF serves_next [OF serves_none]])
  have "redis_contents sample_codec_renv map_get (w_store sample_empty_world) h = None" "w_log sample_empty_world = []" for h
    by (simp_all add: redis_contents_def sample_empty_world_def map_get_def)
  from redis_refines_protocol [OF server laws sample_faithful run this] show ?thesis by blast
qed

end
