(* ===== verification/Gate.thy ===== *)
theory Gate
  imports Complex_Main Domain
begin

text \<open>
  The admission of requests in \<open>internal/adapters/inbound/http/server.go\<close>: a token bucket
  (\<open>requestLimiter\<close>) and a channel of fixed capacity that counts the requests in flight. The
  bucket computes in \<open>float64\<close>; an operation of it is the exact rational operation followed
  by \<open>rnd\<close>, the rounding of the hardware, which is a parameter (a compiler that fuses the
  multiplication with the addition rounds once less; that is not modelled). Requests of concurrent
  connections read the clock before they take the lock, so the times of consecutive
  arrivals need not be ordered.
\<close>

section \<open>The token bucket\<close>

record request_limiter =
  rl_rate :: rat
  rl_burst :: rat
  rl_tokens :: rat
  rl_last :: time

definition max_in_flight :: nat where "max_in_flight = 128"
definition request_rate :: int where "request_rate = 64"

definition new_request_limiter :: "int \<Rightarrow> int \<Rightarrow> time \<Rightarrow> request_limiter" where
  "new_request_limiter rate burst now =
     \<lparr>rl_rate = of_int rate, rl_burst = of_int burst, rl_tokens = of_int burst, rl_last = now\<rparr>"

text \<open>\<open>Duration.Seconds\<close>; division of integers truncates towards zero.\<close>

definition duration_seconds :: "(rat \<Rightarrow> rat) \<Rightarrow> int \<Rightarrow> rat" where
  "duration_seconds rnd d =
     (let sec = sgn d * (\<bar>d\<bar> div 1000000000); nsec = sgn d * (\<bar>d\<bar> mod 1000000000) in
      rnd (rnd (of_int sec) + rnd (rnd (of_int nsec) / 1000000000)))"

definition allow :: "(rat \<Rightarrow> rat) \<Rightarrow> time \<Rightarrow> request_limiter \<Rightarrow> bool \<times> request_limiter" where
  "allow rnd now l =
     (let tokens = min (rl_burst l)
            (rnd (rl_tokens l + rnd (duration_seconds rnd (time_sub now (rl_last l)) * rl_rate l)));
          l1 = l\<lparr>rl_tokens := tokens, rl_last := now\<rparr> in
      if tokens < 1 then (False, l1)
      else (True, l1\<lparr>rl_tokens := rnd (tokens - 1)\<rparr>))"

section \<open>Requests in flight\<close>

record gate =
  gt_limiter :: request_limiter
  gt_in_flight :: nat

definition new_gate :: "time \<Rightarrow> gate" where
  "new_gate now = \<lparr>gt_limiter = new_request_limiter request_rate (int max_in_flight) now, gt_in_flight = 0\<rparr>"

text \<open>\<open>requestAdmission\<close> up to the call of the next handler, and its deferred receive.\<close>

definition gate_arrive :: "(rat \<Rightarrow> rat) \<Rightarrow> time \<Rightarrow> gate \<Rightarrow> bool \<times> gate" where
  "gate_arrive rnd now g =
     (let (ok, l) = allow rnd now (gt_limiter g); g1 = g\<lparr>gt_limiter := l\<rparr> in
      if \<not> ok then (False, g1)
      else if gt_in_flight g1 < max_in_flight then (True, g1\<lparr>gt_in_flight := Suc (gt_in_flight g1)\<rparr>)
      else (False, g1))"

definition gate_leave :: "gate \<Rightarrow> gate" where
  "gate_leave g = g\<lparr>gt_in_flight := gt_in_flight g - 1\<rparr>"

datatype gate_event = Arrive time bool | Leave

inductive gate_run :: "(rat \<Rightarrow> rat) \<Rightarrow> gate \<Rightarrow> gate_event list \<Rightarrow> gate \<Rightarrow> bool" for rnd where
  gate_done: "gate_run rnd g [] g"
| gate_arrives: "gate_arrive rnd now g = (ok, g1) \<Longrightarrow> gate_run rnd g1 tr g' \<Longrightarrow> gate_run rnd g (Arrive now ok # tr) g'"
| gate_leaves: "0 < gt_in_flight g \<Longrightarrow> gate_run rnd (gate_leave g) tr g' \<Longrightarrow> gate_run rnd g (Leave # tr) g'"

inductive_simps gate_run_Nil [simp]: "gate_run rnd g [] g'"
inductive_simps gate_run_Arrive: "gate_run rnd g (Arrive now ok # tr) g'"
inductive_simps gate_run_Leave: "gate_run rnd g (Leave # tr) g'"

definition admitted_count :: "gate_event list \<Rightarrow> nat" where
  "admitted_count tr = length (filter (\<lambda>e. case e of Arrive _ ok \<Rightarrow> ok | Leave \<Rightarrow> False) tr)"

definition admitted_within :: "time \<Rightarrow> time \<Rightarrow> gate_event list \<Rightarrow> nat" where
  "admitted_within from until tr =
     length (filter (\<lambda>e. case e of Arrive now ok \<Rightarrow> ok \<and> from \<le> now \<and> now \<le> until | Leave \<Rightarrow> False) tr)"

definition arrival_count :: "gate_event list \<Rightarrow> nat" where
  "arrival_count tr = length (filter (\<lambda>e. e \<noteq> Leave) tr)"

definition leave_count :: "gate_event list \<Rightarrow> nat" where
  "leave_count tr = length (filter (\<lambda>e. e = Leave) tr)"

definition times_within :: "time \<Rightarrow> time \<Rightarrow> gate_event list \<Rightarrow> bool" where
  "times_within lo hi tr \<longleftrightarrow> (\<forall>e\<in>set tr. case e of Arrive now _ \<Rightarrow> lo \<le> now \<and> now \<le> hi | Leave \<Rightarrow> True)"

section \<open>Lemmas\<close>

lemma seconds_exact: "duration_seconds (\<lambda>x. x) d = of_int d / 1000000000"
proof -
  have "sgn d * (\<bar>d\<bar> div 1000000000) * 1000000000 + sgn d * (\<bar>d\<bar> mod 1000000000) = sgn d * \<bar>d\<bar>"
    by (metis div_mult_mod_eq distrib_left mult.assoc)
  then have e: "sgn d * (\<bar>d\<bar> div 1000000000) * 1000000000 + sgn d * (\<bar>d\<bar> mod 1000000000) = d"
    by (simp add: sgn_mult_abs)
  have "(of_int (sgn d * (\<bar>d\<bar> div 1000000000)) :: rat) * 1000000000 + of_int (sgn d * (\<bar>d\<bar> mod 1000000000))
      = of_int (sgn d * (\<bar>d\<bar> div 1000000000) * 1000000000 + sgn d * (\<bar>d\<bar> mod 1000000000))"
    by (simp only: of_int_add of_int_mult of_int_numeral)
  then show ?thesis unfolding e duration_seconds_def Let_def by (simp add: field_simps)
qed

lemma arrive_parts:
  assumes "gate_arrive rnd now g = (ok, g1)"
  shows "rl_rate (gt_limiter g1) = rl_rate (gt_limiter g)" and "rl_burst (gt_limiter g1) = rl_burst (gt_limiter g)"
    and "rl_last (gt_limiter g1) = now"
    and "gt_in_flight g1 = gt_in_flight g + (if ok then 1 else 0)"
    and "ok \<Longrightarrow> gt_in_flight g1 \<le> max_in_flight"
  using assms by (auto simp: gate_arrive_def allow_def Let_def split: if_splits)

lemma gate_run_in_flight:
  "gate_run rnd g tr g' \<Longrightarrow> gt_in_flight g \<le> max_in_flight \<Longrightarrow>
   gt_in_flight g' \<le> max_in_flight \<and> gt_in_flight g' + leave_count tr = gt_in_flight g + admitted_count tr"
proof (induction rule: gate_run.induct)
  case (gate_arrives now g ok g1 tr g')
  have "gt_in_flight g1 \<le> max_in_flight"
    using arrive_parts(4,5) [OF gate_arrives.hyps(1)] gate_arrives.prems by (cases ok) auto
  then show ?case using gate_arrives.IH arrive_parts(4) [OF gate_arrives.hyps(1)]
    by (auto simp: admitted_count_def leave_count_def)
qed (auto simp: admitted_count_def leave_count_def gate_leave_def)

section \<open>The rounding\<close>

text \<open>
  What the bucket relies on of \<open>float64\<close>. The result of an operation is off by at most half a unit
  in the last place of 53 bits, or half of the least positive number; and what is far below
  zero stays there, also when it overflows.
\<close>

definition float64_rounding :: "(rat \<Rightarrow> rat) \<Rightarrow> bool" where
  "float64_rounding rnd \<longleftrightarrow>
     (\<forall>x. \<bar>x\<bar> \<le> 2 ^ 1000 \<longrightarrow> \<bar>rnd x - x\<bar> \<le> \<bar>x\<bar> / 2 ^ 53 + 1 / 2 ^ 1075) \<and> (\<forall>x. x < - (2 ^ 1000) \<longrightarrow> rnd x \<le> - (2 ^ 999))"

lemma round_near:
  assumes "float64_rounding rnd" and "x \<le> m" and "- m \<le> x" and "m \<le> 2 ^ 100"
  shows "rnd x \<le> x + (m + 1) / 2 ^ 53" and "x - (m + 1) / 2 ^ 53 \<le> rnd x"
proof -
  have "(2 :: rat) ^ 100 \<le> 2 ^ 1000" by (rule power_increasing) simp_all
  then have "\<bar>x\<bar> \<le> 2 ^ 1000" using assms(2-4) by linarith
  then have "\<bar>rnd x - x\<bar> \<le> \<bar>x\<bar> / 2 ^ 53 + 1 / 2 ^ 1075" using assms(1) by (simp only: float64_rounding_def)
  moreover have "\<bar>x\<bar> / 2 ^ 53 \<le> m / 2 ^ 53" using assms(2,3) by (simp add: divide_right_mono abs_le_iff)
  moreover have "(1 :: rat) / 2 ^ 1075 \<le> 1 / 2 ^ 53" by (rule divide_left_mono) (simp_all add: power_increasing)
  ultimately have "\<bar>rnd x - x\<bar> \<le> m / 2 ^ 53 + 1 / 2 ^ 53" by linarith
  then have near: "\<bar>rnd x - x\<bar> \<le> (m + 1) / 2 ^ 53" by (simp add: add_divide_distrib)
  show "rnd x \<le> x + (m + 1) / 2 ^ 53" using near by (simp only: abs_le_iff) linarith
  show "x - (m + 1) / 2 ^ 53 \<le> rnd x" using near by (simp only: abs_le_iff) linarith
qed

text \<open>A number that is far below zero is not rounded up to where a request would be admitted.\<close>

lemma round_low:
  assumes "float64_rounding rnd" and "x \<le> - (2 * m)" and "1 \<le> m" and "m \<le> 2 ^ 100"
  shows "rnd x \<le> - m"
proof (cases "x < - (2 ^ 1000)")
  case True
  have "(2 :: rat) ^ 100 \<le> 2 ^ 999" by (rule power_increasing) simp_all
  moreover have "rnd x \<le> - (2 ^ 999)" using assms(1) True by (simp only: float64_rounding_def)
  ultimately show ?thesis using assms(4) by linarith
next
  case False
  then have "\<bar>x\<bar> \<le> 2 ^ 1000" using assms(2,3) by linarith
  then have "\<bar>rnd x - x\<bar> \<le> \<bar>x\<bar> / 2 ^ 53 + 1 / 2 ^ 1075" using assms(1) by (simp only: float64_rounding_def)
  moreover have "(1 :: rat) / 2 ^ 1075 \<le> 1 / 2 ^ 53" by (rule divide_left_mono) (simp_all add: power_increasing)
  ultimately have "rnd x \<le> x - x / 2 ^ 53 + 1 / 2 ^ 53" using assms(2,3) by (simp add: abs_if split: if_splits)
  then show ?thesis using assms(2,3) by (simp add: field_simps)
qed

lemma duration_parts:
  "(of_int (sgn d * (\<bar>d\<bar> div 1000000000)) :: rat) + of_int (sgn d * (\<bar>d\<bar> mod 1000000000)) / 1000000000 = of_int d / 1000000000"
  using seconds_exact [of d] by (simp add: duration_seconds_def Let_def)

lemma seconds_near:
  assumes "float64_rounding rnd" and "\<bar>of_int d\<bar> \<le> 1000000000 * s" and "s \<le> 2 ^ 40"
  shows "duration_seconds rnd d \<le> of_int d / 1000000000 + (4 * s + 8) / 2 ^ 53"
    and "of_int d / 1000000000 - (4 * s + 8) / 2 ^ 53 \<le> duration_seconds rnd d"
proof -
  define sec nsec :: rat where "sec = of_int (sgn d * (\<bar>d\<bar> div 1000000000))" and "nsec = of_int (sgn d * (\<bar>d\<bar> mod 1000000000))"
  have sum: "sec + nsec / 1000000000 = of_int d / 1000000000" unfolding sec_def nsec_def by (rule duration_parts)
  have small: "nsec \<le> 1000000000" "- 1000000000 \<le> nsec"
  proof -
    have "\<bar>sgn d * (\<bar>d\<bar> mod 1000000000)\<bar> \<le> 1000000000" by (simp add: abs_mult abs_sgn_eq pos_mod_bound order_less_imp_le)
    then have "(of_int \<bar>sgn d * (\<bar>d\<bar> mod 1000000000)\<bar> :: rat) \<le> of_int 1000000000" by (simp only: of_int_le_iff)
    then have "\<bar>nsec\<bar> \<le> 1000000000" unfolding nsec_def by simp
    then show "nsec \<le> 1000000000" "- 1000000000 \<le> nsec" by (simp_all only: abs_le_iff) linarith
  qed
  have whole: "sec \<le> s" "- s \<le> sec"
  proof -
    have "\<bar>d\<bar> div 1000000000 * 1000000000 \<le> \<bar>d\<bar>"
      using div_mult_mod_eq [of "\<bar>d\<bar>" 1000000000] pos_mod_sign [of 1000000000 "\<bar>d\<bar>"] by linarith
    then have "\<bar>sgn d * (\<bar>d\<bar> div 1000000000)\<bar> * 1000000000 \<le> \<bar>d\<bar>"
      by (simp add: abs_mult abs_sgn_eq pos_imp_zdiv_nonneg_iff)
    then have "(of_int (\<bar>sgn d * (\<bar>d\<bar> div 1000000000)\<bar> * 1000000000) :: rat) \<le> of_int \<bar>d\<bar>" by (simp only: of_int_le_iff)
    then have "\<bar>sec\<bar> * 1000000000 \<le> \<bar>of_int d\<bar>" unfolding sec_def by simp
    then have "\<bar>sec\<bar> \<le> s" using assms(2) by linarith
    then show "sec \<le> s" "- s \<le> sec" by (simp_all only: abs_le_iff) linarith
  qed
  have total: "sec + nsec / 1000000000 \<le> s" "- s \<le> sec + nsec / 1000000000"
    unfolding sum using assms(2) by (simp_all add: abs_le_iff field_simps)
  note u1 = round_near [OF assms(1) whole] and u2 = round_near [OF assms(1) small]
  have e1: "rnd sec \<le> sec + (s + 1) / 2 ^ 53" "sec - (s + 1) / 2 ^ 53 \<le> rnd sec" using u1 assms(3) by simp_all
  have "rnd nsec \<le> nsec + (1000000000 + 1) / 2 ^ 53" "nsec - (1000000000 + 1) / 2 ^ 53 \<le> rnd nsec" using u2 by simp_all
  then have e2: "rnd nsec / 1000000000 \<le> nsec / 1000000000 + 2 / 2 ^ 53" "nsec / 1000000000 - 2 / 2 ^ 53 \<le> rnd nsec / 1000000000"
    by (simp_all add: field_simps)
  then have "rnd nsec / 1000000000 \<le> 2" "- 2 \<le> rnd nsec / 1000000000" using small by (simp_all add: field_simps)
  note e3 = round_near [OF assms(1) this]
  define x where "x = rnd sec + rnd (rnd nsec / 1000000000)"
  have near: "x \<le> sec + nsec / 1000000000 + (s + 6) / 2 ^ 53" "sec + nsec / 1000000000 - (s + 6) / 2 ^ 53 \<le> x"
    using e1 e2 e3 by (simp_all add: x_def field_simps)
  have "x \<le> 2 * s + 1" "- (2 * s + 1) \<le> x" using near total assms(3) by (simp_all add: field_simps)
  note e4 = round_near [OF assms(1) this]
  have "rnd x \<le> x + (2 * s + 1 + 1) / 2 ^ 53" "x - (2 * s + 1 + 1) / 2 ^ 53 \<le> rnd x" using e4 assms(3) by simp_all
  then have "rnd x \<le> sec + nsec / 1000000000 + (4 * s + 8) / 2 ^ 53" "sec + nsec / 1000000000 - (4 * s + 8) / 2 ^ 53 \<le> rnd x"
    using near total by (simp_all add: field_simps)
  then show "duration_seconds rnd d \<le> of_int d / 1000000000 + (4 * s + 8) / 2 ^ 53"
    "of_int d / 1000000000 - (4 * s + 8) / 2 ^ 53 \<le> duration_seconds rnd d"
    unfolding sum by (simp_all add: duration_seconds_def Let_def x_def sec_def nsec_def)
qed

section \<open>The bound of the bucket\<close>

definition limited :: "gate \<Rightarrow> bool" where
  "limited g \<longleftrightarrow> rl_rate (gt_limiter g) = 64 \<and> rl_burst (gt_limiter g) = 128"

lemma limited_run: "gate_run rnd g tr g' \<Longrightarrow> limited g \<Longrightarrow> limited g'"
proof (induction rule: gate_run.induct)
  case (gate_arrives now g ok g1 tr g')
  then show ?case using arrive_parts(1,2) [OF gate_arrives.hyps(1)] by (simp add: limited_def)
qed (auto simp: limited_def gate_leave_def)

text \<open>What an arrival does, by the number of tokens the bucket holds after the refill.\<close>

lemma arrive_cases:
  assumes "gate_arrive rnd now g = (ok, g1)" and "limited g"
  obtains tokens where
    "tokens = min 128 (rnd (rl_tokens (gt_limiter g)
       + rnd (duration_seconds rnd (time_sub now (rl_last (gt_limiter g))) * 64)))"
    "limited g1" "rl_last (gt_limiter g1) = now" "ok \<longrightarrow> 1 \<le> tokens"
    "rl_tokens (gt_limiter g1) = (if tokens < 1 then tokens else rnd (tokens - 1))"
  by (rule that [OF refl])
    (use assms in \<open>auto simp: gate_arrive_def allow_def limited_def Let_def split: if_splits\<close>)

lemma spend_token:
  assumes "float64_rounding rnd" and "1 \<le> tokens" and "tokens \<le> 128"
  shows "rnd (tokens - 1) \<le> tokens - 1 + 1 / 2 ^ 46" and "rnd (tokens - 1) \<le> 128"
proof -
  have "tokens - 1 \<le> 127" "- 127 \<le> tokens - 1" using assms(2,3) by simp_all
  note near = round_near [OF assms(1) this]
  then show "rnd (tokens - 1) \<le> tokens - 1 + 1 / 2 ^ 46" "rnd (tokens - 1) \<le> 128" using assms(3) by (simp_all add: field_simps)
qed

text \<open>
  \<open>rate_bound\<close> is the number of requests that an interval may admit. While all readings lie in an
  interval, what an arrival may add to it by rounding is its \<open>rate_slack\<close>.
\<close>

definition rate_bound :: "time \<Rightarrow> time \<Rightarrow> rat" where
  "rate_bound from until = 128 + 64 * of_int (until - from) / 1000000000"

definition rate_slack :: "time \<Rightarrow> time \<Rightarrow> rat" where
  "rate_slack from until = rate_bound from until / 2 ^ 49"

lemma rate_bound_range:
  assumes "from \<le> until" and "until - from < 2 ^ 63"
  shows "128 \<le> rate_bound from until" and "rate_bound from until \<le> 2 ^ 40"
proof -
  have "(0 :: rat) \<le> of_int (until - from)" using assms(1) by simp
  moreover have "(of_int (until - from) :: rat) \<le> of_int (2 ^ 63)" using assms(2) by (simp only: of_int_le_iff)
  ultimately show "128 \<le> rate_bound from until" "rate_bound from until \<le> 2 ^ 40" by (simp_all add: rate_bound_def)
qed

text \<open>An arrival after the first: the refill is the time since the last one, up to the rounding.\<close>

lemma refill_bound:
  assumes "float64_rounding rnd" and "from \<le> prev" "prev \<le> until" and "from \<le> now" "now \<le> until"
    and "until - from < 2 ^ 63" and "t \<le> 128"
  defines "x \<equiv> rnd (t + rnd (duration_seconds rnd (time_sub now prev) * 64))"
  shows "x \<le> t + 64 * of_int (now - prev) / 1000000000 + 10 * rate_bound from until / 2 ^ 53
    \<or> x \<le> - rate_bound from until"
proof -
  define k where "k = rate_bound from until"
  define s :: rat where "s = of_int (until - from) / 1000000000"
  have ks: "k = 128 + 64 * s" by (simp add: k_def rate_bound_def s_def)
  have range: "128 \<le> k" "k \<le> 2 ^ 40"
    unfolding k_def by (rule rate_bound_range [OF order_trans [OF assms(2,3)] assms(6)])+
  have s: "0 \<le> s" "s \<le> 2 ^ 40" using range by (simp_all add: ks)
  define d where "d = now - prev"
  have ad: "\<bar>d\<bar> \<le> until - from" using assms(2-5) unfolding d_def by linarith
  then have "(of_int \<bar>d\<bar> :: rat) \<le> of_int (until - from)" by (simp only: of_int_le_iff)
  then have ds: "\<bar>of_int d\<bar> \<le> 1000000000 * s" by (simp add: s_def)
  have e: "of_int d / 1000000000 \<le> s" "- s \<le> of_int d / 1000000000" using ds by (simp_all add: abs_le_iff field_simps)
  have sub: "time_sub now prev = d" using ad assms(6) by (auto simp: time_sub_def d_def)
  define v :: rat where "v = of_int d / 1000000000"
  define r where "r = duration_seconds rnd d"
  have r: "r \<le> v + (4 * s + 8) / 2 ^ 53" "v - (4 * s + 8) / 2 ^ 53 \<le> r"
    unfolding r_def v_def by (rule seconds_near [OF assms(1) ds s(2)])+
  have rk: "r * 64 \<le> k" "- k \<le> r * 64" using r e s unfolding ks v_def [symmetric] by (simp_all add: field_simps)
  note y0 = round_near [OF assms(1) rk]
  have y: "rnd (r * 64) \<le> r * 64 + (k + 1) / 2 ^ 53" "r * 64 - (k + 1) / 2 ^ 53 \<le> rnd (r * 64)"
    using y0 range by simp_all
  define z where "z = t + rnd (r * 64)"
  have z: "z \<le> t + 64 * v + 7 * k / 2 ^ 53" "t + 64 * v - 7 * k / 2 ^ 53 \<le> z"
    using r y s unfolding z_def ks by (simp_all add: field_simps)
  have x: "x = rnd z" by (simp add: x_def sub z_def r_def)
  have "x \<le> t + 64 * v + 10 * k / 2 ^ 53 \<or> x \<le> - k"
  proof (cases "z \<le> - (2 * k)")
    case True
    have "rnd z \<le> - k" by (rule round_low [OF assms(1) True]) (use range in simp_all)
    then show ?thesis by (simp add: x)
  next
    case False
    have "z \<le> 2 * k" "- (2 * k) \<le> z" using False z(1) assms(7) e s unfolding ks v_def [symmetric] by (simp_all add: field_simps)
    note w0 = round_near [OF assms(1) this]
    have "rnd z \<le> z + (2 * k + 1) / 2 ^ 53" using w0 range by simp
    then have "rnd z \<le> t + 64 * v + 10 * k / 2 ^ 53" using z(1) range by (simp add: field_simps)
    then show ?thesis by (simp add: x)
  qed
  then show ?thesis by (simp add: v_def d_def k_def)
qed

text \<open>
  The account of an interval \<open>[from, until]\<close> while all readings lie in \<open>[lo, hi]\<close>: what it has
  admitted since its first arrival (\<open>a\<close>) and what is left in the bucket are covered by the burst
  and the refill, up to \<open>e\<close>.
\<close>

definition intervals :: "time \<Rightarrow> time \<Rightarrow> time \<Rightarrow> time \<Rightarrow> bool" where
  "intervals lo from until hi \<longleftrightarrow> lo \<le> from \<and> from \<le> until \<and> until \<le> hi \<and> hi - lo < 2 ^ 63"

definition accounted :: "time \<Rightarrow> time \<Rightarrow> time \<Rightarrow> time \<Rightarrow> rat \<Rightarrow> rat \<Rightarrow> gate \<Rightarrow> bool" where
  "accounted lo from until hi a e g \<longleftrightarrow>
     limited g \<and> rl_tokens (gt_limiter g) \<le> 128
     \<and> lo \<le> rl_last (gt_limiter g) \<and> rl_last (gt_limiter g) \<le> hi
     \<and> a + rl_tokens (gt_limiter g) \<le> 128 + 64 * of_int (rl_last (gt_limiter g) - from) / 1000000000 + e
     \<and> a \<le> rate_bound from until + e"

lemma bound_at: "t \<le> until \<Longrightarrow> 128 + 64 * of_int (t - from) / 1000000000 \<le> rate_bound from until"
proof -
  assume "t \<le> until"
  then have "(of_int (t - from) :: rat) \<le> of_int (until - from)" by simp
  then show ?thesis by (simp add: rate_bound_def)
qed

lemma bound_low:
  assumes "intervals lo from until hi" and "lo \<le> t"
  shows "rate_bound from until - rate_bound lo hi \<le> 128 + 64 * of_int (t - from) / 1000000000"
proof -
  have "until - from - (hi - lo) \<le> t - from" using assms by (simp add: intervals_def)
  then have "(of_int (until - from - (hi - lo)) :: rat) \<le> of_int (t - from)" by (simp only: of_int_le_iff)
  then have "(of_int (until - from) :: rat) - of_int (hi - lo) \<le> of_int (t - from)" by (simp only: of_int_diff)
  moreover have "x - y \<le> z \<Longrightarrow> 128 + 64 * x / 1000000000 - (128 + 64 * y / 1000000000) \<le> 128 + 64 * z / 1000000000" for x y z :: rat
    by (simp add: field_simps)
  ultimately show ?thesis unfolding rate_bound_def by blast
qed

lemma interval_ranges:
  assumes "intervals lo from until hi"
  shows "128 \<le> rate_bound lo hi" and "rate_bound lo hi \<le> 2 ^ 40" and "128 \<le> rate_bound from until"
    and "1 / 2 ^ 46 \<le> rate_slack lo hi"
proof -
  have o: "lo \<le> hi" "hi - lo < 2 ^ 63" "from \<le> until" "until - from < 2 ^ 63" using assms by (simp_all add: intervals_def)
  show k: "128 \<le> rate_bound lo hi" "rate_bound lo hi \<le> 2 ^ 40" "128 \<le> rate_bound from until"
    by (rule rate_bound_range [OF o(1,2)] rate_bound_range(1) [OF o(3,4)])+
  show "1 / 2 ^ 46 \<le> rate_slack lo hi" using k(1) by (simp add: rate_slack_def)
qed

text \<open>The first arrival of the interval: whatever the bucket held before, it holds the burst at most.\<close>

lemma first_arrival:
  assumes "float64_rounding rnd" and "gate_arrive rnd now g = (ok, g1)" and "limited g"
    and "from \<le> now" "now \<le> until" and "intervals lo from until hi"
  shows "accounted lo from until hi (if ok then 1 else 0) (rate_slack lo hi) g1"
proof -
  note range = interval_ranges [OF assms(6)]
  obtain tokens where t: "tokens = min 128 (rnd (rl_tokens (gt_limiter g)
       + rnd (duration_seconds rnd (time_sub now (rl_last (gt_limiter g))) * 64)))"
    "limited g1" "rl_last (gt_limiter g1) = now" "ok \<longrightarrow> 1 \<le> tokens"
    "rl_tokens (gt_limiter g1) = (if tokens < 1 then tokens else rnd (tokens - 1))"
    by (rule arrive_cases [OF assms(2,3)])
  have le: "tokens \<le> 128" by (simp add: t(1))
  define b where "b = 128 + 64 * of_int (now - from) / (1000000000 :: rat)"
  have b: "128 \<le> b" using assms(4) by (simp add: b_def)
  have spent: "(if ok then 1 else 0) + rl_tokens (gt_limiter g1) \<le> 128 + 1 / 2 ^ 46" "rl_tokens (gt_limiter g1) \<le> 128"
    using t(4,5) le spend_token [OF assms(1) _ le] by (cases "tokens < 1"; cases ok; auto)+
  have "(if ok then 1 else 0) + rl_tokens (gt_limiter g1) \<le> b + rate_slack lo hi"
    using spent(1) b range(4) by linarith
  moreover have "(if ok then 1 else 0) \<le> rate_bound from until + rate_slack lo hi"
    using range by simp
  ultimately show ?thesis
    using t(2,3) assms(4-6) spent(2) by (simp add: accounted_def b_def intervals_def)
qed

lemma next_arrival:
  assumes "float64_rounding rnd" and "gate_arrive rnd now g = (ok, g1)" and "accounted lo from until hi a e g"
    and "lo \<le> now" "now \<le> hi" and "intervals lo from until hi"
  shows "accounted lo from until hi (a + (if ok \<and> from \<le> now \<and> now \<le> until then 1 else 0)) (e + rate_slack lo hi) g1"
proof -
  define k where "k = rate_bound lo hi"
  have range: "128 \<le> k" "128 \<le> rate_bound from until" unfolding k_def by (rule interval_ranges [OF assms(6)])+
  let ?l = "gt_limiter g"
  have g: "limited g" "rl_tokens ?l \<le> 128" "lo \<le> rl_last ?l" "rl_last ?l \<le> hi" "a \<le> rate_bound from until + e"
    "a + rl_tokens ?l \<le> 128 + 64 * of_int (rl_last ?l - from) / 1000000000 + e"
    using assms(3) by (simp_all add: accounted_def)
  define x where "x = rnd (rl_tokens ?l + rnd (duration_seconds rnd (time_sub now (rl_last ?l)) * 64))"
  obtain tokens where t: "tokens = min 128 x"
    "limited g1" "rl_last (gt_limiter g1) = now" "ok \<longrightarrow> 1 \<le> tokens"
    "rl_tokens (gt_limiter g1) = (if tokens < 1 then tokens else rnd (tokens - 1))"
    unfolding x_def by (rule arrive_cases [OF assms(2) g(1)])
  have le: "tokens \<le> 128" "tokens \<le> x" by (simp_all add: t(1))
  define b where "b = 128 + 64 * of_int (now - from) / (1000000000 :: rat)"
  have b: "now \<le> until \<longrightarrow> b \<le> rate_bound from until" "rate_bound from until - k \<le> b"
    using bound_at [of now until "from"] bound_low [OF assms(6,4)] by (simp_all add: b_def k_def)
  have slack: "rate_slack lo hi = k / 2 ^ 49" by (simp add: rate_slack_def k_def)
  have width: "hi - lo < 2 ^ 63" using assms(6) by (simp add: intervals_def)
  have "x \<le> rl_tokens ?l + 64 * of_int (now - rl_last ?l) / 1000000000 + 10 * k / 2 ^ 53 \<or> x \<le> - k"
    unfolding x_def k_def by (rule refill_bound [OF assms(1) g(3,4) assms(4,5) width g(2)])
  then have fill: "a + tokens \<le> b + e + 10 * k / 2 ^ 53"
  proof
    assume "x \<le> rl_tokens ?l + 64 * of_int (now - rl_last ?l) / 1000000000 + 10 * k / 2 ^ 53"
    then show ?thesis using g(6) le(2) by (simp add: b_def field_simps)
  next
    assume "x \<le> - k"
    then have "a + tokens \<le> b + e" using g(5) le(2) b(2) by linarith
    then show ?thesis using range by (simp add: field_simps)
  qed
  have spent: "(if ok then 1 else 0) + rl_tokens (gt_limiter g1) \<le> tokens + 1 / 2 ^ 46" "rl_tokens (gt_limiter g1) \<le> 128"
    using t(4,5) le(1) spend_token [OF assms(1) _ le(1)] by (cases "tokens < 1"; cases ok; auto)+
  let ?in = "ok \<and> from \<le> now \<and> now \<le> until"
  have "a + (if ?in then 1 else 0) \<le> rate_bound from until + (e + rate_slack lo hi)"
  proof (cases ?in)
    case True
    then have "a + 1 \<le> b + e + 10 * k / 2 ^ 53" using t(4) fill by linarith
    moreover have "10 * k / 2 ^ 53 \<le> rate_slack lo hi" using range by (simp add: slack field_simps)
    ultimately show ?thesis using True b(1) by simp
  next
    case False
    then have "(if ?in then 1 else (0 :: rat)) = 0" by simp
    moreover have "0 \<le> rate_slack lo hi" using range by (simp add: slack)
    ultimately show ?thesis using g(5) by linarith
  qed
  moreover have "a + (if ?in then 1 else 0) + rl_tokens (gt_limiter g1) \<le> b + (e + rate_slack lo hi)"
  proof -
    have "(if ?in then 1 else (0 :: rat)) \<le> (if ok then 1 else 0)" by simp
    moreover have "10 * k / 2 ^ 53 + 1 / 2 ^ 46 \<le> rate_slack lo hi" using range by (simp add: slack field_simps)
    ultimately show ?thesis using spent(1) fill by linarith
  qed
  ultimately show ?thesis using t(2,3) spent(2) assms(4,5) by (simp add: accounted_def b_def)
qed

lemma later_arrivals:
  assumes "float64_rounding rnd" and "intervals lo from until hi"
  shows "gate_run rnd g tr g' \<Longrightarrow> accounted lo from until hi a e g \<Longrightarrow> times_within lo hi tr \<Longrightarrow>
    a + of_nat (admitted_within from until tr) \<le> rate_bound from until + e + of_nat (arrival_count tr) * rate_slack lo hi"
proof (induction arbitrary: a e rule: gate_run.induct)
  case (gate_done g)
  then show ?case by (simp add: accounted_def admitted_within_def arrival_count_def)
next
  case (gate_arrives now g ok g1 tr g')
  have n: "lo \<le> now" "now \<le> hi" "times_within lo hi tr" using gate_arrives.prems(2) by (auto simp: times_within_def)
  have "a + (if ok \<and> from \<le> now \<and> now \<le> until then 1 else 0) + of_nat (admitted_within from until tr)
      \<le> rate_bound from until + (e + rate_slack lo hi) + of_nat (arrival_count tr) * rate_slack lo hi"
    by (rule gate_arrives.IH [OF next_arrival [OF assms(1) gate_arrives.hyps(1) gate_arrives.prems(1) n(1,2) assms(2)] n(3)])
  then show ?case
    by (cases "ok \<and> from \<le> now \<and> now \<le> until") (auto simp: admitted_within_def arrival_count_def algebra_simps)
next
  case (gate_leaves g tr g')
  have "accounted lo from until hi a e (gate_leave g)"
    using gate_leaves.prems(1) by (simp add: accounted_def limited_def gate_leave_def)
  moreover have "times_within lo hi tr" using gate_leaves.prems(2) by (simp add: times_within_def)
  ultimately show ?case using gate_leaves.IH by (simp add: admitted_within_def arrival_count_def)
qed

lemma interval_arrivals:
  assumes "float64_rounding rnd" and "intervals lo from until hi"
  shows "gate_run rnd g tr g' \<Longrightarrow> limited g \<Longrightarrow> times_within lo hi tr \<Longrightarrow>
    of_nat (admitted_within from until tr) \<le> rate_bound from until + of_nat (arrival_count tr) * rate_slack lo hi"
proof (induction rule: gate_run.induct)
  case (gate_done g)
  show ?case using interval_ranges(3) [OF assms(2)] by (simp add: admitted_within_def arrival_count_def)
next
  case (gate_arrives now g ok g1 tr g')
  have n: "times_within lo hi tr" using gate_arrives.prems(2) by (auto simp: times_within_def)
  have slack: "0 \<le> rate_slack lo hi" using interval_ranges(4) [OF assms(2)] by (rule order_trans [rotated]) simp
  show ?case
  proof (cases "from \<le> now \<and> now \<le> until")
    case True
    then have inside: "from \<le> now" "now \<le> until" by simp_all
    note first = first_arrival [OF assms(1) gate_arrives.hyps(1) gate_arrives.prems(1) inside assms(2)]
    have "(if ok then 1 else 0) + of_nat (admitted_within from until tr)
        \<le> rate_bound from until + rate_slack lo hi + of_nat (arrival_count tr) * rate_slack lo hi"
      by (rule later_arrivals [OF assms(1,2) gate_arrives.hyps(2) first n])
    then show ?thesis using True by (simp add: admitted_within_def arrival_count_def algebra_simps split: if_splits)
  next
    case False
    have "limited g1"
      using gate_arrives.prems(1) arrive_parts(1,2) [OF gate_arrives.hyps(1)] by (simp add: limited_def)
    then have "of_nat (admitted_within from until tr) \<le> rate_bound from until + of_nat (arrival_count tr) * rate_slack lo hi"
      using gate_arrives.IH n by blast
    then show ?thesis using False slack by (auto simp: admitted_within_def arrival_count_def algebra_simps)
  qed
next
  case (gate_leaves g tr g')
  have "limited (gate_leave g)" using gate_leaves.prems(1) by (simp add: limited_def gate_leave_def)
  moreover have "times_within lo hi tr" using gate_leaves.prems(2) by (simp add: times_within_def)
  ultimately show ?case using gate_leaves.IH by (simp add: admitted_within_def arrival_count_def)
qed

section \<open>Properties\<close>

text \<open>In every interleaving of arrivals and departures, for any rounding and any times, at
  most 128 requests are in flight, and the channel counts exactly the requests that were
  admitted and have not left.\<close>

theorem in_flight_bounded:
  assumes "gate_run rnd (new_gate t0) tr g"
  shows "gt_in_flight g \<le> 128 \<and> gt_in_flight g + leave_count tr = admitted_count tr"
  using gate_run_in_flight [OF assms] by (simp add: new_gate_def max_in_flight_def)

definition sample_gate :: gate where
  "sample_gate = \<lparr>gt_limiter = \<lparr>rl_rate = 64, rl_burst = 128, rl_tokens = 127, rl_last = 0\<rparr>, gt_in_flight = 1\<rparr>"

lemma sample_arrival:
  assumes "rnd 0 = 0" and "rnd 127 = 127" and "rnd 128 = 128"
  shows "gate_run rnd (new_gate 0) [Arrive 0 True] sample_gate"
  using assms
  by (simp add: gate_run_Arrive gate_arrive_def allow_def new_gate_def new_request_limiter_def request_rate_def
      max_in_flight_def duration_seconds_def time_sub_def sample_gate_def)

theorem in_flight_bounded_witness: "gt_in_flight sample_gate \<le> 128"
  by (rule in_flight_bounded [OF sample_arrival [of "\<lambda>x. x"], THEN conjunct1]) simp_all

text \<open>
  Rounding to the nearest number of 53 bits, ties to even, with gradual underflow, is such a
  rounding.
\<close>

definition round_even :: "rat \<Rightarrow> int" where
  "round_even y = (if y - of_int \<lfloor>y\<rfloor> = 1 / 2 then (if even \<lfloor>y\<rfloor> then \<lfloor>y\<rfloor> else \<lfloor>y\<rfloor> + 1) else round y)"

definition last_place :: "rat \<Rightarrow> int" where
  "last_place x = max (\<lfloor>log 2 (of_rat \<bar>x\<bar>)\<rfloor> - 52) (- 1074)"

definition round_float64 :: "rat \<Rightarrow> rat" where
  "round_float64 x = (if x = 0 then 0 else of_int (round_even (x / 2 powi last_place x)) * 2 powi last_place x)"

lemma round_even_near: "\<bar>of_int (round_even y) - y\<bar> \<le> 1 / 2"
proof (cases "y - of_int \<lfloor>y\<rfloor> = 1 / 2")
  case True
  then show ?thesis by (simp add: round_even_def abs_if)
next
  case False
  then show ?thesis using of_int_round_abs_le [of y] by (simp add: round_even_def)
qed

lemma powi_log_le:
  assumes "x \<noteq> 0"
  shows "(2 :: rat) powi \<lfloor>log 2 (of_rat \<bar>x\<bar>)\<rfloor> \<le> \<bar>x\<bar>"
proof -
  have pos: "0 < real_of_rat \<bar>x\<bar>" using assms by simp
  have "real_of_rat (2 powi \<lfloor>log 2 (of_rat \<bar>x\<bar>)\<rfloor>) = 2 powr of_int \<lfloor>log 2 (of_rat \<bar>x\<bar>)\<rfloor>"
    by (simp add: powr_real_of_int' power_int_def of_rat_power of_rat_inverse of_rat_divide)
  also have "\<dots> \<le> 2 powr log 2 (of_rat \<bar>x\<bar>)" by (rule powr_mono) simp_all
  also have "\<dots> = real_of_rat \<bar>x\<bar>" using pos by simp
  finally show ?thesis by (simp only: of_rat_less_eq)
qed

lemma round_float64_near: "\<bar>round_float64 x - x\<bar> \<le> \<bar>x\<bar> / 2 ^ 53 + 1 / 2 ^ 1075"
proof (cases "x = 0")
  case False
  define p :: rat where "p = 2 powi last_place x"
  have p: "0 < p" by (simp add: p_def)
  have "round_float64 x - x = (of_int (round_even (x / p)) - x / p) * p"
    using False p by (simp add: round_float64_def p_def field_simps)
  then have "\<bar>round_float64 x - x\<bar> = \<bar>of_int (round_even (x / p)) - x / p\<bar> * p" using p by (simp add: abs_mult)
  also have "\<dots> \<le> 1 / 2 * p" by (rule mult_right_mono [OF round_even_near]) (use p in simp)
  also have "1 / 2 * p \<le> \<bar>x\<bar> / 2 ^ 53 + 1 / 2 ^ 1075"
  proof (cases "\<lfloor>log 2 (of_rat \<bar>x\<bar>)\<rfloor> - 52 \<le> - 1074")
    case True
    then have "p = 2 powi (- 1074)" by (simp add: p_def last_place_def max_def)
    then have "1 / 2 * p = 1 / 2 ^ 1075" by (simp add: power_int_minus inverse_eq_divide)
    then show ?thesis by simp
  next
    case big: False
    then have "p = 2 powi (\<lfloor>log 2 (of_rat \<bar>x\<bar>)\<rfloor> - 52)" by (simp add: p_def last_place_def max_def)
    also have "\<dots> = 2 powi \<lfloor>log 2 (of_rat \<bar>x\<bar>)\<rfloor> / 2 ^ 52" by (simp add: power_int_diff)
    also have "\<dots> \<le> \<bar>x\<bar> / 2 ^ 52" using powi_log_le [OF False] by (simp add: divide_right_mono)
    finally have "1 / 2 * p \<le> \<bar>x\<bar> / 2 ^ 53" by simp
    moreover have "(0 :: rat) \<le> 1 / 2 ^ 1075" by simp
    ultimately show ?thesis by linarith
  qed
  finally show ?thesis .
qed (simp add: round_float64_def)

lemma round_float64_rounding: "float64_rounding round_float64"
  unfolding float64_rounding_def
proof (intro conjI allI impI round_float64_near)
  fix x :: rat
  assume low: "x < - (2 ^ 1000)"
  define n :: rat where "n = 2 ^ 999"
  have n: "(2 :: rat) ^ 1000 = 2 * n" "1 \<le> n" unfolding n_def by (simp_all del: power_numeral flip: power_Suc)
  have "(1 :: rat) / 2 ^ 1075 \<le> 1" by simp
  then have "round_float64 x \<le> x + \<bar>x\<bar> / 2 ^ 53 + 1" using round_float64_near [of x] by linarith
  then show "round_float64 x \<le> - (2 ^ 999)" using low n by (simp add: abs_if field_simps flip: n_def)
qed

lemma round_float64_int:
  assumes "0 < n" and "n < 2 ^ 52"
  shows "round_float64 (of_nat n) = of_nat n"
proof -
  define e where "e = last_place (of_nat n)"
  have "real n < real (2 ^ 52)" using assms(2) by (simp only: of_nat_less_iff)
  then have "real n < 2 powr 52" by (simp add: powr_numeral)
  then have "log 2 (real n) < 52" using assms(1) by (subst log_less_iff) simp_all
  then have "e \<le> 0" by (simp add: e_def last_place_def floor_le_iff)
  then have "(2 :: rat) powi e = 1 / 2 ^ nat (- e)" by (simp add: power_int_def inverse_eq_divide power_one_over)
  then have q: "(of_nat n :: rat) / 2 powi e = of_int (int n * 2 ^ nat (- e))" by simp
  have "round_even (of_int m) = m" for m by (simp add: round_even_def)
  then have "round_float64 (of_nat n) = of_int (int n * 2 ^ nat (- e)) * 2 powi e"
    using assms(1) by (simp only: round_float64_def e_def [symmetric] q) simp
  also have "\<dots> = of_nat n" by (simp only: q [symmetric]) simp
  finally show ?thesis .
qed

text \<open>C39. The rate limit: over any interval, at most 128 requests and 64 more for each of its seconds
  are admitted of those that read the clock in it, up to the rounding of \<open>float64\<close>. It does not
  matter what came before, how full the bucket was, how the readings of concurrent requests
  are ordered, or that requests with earlier and later readings come in between; the rounding
  adds, for each arrival of the stretch looked at, less than the same number for all the
  readings of that stretch, divided by \<open>2 ^ 49\<close>. The readings of the stretch lie within 292
  years.\<close>

theorem request_rate_bounded:
  assumes "float64_rounding rnd" and "gate_run rnd (new_gate t0) before g" and "gate_run rnd g stretch g'"
    and "times_within lo hi stretch" and "hi - lo < 2 ^ 63"
    and "lo \<le> from" and "from \<le> until" and "until \<le> hi"
  shows "rat_of_nat (admitted_within from until stretch)
    \<le> 128 + 64 * of_int (until - from) / 1000000000
      + of_nat (arrival_count stretch) * (128 + 64 * of_int (hi - lo) / 1000000000) / 2 ^ 49"
proof -
  have "limited (new_gate t0)"
    by (simp add: limited_def new_gate_def new_request_limiter_def request_rate_def max_in_flight_def)
  then have "limited g" by (rule limited_run [OF assms(2)])
  moreover have "intervals lo from until hi" using assms(5-8) by (simp add: intervals_def)
  ultimately have "rat_of_nat (admitted_within from until stretch)
      \<le> rate_bound from until + of_nat (arrival_count stretch) * rate_slack lo hi"
    using interval_arrivals [OF assms(1) _ assms(3) _ assms(4)] by blast
  then show ?thesis by (simp only: rate_slack_def rate_bound_def times_divide_eq_right)
qed

theorem request_rate_bounded_witness:
  "rat_of_nat (admitted_within 0 0 [Arrive 0 True])
    \<le> 128 + 64 * of_int (0 - 0) / 1000000000 + of_nat (arrival_count [Arrive 0 True]) * (128 + 64 * of_int (0 - 0) / 1000000000) / 2 ^ 49"
proof -
  have "round_float64 0 = 0" "round_float64 127 = 127" "round_float64 128 = 128"
    using round_float64_int [of 127] round_float64_int [of 128] by (simp_all add: round_float64_def)
  note arrival = sample_arrival [OF this]
  show ?thesis
    by (rule request_rate_bounded [OF round_float64_rounding gate_done arrival]) (simp_all add: times_within_def)
qed

end
