(* ===== verification/AccessLog.thy ===== *)
theory AccessLog
  imports HttpServerProps
begin

text \<open>
  The access log of \<open>adapters/inbound/http/server.go\<close>: the status recorder around a response
  writer, and the line logged for a request. The line is data; how \<open>slog\<close> prints it is not
  modelled. The pattern the router reports for a request it refuses is a parameter.
\<close>

section \<open>The status recorder\<close>

datatype writer_call = WriteHeader int | WriteBody string

fun recorder_status :: "int \<Rightarrow> writer_call list \<Rightarrow> int" where
  "recorder_status status [] = status"
| "recorder_status status (WriteHeader n # calls) = recorder_status n calls"
| "recorder_status status (WriteBody b # calls) = recorder_status (if status = 0 then 200 else status) calls"

text \<open>
  What \<open>net/http\<close> sends: the first final status, and 200 when a body comes first.
\<close>

fun sent_status :: "int \<Rightarrow> writer_call list \<Rightarrow> int" where
  "sent_status sent [] = sent"
| "sent_status sent (WriteHeader n # calls) = sent_status (if sent = 0 then n else sent) calls"
| "sent_status sent (WriteBody b # calls) = sent_status (if sent = 0 then 200 else sent) calls"

text \<open>The calls of \<open>writeJSON\<close>, \<open>http.Redirect\<close> and the router's own answers.\<close>

definition response_calls :: "web_response \<Rightarrow> writer_call list" where
  "response_calls r = WriteHeader (ws_status r) # (if ws_body r = [] then [] else [WriteBody (ws_body r)])"

section \<open>The log line\<close>

record log_entry =
  le_request_id :: string
  le_method :: string
  le_route :: string
  le_status :: int
  le_duration_ms :: int

definition route_pattern :: "route \<Rightarrow> string" where
  "route_pattern r = (case find (\<lambda>(m, p, r'). r' = r) routes of Some (m, p, _) \<Rightarrow> p | None \<Rightarrow> [])"

text \<open>A request that is not admitted never reaches the routes.\<close>

definition request_pattern :: "router \<Rightarrow> (string \<Rightarrow> string \<Rightarrow> string) \<Rightarrow> bool \<Rightarrow> web_request \<Rightarrow> string" where
  "request_pattern pick refused admitted q =
     (if \<not> admitted then []
      else case pick routes (wq_method q) (wq_path q) of
        Inl own \<Rightarrow> refused (wq_method q) (wq_path q)
      | Inr r \<Rightarrow> route_pattern r)"

definition milliseconds :: "int \<Rightarrow> int" where
  "milliseconds d = (if d < 0 then - (- d div 1000000) else d div 1000000)"

text \<open>There is no line when no request id could be made: that middleware comes first.\<close>

definition access_log ::
  "router \<Rightarrow> (string \<Rightarrow> string \<Rightarrow> string) \<Rightarrow> bool \<Rightarrow> (nat \<Rightarrow> char) option \<Rightarrow> int \<Rightarrow> web_request \<Rightarrow> web_response
     \<Rightarrow> log_entry option" where
  "access_log pick refused admitted rand elapsed q r =
     (case request_id_of rand q of
        Inl e \<Rightarrow> None
      | Inr rid \<Rightarrow>
          Some \<lparr>le_request_id = rid, le_method = wq_method q,
            le_route = (let p = request_pattern pick refused admitted q in if p \<noteq> [] then p else ''unknown''),
            le_status = recorder_status 0 (response_calls r), le_duration_ms = milliseconds elapsed\<rparr>)"

section \<open>Lemmas\<close>

lemma recorder_response: "ws_status r \<noteq> 0 \<Longrightarrow> recorder_status 0 (response_calls r) = ws_status r"
  by (simp add: response_calls_def)

lemma sent_response: "ws_status r \<noteq> 0 \<Longrightarrow> sent_status 0 (response_calls r) = ws_status r"
  by (simp add: response_calls_def)

lemma lower_hex_byte: "n < 16 \<Longrightarrow> 48 \<le> byte (lower_hex n) \<and> byte (lower_hex n) \<le> 57
    \<or> 97 \<le> byte (lower_hex n) \<and> byte (lower_hex n) \<le> 102"
  by (auto simp: lower_hex_def)

lemma new_request_id_valid:
  assumes "new_request_id rand = Inr v"
  shows "valid_request_id v"
proof -
  obtain bytes where v: "v = concat (map (\<lambda>i. [lower_hex (byte (bytes i) div 16), lower_hex (byte (bytes i) mod 16)]) [0..<16])"
    using assms by (auto simp: new_request_id_def split: option.splits)
  have "byte (bytes i) div 16 < 16" "byte (bytes i) mod 16 < 16" for i
    using byte_less [of "bytes i"] by (simp_all add: less_mult_imp_div_less)
  note hexes = this [THEN lower_hex_byte]
  have hex: "48 \<le> byte c \<and> byte c \<le> 57 \<or> 97 \<le> byte c \<and> byte c \<le> 102" if "c \<in> set v" for c
    using that hexes unfolding v by auto
  then have "ascii v" by (fastforce simp: ascii_def list_all_iff)
  then have "runes v = map (\<lambda>c. rune_of [c]) v" by (simp add: runes_def segs_ascii)
  moreover have "rune_of [c] = byte c" if "c \<in> set v" for c
    using hex [OF that] by auto
  moreover have "length v = 32" unfolding v by (simp add: length_concat comp_def sum_list_triv)
  then have "v \<noteq> []" "length v \<le> 64" by auto
  ultimately show ?thesis using hex by (fastforce simp: valid_request_id_def list_all_iff)
qed

lemma request_id_valid: "request_id_of rand q = Inr v \<Longrightarrow> valid_request_id v"
  by (auto simp: request_id_of_def Let_def new_request_id_valid split: if_splits sum.splits)

lemma route_pattern_listed: "route_pattern r \<in> fst ` snd ` set routes"
  by (cases r) (simp_all add: route_pattern_def routes_def)

lemma well_formed_status: "well_formed_response hs r \<Longrightarrow> ws_status r \<noteq> 0"
  by (auto simp: well_formed_response_def error_response_def status_response_def redirect_response_to_def)

lemma served_status:
  assumes "fst (run_state (serve s pick admitted rand q) w) = r" and "request_id_of rand q = Inr rid"
    and "\<forall>m p own. pick routes m p = Inl own \<longrightarrow> ws_status own \<noteq> 0"
  shows "ws_status r \<noteq> 0 \<and> (''X-Request-Id'', rid) \<in> set (ws_headers r)"
proof (cases "admitted \<and> (\<exists>own. pick routes (wq_method q) (wq_path q) = Inl own)")
  case True
  then show ?thesis using assms by (auto simp: serve_def Let_def)
next
  case False
  have "well_formed_response (security_headers (srv_cfg s) @ [(''X-Request-Id'', rid)]) r"
    using assms(1,2) False wpD [OF handle_route_ok prod.collapse [symmetric]]
    by (auto simp: serve_def Let_def write_error_ok split: sum.splits if_splits)
  with well_formed_status [OF this] show ?thesis by (auto simp: well_formed_response_def)
qed

section \<open>Properties\<close>

text \<open>C17. The access log. The line of a request has the request id that the response carries, which
  is a checked one (so it cannot break the line), the status the client was sent, and as route
  one of the patterns of the server, the router's pattern of a refusal, or \<open>unknown\<close>. It depends
  on nothing else of the request than its method, path and request id: no challenge, token,
  cookie or form value of a request can reach the log through it.\<close>

theorem access_log_safe:
  assumes "\<forall>m p own. pick routes m p = Inl own \<longrightarrow> ws_status own \<noteq> 0"
    and "fst (run_state (serve s pick admitted rand q) w) = r"
    and "access_log pick refused admitted rand elapsed q r = Some entry"
  shows "le_status entry = sent_status 0 (response_calls r)
    \<and> (''X-Request-Id'', le_request_id entry) \<in> set (ws_headers r)
    \<and> valid_request_id (le_request_id entry) \<and> no_crlf (le_request_id entry)
    \<and> le_route entry \<in> fst ` snd ` set routes \<union> {refused (wq_method q) (wq_path q), ''unknown''}
    \<and> (\<forall>q'. wq_method q' = wq_method q \<and> wq_path q' = wq_path q \<and> header_get q' ''X-Request-Id'' = header_get q ''X-Request-Id''
         \<longrightarrow> access_log pick refused admitted rand elapsed q' r = Some entry)"
proof -
  obtain rid where rid: "request_id_of rand q = Inr rid" "le_request_id entry = rid"
    "le_status entry = recorder_status 0 (response_calls r)"
    "le_route entry = (let p = request_pattern pick refused admitted q in if p \<noteq> [] then p else ''unknown'')"
    using assms(3) by (auto simp: access_log_def split: sum.splits)
  have "le_route entry \<in> fst ` snd ` set routes \<union> {refused (wq_method q) (wq_path q), ''unknown''}"
    using route_pattern_listed unfolding rid(4) request_pattern_def Let_def by (auto split: sum.splits)
  moreover have "access_log pick refused admitted rand elapsed q' r = access_log pick refused admitted rand elapsed q r"
    if "wq_method q' = wq_method q" "wq_path q' = wq_path q" "header_get q' ''X-Request-Id'' = header_get q ''X-Request-Id''" for q'
  proof -
    have "request_id_of rand q' = request_id_of rand q" by (simp add: request_id_of_def that(3))
    moreover have "request_pattern pick refused admitted q' = request_pattern pick refused admitted q"
      by (simp only: request_pattern_def that(1,2))
    ultimately show ?thesis by (simp only: access_log_def that(1))
  qed
  ultimately show ?thesis
    using served_status [OF assms(2) rid(1) assms(1)] rid request_id_valid [OF rid(1)] request_id_clean [OF rid(1)] assms(3)
    by (simp add: recorder_response sent_response)
qed

theorem access_log_safe_witness:
  "\<exists>entry. access_log table_router (\<lambda>m p. []) True (Some (\<lambda>i. CHR ''a'')) 5000000 (sample_request ''GET'' ''/login'')
     (fst (run_state (serve sample_server table_router True (Some (\<lambda>i. CHR ''a'')) (sample_request ''GET'' ''/login'')) 0))
     = Some entry \<and> valid_request_id (le_request_id entry)"
proof -
  let ?q = "sample_request ''GET'' ''/login''"
  let ?r = "fst (run_state (serve sample_server table_router True (Some (\<lambda>i. CHR ''a'')) ?q) 0)"
  have own: "\<forall>m p own. table_router routes m p = Inl own \<longrightarrow> ws_status own \<noteq> 0"
    by (auto simp: table_router_def split: option.splits prod.splits)
  have "\<exists>rid. request_id_of (Some (\<lambda>i. CHR ''a'')) ?q = Inr rid"
    by (cases "valid_request_id (header_get ?q ''X-Request-Id'')") (simp_all add: request_id_of_def new_request_id_def)
  then obtain entry where entry: "access_log table_router (\<lambda>m p. []) True (Some (\<lambda>i. CHR ''a'')) 5000000 ?q ?r = Some entry"
    by (auto simp: access_log_def)
  with access_log_safe [OF own _ entry, OF refl]
  show ?thesis by blast
qed

end
