(* ===== verification/Request.thy ===== *)
theory Request
  imports Gate AccessLog
begin

text \<open>
  A whole request through the middleware of \<open>adapters/inbound/http/server.go\<close>, in the order in
  which \<open>Server.Handler\<close> stacks it: the request id, the access log, the admission, and what
  \<open>serve\<close> of theory \<open>HttpServer\<close> does behind them. The random source and the clock that the
  middleware reads are parameters, asked by the number of the reading, which is counted.
\<close>

section \<open>The state and the readings\<close>

record front_env =
  fe_rand :: "nat \<Rightarrow> (nat \<Rightarrow> char) option"
  fe_now :: "nat \<Rightarrow> time"
  fe_round :: "rat \<Rightarrow> rat"

record 'w front =
  fr_world :: 'w
  fr_gate :: gate
  fr_reads :: nat

definition read_front :: "(nat \<Rightarrow> 'a) \<Rightarrow> ('w front, 'a) state" where
  "read_front f = State (\<lambda>s. (f (fr_reads s), s\<lparr>fr_reads := Suc (fr_reads s)\<rparr>))"

definition on_gate :: "(gate \<Rightarrow> 'a \<times> gate) \<Rightarrow> ('w front, 'a) state" where
  "on_gate f = State (\<lambda>s. let (a, g) = f (fr_gate s) in (a, s\<lparr>fr_gate := g\<rparr>))"

definition behind :: "('w, 'a) state \<Rightarrow> ('w front, 'a) state" where
  "behind m = State (\<lambda>s. let (a, w) = run_state m (fr_world s) in (a, s\<lparr>fr_world := w\<rparr>))"

section \<open>The request\<close>

text \<open>
  \<open>requestID\<close> reads the random source only when the client sent no usable id, and answers an
  error when that fails, before anything is logged. \<open>accessLog\<close> reads the clock before and
  after the rest. \<open>requestAdmission\<close> reads it for the token bucket; its deferred receive runs
  when the handler has returned, before the line is logged.
\<close>

definition read_request_id :: "front_env \<Rightarrow> web_request \<Rightarrow> ('w front, (nat \<Rightarrow> char) option) state" where
  "read_request_id env q =
     (if valid_request_id (header_get q ''X-Request-Id'') then State_Monad.return None else read_front (fe_rand env))"

definition admit_request ::
  "front_env \<Rightarrow> 'w server \<Rightarrow> router \<Rightarrow> (nat \<Rightarrow> char) option \<Rightarrow> web_request \<Rightarrow> ('w front, bool \<times> web_response) state" where
  "admit_request env s pick rand q = do {
     now \<leftarrow> read_front (fe_now env);
     admitted \<leftarrow> on_gate (gate_arrive (fe_round env) now);
     r \<leftarrow> behind (serve s pick admitted rand q);
     (if admitted then on_gate (\<lambda>g. ((), gate_leave g)) else State_Monad.return ());
     State_Monad.return (admitted, r) }"

definition handle_request ::
  "front_env \<Rightarrow> 'w server \<Rightarrow> router \<Rightarrow> (string \<Rightarrow> string \<Rightarrow> string) \<Rightarrow> web_request
     \<Rightarrow> ('w front, web_response \<times> log_entry option) state" where
  "handle_request env s pick refused q = do {
     rand \<leftarrow> read_request_id env q;
     case request_id_of rand q of
       Inl e \<Rightarrow> State_Monad.return (write_error (security_headers (srv_cfg s)) e, None)
     | Inr rid \<Rightarrow> do {
         started \<leftarrow> read_front (fe_now env);
         (admitted, r) \<leftarrow> admit_request env s pick rand q;
         ended \<leftarrow> read_front (fe_now env);
         State_Monad.return (r, access_log pick refused admitted rand (time_sub ended started) q r) }}"

section \<open>Lemmas\<close>

lemma run_read_front: "run_state (read_front f) s = (f (fr_reads s), s\<lparr>fr_reads := Suc (fr_reads s)\<rparr>)"
  by (simp add: read_front_def)

lemma run_on_gate: "run_state (on_gate f) s = (fst (f (fr_gate s)), s\<lparr>fr_gate := snd (f (fr_gate s))\<rparr>)"
  by (simp add: on_gate_def split: prod.split)

lemma run_behind:
  "run_state (behind m) s = (fst (run_state m (fr_world s)), s\<lparr>fr_world := snd (run_state m (fr_world s))\<rparr>)"
  by (simp add: behind_def split: prod.split)

lemmas front_runs = run_read_front run_on_gate run_behind run_state_bind run_state_return

text \<open>
  What a request leaves behind: the readings of the middleware, the world after \<open>serve\<close>, and
  as many requests in flight as it found.
\<close>

lemma in_flight_returned:
  "gt_in_flight (if fst (gate_arrive rnd now g) then gate_leave (snd (gate_arrive rnd now g)) else snd (gate_arrive rnd now g))
     = gt_in_flight g"
  using arrive_parts(4) [of rnd now g "fst (gate_arrive rnd now g)" "snd (gate_arrive rnd now g)"]
  by (auto simp: gate_leave_def)

lemma admit_request_run:
  obtains a x where "run_state (admit_request env s pick rand q) w = (a, x)" "fr_reads x = Suc (fr_reads w)"
    "\<exists>b. fr_world x = snd (run_state (serve s pick b rand q) (fr_world w))"
    "gt_in_flight (fr_gate x) = gt_in_flight (fr_gate w)"
  by (rule that [OF surjective_pairing])
    (use in_flight_returned [of "fe_round env" "fe_now env (fr_reads w)" "fr_gate w"] in
      \<open>auto simp: admit_request_def front_runs Let_def split: prod.split\<close>)

lemma handle_request_run:
  obtains x where "snd (run_state (handle_request env s pick refused q) w) = x" "fr_reads x \<le> fr_reads w + 4"
    "fr_world x = fr_world w \<or> (\<exists>b rand. fr_world x = snd (run_state (serve s pick b rand q) (fr_world w)))"
    "gt_in_flight (fr_gate x) = gt_in_flight (fr_gate w)"
proof -
  obtain rand w1 where id: "run_state (read_request_id env q) w = (rand, w1)" "fr_reads w1 \<le> Suc (fr_reads w)"
    "fr_world w1 = fr_world w" "fr_gate w1 = fr_gate w"
    by (cases "valid_request_id (header_get q ''X-Request-Id'')") (auto simp: read_request_id_def front_runs)
  show ?thesis
  proof (cases "request_id_of rand q")
    case (Inl e)
    then have "snd (run_state (handle_request env s pick refused q) w) = w1"
      using id by (simp add: handle_request_def front_runs)
    then show ?thesis by (rule that) (use id in auto)
  next
    case (Inr rid)
    let ?w2 = "w1\<lparr>fr_reads := Suc (fr_reads w1)\<rparr>"
    obtain a x where ad: "run_state (admit_request env s pick rand q) ?w2 = (a, x)" "fr_reads x = Suc (fr_reads ?w2)"
      "\<exists>b. fr_world x = snd (run_state (serve s pick b rand q) (fr_world ?w2))"
      "gt_in_flight (fr_gate x) = gt_in_flight (fr_gate ?w2)"
      by (rule admit_request_run)
    then have "snd (run_state (handle_request env s pick refused q) w) = x\<lparr>fr_reads := Suc (fr_reads x)\<rparr>"
      using id(1) Inr by (simp add: handle_request_def front_runs split: prod.split)
    then show ?thesis by (rule that) (use ad(2-4) id(2-4) in auto)
  qed
qed

end
