(* ===== verification/Effort.thy ===== *)
theory Effort
  imports Stack Request
begin

text \<open>
  How much a request can cost. \<open>costs\<close> bounds the number of calls that the program behind the
  middleware makes to anything outside it (the clock, the random source, Hydra, Kratos, the
  policy and, through the meter of the store, the clock, the random source and the client of
  the store), whatever they answer; the readings of the middleware are counted by \<open>fr_reads\<close> of
  theory \<open>Request\<close>. What is counted is a call in the source: what a library does for one call
  (the connections and retries of the Redis client, the timers of \<open>context\<close>), and the writing
  of the response and of the log line, are not. The loops of the source that could repeat calls
  (the attempts to find a free handle, the readiness checks) are bounded in the same way.
\<close>

section \<open>Metered programs\<close>

definition effort :: "('s \<Rightarrow> nat) \<Rightarrow> 's world \<Rightarrow> nat" where
  "effort meter w = w_tick w + meter (w_store w)"

definition costs :: "('s \<Rightarrow> nat) \<Rightarrow> nat \<Rightarrow> ('s, 'a) state \<Rightarrow> bool" where
  "costs meter n m \<longleftrightarrow> (\<forall>s. meter (snd (run_state m s)) \<le> meter s + n)"

lemma costs_bind:
  assumes "costs meter k m" and "k \<le> n" and "\<And>x. costs meter (n - k) (f x)"
  shows "costs meter n (State_Monad.bind m f)"
  unfolding costs_def
proof
  fix s
  obtain x s1 where m: "run_state m s = (x, s1)" by fastforce
  have "meter s1 \<le> meter s + k" using assms(1) m unfolding costs_def by (metis snd_conv)
  moreover have "meter (snd (run_state (f x) s1)) \<le> meter s1 + (n - k)" using assms(3) unfolding costs_def by blast
  ultimately show "meter (snd (run_state (State_Monad.bind m f) s)) \<le> meter s + n"
    using assms(2) by (simp add: run_state_bind m)
qed

lemma costs_return: "costs meter n (State_Monad.return x)"
  by (simp add: costs_def)

lemma costs_mono: "costs meter k m \<Longrightarrow> k \<le> n \<Longrightarrow> costs meter n m"
  unfolding costs_def by (meson add_left_mono le_trans)

lemma costs_if: "(b \<Longrightarrow> costs meter n m) \<Longrightarrow> (\<not> b \<Longrightarrow> costs meter n m') \<Longrightarrow> costs meter n (if b then m else m')"
  by simp

lemma costs_case_sum:
  "(\<And>e. costs meter n (f e)) \<Longrightarrow> (\<And>x. costs meter n (g x)) \<Longrightarrow>
   costs meter n (case r of Inl e \<Rightarrow> f e | Inr x \<Rightarrow> g x)"
  by (simp split: sum.split)

lemma costs_case_option:
  "costs meter n m \<Longrightarrow> (\<And>x. costs meter n (g x)) \<Longrightarrow> costs meter n (case r of None \<Rightarrow> m | Some x \<Rightarrow> g x)"
  by (simp split: option.split)

lemma costs_case_prod: "(\<And>a b. costs meter n (f a b)) \<Longrightarrow> costs meter n (case r of (a, b) \<Rightarrow> f a b)"
  by (simp split: prod.split)

lemma costs_ask: "costs (effort meter) 1 (ask f)"
  by (simp add: costs_def effort_def ask_def)

lemma costs_port_call: "costs (effort meter) 1 (port_call e f)"
  by (simp add: costs_def effort_def port_call_def)

lemma costs_on_admission: "costs (effort meter) 0 (on_admission f)"
  by (simp add: costs_def effort_def on_admission_def split: prod.split)

lemma costs_on_store: "costs meter n m \<Longrightarrow> costs (effort meter) n (on_store m)"
  by (auto simp: costs_def effort_def on_store_def split: prod.split) (metis snd_conv)

lemmas costs_rules = costs_return costs_if costs_case_sum costs_case_option costs_case_prod
  costs_bind [OF costs_ask] costs_bind [OF costs_port_call] costs_bind [OF costs_on_admission]
  costs_mono [OF costs_ask] costs_mono [OF costs_port_call] costs_mono [OF costs_on_admission]

section \<open>The flows over a metered store\<close>

locale metered_store =
  fixes ops :: "'s store_ops" and meter :: "'s \<Rightarrow> nat"
  assumes create_cost: "\<And>tx. costs meter 8 (so_create ops tx)"
    and get_cost: "\<And>h. costs meter 2 (so_get ops h)"
    and consume_cost: "\<And>h. costs meter 2 (so_consume ops h)"
begin

lemmas store_rules = costs_bind [OF costs_on_store [OF create_cost]] costs_bind [OF costs_on_store [OF get_cost]]
  costs_bind [OF costs_on_store [OF consume_cost]]

lemma load_cost: "sv_store sv = ops \<Longrightarrow> costs (effort meter) 3 (load sv h fl csrf b)"
  unfolding load_def now_call_def admission_release_def by (simp, intro costs_rules store_rules conjI impI; simp)

lemma consume_step_cost: "sv_store sv = ops \<Longrightarrow> costs (effort meter) 2 (consume sv h)"
  unfolding consume_def admission_release_def by (simp, intro costs_rules store_rules conjI impI; simp)

lemma create_step_cost:
  assumes "sv_store sv = ops"
  shows "costs (effort meter) 9 (create_transaction sv tx)"
  unfolding create_transaction_def now_call_def assms by (intro costs_rules store_rules; simp)

lemma token_cost: "costs (effort meter) 1 (new_opaque_token sv)"
  unfolding new_opaque_token_def by (intro costs_rules; simp)

lemma browser_cost: "costs (effort meter) 1 (start_browser_state sv v)"
  unfolding start_browser_state_def by (intro costs_rules token_cost; simp)

lemma open_cost: "sv_store sv = ops \<Longrightarrow> costs (effort meter) 11 (open_transaction sv b tx f)"
  unfolding open_transaction_def
  by (intro costs_rules costs_bind [OF browser_cost] costs_bind [OF token_cost] costs_bind [OF create_step_cost]; simp)

lemma reject_cost:
  "costs (effort meter) 1 (reject_login sv c code d)" "costs (effort meter) 1 (reject_consent sv c code d)"
  "costs (effort meter) 1 (reject_login_failure sv c e1 e2)" "costs (effort meter) 1 (reject_consent_failure sv c e1 e2)"
  unfolding reject_login_failure_def reject_consent_failure_def reject_login_def reject_consent_def Let_def
    State_Monad.bind_assoc
  by (intro costs_rules; simp)+

lemmas flow_rules = costs_rules costs_mono [OF reject_cost(1)] costs_mono [OF reject_cost(2)]
  costs_mono [OF reject_cost(3)] costs_mono [OF reject_cost(4)] costs_mono [OF open_cost] costs_bind [OF load_cost]
  costs_bind [OF consume_step_cost]

lemma start_login_cost: "sv_store sv = ops \<Longrightarrow> costs (effort meter) 13 (start_login sv challenge b)"
  unfolding start_login_def accept_remembered_login_def now_call_def Let_def by (intro flow_rules; simp)

lemma complete_login_cost: "sv_store sv = ops \<Longrightarrow> costs (effort meter) 9 (complete_login sv h input)"
  unfolding complete_login_def decide_login_def now_call_def Let_def by (intro flow_rules; simp)

lemma start_consent_cost: "sv_store sv = ops \<Longrightarrow> costs (effort meter) 13 (start_consent sv challenge b)"
  unfolding start_consent_def now_call_def Let_def by (intro flow_rules; simp)

lemma complete_consent_cost: "sv_store sv = ops \<Longrightarrow> costs (effort meter) 8 (complete_consent sv input)"
  unfolding complete_consent_def accept_consent_def accept_consent_decision_def Let_def by (intro flow_rules; simp)

lemma start_logout_cost: "sv_store sv = ops \<Longrightarrow> costs (effort meter) 13 (start_logout sv challenge b)"
  unfolding start_logout_def now_call_def Let_def by (intro flow_rules; simp)

lemma complete_logout_cost: "sv_store sv = ops \<Longrightarrow> costs (effort meter) 6 (complete_logout sv input)"
  unfolding complete_logout_def by (intro flow_rules; simp)

lemma ready_loop_cost: "costs (effort meter) (length is) (ready_loop sv is)"
  by (induction sv "is" rule: ready_loop.induct) (auto intro!: costs_rules)

lemma provider_cost:
  assumes "srv_provider s = service_provider sv" and "sv_store sv = ops" and "sv_readiness sv \<le> 13"
  shows "costs (effort meter) 13 (pv_start_login (srv_provider s) c b)"
    "costs (effort meter) 9 (pv_complete_login (srv_provider s) h li)"
    "costs (effort meter) 13 (pv_start_consent (srv_provider s) c b)"
    "costs (effort meter) 8 (pv_complete_consent (srv_provider s) ci)"
    "costs (effort meter) 13 (pv_start_logout (srv_provider s) c b)"
    "costs (effort meter) 6 (pv_complete_logout (srv_provider s) oi)"
    "costs (effort meter) 13 (pv_ready (srv_provider s))"
  using costs_mono [OF ready_loop_cost, of "[0..<sv_readiness sv]" 13 sv] assms(3)
  by (simp_all add: assms(1) service_provider_def ready_def start_login_cost [OF assms(2)] complete_login_cost [OF assms(2)]
      start_consent_cost [OF assms(2)] complete_consent_cost [OF assms(2)] start_logout_cost [OF assms(2)]
      complete_logout_cost [OF assms(2)])

lemma handler_cost:
  assumes "srv_provider s = service_provider sv" and "sv_store sv = ops" and "sv_readiness sv \<le> 13"
  shows "costs (effort meter) 13 (handle_route s r hs q)"
proof -
  note pv = provider_cost [OF assms]
  note rules = costs_rules costs_bind [OF pv(1)] costs_bind [OF pv(2)] costs_bind [OF pv(3)] costs_bind [OF pv(4)]
    costs_bind [OF pv(5)] costs_bind [OF pv(6)] costs_bind [OF pv(7)]
  have "costs (effort meter) 13 (handle_login s hs q)" "costs (effort meter) 13 (handle_login_callback s hs q)"
    "costs (effort meter) 13 (handle_consent s hs q)" "costs (effort meter) 13 (handle_consent_submit s hs q)"
    "costs (effort meter) 13 (handle_logout s hs q)" "costs (effort meter) 13 (handle_logout_submit s hs q)"
    "costs (effort meter) 13 (handle_ready s hs)"
    unfolding handle_login_def handle_login_callback_def handle_consent_def handle_consent_submit_def
      handle_logout_def handle_logout_submit_def handle_ready_def Let_def
    by (intro rules; simp)+
  then show ?thesis by (cases r) (simp_all add: costs_return)
qed

lemma serve_cost:
  assumes "srv_provider s = service_provider sv" and "sv_store sv = ops" and "sv_readiness sv \<le> 13"
  shows "costs (effort meter) 13 (serve s pick admitted rand q)"
  unfolding serve_def Let_def by (intro costs_rules handler_cost [OF assms])

end

section \<open>The stores\<close>

lemma redis_call_cost: "costs rs_tick 1 (redis_call env cmd)"
  by (simp add: costs_def redis_call_def split: prod.split)

lemma redis_step_cost: "costs rs_tick 1 (redis_time env)" "costs rs_tick 1 (redis_random_handle env)"
  by (simp_all add: costs_def redis_time_def redis_random_handle_def)

lemmas redis_rules = costs_return costs_if costs_case_sum costs_case_option costs_bind [OF redis_call_cost]
  costs_bind [OF redis_step_cost(1)] costs_bind [OF redis_step_cost(2)]

lemma redis_rounds_cost: "costs rs_tick (2 * n) (redis_create_rounds n env payload ttl)"
proof (induction n)
  case (Suc n)
  have "costs rs_tick (2 * Suc n - 1 - 1) (redis_create_rounds n env payload ttl)" using Suc.IH by simp
  then show ?case unfolding redis_create_rounds.simps by (intro redis_rules; simp)
qed (simp add: costs_return)

interpretation redis_meter: metered_store "redis_ops env" rs_tick for env :: "'r redis_env"
proof
  have "costs rs_tick (8 - 1 - 1) (redis_create_rounds 3 env payload ttl)" for payload ttl
    using redis_rounds_cost [of 3 env payload ttl] by simp
  then show "costs rs_tick 8 (so_create (redis_ops env) tx)" for tx
    unfolding redis_ops_def store_ops.simps redis_create_def Let_def by (intro redis_rules; simp)
  show "costs rs_tick 2 (so_get (redis_ops env) h)" "costs rs_tick 2 (so_consume (redis_ops env) h)" for h
    unfolding redis_ops_def store_ops.simps redis_get_def redis_consume_def redis_load_def by (intro redis_rules; simp)+
qed

lemma mem_step_cost: "costs ms_tick 1 mem_time" "costs ms_tick 1 random_handle" "costs ms_tick 0 (create_attempt now tx h)"
  by (simp_all add: costs_def mem_time_def random_handle_def create_attempt_def remove_expired_locked_def Let_def
      run_state_bind run_state_return split: prod.split if_splits)

lemmas mem_rules = costs_return costs_if costs_case_sum costs_case_option costs_bind [OF mem_step_cost(1)]
  costs_bind [OF mem_step_cost(2)] costs_bind [OF mem_step_cost(3)]

lemma mem_rounds_cost: "costs ms_tick n (create_rounds n now tx)"
proof (induction n)
  case (Suc n)
  have "costs ms_tick (Suc n - 1 - 0) (create_rounds n now tx)" using Suc.IH by simp
  then show ?case unfolding create_rounds.simps by (intro mem_rules; simp)
qed (simp add: costs_return)

lemma costs_pure: "(\<And>s. meter (snd (f s)) = meter s) \<Longrightarrow> costs meter 0 (State f)"
  by (simp add: costs_def)

interpretation memory_meter: metered_store mem_ops ms_tick
proof
  have "costs ms_tick (8 - 1) (create_rounds 3 now tx)" for now tx
    using costs_mono [OF mem_rounds_cost, of 3 7] by simp
  then show "costs ms_tick 8 (so_create mem_ops tx)" for tx
    unfolding mem_ops_def store_ops.simps mem_create_def by (intro mem_rules; simp)
  show "costs ms_tick 2 (so_get mem_ops h)" "costs ms_tick 2 (so_consume mem_ops h)" for h
    unfolding mem_ops_def store_ops.simps mem_get_def mem_consume_def
    by (intro mem_rules costs_bind [OF costs_pure]; simp split: option.split)+
qed

lemma assembled_service:
  assumes "assemble_server wr out ops lib = Inr (s, counter)"
  obtains sv where "srv_provider s = service_provider sv" "sv_store sv = ops" "sv_readiness sv \<le> 13"
proof -
  obtain cfg where "srv_provider s = service_provider \<lparr>sv_cfg = cfg, sv_ports = adapter_ports out wr, sv_store = ops,
      sv_lib = lib, sv_readiness = readiness_count wr\<rparr>"
    using assms by (auto simp: assemble_server_def and_then_Inr new_service_def new_server_def split: sum.splits)
  then show ?thesis by (rule that) (simp_all add: readiness_count_def split: store_choice.split)
qed

section \<open>Properties\<close>

text \<open>C38. Every request to the assembled program over Redis ends after at most seventeen calls to
  anything outside the program, whatever each of them answers: four readings of the middleware
  (the random source for a request id, the clock for the admission and twice for the log), and
  thirteen calls behind it, to the clock, the random source, Hydra, Kratos, the policy and the
  Redis client. When it ends, its place among the requests in flight is free again, whether it
  was admitted, refused or failed.\<close>

theorem requests_end:
  assumes "assemble_server wr out (redis_ops renv) golib = Inr (s, counter)"
    and "run_state (handle_request env s pick refused q) w = (answer, w')"
  shows "fr_reads w' + w_tick (fr_world w') + rs_tick (w_store (fr_world w'))
      \<le> fr_reads w + w_tick (fr_world w) + rs_tick (w_store (fr_world w)) + 17
    \<and> gt_in_flight (fr_gate w') = gt_in_flight (fr_gate w)"
proof -
  obtain sv where sv: "srv_provider s = service_provider sv" "sv_store sv = redis_ops renv" "sv_readiness sv \<le> 13"
    by (rule assembled_service [OF assms(1)])
  have served: "w_tick (snd (run_state (serve s pick b rand q) v)) + rs_tick (w_store (snd (run_state (serve s pick b rand q) v)))
      \<le> w_tick v + rs_tick (w_store v) + 13" for b rand v
    using redis_meter.serve_cost [OF sv] by (simp add: costs_def effort_def)
  obtain x where x: "snd (run_state (handle_request env s pick refused q) w) = x" "fr_reads x \<le> fr_reads w + 4"
    "fr_world x = fr_world w \<or> (\<exists>b rand. fr_world x = snd (run_state (serve s pick b rand q) (fr_world w)))"
    "gt_in_flight (fr_gate x) = gt_in_flight (fr_gate w)"
    by (rule handle_request_run)
  have "w_tick (fr_world x) + rs_tick (w_store (fr_world x)) \<le> w_tick (fr_world w) + rs_tick (w_store (fr_world w)) + 13"
    using x(3) served by auto
  moreover have "w' = x" using assms(2) x(1) by simp
  ultimately show ?thesis using x(2,4) by simp
qed

definition sample_front :: "string gomap redis_state world front" where
  "sample_front = snd (run_state (handle_request \<lparr>fe_rand = (\<lambda>n. Some (\<lambda>i. CHR ''a'')), fe_now = int, fe_round = (\<lambda>x. x)\<rparr>
     sample_stack_server table_router (\<lambda>m p. []) sample_callback)
     \<lparr>fr_world = sample_stack_world, fr_gate = new_gate 0, fr_reads = 0\<rparr>)"

theorem requests_end_witness:
  "fr_reads sample_front + w_tick (fr_world sample_front) + rs_tick (w_store (fr_world sample_front)) \<le> 17
   \<and> gt_in_flight (fr_gate sample_front) = 0"
proof -
  obtain counter where server: "assemble_server sample_wiring sample_outside (redis_ops sample_renv) sample_lib
      = Inr (sample_stack_server, counter)"
    using sample_assemble_server by blast
  show ?thesis
    using requests_end [OF server surjective_pairing, of "\<lparr>fe_rand = (\<lambda>n. Some (\<lambda>i. CHR ''a'')), fe_now = int, fe_round = (\<lambda>x. x)\<rparr>"
      table_router "\<lambda>m p. []" sample_callback "\<lparr>fr_world = sample_stack_world, fr_gate = new_gate 0, fr_reads = 0\<rparr>"]
    unfolding sample_front_def [symmetric] by (simp add: sample_stack_world_def new_gate_def)
qed

end
