(* ===== verification/UiServer.thy ===== *)
theory UiServer
  imports HttpWire HttpClient EnvConfig
begin

text \<open>
  The sample external UI of the end-to-end stack, \<open>realstack/ui/main.go\<close>. It takes the
  handoff of the provider, sends the browser to Kratos, renders the flows of Kratos and the
  consent form. A page is the data given to the HTML template, and the
  templates are the forms they make of it; the process is in theory \<open>SideServers\<close>. The JSON decoder and the formatting of \<open>float64\<close> are
  parameters, and so is the pattern router.
\<close>

section \<open>The server\<close>

record ui_server =
  ui_kratos_internal :: url
  ui_kratos_browser :: url
  ui_provider :: url
  ui_browser :: url
  ui_login_aal :: string

record form_field =
  ff_name :: string
  ff_type :: string
  ff_value :: string
  ff_label :: string
  ff_hidden :: bool
  ff_submit :: bool
  ff_checked :: bool
  ff_required :: bool

definition empty_field :: form_field where
  "empty_field = \<lparr>ff_name = [], ff_type = [], ff_value = [], ff_label = [], ff_hidden = False, ff_submit = False,
     ff_checked = False, ff_required = False\<rparr>"

record flow_page =
  fp_title :: string
  fp_action :: string
  fp_method :: string
  fp_flow_id :: string
  fp_fields :: "form_field list"

record consent_page =
  cp_action :: string
  cp_fields :: "form_field list"

text \<open>What a handler answers, and the \<open>Set-Cookie\<close> headers of Kratos it passes on.\<close>

datatype ui_answer =
    UiRedirect string
  | UiError string int
  | UiStatus int
  | UiNotFound
  | UiFlow flow_page
  | UiConsent consent_page

definition ui_required_url :: "env \<Rightarrow> string \<Rightarrow> string \<Rightarrow> url res" where
  "ui_required_url getenv name fallback =
     (let given = trim_space (getenv name); v = (if given = [] then fallback else given) in
      case absolute_http_url v of
        None \<Rightarrow> Inl (Msg (name @ '' must be an absolute HTTP URL without query or fragment''))
      | Some u \<Rightarrow> Inr u)"

definition new_ui_server :: "env \<Rightarrow> ui_server res" where
  "new_ui_server getenv =
     and_then (ui_required_url getenv ''KRATOS_INTERNAL_URL'' ''http://kratos:4433'') (\<lambda>kratos_internal.
     and_then (ui_required_url getenv ''KRATOS_BROWSER_URL'' ''http://127.0.0.1:4433'') (\<lambda>kratos_browser.
     and_then (ui_required_url getenv ''PROVIDER_BROWSER_URL'' ''http://127.0.0.1:8080'') (\<lambda>prov.
     and_then (ui_required_url getenv ''UI_BROWSER_URL'' ''http://127.0.0.1:3000'') (\<lambda>browser.
     let login_aal = to_lower (trim_space (env_or_default getenv ''KRATOS_LOGIN_AAL'' ''aal1'')) in
     if login_aal \<noteq> ''aal1'' \<and> login_aal \<noteq> ''aal2'' then Inl (Msg ''KRATOS_LOGIN_AAL must be aal1 or aal2'')
     else Inr \<lparr>ui_kratos_internal = kratos_internal, ui_kratos_browser = kratos_browser, ui_provider = prov,
            ui_browser = browser, ui_login_aal = login_aal\<rparr>))))"

section \<open>Values from the query\<close>

definition valid_handoff_value :: "string \<Rightarrow> bool" where
  "valid_handoff_value v \<longleftrightarrow> v \<noteq> [] \<and> length v \<le> 256 \<and> \<not> contains_any v [CHR 0x0D, CHR 0x0A]"

definition ui_handoff :: "query_values \<Rightarrow> (string \<times> string) option" where
  "ui_handoff query =
     (let tx = trim_space (values_get query ''transaction''); csrf = trim_space (values_get query ''csrf'') in
      if valid_handoff_value tx \<and> valid_handoff_value csrf then Some (tx, csrf) else None)"

definition safe_list_with_default :: "string \<Rightarrow> string list \<Rightarrow> string list option" where
  "safe_list_with_default v fallback =
     (let parts = str_fields v in
      if length parts = 0 then Some fallback
      else if length parts > 64 then None
      else if list_ex (\<lambda>p. length p > 128 \<or> contains_any p [CHR 0x0D, CHR 0x0A]) parts then None
      else Some parts)"

definition safe_scopes :: "string \<Rightarrow> string list option" where
  "safe_scopes v = safe_list_with_default v [''openid'']"

definition safe_list :: "string \<Rightarrow> string list option" where
  "safe_list v = safe_list_with_default v []"

definition boolean_query :: "query_values \<Rightarrow> string \<Rightarrow> bool option" where
  "boolean_query query name =
     (let v = trim_space (values_get query name) in if v = [] then Some False else parse_bool v)"

text \<open>The error, an absent value, or the value.\<close>

definition max_age_query :: "query_values \<Rightarrow> int option option" where
  "max_age_query query =
     (case map_get query ''max_age'' of
        None \<Rightarrow> Some None
      | Some vs \<Rightarrow>
          if length vs \<noteq> 1 \<or> trim_space (vs ! 0) = [] then None
          else case parse_int64 (trim_space (vs ! 0)) of
            None \<Rightarrow> None
          | Some n \<Rightarrow> if n < 0 then None else Some (Some n))"

definition valid_flow_id :: "string \<Rightarrow> bool" where
  "valid_flow_id v \<longleftrightarrow> \<not> (v = [] \<or> length v > 128 \<or> contains_any v ([CHR 0x0D, CHR 0x0A] @ ''/?#''))"

section \<open>URLs\<close>

definition endpoint_url :: "url \<Rightarrow> string \<Rightarrow> query_values \<Rightarrow> url" where
  "endpoint_url base path query =
     base\<lparr>u_path := trim_right_slash (u_path base) @ path, u_raw_query := values_encode query, u_fragment := []\<rparr>"

definition browser_endpoint :: "url \<Rightarrow> string \<Rightarrow> query_values \<Rightarrow> string" where
  "browser_endpoint base path query = url_string (endpoint_url base path query)"

definition provider_endpoint :: "ui_server \<Rightarrow> string \<Rightarrow> query_values \<Rightarrow> string" where
  "provider_endpoint s path query = browser_endpoint (ui_provider s) path query"

definition provider_callback :: "ui_server \<Rightarrow> string \<Rightarrow> string \<Rightarrow> string \<Rightarrow> string" where
  "provider_callback s path tx csrf = provider_endpoint s path [(''transaction'', [tx]), (''csrf'', [csrf])]"

definition same_origin :: "url \<Rightarrow> url \<Rightarrow> bool" where
  "same_origin v origin \<longleftrightarrow> u_scheme v = u_scheme origin \<and> u_host v = u_host origin"

definition validate_ui_return_to :: "ui_server \<Rightarrow> string \<Rightarrow> string option" where
  "validate_ui_return_to s v =
     (case url_parse v of
        None \<Rightarrow> None
      | Some u \<Rightarrow>
          if u_user u \<noteq> None \<or> u_fragment u \<noteq> [] \<or> u_raw_query u \<noteq> [] \<or> \<not> same_origin u (ui_browser s) then None
          else if u_path u \<noteq> ''/login'' \<and> u_path u \<noteq> ''/settings'' then None
          else Some (url_string u))"

definition ui_redirect :: "web_request \<Rightarrow> string \<Rightarrow> ui_answer" where
  "ui_redirect q target = (if wq_method q \<noteq> ''GET'' then UiStatus 405 else UiRedirect target)"

section \<open>Fields of a Kratos flow\<close>

definition string_value :: "(float64 \<Rightarrow> string) \<Rightarrow> jval option \<Rightarrow> string" where
  "string_value format_float v =
     (case v of
        Some (JStr s) \<Rightarrow> s
      | Some (JFloat f) \<Rightarrow> format_float f
      | Some (JBool b) \<Rightarrow> (if b then ''true'' else ''false'')
      | _ \<Rightarrow> [])"

definition bool_value :: "jval option \<Rightarrow> bool" where
  "bool_value v = (case v of Some (JBool b) \<Rightarrow> b | _ \<Rightarrow> False)"

definition str_contains :: "string \<Rightarrow> string \<Rightarrow> bool" where
  "str_contains s part \<longleftrightarrow> index_of part s \<noteq> None"

definition sensitive_flow_field :: "string \<Rightarrow> bool" where
  "sensitive_flow_field name =
     (let n = to_lower (trim_space name) in
      str_contains n ''totp_secret'' \<or> str_contains n ''totp_url'' \<or> str_contains n ''recovery_code''
      \<or> str_contains n ''recovery_codes'' \<or> str_contains n ''lookup_secret'')"

definition safe_flow_field ::
  "(float64 \<Rightarrow> string) \<Rightarrow> string \<Rightarrow> string \<Rightarrow> jval gomap \<Rightarrow> form_field option" where
  "safe_flow_field format_float name input_type attributes =
     (let v = string_value format_float (map_get attributes ''value'');
          required = bool_value (map_get attributes ''required'') in
      if sensitive_flow_field name then None
      else if name = ''csrf_token'' then Some (empty_field\<lparr>ff_hidden := True, ff_name := name, ff_value := v\<rparr>)
      else if name = ''identifier'' then
        (if input_type \<noteq> ''email'' \<and> input_type \<noteq> ''text'' then None
         else Some (empty_field\<lparr>ff_name := name, ff_type := input_type, ff_value := v, ff_label := ''Identifier'',
           ff_required := required\<rparr>))
      else if name = ''traits.email'' then
        (if input_type \<noteq> ''email'' \<and> input_type \<noteq> ''text'' then None
         else Some (empty_field\<lparr>ff_name := name, ff_type := input_type, ff_value := v, ff_label := ''Email'',
           ff_required := required\<rparr>))
      else if name = ''traits.name'' then
        (if input_type \<noteq> ''text'' then None
         else Some (empty_field\<lparr>ff_name := name, ff_type := input_type, ff_value := v, ff_label := ''Name'',
           ff_required := required\<rparr>))
      else if name = ''password'' then
        (if input_type \<noteq> ''password'' \<and> input_type \<noteq> ''text'' then None
         else Some (empty_field\<lparr>ff_name := name, ff_type := ''password'', ff_label := ''Password'', ff_required := required\<rparr>))
      else if name = ''totp_code'' then
        (if input_type \<noteq> ''text'' \<and> input_type \<noteq> ''number'' \<and> input_type \<noteq> ''password'' then None
         else Some (empty_field\<lparr>ff_name := name, ff_type := ''text'', ff_label := ''Authenticator code'',
           ff_required := required\<rparr>))
      else if input_type \<noteq> ''submit'' \<or> name \<noteq> ''method'' then None
      else if v \<noteq> ''password'' \<and> v \<noteq> ''profile'' \<and> v \<noteq> ''totp'' then None
      else Some (empty_field\<lparr>ff_name := name, ff_value := v, ff_label := v, ff_submit := True\<rparr>))"

fun flow_fields_loop :: "(float64 \<Rightarrow> string) \<Rightarrow> jval list \<Rightarrow> form_field list" where
  "flow_fields_loop format_float [] = []"
| "flow_fields_loop format_float (raw # rest) =
     (case raw of
        JObj node \<Rightarrow>
          (case map_get node ''attributes'' of
             Some (JObj attributes) \<Rightarrow>
               (case safe_flow_field format_float
                       (trim_space (string_value format_float (map_get attributes ''name'')))
                       (to_lower (trim_space (string_value format_float (map_get attributes ''type'')))) attributes of
                  Some field \<Rightarrow> field # flow_fields_loop format_float rest
                | None \<Rightarrow> flow_fields_loop format_float rest)
           | _ \<Rightarrow> flow_fields_loop format_float rest)
      | _ \<Rightarrow> flow_fields_loop format_float rest)"

definition safe_flow_fields :: "(float64 \<Rightarrow> string) \<Rightarrow> jval option \<Rightarrow> form_field list" where
  "safe_flow_fields format_float v = (case v of Some (JArr nodes) \<Rightarrow> flow_fields_loop format_float nodes | _ \<Rightarrow> [])"

section \<open>Kratos flows\<close>

definition forwarded_cookie :: "string \<Rightarrow> bool" where
  "forwarded_cookie name \<longleftrightarrow>
     name = ''ory_kratos_session'' \<or> name = ''csrf_token'' \<or> has_prefix name ''csrf_token_''
     \<or> has_suffix name ''_csrf_token''"

definition kratos_cookie_header :: "web_request \<Rightarrow> string" where
  "kratos_cookie_header q =
     join_with ''; '' (map (\<lambda>(n, v). n @ ''='' @ v) (filter (\<lambda>(n, v). forwarded_cookie n) (read_cookies q)))"

text \<open>The transport also reports the \<open>Set-Cookie\<close> headers of the reply.\<close>

type_synonym flow_transport = "http_request \<Rightarrow> (http_reply \<times> string list) res"
type_synonym flow_decoder = "string \<Rightarrow> bool \<Rightarrow> jval gomap option"

definition get_kratos_flow ::
  "ui_server \<Rightarrow> flow_transport \<Rightarrow> flow_decoder \<Rightarrow> web_request \<Rightarrow> string \<Rightarrow> string \<Rightarrow> string list \<times> jval gomap option" where
  "get_kratos_flow s send decode q kind flow_id =
     (if kind \<noteq> ''login'' \<and> kind \<noteq> ''registration'' \<and> kind \<noteq> ''settings'' then ([], None)
      else case new_request ''GET'' (endpoint_url (ui_kratos_internal s) (''/self-service/'' @ kind @ ''/flows'')
                   [(''id'', [flow_id])])
                  (if kratos_cookie_header q \<noteq> [] then [(''Cookie'', kratos_cookie_header q)] else []) [] of
        None \<Rightarrow> ([], None)
      | Some request \<Rightarrow>
          (case send request of
             Inl e \<Rightarrow> ([], None)
           | Inr (response, cookies) \<Rightarrow>
               if \<not> success_status (hr_status response) then (cookies, None)
               else (cookies, decode (take (2 ^ 20) (hr_body response))
                      (length (hr_body response) < 2 ^ 20 \<and> hr_body_fails response))))"

definition flow_action :: "ui_server \<Rightarrow> jval option \<Rightarrow> string \<Rightarrow> string \<Rightarrow> string option" where
  "flow_action s v kind flow_id =
     (let raw = (case v of
            Some (JStr t) \<Rightarrow> if trim_space t = []
              then browser_endpoint (ui_kratos_internal s) (''/self-service/'' @ kind) [(''flow'', [flow_id])] else t
          | _ \<Rightarrow> browser_endpoint (ui_kratos_internal s) (''/self-service/'' @ kind) [(''flow'', [flow_id])]) in
      case url_parse raw of
        None \<Rightarrow> None
      | Some u \<Rightarrow>
          if u_user u \<noteq> None \<or> u_fragment u \<noteq> [] \<or> u_scheme u = [] \<or> u_host u = [] then None
          else if \<not> same_origin u (ui_kratos_internal s) \<and> \<not> same_origin u (ui_kratos_browser s) then None
          else if \<not> has_prefix (u_path u) (''/self-service/'' @ kind @ ''/'') \<and> u_path u \<noteq> ''/self-service/'' @ kind then None
          else
            (let u1 = u\<lparr>u_scheme := u_scheme (ui_kratos_browser s), u_host := u_host (ui_kratos_browser s),
                   u_user := None, u_fragment := []\<rparr> in
             if u_raw_query u1 = [] then Some (url_string (u1\<lparr>u_raw_query := values_encode [(''flow'', [flow_id])]\<rparr>))
             else (let (vs, bad) = parse_query (u_raw_query u1) in
               if bad \<or> length (case_option [] id (map_get vs ''flow'')) \<noteq> 1 \<or> values_get vs ''flow'' \<noteq> flow_id then None
               else Some (url_string u1))))"

definition flow_title :: "string \<Rightarrow> string" where
  "flow_title kind =
     (if kind = ''login'' then ''Login'' else if kind = ''registration'' then ''Registration''
      else if kind = ''settings'' then ''Settings'' else ''Flow'')"

definition render_kratos_flow ::
  "ui_server \<Rightarrow> flow_transport \<Rightarrow> flow_decoder \<Rightarrow> (float64 \<Rightarrow> string) \<Rightarrow> web_request \<Rightarrow> string \<Rightarrow> string
     \<Rightarrow> ui_answer \<times> string list" where
  "render_kratos_flow s send decode format_float q kind flow_id =
     (if \<not> valid_flow_id flow_id then (UiError ''invalid flow'' 400, [])
      else case get_kratos_flow s send decode q kind flow_id of
        (cookies, None) \<Rightarrow> (UiError ''unable to load flow'' 502, cookies)
      | (cookies, Some flow) \<Rightarrow>
          (case map_get flow ''ui'' of
             Some (JObj ui) \<Rightarrow>
               (case flow_action s (map_get ui ''action'') kind flow_id of
                  None \<Rightarrow> (UiError ''invalid flow action'' 502, cookies)
                | Some action \<Rightarrow>
                    (let fields = safe_flow_fields format_float (map_get ui ''nodes'') in
                     if length fields = 0 then (UiError ''flow has no usable fields'' 502, cookies)
                     else (UiFlow \<lparr>fp_title = flow_title kind, fp_action = action, fp_method = ''POST'',
                             fp_flow_id = flow_id, fp_fields = fields\<rparr>, cookies)))
           | _ \<Rightarrow> (UiError ''invalid flow'' 502, cookies)))"

section \<open>Handlers\<close>

definition start_standalone_login :: "ui_server \<Rightarrow> web_request \<Rightarrow> ui_answer" where
  "start_standalone_login s q =
     (let v = trim_space (values_get (request_query q) ''return_to'') in
      case (if v = [] then Some (browser_endpoint (ui_browser s) ''/settings'' []) else validate_ui_return_to s v) of
        None \<Rightarrow> UiError ''invalid return_to'' 400
      | Some return_to \<Rightarrow>
          ui_redirect q (browser_endpoint (ui_kratos_browser s) ''/self-service/login/browser''
            [(''aal'', [ui_login_aal s]), (''return_to'', [return_to])]))"

definition ui_start_login :: "ui_server \<Rightarrow> web_request \<Rightarrow> ui_answer" where
  "ui_start_login s q =
     (let query = request_query q in
      case ui_handoff query of
        None \<Rightarrow> UiError ''invalid login handoff'' 400
      | Some (tx, csrf) \<Rightarrow>
          (let v = trim_space (values_get query ''aal'');
               login_aal = (if v = [] then ui_login_aal s else to_lower v) in
           if v \<noteq> [] \<and> login_aal \<noteq> ''aal1'' \<and> login_aal \<noteq> ''aal2'' then UiError ''invalid login handoff'' 400
           else
             (let params = [(''aal'', [login_aal]), (''return_to'', [provider_callback s ''/login/callback'' tx csrf])] in
              case boolean_query query ''force_reauth'' of
                None \<Rightarrow> UiError ''invalid login handoff'' 400
              | Some force_reauth \<Rightarrow>
                  (case max_age_query query of
                     None \<Rightarrow> UiError ''invalid login handoff'' 400
                   | Some max_age \<Rightarrow>
                       ui_redirect q (browser_endpoint (ui_kratos_browser s) ''/self-service/login/browser''
                         (if force_reauth \<or> (case max_age of Some n \<Rightarrow> n \<ge> 0 | None \<Rightarrow> False)
                          then values_set ''refresh'' ''true'' params else params))))))"

definition ui_start_logout :: "ui_server \<Rightarrow> web_request \<Rightarrow> ui_answer" where
  "ui_start_logout s q =
     (case ui_handoff (request_query q) of
        None \<Rightarrow> UiError ''invalid logout handoff'' 400
      | Some (tx, csrf) \<Rightarrow>
          ui_redirect q (browser_endpoint (ui_kratos_browser s) ''/self-service/logout/browser''
            [(''return_to'', [browser_endpoint (ui_browser s) ''/logout/complete'' [(''transaction'', [tx]), (''csrf'', [csrf])]])]))"

definition hidden_field :: "string \<Rightarrow> string \<Rightarrow> form_field" where
  "hidden_field name v = empty_field\<lparr>ff_hidden := True, ff_name := name, ff_value := v\<rparr>"

definition logout_complete :: "ui_server \<Rightarrow> web_request \<Rightarrow> ui_answer" where
  "logout_complete s q =
     (case ui_handoff (request_query q) of
        None \<Rightarrow> UiError ''invalid logout handoff'' 400
      | Some (tx, csrf) \<Rightarrow>
          UiFlow \<lparr>fp_title = ''Logout'', fp_action = provider_endpoint s ''/logout'' [], fp_method = ''POST'',
            fp_flow_id = [], fp_fields = [hidden_field ''transaction'' tx, hidden_field ''csrf'' csrf]\<rparr>)"

definition render_consent :: "ui_server \<Rightarrow> web_request \<Rightarrow> ui_answer" where
  "render_consent s q =
     (let query = request_query q in
      case ui_handoff query of
        None \<Rightarrow> UiError ''invalid consent handoff'' 400
      | Some (tx, csrf) \<Rightarrow>
          (case (safe_scopes (values_get query ''scope''), safe_list (values_get query ''audience'')) of
             (Some scopes, Some audiences) \<Rightarrow>
               UiConsent \<lparr>cp_action = provider_endpoint s ''/consent'' [],
                 cp_fields = [hidden_field ''transaction'' tx, hidden_field ''csrf'' csrf]
                   @ (if values_get query ''skip_consent'' = ''true'' then [hidden_field ''skip_consent'' ''true''] else [])
                   @ map (hidden_field ''grant_scope'') scopes @ map (hidden_field ''grant_audience'') audiences\<rparr>
           | _ \<Rightarrow> UiError ''invalid consent handoff'' 400))"

definition ui_root :: "ui_server \<Rightarrow> web_request \<Rightarrow> ui_answer" where
  "ui_root s q =
     (if wq_path q \<noteq> ''/'' then UiNotFound else ui_redirect q (browser_endpoint (ui_browser s) ''/login'' []))"

definition ui_health :: "web_request \<Rightarrow> ui_answer" where
  "ui_health q = (if wq_method q \<noteq> ''GET'' then UiStatus 405 else UiStatus 200)"

definition ui_error_page :: "web_request \<Rightarrow> ui_answer" where
  "ui_error_page q = (if wq_method q \<noteq> ''GET'' then UiStatus 405 else UiError ''flow failed'' 400)"

definition ui_login ::
  "ui_server \<Rightarrow> flow_transport \<Rightarrow> flow_decoder \<Rightarrow> (float64 \<Rightarrow> string) \<Rightarrow> web_request \<Rightarrow> ui_answer \<times> string list" where
  "ui_login s send decode format_float q =
     (let flow = trim_space (values_get (request_query q) ''flow'') in
      if flow = ''login'' then (ui_start_login s q, [])
      else if flow = ''consent'' then (render_consent s q, [])
      else if flow = ''logout'' then (ui_start_logout s q, [])
      else if flow = [] then (start_standalone_login s q, [])
      else render_kratos_flow s send decode format_float q ''login'' flow)"

definition ui_registration ::
  "ui_server \<Rightarrow> flow_transport \<Rightarrow> flow_decoder \<Rightarrow> (float64 \<Rightarrow> string) \<Rightarrow> web_request \<Rightarrow> ui_answer \<times> string list" where
  "ui_registration s send decode format_float q =
     (let flow_id = trim_space (values_get (request_query q) ''flow'') in
      if flow_id = []
      then (ui_redirect q (browser_endpoint (ui_kratos_browser s) ''/self-service/registration/browser''
              [(''return_to'', [browser_endpoint (ui_browser s) ''/login'' []])]), [])
      else render_kratos_flow s send decode format_float q ''registration'' flow_id)"

definition ui_settings ::
  "ui_server \<Rightarrow> flow_transport \<Rightarrow> flow_decoder \<Rightarrow> (float64 \<Rightarrow> string) \<Rightarrow> web_request \<Rightarrow> ui_answer \<times> string list" where
  "ui_settings s send decode format_float q =
     (let flow_id = trim_space (values_get (request_query q) ''flow'') in
      if flow_id = []
      then (ui_redirect q (browser_endpoint (ui_kratos_browser s) ''/self-service/settings/browser''
              [(''return_to'', [browser_endpoint (ui_browser s) ''/settings'' []])]), [])
      else render_kratos_flow s send decode format_float q ''settings'' flow_id)"

datatype ui_route = UiRoot | UiHealth | UiLogin | UiRegistration | UiSettings | UiLogoutComplete | UiErrorPage

definition ui_routes :: "(string \<times> ui_route) list" where
  "ui_routes =
     [(''/'', UiRoot), (''/healthz'', UiHealth), (''/login'', UiLogin), (''/registration'', UiRegistration),
      (''/settings'', UiSettings), (''/logout/complete'', UiLogoutComplete), (''/error'', UiErrorPage)]"

fun ui_handle ::
  "ui_server \<Rightarrow> flow_transport \<Rightarrow> flow_decoder \<Rightarrow> (float64 \<Rightarrow> string) \<Rightarrow> ui_route \<Rightarrow> web_request
     \<Rightarrow> ui_answer \<times> string list" where
  "ui_handle s send decode format_float UiRoot q = (ui_root s q, [])"
| "ui_handle s send decode format_float UiHealth q = (ui_health q, [])"
| "ui_handle s send decode format_float UiLogin q = ui_login s send decode format_float q"
| "ui_handle s send decode format_float UiRegistration q = ui_registration s send decode format_float q"
| "ui_handle s send decode format_float UiSettings q = ui_settings s send decode format_float q"
| "ui_handle s send decode format_float UiLogoutComplete q = (logout_complete s q, [])"
| "ui_handle s send decode format_float UiErrorPage q = (ui_error_page q, [])"

definition browser_origin :: "url \<Rightarrow> string" where
  "browser_origin u = u_scheme u @ ''://'' @ u_host u"

definition ui_security_headers :: "ui_server \<Rightarrow> (string \<times> string) list" where
  "ui_security_headers s =
     [(''Cache-Control'', ''no-store''),
      (''Content-Security-Policy'', ''default-src '' @ [CHR 0x27] @ ''none'' @ [CHR 0x27] @ ''; frame-ancestors ''
         @ [CHR 0x27] @ ''none'' @ [CHR 0x27] @ ''; base-uri '' @ [CHR 0x27] @ ''none'' @ [CHR 0x27] @ ''; form-action ''
         @ join_with '' '' [[CHR 0x27] @ ''self'' @ [CHR 0x27], browser_origin (ui_kratos_browser s), browser_origin (ui_provider s)]),
      (''Referrer-Policy'', ''no-referrer''),
      (''X-Content-Type-Options'', ''nosniff''),
      (''X-Frame-Options'', ''DENY'')]"

section \<open>The pages as forms\<close>

text \<open>
  What the two templates put into the page, apart from its text: a form and its controls, in
  order. The escaping of \<open>html/template\<close> and its reversal by the browser are left out.
\<close>

datatype control =
    HiddenInput string string
  | SubmitButton string string string
  | LabelledInput string string string string bool bool

record html_form =
  hf_method :: string
  hf_action :: string
  hf_controls :: "control list"

definition flow_control :: "form_field \<Rightarrow> control" where
  "flow_control f =
     (if ff_hidden f then HiddenInput (ff_name f) (ff_value f)
      else if ff_submit f then SubmitButton (ff_name f) (ff_value f) (ff_label f)
      else LabelledInput (ff_label f) (ff_type f) (ff_name f) (ff_value f) (ff_checked f) (ff_required f))"

definition flow_form :: "flow_page \<Rightarrow> html_form" where
  "flow_form page = \<lparr>hf_method = fp_method page, hf_action = fp_action page, hf_controls = map flow_control (fp_fields page)\<rparr>"

definition consent_form :: "string \<Rightarrow> consent_page \<Rightarrow> html_form" where
  "consent_form decision page = \<lparr>hf_method = ''post'', hf_action = cp_action page,
     hf_controls = map (\<lambda>f. HiddenInput (ff_name f) (ff_value f)) (cp_fields page) @ [HiddenInput ''decision'' decision]\<rparr>"

definition consent_forms :: "consent_page \<Rightarrow> html_form list" where
  "consent_forms page = [consent_form ''accept'' page, consent_form ''deny'' page]"

section \<open>What a page may hold\<close>

definition ui_field_ok :: "form_field \<Rightarrow> bool" where
  "ui_field_ok f \<longleftrightarrow>
     ff_name f \<in> set [''csrf_token'', ''identifier'', ''traits.email'', ''traits.name'', ''password'', ''totp_code'', ''method'']
     \<and> (ff_name f \<in> set [''password'', ''totp_code''] \<longrightarrow> ff_value f = [])
     \<and> (ff_name f = ''method'' \<longrightarrow> ff_value f \<in> set [''password'', ''profile'', ''totp''])"

definition ui_action_ok :: "ui_server \<Rightarrow> string \<Rightarrow> bool" where
  "ui_action_ok s action \<longleftrightarrow>
     (\<exists>u. action = url_string u \<and> same_origin u (ui_kratos_browser s) \<and> u_user u = None \<and> u_fragment u = []
        \<and> (\<exists>kind\<in>set [''login'', ''registration'', ''settings''].
             u_path u = ''/self-service/'' @ kind \<or> has_prefix (u_path u) (''/self-service/'' @ kind @ ''/'')))"

definition ui_redirect_ok :: "ui_server \<Rightarrow> string \<Rightarrow> bool" where
  "ui_redirect_ok s target \<longleftrightarrow>
     (\<exists>p query. target = browser_endpoint (ui_kratos_browser s) (''/self-service/'' @ p) query
        \<or> target = browser_endpoint (ui_browser s) p query)"

fun ui_answer_ok :: "ui_server \<Rightarrow> web_request \<Rightarrow> ui_answer \<Rightarrow> bool" where
  "ui_answer_ok s q (UiRedirect target) \<longleftrightarrow> wq_method q = ''GET'' \<and> ui_redirect_ok s target"
| "ui_answer_ok s q (UiFlow page) \<longleftrightarrow>
     fp_method page = ''POST''
     \<and> (if fp_flow_id page = []
        then \<exists>tx csrf. ui_handoff (request_query q) = Some (tx, csrf) \<and> fp_action page = provider_endpoint s ''/logout'' []
               \<and> fp_fields page = [hidden_field ''transaction'' tx, hidden_field ''csrf'' csrf]
        else ui_action_ok s (fp_action page) \<and> fp_fields page \<noteq> [] \<and> list_all ui_field_ok (fp_fields page))"
| "ui_answer_ok s q (UiConsent page) \<longleftrightarrow>
     cp_action page = provider_endpoint s ''/consent'' []
     \<and> (\<exists>tx csrf rest. ui_handoff (request_query q) = Some (tx, csrf)
          \<and> cp_fields page = hidden_field ''transaction'' tx # hidden_field ''csrf'' csrf # rest)"
| "ui_answer_ok s q _ \<longleftrightarrow> True"

lemma safe_flow_field_ok: "safe_flow_field format_float name t attributes = Some f \<Longrightarrow> ui_field_ok f"
  by (auto simp: safe_flow_field_def ui_field_ok_def empty_field_def Let_def split: if_splits)

lemma flow_fields_ok: "list_all ui_field_ok (flow_fields_loop format_float nodes)"
  by (induction format_float nodes rule: flow_fields_loop.induct)
    (auto split: jval.split option.split intro: safe_flow_field_ok)

lemma action_pick:
  assumes "(case x of None \<Rightarrow> None
     | Some u \<Rightarrow> if a u then None else if b u then None else if \<not> p u \<and> \<not> r u then None
         else if d u then Some (f u) else (case w u of (vs, bad) \<Rightarrow> if e u vs bad then None else Some (k u)))
     = Some action"
  shows "\<exists>u. (p u \<or> r u) \<and> (action = f u \<or> action = k u)"
  using assms by (auto split: option.splits if_splits prod.splits)

lemma flow_action_ok:
  assumes "flow_action s v kind flow_id = Some action" and "kind \<in> set [''login'', ''registration'', ''settings'']"
  shows "ui_action_ok s action"
proof -
  let ?to = "\<lambda>u. u\<lparr>u_scheme := u_scheme (ui_kratos_browser s), u_host := u_host (ui_kratos_browser s),
      u_user := None, u_fragment := []\<rparr>"
  have keep: "url_string (?to u) = url_string ((?to u)\<lparr>u_raw_query := u_raw_query (?to u)\<rparr>)" for u by simp
  from action_pick [OF assms(1) [unfolded flow_action_def Let_def]]
  obtain u query where "action = url_string ((?to u)\<lparr>u_raw_query := query\<rparr>)"
    "u_path u = ''/self-service/'' @ kind \<or> has_prefix (u_path u) (''/self-service/'' @ kind @ ''/'')"
    using keep by blast
  then show ?thesis
    using assms(2) unfolding ui_action_ok_def same_origin_def
    by (intro exI [of _ "(?to u)\<lparr>u_raw_query := query\<rparr>"]) (intro conjI bexI [of _ kind]; simp)
qed

lemma render_ok:
  assumes "kind \<in> set [''login'', ''registration'', ''settings'']"
  shows "ui_answer_ok s q (fst (render_kratos_flow s send decode format_float q kind flow_id))"
proof -
  have "flow_id \<noteq> []" if "valid_flow_id flow_id" using that by (auto simp: valid_flow_id_def)
  then show ?thesis
    using flow_action_ok [OF _ assms] flow_fields_ok
    by (auto simp: render_kratos_flow_def safe_flow_fields_def Let_def split: prod.split option.split jval.split)
qed

lemma redirect_ok:
  "ui_redirect_ok s target \<Longrightarrow> ui_answer_ok s q (ui_redirect q target)"
  by (simp add: ui_redirect_def)

lemma endpoint_ok:
  "ui_redirect_ok s (browser_endpoint (ui_browser s) p query)"
  "ui_redirect_ok s (browser_endpoint (ui_kratos_browser s) (''/self-service/'' @ p) query)"
  unfolding ui_redirect_ok_def by blast+

lemmas kratos_page_ok =
  endpoint_ok(2) [of s "''login/browser''" for s, simplified]
  endpoint_ok(2) [of s "''logout/browser''" for s, simplified]
  endpoint_ok(2) [of s "''registration/browser''" for s, simplified]
  endpoint_ok(2) [of s "''settings/browser''" for s, simplified]

lemma ui_start_ok:
  "ui_answer_ok s q (start_standalone_login s q)" "ui_answer_ok s q (ui_start_login s q)"
  "ui_answer_ok s q (ui_start_logout s q)" "ui_answer_ok s q (ui_root s q)"
  using redirect_ok kratos_page_ok endpoint_ok(1)
  by (simp_all add: start_standalone_login_def ui_start_login_def ui_start_logout_def ui_root_def Let_def
      split: option.split prod.split)

lemma ui_consent_ok: "ui_answer_ok s q (render_consent s q)"
  by (simp add: render_consent_def Let_def split: option.split prod.split)

section \<open>Properties\<close>

text \<open>C12. Every answer of the sample UI is safe to follow. It redirects only on \<open>GET\<close>, and only to
  a self-service endpoint of Kratos or to a page of its own. A flow page posts to the origin
  of Kratos, under the self-service path, without user information or fragment, whatever
  action the flow of Kratos named; it holds known fields only, never prefills a password or
  an authenticator code, and submits only with the methods the UI knows. The logout and the
  consent pages post to the provider and carry the transaction and CSRF token of the
  handoff.\<close>

theorem ui_answers_safe:
  "ui_answer_ok s q (fst (ui_handle s send decode format_float route q))"
proof (cases route)
  case UiLogoutComplete
  then show ?thesis by (simp add: logout_complete_def split: option.split prod.split)
next
  case UiRegistration
  then show ?thesis using render_ok redirect_ok kratos_page_ok by (simp add: ui_registration_def Let_def)
next
  case UiSettings
  then show ?thesis using render_ok redirect_ok kratos_page_ok by (simp add: ui_settings_def Let_def)
next
  case UiLogin
  then show ?thesis using render_ok ui_start_ok ui_consent_ok by (simp add: ui_login_def Let_def)
next
  case UiHealth
  then show ?thesis by (simp add: ui_health_def)
next
  case UiErrorPage
  then show ?thesis by (simp add: ui_error_page_def)
qed (use ui_start_ok in simp)

end
