(* ===== verification/Handoff.thy ===== *)
theory Handoff
  imports UiServer Flows HttpServer
begin

text \<open>
  The handoff between the provider and the sample UI: what the UI reads from a redirect of
  the provider, and what the provider reads from the callback the UI builds. The first part
  shows that a URL whose query was encoded has that query when it is parsed again.
\<close>

section \<open>The query of a printed URL\<close>

abbreviation delim :: "char \<Rightarrow> bool" where
  "delim c \<equiv> c = CHR ''?'' \<or> c = CHR ''#''"

definition no_delim :: "string \<Rightarrow> bool" where
  "no_delim s \<longleftrightarrow> list_all (\<lambda>c. \<not> delim c) s"

lemma no_delim_simps [simp]:
  "no_delim []" "no_delim (c # s) \<longleftrightarrow> \<not> delim c \<and> no_delim s" "no_delim (s @ t) \<longleftrightarrow> no_delim s \<and> no_delim t"
  by (simp_all add: no_delim_def)

lemma no_delim_concat: "no_delim (concat xs) \<longleftrightarrow> (\<forall>x\<in>set xs. no_delim x)"
  by (induction xs) auto

lemma no_delimD: "no_delim s \<Longrightarrow> c \<in> set s \<Longrightarrow> \<not> delim c"
  by (auto simp: no_delim_def list_all_iff)

lemma no_delim_subset: "no_delim s \<Longrightarrow> set t \<subseteq> set s \<Longrightarrow> no_delim t"
  by (auto simp: no_delim_def list_all_iff)

lemma delim_escaped:
  assumes "mode \<noteq> EncFragment" and "delim c"
  shows "should_escape c mode"
proof -
  have "should_escape (CHR ''?'') mode" "should_escape (CHR ''#'') mode"
    using assms(1) by (cases mode; simp add: should_escape_def is_alnum_def)+
  with assms(2) show ?thesis by (elim disjE) simp_all
qed

lemma no_delim_escape_char:
  assumes "mode \<noteq> EncFragment"
  shows "no_delim (escape_char mode c)"
proof (cases "should_escape c mode")
  case True
  have "byte c < 256" by simp
  then have n: "byte c div 16 < 16" "byte c mod 16 < 16" by (simp_all add: less_mult_imp_div_less)
  have "\<not> delim (upper_hex n)" if "n < 16" for n
    using upper_hex_ascii [OF that] by (auto simp: is_alnum_def)
  then show ?thesis using True n by (simp add: escape_char_def)
next
  case False
  then have "\<not> delim c" using delim_escaped [OF assms] by blast
  then show ?thesis using False by (simp add: escape_char_def)
qed

lemma no_delim_escape: "mode \<noteq> EncFragment \<Longrightarrow> no_delim (escape s mode)"
  by (induction s) (simp_all add: escape_def no_delim_escape_char)

lemma no_delim_join: "no_delim sep \<Longrightarrow> (\<And>p. p \<in> set ps \<Longrightarrow> no_delim p) \<Longrightarrow> no_delim (join_with sep ps)"
  by (induction sep ps rule: join_with.induct) auto

lemma no_delim_encode: "no_delim (values_encode m)"
  unfolding values_encode_def by (rule no_delim_join) (auto simp: pair_text_def no_delim_escape)

lemma values_encode_Nil: "values_encode m = [] \<Longrightarrow> parse_query (values_encode m) = ([], False)"
  by (simp add: parse_query_def query_piece_def)

lemma no_delim_lower: "no_delim s \<Longrightarrow> no_delim (to_lower s)"
proof -
  have seg: "no_delim (lower_seg g)" if "no_delim g" for g
  proof -
    have "\<not> delim (char_of (r + 32))" if "65 \<le> r" "r \<le> 90" for r :: nat
    proof -
      have "byte (char_of (r + 32)) = r + 32" using that by simp
      moreover have "byte d \<in> {35, 63}" if "delim d" for d using that by auto
      ultimately show ?thesis using that by fastforce
    qed
    then show ?thesis using that by (auto simp: lower_seg_def Let_def)
  qed
  assume "no_delim s"
  then have "no_delim (concat (segs s))" by simp
  then show ?thesis using seg by (simp only: no_delim_concat to_lower_def) simp
qed

lemma no_delim_valid:
  assumes "valid_encoded s EncPath"
  shows "no_delim s"
  unfolding no_delim_def list_all_iff
proof
  fix c assume c: "c \<in> set s"
  show "\<not> delim c"
  proof
    assume d: "delim c"
    then have "should_escape c EncPath" by (rule delim_escaped [rotated]) simp
    then have "c \<in> set ''!$&'' \<union> {CHR 0x27} \<union> set ''()*+,;=:@[]%''"
      using bspec [OF assms [unfolded valid_encoded_def list_all_iff] c] by (simp only: simp_thms)
    with d show False by (elim disjE) simp_all
  qed
qed

lemma no_delim_path: "no_delim (escaped_path u)"
  by (simp add: escaped_path_def no_delim_escape no_delim_valid)

definition clean_url :: "url \<Rightarrow> bool" where
  "clean_url u \<longleftrightarrow> no_delim (u_scheme u) \<and> no_delim (u_opaque u) \<and> u_fragment u = []"

lemma no_delim_front: "no_delim (url_front u)"
  by (auto simp: url_front_def no_delim_escape userinfo_string_def split: option.split userinfo.split)

text \<open>
  The address of an endpoint, and the query of an address as a browser splits it off: the
  text behind the first question mark, up to a number sign. A request follows an address when
  it is a GET with that query.
\<close>

definition address_of :: "url \<Rightarrow> string \<Rightarrow> string" where
  "address_of base p = url_string (base\<lparr>u_path := trim_right_slash (u_path base) @ p, u_force_query := False,
     u_raw_query := [], u_fragment := []\<rparr>)"

definition query_text :: "string \<Rightarrow> string" where
  "query_text s = fst (snd (cut (CHR ''?'') (fst (cut (CHR ''#'') s))))"

definition follows :: "web_request \<Rightarrow> string \<Rightarrow> bool" where
  "follows q address \<longleftrightarrow> wq_method q = ''GET'' \<and> wq_raw_query q = query_text address"

lemma query_text_at:
  assumes "no_delim front" and "no_delim q"
  shows "query_text (front @ CHR ''?'' # q) = q"
proof -
  have "CHR ''#'' \<notin> set (front @ CHR ''?'' # q)" using no_delimD [OF assms(1)] no_delimD [OF assms(2)] by auto
  then have "fst (cut (CHR ''#'') (front @ CHR ''?'' # q)) = front @ CHR ''?'' # q" by (simp add: cut_def)
  moreover have "CHR ''?'' \<notin> set front" using no_delimD [OF assms(1)] by auto
  ultimately show ?thesis by (simp add: query_text_def cut_pair)
qed

lemma url_string_query:
  assumes "clean_url u" and "q \<noteq> []"
  shows "url_string (u\<lparr>u_raw_query := q\<rparr>) = url_string (u\<lparr>u_force_query := False, u_raw_query := []\<rparr>) @ CHR ''?'' # q"
    and "no_delim (url_string (u\<lparr>u_force_query := False, u_raw_query := []\<rparr>))"
proof -
  have same: "escaped_path (u\<lparr>u_raw_query := q\<rparr>) = escaped_path u" "url_front (u\<lparr>u_raw_query := q\<rparr>) = url_front u"
    "escaped_path (u\<lparr>u_force_query := False, u_raw_query := []\<rparr>) = escaped_path u"
    "url_front (u\<lparr>u_force_query := False, u_raw_query := []\<rparr>) = url_front u"
    by (simp_all add: escaped_path_def url_front_def)
  show "url_string (u\<lparr>u_raw_query := q\<rparr>) = url_string (u\<lparr>u_force_query := False, u_raw_query := []\<rparr>) @ CHR ''?'' # q"
    using assms by (simp add: url_string_def same Let_def clean_url_def)
  show "no_delim (url_string (u\<lparr>u_force_query := False, u_raw_query := []\<rparr>))"
    using assms(1) no_delim_path [of u] no_delim_front [of u] by (auto simp: url_string_def same Let_def clean_url_def)
qed

lemma scheme_scan_rest:
  assumes "scheme_scan whole acc s = Some (sch, rest)"
  shows "sch = [] \<and> rest = whole \<or> (\<exists>pre. sch = acc @ pre \<and> s = pre @ CHR '':'' # rest \<and> no_delim pre)"
  using assms
proof (induction s arbitrary: acc)
  case (Cons c s)
  have nd: "delim c \<Longrightarrow> \<not> is_alpha c \<and> \<not> is_digit c \<and> c \<notin> set ''+-.''"
    by (elim disjE) (simp_all add: is_alpha_def is_digit_def)
  have generic: "(m = Some (sch, rest) \<and> (b \<or> d)) \<or> (e \<and> sch = acc \<and> rest = s) \<or> (sch = [] \<and> rest = whole)"
    if "(if b then m else if d then if a then Some ([], whole) else m else if e then if a then None else Some (acc, s)
        else Some ([], whole)) = Some (sch, rest)" for m :: "(string \<times> string) option" and a b d e
    using that by (auto split: if_splits)
  from generic [OF Cons.prems [unfolded scheme_scan.simps]]
  consider (more) "scheme_scan whole (acc @ [c]) s = Some (sch, rest)" "\<not> delim c"
    | (colon) "c = CHR '':''" "sch = acc" "rest = s" | (none) "sch = []" "rest = whole"
    using nd by metis
  then show ?case
  proof cases
    case more
    from Cons.IH [OF more(1)] show ?thesis
    proof
      assume "\<exists>pre. sch = (acc @ [c]) @ pre \<and> s = pre @ CHR '':'' # rest \<and> no_delim pre"
      then obtain pre where "sch = (acc @ [c]) @ pre" "s = pre @ CHR '':'' # rest" "no_delim pre" by blast
      then show ?thesis using more(2) by (intro disjI2 exI [of _ "c # pre"]) simp
    qed simp
  qed (auto intro: exI [of _ "[]"])
qed simp

lemma set_path_keeps:
  "set_path p u = Some v \<Longrightarrow>
   u_raw_query v = u_raw_query u \<and> u_scheme v = u_scheme u \<and> u_fragment v = u_fragment u \<and> u_opaque v = u_opaque u"
  by (auto simp: set_path_def split: option.splits)

lemma parse_after_query_keeps:
  assumes "parse_after_query rest u = Some v"
  shows "u_raw_query v = u_raw_query u \<and> u_scheme v = u_scheme u \<and> u_fragment v = u_fragment u
    \<and> (u_opaque v = u_opaque u \<or> u_opaque v = rest)"
proof -
  have generic: "?thesis"
    if "(if b1 then Some (u\<lparr>u_opaque := rest\<rparr>) else if b2 then None
       else if b3 then (case a of None \<Rightarrow> None | Some (user, host) \<Rightarrow> set_path p (u\<lparr>u_user := user, u_host := host\<rparr>))
       else set_path rest (u\<lparr>u_omit_host := b4\<rparr>)) = Some v" for a p b1 b2 b3 b4
    using that by (auto split: if_splits option.splits dest: set_path_keeps)
  show ?thesis by (rule generic [OF assms [unfolded parse_after_query_def Let_def]])
qed

lemma url_parse_query:
  assumes "url_parse (front @ CHR ''?'' # q) = Some v" and "no_delim front" and "no_delim q" and "q \<noteq> []"
  shows "u_raw_query v = q \<and> clean_url v"
proof -
  let ?s = "front @ CHR ''?'' # q"
  have "CHR ''#'' \<notin> set ?s" using no_delimD [OF assms(2)] no_delimD [OF assms(3)] by auto
  then have "cut (CHR ''#'') ?s = (?s, [], False)" by (simp add: cut_def)
  then have np: "parse_no_fragment ?s = Some v" using assms(1) by (auto simp: url_parse_def split: option.splits)
  have ne: "?s \<noteq> ''*''" by (cases front) auto
  obtain sch rest where sch: "get_scheme ?s = Some (sch, rest)"
    using np ne by (auto simp: parse_no_fragment_def split: if_splits option.splits)
  obtain f where rest: "rest = f @ CHR ''?'' # q" "no_delim f" "no_delim sch"
  proof (cases "rest = ?s")
    case True
    then have "sch = [] \<or> rest \<noteq> ?s" using scheme_scan_rest [OF sch [unfolded get_scheme_def]]
      by auto
    then show ?thesis using that [of front] True assms(2) by simp
  next
    case False
    then obtain pre where pre: "sch = pre" "?s = pre @ CHR '':'' # rest" "no_delim pre"
      using scheme_scan_rest [OF sch [unfolded get_scheme_def]] by auto
    have "CHR ''?'' \<notin> set pre" using no_delimD [OF pre(3)] by auto
    then obtain f where "front = pre @ CHR '':'' # f" "rest = f @ CHR ''?'' # q"
      using pre(2) by (auto simp: append_eq_append_conv2 append_eq_Cons_conv Cons_eq_append_conv)
    then show ?thesis using that [of f] assms(2) pre by simp
  qed
  have "last rest = last q" using rest(1) assms(4) by simp
  moreover have "last rest = CHR ''?''" if "has_suffix rest ''?''"
    using that last_drop [of "length rest - 1" rest] rest(1) by (simp add: has_suffix_def)
  ultimately have "\<not> has_suffix rest ''?''"
    using no_delimD [OF assms(3), of "last q"] assms(4) by auto
  moreover have "cut (CHR ''?'') rest = (f, q, True)"
    using cut_pair no_delimD [OF rest(2)] rest(1) by auto
  ultimately have "parse_after_query f (empty_url\<lparr>u_scheme := to_lower sch, u_raw_query := q\<rparr>) = Some v"
    using np sch ne by (auto simp: parse_no_fragment_def Let_def split: if_splits)
  from parse_after_query_keeps [OF this] show ?thesis
    using rest by (auto simp: clean_url_def empty_url_def no_delim_lower)
qed

text \<open>Printing a URL with an encoded query and parsing it again gives that query.\<close>

lemma printed_query:
  assumes "clean_url u" and "url_parse (url_string (u\<lparr>u_raw_query := values_encode m\<rparr>)) = Some v"
    and "values_encode m \<noteq> []"
  shows "u_raw_query v = values_encode m \<and> clean_url v"
  by (rule url_parse_query [OF assms(2) [unfolded url_string_query(1) [OF assms(1,3)]] url_string_query(2) [OF assms(1,3)]
        no_delim_encode assms(3)])

text \<open>Whatever was parsed and has no fragment is clean.\<close>

lemma count_butlast:
  "has_suffix s [c] \<Longrightarrow> count_list s c = 1 \<Longrightarrow> c \<notin> set (butlast s)"
proof -
  assume "has_suffix s [c]" "count_list s c = 1"
  moreover from this have "s \<noteq> []" by auto
  ultimately have "s = butlast s @ [c]"
    using last_drop [of "length s - 1" s] by (simp add: has_suffix_def)
  then have "count_list (butlast s) c + 1 = 1"
    using \<open>count_list s c = 1\<close> by (metis count_list_append count_list.simps add_0)
  then show ?thesis by (simp add: count_list_0_iff)
qed

lemma url_parse_clean:
  assumes "url_parse s = Some v" and "u_fragment v = []"
  shows "clean_url v"
proof -
  obtain u frag b where cut: "cut (CHR ''#'') s = (u, frag, b)" by (cases "cut (CHR ''#'') s") auto
  then have no_hash: "CHR ''#'' \<notin> set u"
    by (auto simp: cut_def dest: set_takeWhileD split: if_splits)
  obtain v' where v': "parse_no_fragment u = Some v'" "u_scheme v = u_scheme v'" "u_opaque v = u_opaque v'"
    using assms(1) cut by (auto simp: url_parse_def split: option.splits if_splits)
  have "no_delim (u_scheme v') \<and> no_delim (u_opaque v')"
  proof (cases "u = ''*''")
    case True
    then show ?thesis using v'(1) by (auto simp: parse_no_fragment_def empty_url_def split: if_splits)
  next
    case False
    then obtain sch rest where sch: "get_scheme u = Some (sch, rest)"
      using v'(1) by (auto simp: parse_no_fragment_def split: if_splits option.splits)
    have nd: "no_delim sch" "set rest \<subseteq> set u"
      using scheme_scan_rest [OF sch [unfolded get_scheme_def]] by auto
    have clean: "no_delim f" if "set f \<subseteq> set rest" "CHR ''?'' \<notin> set f" for f
      using that nd(2) no_hash by (auto simp: no_delim_def list_all_iff)
    obtain f w where f: "parse_after_query f w = Some v'" "u_scheme w = to_lower sch" "u_opaque w = []" "no_delim f"
    proof (cases "has_suffix rest ''?'' \<and> count_list rest (CHR ''?'') = 1")
      case True
      then have nb: "no_delim (butlast rest)" using clean count_butlast by (auto dest: in_set_butlastD)
      have "parse_after_query (butlast rest) (empty_url\<lparr>u_scheme := to_lower sch, u_force_query := True\<rparr>) = Some v'"
        using v'(1) sch False True by (auto simp: parse_no_fragment_def Let_def split: if_splits)
      then show ?thesis by (rule that [OF _ _ _ nb]) (simp_all add: empty_url_def)
    next
      case n: False
      obtain f q b where c: "cut (CHR ''?'') rest = (f, q, b)" by (cases "cut (CHR ''?'') rest") auto
      then have "set f \<subseteq> set rest" "CHR ''?'' \<notin> set f"
        by (auto simp: cut_def dest: set_takeWhileD split: if_splits)
      then have nb: "no_delim f" by (rule clean)
      have "parse_after_query f (empty_url\<lparr>u_scheme := to_lower sch, u_raw_query := q\<rparr>) = Some v'"
        using v'(1) sch False n c by (auto simp: parse_no_fragment_def Let_def split: if_splits)
      then show ?thesis by (rule that [OF _ _ _ nb]) (simp_all add: empty_url_def)
    qed
    from parse_after_query_keeps [OF f(1)] show ?thesis
      using nd(1) f(2,3,4) no_delim_lower [OF nd(1)] by (elim conjE disjE) simp_all
  qed
  then show ?thesis using v' assms(2) by (simp add: clean_url_def)
qed

section \<open>Texts that survive trimming\<close>

definition graphic :: "string \<Rightarrow> bool" where
  "graphic s \<longleftrightarrow> list_all (\<lambda>c. 33 \<le> byte c \<and> byte c < 127) s"

lemma trim_space_graphic: "graphic s \<Longrightarrow> trim_space s = s"
proof -
  assume g: "graphic s"
  then have a: "segs s = map (\<lambda>c. [c]) s" by (intro segs_ascii) (auto simp: graphic_def ascii_def list_all_iff)
  have n: "\<not> space_seg g" if "g \<in> set (segs s)" for g
    using that \<open>graphic s\<close> by (auto simp: a graphic_def list_all_iff space_seg_def is_space_def)
  have "dropWhile space_seg (segs s) = segs s" "dropWhile space_seg (rev (segs s)) = rev (segs s)"
    using n by (cases "segs s = []"; simp add: dropWhile_eq_self_iff hd_in_set last_in_set hd_rev del: segs_Nil_iff)+
  then show ?thesis by (simp add: trim_space_def)
qed

lemma graphic_token: "graphic (token_of f)"
proof -
  have "33 \<le> byte (b64_char n) \<and> byte (b64_char n) < 127" if "n < 64" for n
    using that by (auto simp: b64_char_def)
  then show ?thesis using sextets_less by (auto simp: token_of_def b64_encode_sextets graphic_def list_all_iff)
qed

lemma graphic_no_break: "graphic s \<Longrightarrow> \<not> contains_any s [CHR 0x0D, CHR 0x0A]"
  by (auto simp: graphic_def contains_any_def list_all_iff list_ex_iff)

lemma graphic_int: "graphic (format_int n)"
  using nat_digits_digit [of "nat n"] nat_digits_digit [of "nat (- n)"]
  by (auto simp: format_int_def graphic_def list_all_iff is_digit_def)

lemma graphic_append [simp]: "graphic (s @ t) \<longleftrightarrow> graphic s \<and> graphic t"
  by (simp add: graphic_def)

lemma graphic_cons: "graphic (c # s) \<longleftrightarrow> 33 \<le> byte c \<and> byte c < 127 \<and> graphic s"
  by (auto simp: graphic_def)

lemma graphic_escape: "graphic (escape s EncQueryComponent)"
proof (induction s)
  case (Cons c s)
  have num: "33 \<le> byte d \<and> byte d < 127" if "is_alnum d" for d using that by (auto simp: is_alnum_def Let_def)
  have "byte c < 256" by simp
  then have "byte c div 16 < 16" "byte c mod 16 < 16" by (simp_all add: less_mult_imp_div_less)
  note hex = this [THEN upper_hex_ascii, THEN num]
  have "is_alnum c \<or> c \<in> set ''-_.~''" if "\<not> should_escape c EncQueryComponent"
    using that unfolding should_escape_def by (simp only: if_split encoding.distinct simp_thms) metis
  then have plain: "graphic [c]" if "\<not> should_escape c EncQueryComponent"
    using that num by (auto simp: graphic_def)
  show ?case using Cons hex plain by (auto simp: escape_def escape_char_def graphic_def)
qed (simp add: escape_def graphic_def)

lemma graphic_encode: "graphic (values_encode m)"
proof -
  have join: "graphic (join_with sep ps)" if "graphic sep" "\<And>p. p \<in> set ps \<Longrightarrow> graphic p" for sep ps
    using that by (induction sep ps rule: join_with.induct) (auto simp: graphic_def)
  have "graphic (pair_text kv)" for kv by (simp add: pair_text_def graphic_escape graphic_cons)
  then show ?thesis unfolding values_encode_def by (intro join) (auto simp: graphic_def)
qed

lemma plain_parses:
  assumes "graphic q" and "no_delim q" and "q \<noteq> []"
  shows "\<exists>u. url_parse (''https://u?'' @ q) = Some u"
proof -
  let ?s = "''https://u?'' @ q"
  have "CHR ''#'' \<notin> set ?s" using no_delimD [OF assms(2)] by auto
  then have "cut (CHR ''#'') ?s = (?s, [], False)" by (simp add: cut_def)
  moreover have "get_scheme ?s = Some (''https'', ''//u?'' @ q)"
    by (simp add: get_scheme_def is_alpha_def is_digit_def)
  moreover have "\<not> list_ex (\<lambda>c. byte c < 32 \<or> byte c = 127) ?s"
    using assms(1) by (fastforce simp: graphic_def list_all_iff list_ex_iff)
  moreover have "\<not> has_suffix (''//u?'' @ q) ''?''"
  proof
    assume "has_suffix (''//u?'' @ q) ''?''"
    then have "last (''//u?'' @ q) = CHR ''?''"
      using last_drop [of "length (''//u?'' @ q) - 1" "''//u?'' @ q"] by (simp add: has_suffix_def del: append.simps)
    then show False using no_delimD [OF assms(2), of "last q"] assms(3) last_in_set [of q] by simp
  qed
  moreover have "cut (CHR ''?'') (''//u?'' @ q) = (''//u'', q, True)"
    using cut_pair [of "CHR ''?''" "''//u''" q] by simp
  moreover have "\<exists>u. parse_after_query ''//u'' (empty_url\<lparr>u_scheme := to_lower ''https'', u_raw_query := q\<rparr>) = Some u"
    by (simp add: parse_after_query_def has_prefix_def cut_def parse_authority_def last_index_def parse_host_def
        set_path_def empty_url_def escape_def should_escape_def is_alnum_def text_eval)
  ultimately show ?thesis
    by (auto simp: url_parse_def parse_no_fragment_def Let_def)
qed

section \<open>Redirects that carry a query\<close>

definition carries :: "string \<Rightarrow> (string \<Rightarrow> string list option) \<Rightarrow> bool" where
  "carries r f \<longleftrightarrow>
     (\<exists>u m. clean_url u \<and> r = url_string (u\<lparr>u_raw_query := values_encode m\<rparr>) \<and> wf_map m \<and> map_get m = f
        \<and> (\<forall>k. f k \<noteq> Some []) \<and> (\<exists>k. f k \<noteq> None))"

lemma carriesI:
  "clean_url u \<Longrightarrow> r = url_string (u\<lparr>u_raw_query := values_encode m\<rparr>) \<Longrightarrow> wf_map m \<Longrightarrow> map_get m = f \<Longrightarrow>
   \<forall>k. f k \<noteq> Some [] \<Longrightarrow> f k \<noteq> None \<Longrightarrow> carries r f"
  unfolding carries_def by blast

lemma carries_text:
  assumes "carries r f"
  shows "map_get (fst (parse_query (query_text r))) = f" and "url_parse r = Some v \<Longrightarrow> u_raw_query v = query_text r \<and> clean_url v"
proof -
  obtain u m k where m: "clean_url u" "r = url_string (u\<lparr>u_raw_query := values_encode m\<rparr>)" "wf_map m" "map_get m = f"
    "\<forall>k. f k \<noteq> Some []" "f k \<noteq> None"
    using assms unfolding carries_def by blast
  have get: "map_get (fst (parse_query (values_encode m))) = f"
    using parse_encode_gets [OF m(3)] m(4,5) by (simp add: fun_eq_iff)
  then have ne: "values_encode m \<noteq> []" using m(6) values_encode_Nil [of m] by (auto simp: map_get_def)
  note r = m(2) [unfolded url_string_query(1) [OF m(1) ne]]
  have query: "query_text r = values_encode m"
    unfolding r by (rule query_text_at [OF url_string_query(2) [OF m(1) ne] no_delim_encode])
  show "map_get (fst (parse_query (query_text r))) = f" by (simp add: query get)
  show "url_parse r = Some v \<Longrightarrow> u_raw_query v = query_text r \<and> clean_url v"
    using printed_query [OF m(1) _ ne] m(2) query by simp
qed

lemma carries_parse: "carries r f \<Longrightarrow> url_parse r = Some v \<Longrightarrow> map_get (fst (parse_query (u_raw_query v))) = f \<and> clean_url v"
  using carries_text by metis

lemma carries_follows: "carries r f \<Longrightarrow> follows q r \<Longrightarrow> map_get (request_query q) = f"
  using carries_text(1) by (simp add: follows_def request_query_def)

lemma carries_add:
  assumes "carries r f" and "add_query_value r n x = Inr r'"
  shows "carries r' (f(n \<mapsto> [x]))"
proof -
  obtain v where v: "url_parse r = Some v"
    "r' = url_string (v\<lparr>u_raw_query := values_encode (values_set n x (url_query v))\<rparr>)"
    using assms(2) by (auto simp: add_query_value_def split: option.splits)
  note q = carries_parse [OF assms(1) v(1)]
  have "map_get (values_set n x (url_query v)) = f(n \<mapsto> [x])"
    using q by (auto simp: values_set_def gomap url_query_def fun_eq_iff)
  moreover have "\<forall>k. (f(n \<mapsto> [x])) k \<noteq> Some []" using assms(1) by (auto simp: carries_def)
  ultimately show ?thesis
    using q wf_parse_query by (intro carriesI [OF _ v(2), of _ n]) (auto simp: values_set_def url_query_def)
qed

lemma carries_add_if:
  assumes "add_if b n x s = Inr r'"
  obtains r where "s = Inr r" "carries r f \<Longrightarrow> carries r' (if b then f(n \<mapsto> [x]) else f)"
  using assms carries_add by (cases s) (auto simp: add_if_def split: if_splits)

lemma external_redirect_carries:
  assumes "external_redirect c flow tx csrf hints = Inr r" and "cfg_external_ui_url c = Some base" and "clean_url base"
  obtains f where "carries r f" "f ''flow'' = Some [flow]" "f ''transaction'' = Some [tx]" "f ''csrf'' = Some [csrf]"
    "f ''aal'' = None" "f ''force_reauth'' = None" "f ''max_age'' = None"
proof -
  let ?s = "safe_login_ui_hints hints"
  define base_values where "base_values = handoff_values flow tx csrf
    @ [(''return_to'', [url_string ((callback_url c flow)\<lparr>u_raw_query := values_encode (handoff_values flow tx csrf)\<rparr>)])]"
  define m where "m = (if flow = FlowLogin then set_if (hint_display ?s \<noteq> []) ''display'' (hint_display ?s)
    (set_if (hint_ui_locales ?s \<noteq> []) ''ui_locales'' (hint_ui_locales ?s)
      (set_if (hint_login ?s \<noteq> []) ''login_hint'' (hint_login ?s) base_values)) else base_values)"
  have r: "r = url_string (base\<lparr>u_raw_query := values_encode m\<rparr>)"
    using assms(1,2) by (simp add: external_redirect_def Let_def base_values_def m_def split: if_splits)
  have "wf_map base_values" by (simp add: base_values_def handoff_values_def wf_map_def)
  then have wf: "wf_map m" by (simp add: m_def set_if_wf)
  have base: "map_get base_values k = (if k = ''flow'' then Some [flow] else if k = ''transaction'' then Some [tx]
      else if k = ''csrf'' then Some [csrf] else if k = ''return_to'' then map_get base_values ''return_to'' else None)"
    "map_get base_values ''return_to'' \<noteq> Some []" for k
    by (simp_all add: base_values_def handoff_values_def map_get_def)
  have f: "map_get m ''flow'' = Some [flow]" "map_get m ''transaction'' = Some [tx]" "map_get m ''csrf'' = Some [csrf]"
    "map_get m ''aal'' = None" "map_get m ''force_reauth'' = None" "map_get m ''max_age'' = None"
    by (simp_all add: m_def set_if_get base(1))
  have "map_get base_values k \<noteq> Some []" for k
    using base(2) by (subst base(1)) simp
  then have "\<forall>k. map_get m k \<noteq> Some []" by (simp add: m_def set_if_get)
  then have "carries r (map_get m)" using f by (intro carriesI [OF assms(3) r wf refl, of "''flow''"]) simp_all
  then show ?thesis using f by (rule that)
qed

lemma login_redirect_carries:
  assumes "login_redirect sv req force aal tx csrf = Inr r"
    and "cfg_external_ui_url (sv_cfg sv) = Some base" and "clean_url base"
  obtains f where "carries r f" "f ''flow'' = Some [''login'']" "f ''transaction'' = Some [tx]" "f ''csrf'' = Some [csrf]"
    "f ''aal'' = (if aal \<noteq> [] then Some [aal] else None)"
    "f ''force_reauth'' = (if force \<or> lr_max_age req = Some 0 then Some [''true''] else None)"
    "f ''max_age'' = map_option (\<lambda>m. [format_int m]) (lr_max_age req)"
proof -
  let ?hints = "\<lparr>hint_login = lr_login_hint req, hint_ui_locales = lr_ui_locales req, hint_display = lr_display req\<rparr>"
  let ?age = "case lr_max_age req of Some m \<Rightarrow> format_int m | None \<Rightarrow> []"
  obtain r2 where r2: "add_if (lr_max_age req \<noteq> None) ''max_age'' ?age (add_if (force \<or> lr_max_age req = Some 0)
        ''force_reauth'' ''true'' (external_redirect (sv_cfg sv) FlowLogin tx csrf ?hints)) = Inr r2"
    "carries r2 f \<Longrightarrow> carries r (if aal \<noteq> [] then f(''aal'' \<mapsto> [aal]) else f)" for f
    using assms(1) carries_add unfolding login_redirect_def by (auto simp: add_if_def split: sum.splits if_splits)
  obtain r1 where r1: "add_if (force \<or> lr_max_age req = Some 0) ''force_reauth'' ''true''
        (external_redirect (sv_cfg sv) FlowLogin tx csrf ?hints) = Inr r1"
    "carries r1 f \<Longrightarrow> carries r2 (if lr_max_age req \<noteq> None then f(''max_age'' \<mapsto> [?age]) else f)" for f
    using r2(1) carries_add by (auto simp: add_if_def split: sum.splits if_splits)
  obtain r0 where r0: "external_redirect (sv_cfg sv) FlowLogin tx csrf ?hints = Inr r0"
    "carries r0 f \<Longrightarrow> carries r1 (if force \<or> lr_max_age req = Some 0 then f(''force_reauth'' \<mapsto> [''true'']) else f)" for f
    using r1(1) carries_add by (auto simp: add_if_def split: sum.splits if_splits)
  obtain f where f: "carries r0 f" "f ''flow'' = Some [FlowLogin]" "f ''transaction'' = Some [tx]" "f ''csrf'' = Some [csrf]"
    "f ''aal'' = None" "f ''force_reauth'' = None" "f ''max_age'' = None"
    by (rule external_redirect_carries [OF r0(1) assms(2,3)])
  show ?thesis
    by (rule that [OF r2(2) [OF r1(2) [OF r0(2) [OF f(1)]]]]) (auto simp: f FlowLogin_def)
qed

section \<open>The two sides of the handoff\<close>

lemma endpoint_carries:
  assumes "clean_url base" and "wf_map m" and "\<forall>k. map_get m k \<noteq> Some []" and "map_get m k \<noteq> None"
  shows "carries (browser_endpoint base p m) (map_get m)"
proof (rule carriesI [OF _ _ assms(2) refl assms(3,4)])
  show "clean_url (base\<lparr>u_path := trim_right_slash (u_path base) @ p, u_fragment := []\<rparr>)"
    using assms(1) by (simp add: clean_url_def)
  show "browser_endpoint base p m
      = url_string (base\<lparr>u_path := trim_right_slash (u_path base) @ p, u_fragment := [], u_raw_query := values_encode m\<rparr>)"
    by (cases base) (simp add: browser_endpoint_def endpoint_url_def)
qed

lemma endpoint_address:
  assumes "clean_url base" and "wf_map m" and "\<forall>k. map_get m k \<noteq> Some []" and "map_get m k \<noteq> None"
  shows "browser_endpoint base p m = address_of base p @ ''?'' @ query_text (browser_endpoint base p m)"
proof -
  let ?u = "base\<lparr>u_path := trim_right_slash (u_path base) @ p, u_fragment := []\<rparr>"
  have clean: "clean_url ?u" using assms(1) by (simp add: clean_url_def)
  have ne: "values_encode m \<noteq> []"
    using parse_encode_gets [OF assms(2,3), of k] values_encode_Nil [of m] assms(4) by (auto simp: map_get_def)
  have "browser_endpoint base p m = url_string (?u\<lparr>u_raw_query := values_encode m\<rparr>)"
    by (cases base) (simp add: browser_endpoint_def endpoint_url_def)
  moreover have "address_of base p = url_string (?u\<lparr>u_force_query := False, u_raw_query := []\<rparr>)"
    by (cases base) (simp add: address_of_def)
  ultimately show ?thesis
    using url_string_query(1) [OF clean ne] query_text_at [OF url_string_query(2) [OF clean ne] no_delim_encode] by simp
qed

lemma new_ui_server_clean:
  assumes "new_ui_server getenv = Inr s"
  shows "clean_url (ui_kratos_browser s)" and "clean_url (ui_provider s)" and "clean_url (ui_browser s)"
proof -
  have one: "clean_url u" if "ui_required_url getenv n v = Inr u" for n v u
    using that url_parse_clean by (auto simp: ui_required_url_def absolute_http_url_def Let_def split: option.splits if_splits)
  show "clean_url (ui_kratos_browser s)" "clean_url (ui_provider s)" "clean_url (ui_browser s)"
    using assms one by (auto simp: new_ui_server_def and_then_Inr Let_def split: if_splits)
qed

lemma valid_handoff_token: "valid_handoff_value (token_of f) \<and> trim_space (token_of f) = token_of f"
proof -
  have "token_of f \<noteq> []" using length_token_of [of f] by auto
  then show ?thesis
    using graphic_no_break [OF graphic_token [of f]] trim_space_graphic [OF graphic_token [of f]]
    by (simp add: valid_handoff_value_def length_token_of)
qed

lemma read_token: "map_get query k = Some [token_of f] \<Longrightarrow> required_query_value query k 256 = Inr (token_of f)"
  using valid_handoff_token [of f] by (simp add: required_query_value_def valid_handoff_value_def)

definition login_params :: "ui_server \<Rightarrow> string \<Rightarrow> bool \<Rightarrow> string \<Rightarrow> query_values" where
  "login_params s aal refresh callback =
     (let base = [(''aal'', [if aal = [] then ui_login_aal s else aal]), (''return_to'', [callback])] in
      if refresh then values_set ''refresh'' ''true'' base else base)"

lemma login_params_get:
  "map_get (login_params s aal refresh callback) k =
     (if k = ''aal'' then Some [if aal = [] then ui_login_aal s else aal] else if k = ''return_to'' then Some [callback]
      else if k = ''refresh'' \<and> refresh then Some [''true''] else None)"
  by (simp add: login_params_def values_set_def gomap Let_def) (simp add: map_get_def)

lemma login_params_wf: "wf_map (login_params s aal refresh callback)"
proof -
  have "wf_map [(''aal'', v), (''return_to'', w)]" for v w :: "string list" by (simp add: wf_map_def)
  then show ?thesis by (simp add: login_params_def values_set_def Let_def)
qed

lemma ui_login_answer:
  assumes f: "map_get (request_query q) = f" and flow: "f ''flow'' = Some [''login'']"
    and tx: "f ''transaction'' = Some [token_of h]" "f ''csrf'' = Some [token_of k]"
    and aal: "f ''aal'' = (if aal \<noteq> [] then Some [aal] else None)" "aal = [] \<or> aal = ''aal1'' \<or> aal = ''aal2''"
    and reauth: "f ''force_reauth'' = (if b then Some [''true''] else None)"
    and age: "f ''max_age'' = map_option (\<lambda>m. [format_int m]) age" "\<forall>m. age = Some m \<longrightarrow> 0 \<le> m \<and> int64 m"
    and meth: "wq_method q = ''GET''"
  shows "ui_login s send decode ff q = (UiRedirect (browser_endpoint (ui_kratos_browser s) ''/self-service/login/browser''
      (login_params s aal (b \<or> age \<noteq> None) (provider_callback s ''/login/callback'' (token_of h) (token_of k)))), [])"
proof -
  have get: "values_get (request_query q) n = (case f n of Some (v # _) \<Rightarrow> v | _ \<Rightarrow> [])" for n
    by (simp add: values_get_def f)
  have "trim_space ''login'' = ''login''" "trim_space ''true'' = ''true''" by (simp_all add: text_eval)
  note eval = this
  have hand: "ui_handoff (request_query q) = Some (token_of h, token_of k)"
    using valid_handoff_token by (simp add: ui_handoff_def get tx)
  have lower: "trim_space aal = aal" "aal \<noteq> [] \<longrightarrow> to_lower aal = aal"
    using aal(2) by (auto simp: text_eval)
  have bool: "boolean_query (request_query q) ''force_reauth'' = Some b"
    by (simp add: boolean_query_def get reauth eval parse_bool_def)
  have max_age: "max_age_query (request_query q) = Some age"
  proof (cases age)
    case (Some m)
    have "format_int m \<noteq> []" using nat_digits_digit by (auto simp: format_int_def)
    then show ?thesis
      using Some age trim_space_graphic [OF graphic_int [of m]] by (simp add: max_age_query_def f parse_format_int)
  qed (simp add: max_age_query_def f age)
  have refresh: "(b \<or> (case age of Some n \<Rightarrow> n \<ge> 0 | None \<Rightarrow> False)) = (b \<or> age \<noteq> None)"
    using age(2) by (cases age) auto
  have "trim_space (values_get (request_query q) ''aal'') = aal" using lower by (simp add: get aal(1))
  then have "ui_start_login s q = UiRedirect (browser_endpoint (ui_kratos_browser s) ''/self-service/login/browser''
      (login_params s aal (b \<or> age \<noteq> None) (provider_callback s ''/login/callback'' (token_of h) (token_of k))))"
    using aal(2) lower(2)
    by (auto simp: ui_start_login_def hand bool max_age refresh Let_def ui_redirect_def meth login_params_def)
  then show ?thesis by (simp add: ui_login_def get flow eval)
qed

lemma ui_login_refused:
  assumes f: "map_get (request_query q) = f" and flow: "f ''flow'' = Some [''login'']"
    and tx: "f ''transaction'' = Some [token_of h]" "f ''csrf'' = Some [token_of k]" and aal: "f ''aal'' = Some [''aal3'']"
  shows "ui_login s send decode ff q = (UiError ''invalid login handoff'' 400, [])"
proof -
  have get: "values_get (request_query q) n = (case f n of Some (v # _) \<Rightarrow> v | _ \<Rightarrow> [])" for n
    by (simp add: values_get_def f)
  have "ui_handoff (request_query q) = Some (token_of h, token_of k)"
    using valid_handoff_token by (simp add: ui_handoff_def get tx)
  moreover have "trim_space ''login'' = ''login''" "trim_space ''aal3'' = ''aal3''" "to_lower ''aal3'' = ''aal3''"
    by (simp_all add: text_eval)
  ultimately show ?thesis by (simp add: ui_login_def ui_start_login_def get flow aal Let_def)
qed

text \<open>What the callback endpoint hands to the service.\<close>

lemma callback_read:
  assumes "map_get (request_query q) = map_get [(''transaction'', [token_of h]), (''csrf'', [token_of k])]"
  shows "handle_route srv RouteLoginCallback hs q = do {
      outcome \<leftarrow> pv_complete_login (srv_provider srv) (token_of h)
        \<lparr>li_csrf_token = token_of k, li_browser_state = browser_state_cookie (srv_cfg srv) q loginBrowserStateCookie,
         li_credentials = session_credentials_of (srv_cfg srv) q, li_remember = False, li_remember_for = 0\<rparr>;
      State_Monad.return (completed_response q hs outcome) }"
proof -
  have get: "map_get (request_query q) ''transaction'' = Some [token_of h]" "map_get (request_query q) ''csrf'' = Some [token_of k]"
    "values_get (request_query q) ''remember'' = []" "values_get (request_query q) ''remember_for'' = []"
    unfolding values_get_def assms by (simp_all add: map_get_def)
  have "remember_options [] [] = Inr (False, 0)" by (simp add: remember_options_def)
  then show ?thesis
    by (simp add: handle_login_callback_def read_token [OF get(1)] read_token [OF get(2)] get(3,4) Let_def)
qed

section \<open>Properties\<close>


text \<open>A run against the sample configuration.\<close>

definition sample_token :: string where
  "sample_token = token_of (\<lambda>_. CHR 0x00)"

definition sample_redirect :: string where
  "sample_redirect = url_string ((sample_url ''u'')\<lparr>u_raw_query := values_encode
     (handoff_values FlowLogin sample_token sample_token
       @ [(''return_to'', [url_string ((sample_url ''p'')\<lparr>u_path := ''/login/callback'',
            u_raw_query := values_encode (handoff_values FlowLogin sample_token sample_token)\<rparr>)])])\<rparr>)"

lemma sample_ui_parses:
  assumes "wf_map m" and "\<forall>k. map_get m k \<noteq> Some []" and "map_get m k \<noteq> None"
  shows "\<exists>u. url_parse (url_string ((sample_url ''u'')\<lparr>u_raw_query := values_encode m\<rparr>)) = Some u"
proof -
  have ne: "values_encode m \<noteq> []"
    using parse_encode_gets [OF assms(1,2), of k] values_encode_Nil [of m] assms(3) by (auto simp: map_get_def)
  have "url_string ((sample_url ''u'')\<lparr>u_raw_query := q\<rparr>) = ''https://u?'' @ q" if "q \<noteq> []" for q
    using that by (simp add: url_string_def sample_url_def empty_url_def url_front_def
        escaped_path_def valid_encoded_def escape_def escape_char_def should_escape_def is_alnum_def Let_def)
  then show ?thesis using plain_parses [OF graphic_encode no_delim_encode ne] ne by simp
qed

definition plain_login :: login_request where
  "plain_login = (sample_login_request True)\<lparr>lr_max_age := None\<rparr>"

lemma sample_login_redirect:
  "login_redirect (sample_service True) plain_login False [] sample_token sample_token = Inr sample_redirect"
proof -
  have n: "str_fields [] = []" by code_simp
  have "sample_token \<noteq> []" using length_token_of [of "\<lambda>_. CHR 0x00"] by (auto simp: sample_token_def)
  then show ?thesis
    by (simp add: login_redirect_def add_if_def plain_login_def sample_login_request_def external_redirect_def Let_def
        sample_service_def sample_config_def sample_redirect_def callback_url_def trim_right_slash_def set_if_def n
        safe_login_ui_hints_def safe_display_def safe_ui_locales_def safe_login_hint_def text_eval sample_url_def empty_url_def)
qed

lemma sample_ui_urls:
  "absolute_http_url ''http://kratos:4433'' \<noteq> None" "absolute_http_url ''http://127.0.0.1:4433'' \<noteq> None"
  "absolute_http_url ''http://127.0.0.1:8080'' \<noteq> None" "absolute_http_url ''http://127.0.0.1:3000'' \<noteq> None"
  by (simp_all add: absolute_http_url_def url_parse_def parse_no_fragment_def cut_def get_scheme_def is_alpha_def is_digit_def
      has_prefix_def has_suffix_def text_eval parse_after_query_def parse_authority_def last_index_def parse_host_def
      set_path_def empty_url_def escape_def escape_char_def should_escape_def is_alnum_def
      valid_optional_port_def list_all_iff)

lemma sample_ui_starts: "\<exists>s. new_ui_server (\<lambda>n. []) = Inr s"
proof -
  have t: "trim_space [] = []" by (simp add: text_eval)
  have aal: "to_lower (trim_space ''aal1'') = ''aal1''" by (simp add: text_eval)
  obtain k b p u where "absolute_http_url ''http://kratos:4433'' = Some k"
    "absolute_http_url ''http://127.0.0.1:4433'' = Some b" "absolute_http_url ''http://127.0.0.1:8080'' = Some p"
    "absolute_http_url ''http://127.0.0.1:3000'' = Some u"
    using sample_ui_urls by blast
  then show ?thesis
    by (simp add: new_ui_server_def ui_required_url_def env_or_default_def and_then_def t aal)
qed

lemma sample_ui_url: "url_parse ''https://u'' = Some (sample_url ''u'')"
  by code_simp


end
