(* ===== verification/FormHandoff.thy ===== *)
theory FormHandoff
  imports Handoff HttpServerProps
begin

text \<open>
  The way back from the sample UI through an HTML form: what the provider's form handlers
  read when a browser submits the consent or the logout page of the UI. The browser is the
  only part that is not source: \<open>submits\<close> says that it posts the hidden controls of a form,
  in order, as a URL-encoded body.
\<close>

section \<open>Submitting a form\<close>

fun hidden_values :: "control list \<Rightarrow> (string \<times> string) list" where
  "hidden_values [] = []"
| "hidden_values (HiddenInput n v # cs) = (n, v) # hidden_values cs"
| "hidden_values (c # cs) = hidden_values cs"

definition control_values :: "html_form \<Rightarrow> string \<Rightarrow> string list" where
  "control_values form n = map snd (filter (\<lambda>kv. fst kv = n) (hidden_values (hf_controls form)))"

definition submits :: "web_request \<Rightarrow> html_form \<Rightarrow> bool" where
  "submits q form \<longleftrightarrow>
     wq_media_type q = (''application/x-www-form-urlencoded'', False) \<and> \<not> wq_body_fails q \<and> wq_raw_query q = []
     \<and> \<not> snd (parse_query (wq_body q))
     \<and> (\<forall>n. map_get (fst (parse_query (wq_body q))) n =
          (if control_values form n = [] then None else Some (control_values form n)))"

lemma hidden_values_append: "hidden_values (cs @ ds) = hidden_values cs @ hidden_values ds"
  by (induction cs rule: hidden_values.induct) auto

lemma parse_submitted:
  assumes "submits q form" and "length (wq_body q) \<le> max_form_bytes"
  obtains vs where "parse_form max_form_bytes q = Some vs"
    "\<And>n. map_get vs n = (if control_values form n = [] then None else Some (control_values form n))"
proof -
  have "parse_query [] = ([], False)" by (simp add: parse_query_def query_piece_def)
  then have "parse_form max_form_bytes q = Some (fst (parse_query (wq_body q)))"
    using assms by (auto simp: submits_def parse_form_def post_form_def read_max_bytes_def copy_values_def
        split: prod.split)
  then show ?thesis by (rule that) (use assms(1) in \<open>simp add: submits_def\<close>)
qed

text \<open>A browser that encodes the pairs as \<open>url.Values.Encode\<close> would submits the form.\<close>

lemma encoded_submits:
  assumes "wq_media_type q = (''application/x-www-form-urlencoded'', False)" and "\<not> wq_body_fails q" and "wq_raw_query q = []"
    and "wq_body q = join_with ''&'' (map pair_text (hidden_values (hf_controls form)))"
  shows "submits q form"
  using assms unfolding submits_def
  by (simp add: parse_pairs map_get_fold_query_add control_values_def Let_def)

section \<open>Lists of words\<close>

definition plain_word :: "string \<Rightarrow> bool" where
  "plain_word w \<longleftrightarrow> w \<noteq> [] \<and> graphic w"

lemma str_fields_join: "list_all plain_word ws \<Longrightarrow> str_fields (join_with '' '' ws) = ws"
  by (rule fields_join_words) (fastforce simp: list_all_iff plain_word_def graphic_def ascii_def is_space_def)

lemma str_fields_word: "plain_word w \<Longrightarrow> str_fields w = [w]"
  using str_fields_join [of "[w]"] by simp

lemma form_scopes_words: "list_all plain_word ws \<Longrightarrow> form_scopes ws = ws"
  by (induction ws) (auto simp: form_scopes_def str_fields_word)

text \<open>What both sides accept as a list of scopes or audiences.\<close>

definition words_ok :: "string list \<Rightarrow> bool" where
  "words_ok ws \<longleftrightarrow> list_all plain_word ws \<and> list_all (\<lambda>w. length w \<le> 128) ws \<and> length ws \<le> 64"

lemma safe_list_words:
  "words_ok ws \<Longrightarrow> safe_list_with_default (join_with '' '' ws) fallback = Some (if ws = [] then fallback else ws)"
  using graphic_no_break
  by (auto simp: words_ok_def safe_list_with_default_def str_fields_join Let_def list_ex_iff list_all_iff plain_word_def)

section \<open>The consent page\<close>

lemma consent_redirect_carries:
  assumes "consent_redirect sv req skip tx csrf = Inr r"
    and "cfg_external_ui_url (sv_cfg sv) = Some base" and "clean_url base"
  obtains f where "carries r f" "f ''flow'' = Some [''consent'']" "f ''transaction'' = Some [tx]" "f ''csrf'' = Some [csrf]"
    "f ''scope'' = (if cr_requested_scopes req \<noteq> [] then Some [join_with '' '' (cr_requested_scopes req)] else None)"
    "f ''audience'' = (if cr_requested_audience req \<noteq> [] then Some [join_with '' '' (cr_requested_audience req)] else None)"
proof -
  let ?name = "oc_name (cr_client req)"
  let ?scopes = "cr_requested_scopes req"
  let ?audience = "cr_requested_audience req"
  obtain r0 where r0: "external_consent_redirect_with_audience (sv_cfg sv) tx csrf ?name ?scopes ?audience = Inr r0"
    "carries r0 f \<Longrightarrow> carries r (if skip then f(''skip_consent'' \<mapsto> [''true'']) else f)" for f
    using assms(1) carries_add unfolding consent_redirect_def by (auto simp: add_if_def split: sum.splits if_splits)
  define base_values where "base_values = handoff_values FlowConsent tx csrf
    @ [(''return_to'', [url_string ((callback_url (sv_cfg sv) FlowConsent)\<lparr>u_raw_query := values_encode (handoff_values FlowConsent tx csrf)\<rparr>)])]"
  define m where "m = set_if (?audience \<noteq> []) ''audience'' (join_with '' '' ?audience)
    (set_if (?scopes \<noteq> []) ''scope'' (join_with '' '' ?scopes)
      (set_if (?name \<noteq> []) ''client_name'' ?name base_values))"
  have r: "r0 = url_string (base\<lparr>u_raw_query := values_encode m\<rparr>)"
    using r0(1) assms(2)
    by (simp add: external_consent_redirect_with_audience_def Let_def base_values_def m_def split: if_splits)
  have "wf_map base_values" by (simp add: base_values_def handoff_values_def wf_map_def)
  then have wf: "wf_map m" by (simp add: m_def set_if_wf)
  have base: "map_get base_values k = (if k = ''flow'' then Some [''consent''] else if k = ''transaction'' then Some [tx]
      else if k = ''csrf'' then Some [csrf] else if k = ''return_to'' then map_get base_values ''return_to'' else None)"
    "map_get base_values ''return_to'' \<noteq> Some []" for k
    by (simp_all add: base_values_def handoff_values_def map_get_def FlowConsent_def)
  have f: "map_get m ''flow'' = Some [''consent'']" "map_get m ''transaction'' = Some [tx]" "map_get m ''csrf'' = Some [csrf]"
    "map_get m ''scope'' = (if ?scopes \<noteq> [] then Some [join_with '' '' ?scopes] else None)"
    "map_get m ''audience'' = (if ?audience \<noteq> [] then Some [join_with '' '' ?audience] else None)"
    by (simp_all add: m_def set_if_get base(1))
  have "map_get base_values k \<noteq> Some []" for k
    using base(2) by (subst base(1)) simp
  then have "\<forall>k. map_get m k \<noteq> Some []" by (simp add: m_def set_if_get)
  then have "carries r0 (map_get m)" using f by (intro carriesI [OF assms(3) r wf refl, of "''flow''"]) simp_all
  from r0(2) [OF this] show ?thesis by (rule that) (simp_all add: f)
qed

lemma hidden_fields: "hidden_values (map (\<lambda>f. HiddenInput (ff_name f) (ff_value f)) fs) = map (\<lambda>f. (ff_name f, ff_value f)) fs"
  by (induction fs) auto

lemma hidden_field_simps [simp]: "ff_name (hidden_field n v) = n" "ff_value (hidden_field n v) = v"
  by (simp_all add: hidden_field_def empty_field_def)

definition consent_fields :: "string \<Rightarrow> string \<Rightarrow> bool \<Rightarrow> string list \<Rightarrow> string list \<Rightarrow> form_field list" where
  "consent_fields tx csrf skip scopes audiences =
     [hidden_field ''transaction'' tx, hidden_field ''csrf'' csrf]
     @ (if skip then [hidden_field ''skip_consent'' ''true''] else [])
     @ map (hidden_field ''grant_scope'') scopes @ map (hidden_field ''grant_audience'') audiences"

lemma consent_controls:
  assumes "form = consent_form d \<lparr>cp_action = a, cp_fields = consent_fields tx csrf skip scopes audiences\<rparr>"
  shows "control_values form n =
    (if n = ''transaction'' then [tx] else if n = ''csrf'' then [csrf] else if n = ''decision'' then [d]
     else if n = ''skip_consent'' then (if skip then [''true''] else [])
     else if n = ''grant_scope'' then scopes else if n = ''grant_audience'' then audiences else [])"
proof -
  have same: "filter (\<lambda>kv. fst kv = x) (hidden_values (map (HiddenInput m) vs)) = (if m = x then map (Pair m) vs else [])"
    for m x and vs :: "string list"
    by (induction vs) auto
  show ?thesis
    unfolding assms control_values_def consent_form_def consent_fields_def
    by (simp add: hidden_values_append hidden_fields same comp_def)
qed

lemma render_consent_page:
  assumes f: "map_get (request_query q) = f" and tx: "f ''transaction'' = Some [token_of h]" "f ''csrf'' = Some [token_of k]"
    and lists: "f ''scope'' = (if scopes \<noteq> [] then Some [join_with '' '' scopes] else None)" "words_ok scopes"
      "f ''audience'' = (if audiences \<noteq> [] then Some [join_with '' '' audiences] else None)" "words_ok audiences"
  shows "render_consent s q = UiConsent \<lparr>cp_action = provider_endpoint s ''/consent'' [],
    cp_fields = consent_fields (token_of h) (token_of k) (values_get (request_query q) ''skip_consent'' = ''true'')
      (if scopes = [] then [''openid''] else scopes) audiences\<rparr>"
proof -
  have get: "values_get (request_query q) n = (case f n of Some (v # _) \<Rightarrow> v | _ \<Rightarrow> [])" for n
    by (simp add: values_get_def f)
  have "ui_handoff (request_query q) = Some (token_of h, token_of k)"
    using valid_handoff_token by (simp add: ui_handoff_def get tx)
  moreover have "values_get (request_query q) ''scope'' = join_with '' '' scopes"
    "values_get (request_query q) ''audience'' = join_with '' '' audiences"
    by (simp_all add: get lists)
  ultimately show ?thesis
    by (simp add: render_consent_def Let_def safe_scopes_def safe_list_def safe_list_words [OF lists(2)]
        safe_list_words [OF lists(4)] consent_fields_def)
qed

text \<open>What the consent handler hands to the service.\<close>

lemma consent_submit_reads:
  assumes "submits q form" and "length (wq_body q) \<le> max_form_bytes"
    and "origin_allowed (srv_cfg srv) (header_get q ''Origin'')"
    and "form = consent_form d \<lparr>cp_action = a, cp_fields = consent_fields (token_of h) (token_of k) skip scopes audiences\<rparr>"
    and "d = ''accept'' \<or> d = ''deny''" and "list_all plain_word scopes" and "list_all plain_word audiences"
  shows "handle_consent_submit srv hs q = do {
      r \<leftarrow> pv_complete_consent (srv_provider srv)
        \<lparr>ci_transaction = token_of h, ci_csrf_token = token_of k,
         ci_browser_state = browser_state_cookie (srv_cfg srv) q consentBrowserStateCookie, ci_decision = d,
         ci_grant_scopes = scopes, ci_grant_audience = audiences, ci_credentials = session_credentials_of (srv_cfg srv) q,
         ci_remember = False, ci_remember_for = 0\<rparr>;
      State_Monad.return (completed_response q hs r) }"
proof -
  obtain vs where vs: "parse_form max_form_bytes q = Some vs"
    "\<And>n. map_get vs n = (if control_values form n = [] then None else Some (control_values form n))"
    using parse_submitted [OF assms(1,2)] by blast
  note controls = consent_controls [OF assms(4)]
  have get: "values_get vs n = (case control_values form n of v # _ \<Rightarrow> v | _ \<Rightarrow> [])" for n
    by (simp add: values_get_def vs(2) split: list.split)
  have all: "case_option [] id (map_get vs n) = control_values form n" for n by (simp add: vs(2))
  have "remember_options [] [] = Inr (False, 0)" by (simp add: remember_options_def)
  moreover have "to_lower (trim_space d) = d" using assms(5) by (auto simp: text_eval)
  ultimately show ?thesis
    using assms(3) valid_handoff_token form_scopes_words [OF assms(6)] form_scopes_words [OF assms(7)]
    by (simp add: handle_consent_submit_def vs(1) get all controls)
qed

section \<open>The logout page\<close>

lemma logout_redirect_answer:
  assumes f: "map_get (request_query q) = f" and flow: "f ''flow'' = Some [''logout'']"
    and tx: "f ''transaction'' = Some [token_of h]" "f ''csrf'' = Some [token_of k]" and meth: "wq_method q = ''GET''"
  shows "ui_login s send decode ff q = (UiRedirect (browser_endpoint (ui_kratos_browser s) ''/self-service/logout/browser''
    [(''return_to'', [browser_endpoint (ui_browser s) ''/logout/complete''
       [(''transaction'', [token_of h]), (''csrf'', [token_of k])]])]), [])"
proof -
  have get: "values_get (request_query q) n = (case f n of Some (v # _) \<Rightarrow> v | _ \<Rightarrow> [])" for n
    by (simp add: values_get_def f)
  have "ui_handoff (request_query q) = Some (token_of h, token_of k)"
    using valid_handoff_token by (simp add: ui_handoff_def get tx)
  moreover have "trim_space ''logout'' = ''logout''" by (simp add: text_eval)
  ultimately show ?thesis
    by (simp add: ui_login_def ui_start_logout_def ui_redirect_def get flow meth Let_def)
qed

lemma logout_page:
  assumes "map_get (request_query q) = map_get [(''transaction'', [token_of h]), (''csrf'', [token_of k])]"
  shows "logout_complete s q = UiFlow \<lparr>fp_title = ''Logout'', fp_action = provider_endpoint s ''/logout'' [], fp_method = ''POST'',
    fp_flow_id = [], fp_fields = [hidden_field ''transaction'' (token_of h), hidden_field ''csrf'' (token_of k)]\<rparr>"
proof -
  have "values_get (request_query q) ''transaction'' = token_of h" "values_get (request_query q) ''csrf'' = token_of k"
    unfolding values_get_def assms by (simp_all add: map_get_def)
  then show ?thesis using valid_handoff_token by (simp add: logout_complete_def ui_handoff_def)
qed

lemma logout_submit_reads:
  assumes "submits q form" and "length (wq_body q) \<le> max_form_bytes"
    and "origin_allowed (srv_cfg srv) (header_get q ''Origin'')"
    and "hf_controls form = map flow_control [hidden_field ''transaction'' (token_of h), hidden_field ''csrf'' (token_of k)]"
  shows "handle_logout_submit srv hs q = do {
      r \<leftarrow> pv_complete_logout (srv_provider srv)
        \<lparr>oi_transaction = token_of h, oi_csrf_token = token_of k,
         oi_browser_state = browser_state_cookie (srv_cfg srv) q logoutBrowserStateCookie\<rparr>;
      State_Monad.return (completed_response q hs r) }"
proof -
  obtain vs where vs: "parse_form max_form_bytes q = Some vs"
    "\<And>n. map_get vs n = (if control_values form n = [] then None else Some (control_values form n))"
    using parse_submitted [OF assms(1,2)] by blast
  have "flow_control (hidden_field n v) = HiddenInput n v" for n v
    by (simp add: flow_control_def) (simp add: hidden_field_def)
  then have "control_values form ''transaction'' = [token_of h]" "control_values form ''csrf'' = [token_of k]"
    by (simp_all add: control_values_def assms(4))
  then have "values_get vs ''transaction'' = token_of h" "values_get vs ''csrf'' = token_of k"
    by (simp_all add: values_get_def vs(2))
  then show ?thesis using assms(3) valid_handoff_token by (simp add: handle_logout_submit_def vs(1))
qed

section \<open>Properties\<close>

text \<open>C13. The consent handoff: a browser that follows the provider's consent redirect to the UI gets
  a page whose forms post to the provider's consent endpoint, and when it submits the form
  with either decision, the provider completes the consent with the transaction and CSRF
  token it issued, that decision, and exactly the scopes and audiences the client asked for;
  but when the client asked for no scope at all, the form grants the scope \<open>openid\<close>.\<close>

theorem consent_handoff:
  assumes "consent_redirect sv req skip (token_of h) (token_of k) = Inr r"
    and "cfg_external_ui_url (sv_cfg sv) = Some base" and "url_parse text = Some base" and "u_fragment base = []"
    and "words_ok (cr_requested_scopes req)" and "words_ok (cr_requested_audience req)"
    and "url_parse r = Some u" and "wq_raw_query q = u_raw_query u"
  shows "\<exists>page. ui_login s send decode ff q = (UiConsent page, []) \<and> cp_action page = provider_endpoint s ''/consent'' []
    \<and> list_all (\<lambda>form. hf_method form = ''post'' \<and> hf_action form = cp_action page) (consent_forms page)
    \<and> (\<forall>d p. (d = ''accept'' \<or> d = ''deny'') \<and> submits p (consent_form d page) \<and> length (wq_body p) \<le> 32768
         \<and> origin_allowed (srv_cfg srv) (header_get p ''Origin'') \<longrightarrow>
         handle_consent_submit srv hs p = do {
           outcome \<leftarrow> pv_complete_consent (srv_provider srv)
             \<lparr>ci_transaction = token_of h, ci_csrf_token = token_of k,
              ci_browser_state = browser_state_cookie (srv_cfg srv) p consentBrowserStateCookie, ci_decision = d,
              ci_grant_scopes = (if cr_requested_scopes req = [] then [''openid''] else cr_requested_scopes req),
              ci_grant_audience = cr_requested_audience req,
              ci_credentials = session_credentials_of (srv_cfg srv) p, ci_remember = False, ci_remember_for = 0\<rparr>;
           State_Monad.return (completed_response p hs outcome) })"
proof -
  let ?scopes = "if cr_requested_scopes req = [] then [''openid''] else cr_requested_scopes req"
  obtain f where f: "carries r f" "f ''flow'' = Some [''consent'']" "f ''transaction'' = Some [token_of h]"
    "f ''csrf'' = Some [token_of k]"
    "f ''scope'' = (if cr_requested_scopes req \<noteq> [] then Some [join_with '' '' (cr_requested_scopes req)] else None)"
    "f ''audience'' = (if cr_requested_audience req \<noteq> [] then Some [join_with '' '' (cr_requested_audience req)] else None)"
    by (rule consent_redirect_carries [OF assms(1,2) url_parse_clean [OF assms(3,4)]])
  have query: "map_get (request_query q) = f"
    using carries_parse [OF f(1) assms(7)] assms(8) by (simp add: request_query_def)
  have "trim_space ''consent'' = ''consent''" by (simp add: text_eval)
  then have flow: "trim_space (values_get (request_query q) ''flow'') = ''consent''" by (simp add: values_get_def query f(2))
  have "plain_word ''openid''" by (simp add: plain_word_def graphic_def)
  then have words: "list_all plain_word ?scopes" "list_all plain_word (cr_requested_audience req)"
    using assms(5,6) by (simp_all add: words_ok_def)
  define skipped where "skipped = (values_get (request_query q) ''skip_consent'' = ''true'')"
  define page where "page = \<lparr>cp_action = provider_endpoint s ''/consent'' [],
    cp_fields = consent_fields (token_of h) (token_of k) skipped ?scopes (cr_requested_audience req)\<rparr>"
  have "ui_login s send decode ff q = (render_consent s q, [])" by (simp add: ui_login_def flow Let_def)
  also have "render_consent s q = UiConsent page"
    unfolding page_def skipped_def by (rule render_consent_page [OF query f(3,4,5) assms(5) f(6) assms(6)])
  finally have "ui_login s send decode ff q = (UiConsent page, [])" .
  moreover have "handle_consent_submit srv hs p = do {
       outcome \<leftarrow> pv_complete_consent (srv_provider srv)
         \<lparr>ci_transaction = token_of h, ci_csrf_token = token_of k,
          ci_browser_state = browser_state_cookie (srv_cfg srv) p consentBrowserStateCookie, ci_decision = d,
          ci_grant_scopes = ?scopes, ci_grant_audience = cr_requested_audience req,
          ci_credentials = session_credentials_of (srv_cfg srv) p, ci_remember = False, ci_remember_for = 0\<rparr>;
       State_Monad.return (completed_response p hs outcome) }"
    if "d = ''accept'' \<or> d = ''deny''" "submits p (consent_form d page)" "length (wq_body p) \<le> 32768"
      "origin_allowed (srv_cfg srv) (header_get p ''Origin'')" for d p
    by (rule consent_submit_reads [OF that(2) _ that(4) arg_cong [of _ _ "consent_form d", OF page_def] that(1) words])
      (use that(3) in \<open>simp add: max_form_bytes_def\<close>)
  ultimately show ?thesis
    by (intro exI [of _ page]) (auto simp: page_def consent_forms_def consent_form_def)
qed

text \<open>C14. The logout handoff. A browser that follows the provider's logout redirect to the UI is
  sent on to the logout of the Kratos the UI is configured with, whose query holds nothing but
  the address to return to. That address is \<open>/logout/complete\<close> of the UI itself, which is a
  route of the UI: a request that follows it gets a form that posts to \<open>/logout\<close> of the
  provider the UI is configured with, and when the form is submitted the provider completes
  the logout with the transaction and CSRF token it issued.\<close>

theorem logout_handoff:
  assumes "external_redirect c FlowLogout (token_of h) (token_of k) hints = Inr r"
    and "cfg_external_ui_url c = Some base" and "url_parse text = Some base" and "u_fragment base = []"
    and "new_ui_server getenv = Inr s" and "follows q r"
  shows "\<exists>target home. ui_login s send decode ff q = (UiRedirect target, [])
    \<and> target = address_of (ui_kratos_browser s) ''/self-service/logout/browser'' @ ''?'' @ query_text target
    \<and> map_get (fst (parse_query (query_text target))) = [''return_to'' \<mapsto> [home]]
    \<and> (\<forall>v. url_parse target = Some v \<longrightarrow> u_raw_query v = query_text target)
    \<and> home = address_of (ui_browser s) ''/logout/complete'' @ ''?'' @ query_text home
    \<and> (\<forall>v. url_parse home = Some v \<longrightarrow> u_raw_query v = query_text home)
    \<and> (''/logout/complete'', UiLogoutComplete) \<in> set ui_routes
    \<and> (\<forall>q'. follows q' home \<longrightarrow>
         (\<exists>page. ui_handle s send decode ff UiLogoutComplete q' = (UiFlow page, [])
            \<and> fp_method page = ''POST''
            \<and> fp_action page = url_string ((ui_provider s)\<lparr>u_path := trim_right_slash (u_path (ui_provider s)) @ ''/logout'',
                u_raw_query := [], u_fragment := []\<rparr>)
            \<and> hf_action (flow_form page) = fp_action page \<and> (''POST'', ''/logout'', RouteLogoutSubmit) \<in> set routes
            \<and> (\<forall>p. submits p (flow_form page) \<and> length (wq_body p) \<le> 32768
                 \<and> origin_allowed (srv_cfg srv) (header_get p ''Origin'') \<longrightarrow>
                 handle_route srv RouteLogoutSubmit hs p = do {
                   outcome \<leftarrow> pv_complete_logout (srv_provider srv)
                     \<lparr>oi_transaction = token_of h, oi_csrf_token = token_of k,
                      oi_browser_state = browser_state_cookie (srv_cfg srv) p logoutBrowserStateCookie\<rparr>;
                   State_Monad.return (completed_response p hs outcome) })))"
proof -
  let ?m = "[(''transaction'', [token_of h]), (''csrf'', [token_of k])]"
  let ?home = "browser_endpoint (ui_browser s) ''/logout/complete'' ?m"
  let ?r = "[(''return_to'', [?home])]"
  let ?target = "browser_endpoint (ui_kratos_browser s) ''/self-service/logout/browser'' ?r"
  obtain f where f: "carries r f" "f ''flow'' = Some [FlowLogout]" "f ''transaction'' = Some [token_of h]"
    "f ''csrf'' = Some [token_of k]"
    by (rule external_redirect_carries [OF assms(1,2) url_parse_clean [OF assms(3,4)]])
  have answer: "ui_login s send decode ff q = (UiRedirect ?target, [])"
    by (rule logout_redirect_answer [OF carries_follows [OF f(1) assms(6)] _ f(3,4)])
      (use assms(6) in \<open>simp_all add: f(2) FlowLogout_def follows_def\<close>)
  note clean = new_ui_server_clean [OF assms(5)]
  have m: "wf_map ?m" "\<forall>k. map_get ?m k \<noteq> Some []" "map_get ?m ''csrf'' \<noteq> None" by (simp_all add: wf_map_def map_get_def)
  have rm: "wf_map ?r" "\<forall>k. map_get ?r k \<noteq> Some []" "map_get ?r ''return_to'' \<noteq> None" by (simp_all add: wf_map_def map_get_def)
  note home = endpoint_carries [OF clean(3) m, of "''/logout/complete''"]
    and target = endpoint_carries [OF clean(1) rm, of "''/self-service/logout/browser''"]
  have returns: "map_get (fst (parse_query (query_text ?target))) = [''return_to'' \<mapsto> [?home]]"
    unfolding carries_text(1) [OF target] by (rule ext) (simp add: map_get_def)
  let ?page = "\<lparr>fp_title = ''Logout'', fp_action = provider_endpoint s ''/logout'' [], fp_method = ''POST'',
    fp_flow_id = [], fp_fields = [hidden_field ''transaction'' (token_of h), hidden_field ''csrf'' (token_of k)]\<rparr>"
  have page: "ui_handle s send decode ff UiLogoutComplete q' = (UiFlow ?page, [])" if "follows q' ?home" for q'
    using logout_page [OF carries_follows [OF home that]] by simp
  have action: "fp_action ?page = url_string ((ui_provider s)\<lparr>u_path := trim_right_slash (u_path (ui_provider s)) @ ''/logout'',
      u_raw_query := [], u_fragment := []\<rparr>)" "hf_action (flow_form ?page) = fp_action ?page" "fp_method ?page = ''POST''"
    by (simp_all add: provider_endpoint_def browser_endpoint_def endpoint_url_def values_encode_def values_pairs_def flow_form_def)
  have submit: "handle_route srv RouteLogoutSubmit hs p = do {
      outcome \<leftarrow> pv_complete_logout (srv_provider srv)
        \<lparr>oi_transaction = token_of h, oi_csrf_token = token_of k,
         oi_browser_state = browser_state_cookie (srv_cfg srv) p logoutBrowserStateCookie\<rparr>;
      State_Monad.return (completed_response p hs outcome) }"
    if "submits p (flow_form ?page) \<and> length (wq_body p) \<le> 32768 \<and> origin_allowed (srv_cfg srv) (header_get p ''Origin'')" for p
    unfolding handle_route.simps using that
    by (intro logout_submit_reads [of _ "flow_form ?page"]) (simp_all add: flow_form_def max_form_bytes_def)
  have served: "(''/logout/complete'', UiLogoutComplete) \<in> set ui_routes" "(''POST'', ''/logout'', RouteLogoutSubmit) \<in> set routes"
    by (simp_all add: ui_routes_def routes_def)
  have homes: "\<exists>page. ui_handle s send decode ff UiLogoutComplete q' = (UiFlow page, []) \<and> fp_method page = ''POST''
      \<and> fp_action page = url_string ((ui_provider s)\<lparr>u_path := trim_right_slash (u_path (ui_provider s)) @ ''/logout'',
          u_raw_query := [], u_fragment := []\<rparr>)
      \<and> hf_action (flow_form page) = fp_action page \<and> (''POST'', ''/logout'', RouteLogoutSubmit) \<in> set routes
      \<and> (\<forall>p. submits p (flow_form page) \<and> length (wq_body p) \<le> 32768
           \<and> origin_allowed (srv_cfg srv) (header_get p ''Origin'') \<longrightarrow>
           handle_route srv RouteLogoutSubmit hs p = do {
             outcome \<leftarrow> pv_complete_logout (srv_provider srv)
               \<lparr>oi_transaction = token_of h, oi_csrf_token = token_of k,
                oi_browser_state = browser_state_cookie (srv_cfg srv) p logoutBrowserStateCookie\<rparr>;
             State_Monad.return (completed_response p hs outcome) })" if "follows q' ?home" for q'
    by (rule exI [of _ ?page], intro conjI allI impI, rule page [OF that], rule action(3), rule action(1), rule action(2),
        rule served(2), rule submit)
  show ?thesis
    by (rule exI [of _ ?target], rule exI [of _ ?home], intro conjI allI impI, rule answer,
        rule endpoint_address [OF clean(1) rm], rule returns, drule carries_text(2) [OF target], simp,
        rule endpoint_address [OF clean(3) m], drule carries_text(2) [OF home], simp, rule served(1), rule homes)
qed

text \<open>Runs against the sample configuration.\<close>

definition sample_consent :: "string list \<Rightarrow> consent_request" where
  "sample_consent scopes = \<lparr>cr_challenge = ''ch'', cr_client = sample_oauth_client\<lparr>oc_name := []\<rparr>, cr_subject = ''s'',
     cr_requested_scopes = scopes, cr_requested_audience = [], cr_skip = False, cr_prompt = []\<rparr>"

lemma sample_token_nonempty: "sample_token \<noteq> []"
  using length_token_of [of "\<lambda>_. CHR 0x00"] by (auto simp: sample_token_def)

lemma sample_consent_redirect:
  obtains r u where "consent_redirect (sample_service True) (sample_consent []) False sample_token sample_token = Inr r"
    "url_parse r = Some u"
proof -
  define m where "m = handoff_values FlowConsent sample_token sample_token @ [(''return_to'',
    [url_string ((callback_url sample_config FlowConsent)\<lparr>u_raw_query := values_encode (handoff_values FlowConsent sample_token sample_token)\<rparr>)])]"
  have "consent_redirect (sample_service True) (sample_consent []) False sample_token sample_token
      = Inr (url_string ((deref (cfg_external_ui_url sample_config))\<lparr>u_raw_query := values_encode m\<rparr>))"
    using sample_token_nonempty
    by (simp add: consent_redirect_def external_consent_redirect_with_audience_def add_if_def Let_def sample_service_def
        sample_consent_def set_if_def m_def)
  moreover have "deref (cfg_external_ui_url sample_config) = sample_url ''u''" by (simp add: sample_config_def)
  moreover have "\<exists>u. url_parse (url_string ((sample_url ''u'')\<lparr>u_raw_query := values_encode m\<rparr>)) = Some u"
    by (rule sample_ui_parses [of _ "''flow''"]) (auto simp: m_def handoff_values_def wf_map_def map_get_def)
  ultimately show ?thesis using that by auto
qed

text \<open>A consent request without a scope ends in a form that grants \<open>openid\<close>.\<close>

theorem consent_handoff_witness:
  "\<exists>s q page. fst (ui_login s (\<lambda>r. Inl (Msg ''closed'')) (\<lambda>body failed. None) (\<lambda>f. []) q) = UiConsent page
    \<and> cp_action page = provider_endpoint s ''/consent'' [] \<and> new_ui_server (\<lambda>n. []) = Inr s"
proof -
  obtain r u where r: "consent_redirect (sample_service True) (sample_consent []) False sample_token sample_token = Inr r"
    "url_parse r = Some u"
    by (rule sample_consent_redirect)
  obtain s where s: "new_ui_server (\<lambda>n. []) = Inr s" using sample_ui_starts by blast
  let ?q = "(sample_request ''GET'' ''/login'')\<lparr>wq_raw_query := u_raw_query u\<rparr>"
  have sample: "cfg_external_ui_url (sv_cfg (sample_service True)) = Some (sample_url ''u'')" "u_fragment (sample_url ''u'') = []"
    "words_ok (cr_requested_scopes (sample_consent []))" "words_ok (cr_requested_audience (sample_consent []))"
    by (simp_all add: sample_service_def sample_config_def sample_url_def empty_url_def sample_consent_def words_ok_def)
  have raw: "wq_raw_query ?q = u_raw_query u" by simp
  obtain page where "ui_login s (\<lambda>r. Inl (Msg ''closed'')) (\<lambda>body failed. None) (\<lambda>f. []) ?q = (UiConsent page, [])"
    "cp_action page = provider_endpoint s ''/consent'' []"
    using consent_handoff [OF r(1) [unfolded sample_token_def] sample(1) sample_ui_url sample(2,3,4) r(2) raw, of s
      "\<lambda>r. Inl (Msg ''closed'')" "\<lambda>body failed. None" "\<lambda>f. []" sample_server "[]"] by blast
  then show ?thesis using s by (intro exI [of _ s] exI [of _ ?q] exI [of _ page]) simp
qed

lemma sample_logout_redirect:
  obtains r u where "external_redirect sample_config FlowLogout sample_token sample_token no_hints = Inr r" "url_parse r = Some u"
proof -
  define m where "m = handoff_values FlowLogout sample_token sample_token @ [(''return_to'',
    [url_string ((callback_url sample_config FlowLogout)\<lparr>u_raw_query := values_encode (handoff_values FlowLogout sample_token sample_token)\<rparr>)])]"
  have "external_redirect sample_config FlowLogout sample_token sample_token no_hints
      = Inr (url_string ((deref (cfg_external_ui_url sample_config))\<lparr>u_raw_query := values_encode m\<rparr>))"
    using sample_token_nonempty by (simp add: external_redirect_def Let_def m_def FlowLogout_def FlowLogin_def)
  moreover have "deref (cfg_external_ui_url sample_config) = sample_url ''u''" by (simp add: sample_config_def)
  moreover have "\<exists>u. url_parse (url_string ((sample_url ''u'')\<lparr>u_raw_query := values_encode m\<rparr>)) = Some u"
    by (rule sample_ui_parses [of _ "''flow''"]) (auto simp: m_def handoff_values_def wf_map_def map_get_def)
  ultimately show ?thesis using that by auto
qed

theorem logout_handoff_witness:
  "\<exists>s q target home. new_ui_server (\<lambda>n. []) = Inr s
    \<and> ui_login s (\<lambda>r. Inl (Msg ''closed'')) (\<lambda>body failed. None) (\<lambda>f. []) q = (UiRedirect target, [])
    \<and> target = address_of (ui_kratos_browser s) ''/self-service/logout/browser'' @ ''?'' @ query_text target
    \<and> map_get (fst (parse_query (query_text target))) ''return_to'' = Some [home]
    \<and> home = address_of (ui_browser s) ''/logout/complete'' @ ''?'' @ query_text home"
proof -
  obtain r u where r: "external_redirect sample_config FlowLogout sample_token sample_token no_hints = Inr r" "url_parse r = Some u"
    by (rule sample_logout_redirect)
  obtain s where s: "new_ui_server (\<lambda>n. []) = Inr s" using sample_ui_starts by blast
  let ?q = "(sample_request ''GET'' ''/login'')\<lparr>wq_raw_query := query_text r\<rparr>"
  have sample: "cfg_external_ui_url sample_config = Some (sample_url ''u'')" "u_fragment (sample_url ''u'') = []"
    by (simp_all add: sample_config_def sample_url_def empty_url_def)
  have follow: "follows ?q r" by (simp add: follows_def sample_request_def)
  obtain target home where "ui_login s (\<lambda>r. Inl (Msg ''closed'')) (\<lambda>body failed. None) (\<lambda>f. []) ?q = (UiRedirect target, [])"
    "target = address_of (ui_kratos_browser s) ''/self-service/logout/browser'' @ ''?'' @ query_text target"
    "map_get (fst (parse_query (query_text target))) = [''return_to'' \<mapsto> [home]]"
    "home = address_of (ui_browser s) ''/logout/complete'' @ ''?'' @ query_text home"
    using logout_handoff [OF r(1) [unfolded sample_token_def] sample(1) sample_ui_url sample(2) s follow, of
      "\<lambda>r. Inl (Msg ''closed'')" "\<lambda>body failed. None" "\<lambda>f. []" sample_server "[]"] by blast
  then show ?thesis using s by (intro exI [of _ s] exI [of _ ?q] exI [of _ target] exI [of _ home]) simp
qed

end
