(* ===== verification/PolicyService.thy ===== *)
theory PolicyService
  imports HttpPolicy HttpWire EnvConfig
begin

text \<open>
  The sample policy service of the end-to-end stack, \<open>realstack/policy/main.go\<close>: one operator,
  one client and one issuer, over the identities that Kratos lists at the start. The JSON
  codec is a parameter: \<open>decode\<close> is the strict decoder of a request (over the bytes that can be
  read and whether reading fails), \<open>encode\<close> the encoder of the response. The request type has
  the fields of the client's (\<open>policy_request\<close>). Its process is in theory \<open>SideServers\<close>.
\<close>

section \<open>The server\<close>

record policy_server =
  py_client_id :: string
  py_issuer :: string
  py_operator_mail :: string
  py_denied_mail :: string
  py_token :: string
  py_identities :: "string gomap"

type_synonym identities_decoder = "string \<Rightarrow> bool \<Rightarrow> (string \<times> jval gomap) list option"

fun identity_loop :: "(string \<times> jval gomap) list \<Rightarrow> string gomap \<Rightarrow> string gomap" where
  "identity_loop [] acc = acc"
| "identity_loop ((ident, traits) # rest) acc =
     identity_loop rest
       (if ident = [] then acc
        else map_put ident (case map_get traits ''email'' of Some (JStr e) \<Rightarrow> e | _ \<Rightarrow> []) acc)"

definition identities_endpoint :: "url \<Rightarrow> url" where
  "identities_endpoint admin =
     (let u = admin\<lparr>u_path := trim_right_slash (u_path admin) @ ''/identities''\<rparr>;
          query = values_set ''page'' ''0'' (values_set ''per_page'' ''500'' (url_query u)) in
      u\<lparr>u_raw_query := values_encode query\<rparr>)"

definition load_identities :: "identities_decoder \<Rightarrow> transport \<Rightarrow> url \<Rightarrow> string gomap res" where
  "load_identities decode send admin =
     (case new_request ''GET'' (identities_endpoint admin) [] [] of
        None \<Rightarrow> Inl (Msg ''create Kratos identity request'')
      | Some request \<Rightarrow>
          (case send request of
             Inl e \<Rightarrow> Inl (Wrap ''list Kratos identities'' [e])
           | Inr response \<Rightarrow>
               if hr_status response \<noteq> 200 then Inl (Msg ''list Kratos identities returned status'')
               else case decode (take max_response_bytes (hr_body response))
                            (length (hr_body response) < max_response_bytes \<and> hr_body_fails response) of
                 None \<Rightarrow> Inl (Msg ''decode Kratos identities'')
               | Some vs \<Rightarrow> Inr (identity_loop vs [])))"

definition policy_required_url :: "env \<Rightarrow> string \<Rightarrow> url res" where
  "policy_required_url getenv name =
     (case absolute_http_url (trim_space (getenv name)) of
        None \<Rightarrow> Inl (Msg (name @ '' must be an absolute HTTP URL without query or fragment''))
      | Some u \<Rightarrow> Inr u)"

definition policy_required :: "env \<Rightarrow> string \<Rightarrow> string res" where
  "policy_required getenv name =
     (let v = trim_space (getenv name) in if v = [] then Inl (Msg (name @ '' is required'')) else Inr v)"

definition new_policy_server :: "identities_decoder \<Rightarrow> transport \<Rightarrow> env \<Rightarrow> policy_server res" where
  "new_policy_server decode send getenv =
     and_then (policy_required getenv ''REALSTACK_POLICY_TOKEN'') (\<lambda>token.
     and_then (policy_required getenv ''REALSTACK_POLICY_CLIENT_ID'') (\<lambda>client_id.
     and_then (policy_required_url getenv ''REALSTACK_POLICY_ISSUER'') (\<lambda>issuer.
     and_then (policy_required getenv ''REALSTACK_POLICY_OPERATOR_EMAIL'') (\<lambda>operator_mail.
     and_then (policy_required getenv ''REALSTACK_POLICY_DENY_EMAIL'') (\<lambda>denied_mail.
     and_then (policy_required_url getenv ''REALSTACK_KRATOS_ADMIN_URL'') (\<lambda>admin.
     and_then (load_identities decode send admin) (\<lambda>identities.
     Inr \<lparr>py_client_id = client_id, py_issuer = url_string issuer, py_operator_mail = operator_mail,
          py_denied_mail = denied_mail, py_token = token, py_identities = identities\<rparr>)))))))"

section \<open>The decision\<close>

record service_decision =
  dn_allowed :: bool
  dn_granted_scopes :: "string list"
  dn_granted_audiences :: "string list"
  dn_claims :: "jval gomap"

definition refused :: service_decision where
  "refused = \<lparr>dn_allowed = False, dn_granted_scopes = [], dn_granted_audiences = [], dn_claims = []\<rparr>"

definition assurance_allowed :: "policy_request \<Rightarrow> bool" where
  "assurance_allowed q =
     (if \<not> slice_contains (pq_amr q) ''password'' then False
      else if pq_aal q = ''aal1'' then True
      else pq_aal q = ''aal2'' \<and> slice_contains (pq_amr q) ''totp'')"

fun unique_loop :: "string list \<Rightarrow> string list \<Rightarrow> bool" where
  "unique_loop seen [] = True"
| "unique_loop seen (v # vs) =
     (if trim_space v = [] then False else if v \<in> set seen then False else unique_loop (v # seen) vs)"

definition unique_non_empty :: "string list \<Rightarrow> bool" where
  "unique_non_empty vs = unique_loop [] vs"

definition operator_claims :: "policy_server \<Rightarrow> jval gomap" where
  "operator_claims s =
     [(''id_token'', JObj [(''email'', JStr (py_operator_mail s)), (''role'', JStr ''operator''),
         (''sensitive'', JStr ''not-allowlisted'')]),
      (''access_token'', JObj [(''tenant'', JStr ''tenant-realstack'')])]"

definition evaluate :: "policy_server \<Rightarrow> policy_request \<Rightarrow> service_decision" where
  "evaluate s q =
     (if pq_version q \<noteq> contractVersion \<or> pq_issuer q \<noteq> py_issuer s \<or> pq_client_id q \<noteq> py_client_id s
         \<or> pq_subject q = [] \<or> (pq_operation q \<noteq> ''login'' \<and> pq_operation q \<noteq> ''consent'')
      then refused
      else case map_get (py_identities s) (pq_subject q) of
        None \<Rightarrow> refused
      | Some email \<Rightarrow>
          if email \<noteq> py_operator_mail s \<or> email = py_denied_mail s \<or> \<not> assurance_allowed q then refused
          else if pq_operation q = ''login'' then refused\<lparr>dn_allowed := True\<rparr>
          else if \<not> slice_subset (pq_granted_scopes q) (pq_requested_scopes q) \<or> \<not> unique_non_empty (pq_granted_scopes q)
            \<or> \<not> slice_subset (pq_granted_audiences q) (pq_requested_audiences q)
            \<or> \<not> unique_non_empty (pq_granted_audiences q)
          then refused
          else \<lparr>dn_allowed = True, dn_granted_scopes = pq_granted_scopes q,
                dn_granted_audiences = pq_granted_audiences q, dn_claims = operator_claims s\<rparr>)"

section \<open>The handlers\<close>

definition bearer_token :: "string \<Rightarrow> string option" where
  "bearer_token v = (if has_prefix v ''Bearer '' then Some (drop 7 v) else None)"

definition authorized :: "policy_server \<Rightarrow> string \<Rightarrow> bool" where
  "authorized s v = (case bearer_token v of None \<Rightarrow> False | Some t \<Rightarrow> t = py_token s)"

definition decision_json :: "service_decision \<Rightarrow> jval" where
  "decision_json d =
     JObj [(''version'', JStr contractVersion), (''allowed'', JBool (dn_allowed d)),
       (''granted_scopes'', JArr (map JStr (dn_granted_scopes d))),
       (''granted_audiences'', JArr (map JStr (dn_granted_audiences d))),
       (''claims'', JObj (dn_claims d))]"

definition write_decision :: "(jval \<Rightarrow> string) \<Rightarrow> service_decision \<Rightarrow> web_response" where
  "write_decision encode d =
     \<lparr>ws_status = 200, ws_headers = [(''Content-Type'', ''application/json'')], ws_body = encode (decision_json d)\<rparr>"

definition bare_status :: "int \<Rightarrow> web_response" where
  "bare_status n = \<lparr>ws_status = n, ws_headers = [], ws_body = []\<rparr>"

definition policy_health :: "web_request \<Rightarrow> web_response" where
  "policy_health q = (if wq_method q \<noteq> ''GET'' then bare_status 405 else bare_status 200)"

type_synonym request_decoder = "string \<Rightarrow> bool \<Rightarrow> policy_request option"

definition service_authorize ::
  "policy_server \<Rightarrow> request_decoder \<Rightarrow> (jval \<Rightarrow> string) \<Rightarrow> web_request \<Rightarrow> web_response" where
  "service_authorize s decode encode q =
     (if wq_method q \<noteq> ''POST'' \<or> \<not> authorized s (header_get q ''Authorization'') then bare_status 401
      else case decode (take max_request_bytes (wq_body q))
                  (length (wq_body q) > max_request_bytes \<or> wq_body_fails q) of
        None \<Rightarrow> bare_status 400
      | Some input \<Rightarrow> write_decision encode (evaluate s input))"

section \<open>Client and service\<close>

text \<open>The handler as the transport of a client: the request as the server receives it.\<close>

definition received :: "http_request \<Rightarrow> web_request" where
  "received q = \<lparr>wq_method = hq_method q, wq_path = ''/v1/authorize'', wq_raw_query = [],
     wq_headers = map (\<lambda>(n, v). (n, [v])) (hq_headers q), wq_media_type = (''application/json'', False),
     wq_body = hq_body q, wq_body_fails = False\<rparr>"

definition service_transport :: "policy_server \<Rightarrow> request_decoder \<Rightarrow> (jval \<Rightarrow> string) \<Rightarrow> transport" where
  "service_transport s decode encode q =
     (let r = service_authorize s decode encode (received q) in
      Inr \<lparr>hr_status = ws_status r, hr_body = ws_body r, hr_body_fails = False\<rparr>)"

text \<open>What the client's response type holds of the service's response.\<close>

definition claims_member :: "service_decision \<Rightarrow> string \<Rightarrow> jval gomap" where
  "claims_member d name = (case map_get (dn_claims d) name of Some (JObj m) \<Rightarrow> m | _ \<Rightarrow> [])"

definition response_of :: "service_decision \<Rightarrow> policy_response" where
  "response_of d =
     \<lparr>ps_version = Some contractVersion, ps_allowed = Some (dn_allowed d),
      ps_granted_scopes = Some (dn_granted_scopes d), ps_granted_audiences = Some (dn_granted_audiences d),
      ps_claims = Some \<lparr>cq_id_token = claims_member d ''id_token'', cq_access_token = claims_member d ''access_token'',
        cq_user_info = claims_member d ''userinfo''\<rparr>\<rparr>"

definition decision_of :: "service_decision \<Rightarrow> consent_decision" where
  "decision_of d =
     \<lparr>cd_allowed = dn_allowed d, cd_granted_scopes = dn_granted_scopes d,
      cd_granted_audiences = dn_granted_audiences d,
      cd_claims = \<lparr>cl_id_token = claims_member d ''id_token'', cl_access_token = claims_member d ''access_token'',
        cl_user_info = claims_member d ''userinfo''\<rparr>\<rparr>"

lemma unique_loop_eq: "unique_loop seen vs = validate_values_loop seen vs"
  by (induction vs arbitrary: seen) auto

lemma unique_iff: "unique_non_empty vs = validate_values vs"
  by (simp add: unique_non_empty_def validate_values_def unique_loop_eq)

lemma bearer_token_Bearer: "bearer_token (''Bearer '' @ t) = Some t"
  by (simp add: bearer_token_def has_prefix_def)

lemmas authorized_Bearer = bearer_token_Bearer [simplified]

lemma refused_response: "response_decision (response_of refused) i = Inr (decision_of refused)"
  by (simp add: response_decision_def response_of_def refused_def decision_of_def claims_member_def denied_def
      no_claims_def claims_present_def validate_values_def map_get_def)

lemma accepted_response:
  assumes "validate_values ss" and "validate_values as" and "set ss \<subseteq> set (pi_granted_scopes i)"
    and "as = [] \<or> as = pi_granted_audiences i"
  shows "response_decision (response_of \<lparr>dn_allowed = True, dn_granted_scopes = ss, dn_granted_audiences = as, dn_claims = cl\<rparr>) i
    = Inr (decision_of \<lparr>dn_allowed = True, dn_granted_scopes = ss, dn_granted_audiences = as, dn_claims = cl\<rparr>)"
  using assms
  by (auto simp: response_decision_def response_of_def decision_of_def claims_from_response_def Let_def)

lemma evaluate_cases:
  "evaluate s q = refused \<or> evaluate s q = refused\<lparr>dn_allowed := True\<rparr>
   \<or> evaluate s q = \<lparr>dn_allowed = True, dn_granted_scopes = pq_granted_scopes q,
       dn_granted_audiences = pq_granted_audiences q, dn_claims = operator_claims s\<rparr>
     \<and> validate_values (pq_granted_scopes q) \<and> validate_values (pq_granted_audiences q)"
  by (simp add: evaluate_def unique_iff split: option.split)

lemma evaluate_response:
  "response_decision (response_of (evaluate s (policy_request_of operation i))) i
     = Inr (decision_of (evaluate s (policy_request_of operation i)))"
proof -
  let ?q = "policy_request_of operation i"
  have f: "pq_granted_scopes ?q = pi_granted_scopes i" "pq_granted_audiences ?q = pi_granted_audiences i"
    by (simp_all add: policy_request_of_def)
  consider "evaluate s ?q = refused" | "evaluate s ?q = refused\<lparr>dn_allowed := True\<rparr>"
    | "evaluate s ?q = \<lparr>dn_allowed = True, dn_granted_scopes = pi_granted_scopes i,
         dn_granted_audiences = pi_granted_audiences i, dn_claims = operator_claims s\<rparr>"
      "validate_values (pi_granted_scopes i)" "validate_values (pi_granted_audiences i)"
    using evaluate_cases [of s ?q, unfolded f] by blast
  then show ?thesis
  proof cases
    case 1
    then show ?thesis by (simp add: refused_response)
  next
    case 2
    have "validate_values []" by (simp add: validate_values_def)
    then show ?thesis unfolding 2 refused_def by (simp add: accepted_response)
  next
    case 3
    then show ?thesis by (simp add: accepted_response)
  qed
qed

section \<open>Properties\<close>

text \<open>C11. The remote policy client and the sample policy service speak the same contract: when
  the client holds the token of the service and each side's JSON codec reads what the other
  wrote, the decision of the client is exactly what the service evaluates for the operation
  and the inputs, for logins and consents, allowed or refused. The client never rejects an
  answer of the service as malformed or as expanding the grants.\<close>

theorem policy_contract:
  assumes "hp_token c = py_token s" and "py_token s \<noteq> []" and "url_parse (url_string (hp_endpoint c)) \<noteq> None"
    and "pc_encode codec (policy_request_of operation i) = Some body" and "length body \<le> 65536"
    and "decode body False = Some (policy_request_of operation i)"
    and "evaluate s (policy_request_of operation i) = d"
    and "pc_decode codec (encode (decision_json d)) = Some (response_of d)"
    and "length (encode (decision_json d)) \<le> 2 ^ 20"
  shows "http_authorize c codec (service_transport s decode encode) operation i = Inr (decision_of d)"
proof -
  obtain request where q: "new_request ''POST'' (hp_endpoint c) (policy_headers c) body = Some request"
    "hq_method request = ''POST''" "hq_headers request = policy_headers c" "hq_body request = body"
    using assms(3) by (auto simp: new_request_def)
  have auth: "authorized s (header_get (received request) ''Authorization'')"
    using assms(1,2) by (simp add: authorized_def authorized_Bearer header_get_def received_def q policy_headers_def
        values_get_def map_get_def)
  have body: "take max_request_bytes body = body" "\<not> length body > max_request_bytes"
    using assms(5) by (simp_all add: max_request_bytes_def)
  have "service_authorize s decode encode (received request) = write_decision encode d"
    using auth body assms(6,7) by (simp add: service_authorize_def received_def q)
  then have "service_transport s decode encode request
      = Inr \<lparr>hr_status = 200, hr_body = encode (decision_json d), hr_body_fails = False\<rparr>"
    by (simp add: service_transport_def write_decision_def)
  moreover have "response_decision (response_of d) i = Inr (decision_of d)"
    using evaluate_response [of s operation i] assms(7) by simp
  ultimately show ?thesis
    using assms(4,5,8,9)
    by (simp add: http_authorize_def max_request_bytes_def q(1) success_status_def decode_response_def read_limited_def
        max_response_bytes_def)
qed

text \<open>A client with another token gets no decision at all.\<close>

lemma policy_contract_token:
  assumes "hp_token c \<noteq> py_token s" and "py_token s \<noteq> []"
  shows "\<exists>e. http_authorize c codec (service_transport s decode encode) operation i = Inl e \<and> errors_is e ErrUpstream"
proof -
  have "ws_status (service_authorize s decode encode (received request)) = 401"
    if "new_request ''POST'' (hp_endpoint c) (policy_headers c) body = Some request" for body request
    using that assms
    by (auto simp: service_authorize_def authorized_def authorized_Bearer header_get_def received_def policy_headers_def
        values_get_def map_get_def bare_status_def bearer_token_def new_request_def has_prefix_def split: option.splits)
  then show ?thesis
    by (auto simp: http_authorize_def service_transport_def success_status_def Let_def split: option.split)
qed

definition sample_policy_server :: policy_server where
  "sample_policy_server = \<lparr>py_client_id = ''c'', py_issuer = [], py_operator_mail = ''m'', py_denied_mail = ''d'',
     py_token = ''t'', py_identities = [(''u'', ''m'')]\<rparr>"

definition sample_consent_input :: policy_input where
  "sample_consent_input = sample_policy_input\<lparr>pi_amr := [''password'']\<rparr>"

theorem policy_contract_witness:
  "\<exists>d. http_authorize sample_http_policy (sample_codec\<lparr>pc_decode := (\<lambda>b. Some (response_of d))\<rparr>)
     (service_transport sample_policy_server (\<lambda>b f. Some (policy_request_of ''consent'' sample_consent_input)) (\<lambda>j. ''r''))
     ''consent'' sample_consent_input = Inr (decision_of d) \<and> dn_allowed d"
proof -
  let ?d = "evaluate sample_policy_server (policy_request_of ''consent'' sample_consent_input)"
  have u: "url_parse (url_string (hp_endpoint sample_http_policy)) \<noteq> None"
    using sample_new_request [of "[]" "[]"] by (auto simp: sample_http_policy_def new_request_def split: option.splits)
  have "dn_allowed ?d"
    by (simp add: evaluate_def policy_request_of_def sample_consent_input_def sample_policy_input_def
        sample_policy_server_def contractVersion_def map_get_def assurance_allowed_def 
         unique_non_empty_def text_eval)
  moreover have "http_authorize sample_http_policy (sample_codec\<lparr>pc_decode := (\<lambda>b. Some (response_of ?d))\<rparr>)
     (service_transport sample_policy_server (\<lambda>b f. Some (policy_request_of ''consent'' sample_consent_input)) (\<lambda>j. ''r''))
     ''consent'' sample_consent_input = Inr (decision_of ?d)"
    by (rule policy_contract [OF _ _ u, where body = "''q''"])
      (simp_all add: sample_http_policy_def sample_policy_server_def sample_codec_def)
  ultimately show ?thesis by blast
qed

end
