(* ===== verification/Bootstrap.thy ===== *)
theory Bootstrap
  imports PolicyService
begin

text \<open>
  The program that seeds the end-to-end stack, \<open>realstack/bootstrap/main.go\<close>: it makes sure that
  Kratos has an identity for the operator and one for the denied user. Kratos is a parameter,
  a program over its own state, and so is the JSON codec: \<open>sj_identities\<close>, \<open>sj_flow\<close> and
  \<open>sj_registration\<close> decode a reply (the last two give the id they hold, which may be empty),
  \<open>sj_encode\<close> encodes a request. Deadlines and the printing of the error are not modelled.
\<close>

section \<open>Configuration\<close>

record seed_config =
  sd_public_url :: url
  sd_admin_url :: url
  sd_operator_email :: string
  sd_denied_email :: string
  sd_operator_pass :: string
  sd_denied_password :: string

text \<open>Unlike the other programs under \<open>realstack\<close> this one accepts a URL with a query.\<close>

definition seed_required_url :: "env \<Rightarrow> string \<Rightarrow> string \<Rightarrow> url res" where
  "seed_required_url getenv name fallback =
     (let given = trim_space (getenv name); v = (if given = [] then fallback else given) in
      case url_parse v of
        None \<Rightarrow> Inl (Msg (name @ '' must be an absolute HTTP URL''))
      | Some u \<Rightarrow>
          if (u_scheme u \<noteq> ''http'' \<and> u_scheme u \<noteq> ''https'') \<or> u_host u = [] \<or> u_user u \<noteq> None \<or> u_fragment u \<noteq> []
          then Inl (Msg (name @ '' must be an absolute HTTP URL'')) else Inr u)"

definition required_env :: "env \<Rightarrow> string \<Rightarrow> string res" where
  "required_env getenv name =
     (let v = trim_space (getenv name) in if v = [] then Inl (Msg (name @ '' is required'')) else Inr v)"

definition load_seed_config :: "env \<Rightarrow> seed_config res" where
  "load_seed_config getenv =
     and_then (seed_required_url getenv ''KRATOS_PUBLIC_URL'' ''http://kratos:4433'') (\<lambda>public_url.
     and_then (seed_required_url getenv ''KRATOS_ADMIN_URL'' ''http://kratos:4434'') (\<lambda>admin_url.
     and_then (required_env getenv ''REALSTACK_OPERATOR_EMAIL'') (\<lambda>operator_email.
     and_then (required_env getenv ''REALSTACK_DENIED_EMAIL'') (\<lambda>denied_email.
     and_then (required_env getenv ''REALSTACK_PASSWORD'') (\<lambda>operator_pass.
     and_then (required_env getenv ''REALSTACK_BASIC_PASSWORD'') (\<lambda>denied_password.
     Inr \<lparr>sd_public_url = public_url, sd_admin_url = admin_url, sd_operator_email = operator_email,
          sd_denied_email = denied_email, sd_operator_pass = operator_pass, sd_denied_password = denied_password\<rparr>))))))"

section \<open>Requests to Kratos\<close>

type_synonym 'k kratos_api = "http_request \<Rightarrow> ('k, http_reply res) state"

record seed_json =
  sj_identities :: identities_decoder
  sj_flow :: "string \<Rightarrow> bool \<Rightarrow> string option"
  sj_registration :: "string \<Rightarrow> bool \<Rightarrow> string option"
  sj_encode :: "jval \<Rightarrow> string"

definition seed_endpoint :: "url \<Rightarrow> string \<Rightarrow> url" where
  "seed_endpoint base path = base\<lparr>u_path := trim_right_slash (u_path base) @ path, u_raw_query := [], u_fragment := []\<rparr>"

definition status_error :: "string \<Rightarrow> int \<Rightarrow> goerr" where
  "status_error operation status = Msg (operation @ '' returned status '' @ format_int status)"

definition decode_body :: "(string \<Rightarrow> bool \<Rightarrow> 'a option) \<Rightarrow> http_reply \<Rightarrow> 'a option" where
  "decode_body decode response =
     decode (take max_response_bytes (hr_body response))
       (length (hr_body response) < max_response_bytes \<and> hr_body_fails response)"

definition do_json :: "'k kratos_api \<Rightarrow> string \<Rightarrow> url \<Rightarrow> string option \<Rightarrow> string \<Rightarrow> ('k, http_reply res) state" where
  "do_json kratos meth endpoint body accept =
     (case new_request meth endpoint
             ([(''Accept'', accept)] @ (if body \<noteq> None then [(''Content-Type'', ''application/json'')] else []))
             (case_option [] id body) of
        None \<Rightarrow> State_Monad.return (Inl (Msg ''create kratos request''))
      | Some request \<Rightarrow> do {
          response \<leftarrow> kratos request;
          State_Monad.return (case response of
            Inl e \<Rightarrow> Inl (Wrap ''kratos request failed'' [e])
          | Inr r \<Rightarrow> Inr r)
        })"

definition identity_email :: "jval gomap \<Rightarrow> string" where
  "identity_email traits = (case map_get traits ''email'' of Some (JStr e) \<Rightarrow> e | _ \<Rightarrow> [])"

definition list_endpoint :: "url \<Rightarrow> url" where
  "list_endpoint admin =
     (let endpoint = seed_endpoint admin ''/identities'';
          query = values_set ''page'' ''0'' (values_set ''per_page'' ''500'' (url_query endpoint)) in
      endpoint\<lparr>u_raw_query := values_encode query\<rparr>)"

definition list_identities ::
  "'k kratos_api \<Rightarrow> seed_json \<Rightarrow> seed_config \<Rightarrow> ('k, (string \<times> jval gomap) list res) state" where
  "list_identities kratos json cfg = do {
     r \<leftarrow> do_json kratos ''GET'' (list_endpoint (sd_admin_url cfg)) None ''application/json'';
     State_Monad.return (case r of
       Inl e \<Rightarrow> Inl e
     | Inr response \<Rightarrow>
         if hr_status response \<noteq> 200 then Inl (status_error ''list identities'' (hr_status response))
         else case decode_body (sj_identities json) response of
           None \<Rightarrow> Inl (Msg ''decode identities response'')
         | Some vs \<Rightarrow> Inr vs)
   }"

definition initialize_registration :: "'k kratos_api \<Rightarrow> seed_json \<Rightarrow> seed_config \<Rightarrow> ('k, string res) state" where
  "initialize_registration kratos json cfg = do {
     r \<leftarrow> do_json kratos ''GET'' (seed_endpoint (sd_public_url cfg) ''/self-service/registration/api'') None
            ''application/json'';
     State_Monad.return (case r of
       Inl e \<Rightarrow> Inl e
     | Inr response \<Rightarrow>
         if hr_status response \<noteq> 200 then Inl (status_error ''initialize registration'' (hr_status response))
         else case decode_body (sj_flow json) response of
           None \<Rightarrow> Inl (Msg ''decode registration flow'')
         | Some flow \<Rightarrow> if flow = [] then Inl (Msg ''registration flow did not contain an id'') else Inr flow)
   }"

definition registration_body :: "string \<Rightarrow> string \<Rightarrow> string \<Rightarrow> jval" where
  "registration_body email name password =
     JObj [(''method'', JStr ''password''), (''password'', JStr password),
       (''traits'', JObj [(''email'', JStr email), (''name'', JStr name)])]"

definition registration_endpoint :: "url \<Rightarrow> string \<Rightarrow> url" where
  "registration_endpoint public_url flow =
     (let endpoint = seed_endpoint public_url ''/self-service/registration'' in
      endpoint\<lparr>u_raw_query := values_encode (values_set ''flow'' flow (url_query endpoint))\<rparr>)"

definition known_identity :: "string \<Rightarrow> (string \<times> jval gomap) list \<Rightarrow> string option" where
  "known_identity email vs =
     map_option fst (find (\<lambda>(ident, traits). identity_email traits = email \<and> ident \<noteq> []) vs)"

definition ensure_identity ::
  "'k kratos_api \<Rightarrow> seed_json \<Rightarrow> seed_config \<Rightarrow> string \<Rightarrow> string \<Rightarrow> string \<Rightarrow> ('k, string res) state" where
  "ensure_identity kratos json cfg email name password = do {
     listed \<leftarrow> list_identities kratos json cfg;
     case listed of
       Inl e \<Rightarrow> State_Monad.return (Inl e)
     | Inr vs \<Rightarrow>
         (case known_identity email vs of
            Some ident \<Rightarrow> State_Monad.return (Inr ident)
          | None \<Rightarrow> do {
              flow \<leftarrow> initialize_registration kratos json cfg;
              case flow of
                Inl e \<Rightarrow> State_Monad.return (Inl e)
              | Inr flow_id \<Rightarrow> do {
                  r \<leftarrow> do_json kratos ''POST'' (registration_endpoint (sd_public_url cfg) flow_id)
                         (Some (sj_encode json (registration_body email name password))) ''application/json'';
                  State_Monad.return (case r of
                    Inl e \<Rightarrow> Inl e
                  | Inr response \<Rightarrow>
                      if hr_status response \<noteq> 200 then Inl (status_error ''complete registration'' (hr_status response))
                      else case decode_body (sj_registration json) response of
                        None \<Rightarrow> Inl (Msg ''decode registration response'')
                      | Some ident \<Rightarrow>
                          if ident = [] then Inl (Msg ''registration response did not contain an identity'') else Inr ident)
                }
            })
   }"

text \<open>\<open>main\<close>: the error it ends with, if any.\<close>

definition bootstrap :: "'k kratos_api \<Rightarrow> seed_json \<Rightarrow> env \<Rightarrow> ('k, goerr option) state" where
  "bootstrap kratos json getenv =
     (case load_seed_config getenv of
        Inl e \<Rightarrow> State_Monad.return (Some e)
      | Inr cfg \<Rightarrow> do {
          operator \<leftarrow> ensure_identity kratos json cfg (sd_operator_email cfg) ''Real-stack operator'' (sd_operator_pass cfg);
          case operator of
            Inl e \<Rightarrow> State_Monad.return (Some e)
          | Inr _ \<Rightarrow> do {
              other \<leftarrow> ensure_identity kratos json cfg (sd_denied_email cfg) ''Real-stack denied'' (sd_denied_password cfg);
              State_Monad.return (case other of Inl e \<Rightarrow> Some e | Inr _ \<Rightarrow> None)
            }
        })"

section \<open>What Kratos promises\<close>

text \<open>
  \<open>ids k\<close> are the identities Kratos has in its state \<open>k\<close>, by id. A \<open>GET\<close> changes none of them. A
  page of the list holds identities that are there, and all of them when there are no more than
  the page holds. A POST to the registration endpoint, with the body of a registration, adds at
  most one identity, with a new id and the address it was given; and it has added one when it
  answers 200 with an id. Nothing is said of any other request, nor that Kratos refuses a second
  identity with an address: that the program does not register one is for the program to see to.
\<close>

definition registers ::
  "string \<Rightarrow> string \<Rightarrow> (string \<Rightarrow> jval gomap option) \<Rightarrow> (string \<Rightarrow> jval gomap option) \<Rightarrow> bool" where
  "registers email ident m m' \<longleftrightarrow>
     ident \<noteq> [] \<and> m ident = None \<and> (\<exists>t. identity_email t = email \<and> m' = m(ident \<mapsto> t))"

definition list_request :: "url \<Rightarrow> http_request \<Rightarrow> bool" where
  "list_request admin q \<longleftrightarrow>
     hq_method q = ''GET''
     \<and> (case new_request ''GET'' (list_endpoint admin) [] [] of None \<Rightarrow> False | Some q' \<Rightarrow> hq_url q = hq_url q')"

definition registration_request :: "seed_json \<Rightarrow> url \<Rightarrow> string \<Rightarrow> http_request \<Rightarrow> bool" where
  "registration_request json public email q \<longleftrightarrow>
     hq_method q = ''POST''
     \<and> (\<exists>flow q'. new_request ''POST'' (registration_endpoint public flow) [] [] = Some q' \<and> hq_url q = hq_url q')
     \<and> (\<exists>name password. hq_body q = sj_encode json (registration_body email name password))"

definition lists_truly ::
  "seed_json \<Rightarrow> (string \<Rightarrow> jval gomap option) \<Rightarrow> http_reply res \<Rightarrow> bool" where
  "lists_truly json m r \<longleftrightarrow>
     (\<forall>response vs. r = Inr response \<and> hr_status response = 200
        \<and> decode_body (sj_identities json) response = Some vs \<longrightarrow>
        (\<forall>(i, t)\<in>set vs. m i = Some t) \<and> (finite (dom m) \<and> card (dom m) \<le> 500 \<longrightarrow> dom m = fst ` set vs))"

definition registers_truly ::
  "seed_json \<Rightarrow> string \<Rightarrow> (string \<Rightarrow> jval gomap option) \<Rightarrow> (string \<Rightarrow> jval gomap option) \<Rightarrow> http_reply res \<Rightarrow> bool" where
  "registers_truly json email m m' r \<longleftrightarrow>
     (m' = m \<or> (\<exists>i. registers email i m m'))
     \<and> (\<forall>response i. r = Inr response \<and> hr_status response = 200
          \<and> decode_body (sj_registration json) response = Some i \<and> i \<noteq> [] \<longrightarrow> registers email i m m')"

definition kratos_laws ::
  "'k kratos_api \<Rightarrow> seed_json \<Rightarrow> url \<Rightarrow> url \<Rightarrow> ('k \<Rightarrow> string \<Rightarrow> jval gomap option) \<Rightarrow> bool" where
  "kratos_laws kratos json public admin ids \<longleftrightarrow>
     (\<forall>k. ids k [] = None)
     \<and> (\<forall>q k r k'. run_state (kratos q) k = (r, k') \<longrightarrow> hq_method q = ''GET'' \<longrightarrow>
          ids k' = ids k \<and> (list_request admin q \<longrightarrow> lists_truly json (ids k) r))
     \<and> (\<forall>q k r k' email. run_state (kratos q) k = (r, k') \<longrightarrow> registration_request json public email q \<longrightarrow>
          registers_truly json email (ids k) (ids k') r)"

text \<open>The list can be asked for, and is answered with one that can be read.\<close>

definition list_available :: "'k kratos_api \<Rightarrow> seed_json \<Rightarrow> url \<Rightarrow> bool" where
  "list_available kratos json admin \<longleftrightarrow>
     new_request ''GET'' (list_endpoint admin) [] [] \<noteq> None
     \<and> (\<forall>q k. list_request admin q \<longrightarrow> (\<exists>response vs. fst (run_state (kratos q) k) = Inr response
          \<and> hr_status response = 200 \<and> decode_body (sj_identities json) response = Some vs))"

definition seeded :: "string \<Rightarrow> (string \<Rightarrow> jval gomap option) \<Rightarrow> bool" where
  "seeded email m \<longleftrightarrow> (\<exists>t\<in>ran m. identity_email t = email)"

text \<open>The page of the list holds all identities.\<close>

definition on_page :: "(string \<Rightarrow> jval gomap option) \<Rightarrow> bool" where
  "on_page m \<longleftrightarrow> finite (dom m) \<and> card (dom m) \<le> 500"

lemma kratos_get:
  "kratos_laws kratos json public admin ids \<Longrightarrow> run_state (kratos q) k = (r, k') \<Longrightarrow> hq_method q = ''GET'' \<Longrightarrow>
   ids k' = ids k \<and> (list_request admin q \<longrightarrow> lists_truly json (ids k) r)"
  unfolding kratos_laws_def by metis

lemma kratos_register:
  "kratos_laws kratos json public admin ids \<Longrightarrow> run_state (kratos q) k = (r, k') \<Longrightarrow>
   registration_request json public email q \<Longrightarrow> registers_truly json email (ids k) (ids k') r"
  unfolding kratos_laws_def by metis

section \<open>Seeding one identity\<close>

lemma wp_do_json:
  assumes "\<And>q r k'. hq_method q = meth \<Longrightarrow> hq_body q = case_option [] id body \<Longrightarrow>
      new_request meth endpoint (hq_headers q) (case_option [] id body) = Some q \<Longrightarrow> run_state (kratos q) k = (r, k') \<Longrightarrow>
      Q (case r of Inl e \<Rightarrow> Inl (Wrap ''kratos request failed'' [e]) | Inr x \<Rightarrow> Inr x) k'"
    and "new_request meth endpoint [] [] = None \<Longrightarrow> Q (Inl (Msg ''create kratos request'')) k"
  shows "wp (do_json kratos meth endpoint body accept) Q k"
proof (cases "new_request meth endpoint
    ([(''Accept'', accept)] @ (if body \<noteq> None then [(''Content-Type'', ''application/json'')] else [])) (case_option [] id body)")
  case (Some q)
  then have "hq_method q = meth" "hq_body q = case_option [] id body"
    "new_request meth endpoint (hq_headers q) (case_option [] id body) = Some q"
    by (auto simp: new_request_def split: option.splits)
  from assms(1) [OF this] show ?thesis
    unfolding do_json_def Some by (cases "run_state (kratos q) k") (simp add: wp, simp add: wp_def)
next
  case None
  then have "new_request meth endpoint [] [] = None" by (auto simp: new_request_def split: option.splits)
  then show ?thesis using assms(2) None by (simp add: do_json_def wp)
qed

lemma list_requestI: "new_request ''GET'' (list_endpoint admin) h b = Some q \<Longrightarrow> list_request admin q"
  by (auto simp: list_request_def new_request_def split: option.splits)

lemma registration_requestI:
  "new_request ''POST'' (registration_endpoint public flow) h (sj_encode json (registration_body email name password)) = Some q \<Longrightarrow>
   registration_request json public email q"
  unfolding registration_request_def new_request_def by (auto split: option.splits) blast

definition listed_all :: "(string \<Rightarrow> jval gomap option) \<Rightarrow> (string \<times> jval gomap) list \<Rightarrow> bool" where
  "listed_all m vs \<longleftrightarrow> (\<forall>(i, t)\<in>set vs. m i = Some t) \<and> (on_page m \<longrightarrow> dom m = fst ` set vs)"

lemma wp_list:
  assumes "kratos_laws kratos json public (sd_admin_url cfg) ids"
  shows "wp (list_identities kratos json cfg) (\<lambda>r k'. ids k' = ids k
     \<and> (\<forall>vs. r = Inr vs \<longrightarrow> listed_all (ids k) vs)
     \<and> (list_available kratos json (sd_admin_url cfg) \<longrightarrow> (\<exists>vs. r = Inr vs))) k"
  unfolding list_identities_def wp
proof (rule wp_do_json, goal_cases)
  case (1 q r k')
  note asked = list_requestI [OF 1(3)]
  from kratos_get [OF assms 1(4,1)] have "ids k' = ids k" "lists_truly json (ids k) r" using asked by simp_all
  moreover have "\<exists>response vs. r = Inr response \<and> hr_status response = 200 \<and> decode_body (sj_identities json) response = Some vs"
    if "list_available kratos json (sd_admin_url cfg)"
    using that asked 1(4) unfolding list_available_def by (metis fst_conv)
  ultimately show ?case
    by (cases r) (auto simp: lists_truly_def listed_all_def on_page_def split: option.split)
qed (simp add: list_available_def)

lemma wp_initialize:
  assumes "kratos_laws kratos json public admin ids"
  shows "wp (initialize_registration kratos json cfg) (\<lambda>r k'. ids k' = ids k) k"
  unfolding initialize_registration_def wp
  by (rule wp_do_json) (use kratos_get [OF assms] in auto)

lemma known_identity_Some:
  "known_identity email vs = Some i \<Longrightarrow> \<exists>t. (i, t) \<in> set vs \<and> identity_email t = email"
  by (auto simp: known_identity_def find_Some_iff) (metis nth_mem)

text \<open>The existence check: an identity that is on the page is found.\<close>

lemma known_identity_None:
  assumes "known_identity email vs = None" and "listed_all m vs" and "on_page m" and "m [] = None"
  shows "\<not> seeded email m"
proof
  assume "seeded email m"
  then obtain i t where i: "m i = Some t" "identity_email t = email" by (auto simp: seeded_def ran_def)
  then have "i \<in> fst ` set vs" using assms(2,3) by (auto simp: listed_all_def dom_def)
  then obtain t' where "(i, t') \<in> set vs" by auto
  moreover from this have "t' = t" using assms(2) i(1) by (auto simp: listed_all_def)
  moreover have "i \<noteq> []" using assms(4) i(1) by auto
  ultimately show False using assms(1) i(2) by (auto simp: known_identity_def find_None_iff)
qed

text \<open>
  What one call may do to the identities: it leaves them alone or adds the one it was asked
  for, the latter only when no identity on the page has that address.
\<close>

definition seeding :: "string \<Rightarrow> (string \<Rightarrow> jval gomap option) \<Rightarrow> (string \<Rightarrow> jval gomap option) \<Rightarrow> bool" where
  "seeding email m m' \<longleftrightarrow> m' = m \<or> (on_page m \<longrightarrow> \<not> seeded email m) \<and> (\<exists>i. registers email i m m')"

lemma seededI: "m i = Some t \<Longrightarrow> identity_email t = email \<Longrightarrow> seeded email m"
  by (auto simp: seeded_def ran_def)

lemma registers_seeded: "registers email i m m' \<Longrightarrow> seeded email m'"
  by (auto simp: registers_def intro: seededI)

lemma wp_register:
  assumes "kratos_laws kratos json (sd_public_url cfg) admin ids"
  shows "wp (do_json kratos ''POST'' (registration_endpoint (sd_public_url cfg) flow_id)
        (Some (sj_encode json (registration_body email name password))) accept)
      (\<lambda>r k'. (ids k' = ids k \<or> (\<exists>i. registers email i (ids k) (ids k')))
        \<and> (\<forall>response i. r = Inr response \<and> hr_status response = 200
            \<and> decode_body (sj_registration json) response = Some i \<and> i \<noteq> [] \<longrightarrow> registers email i (ids k) (ids k'))) k"
proof (rule wp_do_json, goal_cases)
  case (1 q r k')
  have "registration_request json (sd_public_url cfg) email q" by (rule registration_requestI [OF 1(3) [simplified]])
  from kratos_register [OF assms 1(4) this] show ?case by (cases r) (auto simp: registers_truly_def)
qed simp

lemma wp_ensure:
  assumes "kratos_laws kratos json (sd_public_url cfg) (sd_admin_url cfg) ids"
  shows "wp (ensure_identity kratos json cfg email name password)
    (\<lambda>r k'. seeding email (ids k) (ids k') \<and> (\<forall>i. r = Inr i \<longrightarrow> seeded email (ids k'))
      \<and> (seeded email (ids k) \<and> on_page (ids k) \<and> list_available kratos json (sd_admin_url cfg) \<longrightarrow> (\<exists>i. r = Inr i))) k"
  unfolding ensure_identity_def wp
proof (rule wp_mono [OF wp_list [OF assms]], goal_cases)
  case (1 listed k1)
  have no_id: "ids k [] = None" using assms unfolding kratos_laws_def by blast
  show ?case
  proof (cases listed)
    case (Inr vs)
    then have vs: "listed_all (ids k) vs" using 1 by blast
    show ?thesis
    proof (cases "known_identity email vs")
      case None
      have new: "on_page (ids k) \<longrightarrow> \<not> seeded email (ids k)" using known_identity_None [OF None vs] no_id by blast
      show ?thesis
        using 1 Inr None
        apply (simp add: wp)
        apply (rule wp_mono [OF wp_initialize [OF assms]])
        apply (simp add: wp split: sum.split)
        apply (intro conjI allI impI)
          apply (use new in \<open>simp add: seeding_def\<close>)
         apply (use new in blast)
        apply (rule wp_mono [OF wp_register [OF assms]])
        using new registers_seeded by (auto simp: seeding_def split: sum.split option.split)
    next
      case (Some i)
      then obtain t where "(i, t) \<in> set vs" "identity_email t = email" using known_identity_Some by blast
      then have "seeded email (ids k)" using vs by (auto simp: listed_all_def intro: seededI)
      then show ?thesis using 1 Inr Some by (simp add: wp seeding_def)
    qed
  qed (use 1 in \<open>auto simp: wp seeding_def\<close>)
qed

section \<open>Seeding both\<close>

lemma seeding_le: "seeding email m m' \<Longrightarrow> m \<subseteq>\<^sub>m m'"
  by (auto simp: seeding_def registers_def map_le_def)

lemma seeded_mono: "m \<subseteq>\<^sub>m m' \<Longrightarrow> seeded email m \<Longrightarrow> seeded email m'"
  by (auto simp: seeded_def ran_def map_le_def dom_def) metis

lemma seeding_idle: "seeding email m m' \<Longrightarrow> seeded email m \<Longrightarrow> on_page m \<Longrightarrow> m' = m"
  by (auto simp: seeding_def)

lemma seeding_adds:
  "seeding email m m' \<Longrightarrow> m' i = Some t \<Longrightarrow> m i = None \<Longrightarrow> identity_email t = email \<and> (on_page m \<longrightarrow> \<not> seeded email m)"
  by (auto simp: seeding_def registers_def split: if_splits)

lemma seeding_one: "seeding email m m' \<Longrightarrow> m' i \<noteq> None \<Longrightarrow> m' j \<noteq> None \<Longrightarrow> m i = None \<Longrightarrow> m j = None \<Longrightarrow> i = j"
  by (auto simp: seeding_def registers_def split: if_splits)

lemma seeding_room: "seeding email m m' \<Longrightarrow> finite (dom m) \<Longrightarrow> card (dom m) < 500 \<Longrightarrow> on_page m'"
  by (auto simp: seeding_def registers_def on_page_def card_insert_if)

lemma wp_bootstrap:
  assumes "kratos_laws kratos json (sd_public_url cfg) (sd_admin_url cfg) ids" and "load_seed_config getenv = Inr cfg"
  shows "wp (bootstrap kratos json getenv)
    (\<lambda>e k'. \<exists>m. seeding (sd_operator_email cfg) (ids k) m \<and> seeding (sd_denied_email cfg) m (ids k')
       \<and> (e = None \<longrightarrow> seeded (sd_operator_email cfg) m \<and> seeded (sd_denied_email cfg) (ids k'))
       \<and> (seeded (sd_operator_email cfg) (ids k) \<and> seeded (sd_denied_email cfg) (ids k) \<and> on_page (ids k)
          \<and> list_available kratos json (sd_admin_url cfg) \<longrightarrow> e = None)) k"
proof -
  let ?all = "seeded (sd_operator_email cfg) (ids k) \<and> seeded (sd_denied_email cfg) (ids k) \<and> on_page (ids k)
    \<and> list_available kratos json (sd_admin_url cfg)"
  have refl: "seeding email m m" for email m by (simp add: seeding_def)
  have rest: "wp (ensure_identity kratos json cfg (sd_denied_email cfg) name password)
      (\<lambda>r k'. \<exists>m. seeding (sd_operator_email cfg) (ids k) m \<and> seeding (sd_denied_email cfg) m (ids k')
         \<and> ((case r of Inl e \<Rightarrow> Some e | Inr x \<Rightarrow> None) = None \<longrightarrow>
             seeded (sd_operator_email cfg) m \<and> seeded (sd_denied_email cfg) (ids k'))
         \<and> (?all \<longrightarrow> (case r of Inl e \<Rightarrow> Some e | Inr x \<Rightarrow> None) = None)) k1"
    if op: "seeding (sd_operator_email cfg) (ids k) (ids k1)" "seeded (sd_operator_email cfg) (ids k1)" for name password k1
  proof (rule wp_mono [OF wp_ensure [OF assms(1)]], goal_cases)
    case (1 r k')
    have "?all \<longrightarrow> (\<exists>i. r = Inr i)" using 1 seeding_idle [OF op(1)] by auto
    then show ?case using 1 op by (intro exI [of _ "ids k1"]) (auto split: sum.splits)
  qed
  show ?thesis
    unfolding bootstrap_def assms(2) sum.case wp
  proof (rule wp_mono [OF wp_ensure [OF assms(1)]], goal_cases)
    case (1 r k1)
    show ?case
    proof (cases r)
      case (Inl e)
      then show ?thesis using 1 refl by (auto simp: wp)
    next
      case (Inr i)
      then show ?thesis using rest 1 by (simp add: wp)
    qed
  qed
qed

section \<open>The identities the policy service reads\<close>

lemma identity_loop_get:
  "\<forall>(i, t)\<in>set vs. m i = Some t \<Longrightarrow>
   map_get (identity_loop vs acc) i =
     (if i \<noteq> [] \<and> i \<in> fst ` set vs then map_option identity_email (m i) else map_get acc i)"
  by (induction vs acc rule: identity_loop.induct) (auto simp: gomap identity_email_def)

lemma list_endpoint_same:
  "absolute_http_url text = Some admin \<Longrightarrow> list_endpoint admin = identities_endpoint admin"
  by (auto simp: absolute_http_url_def list_endpoint_def identities_endpoint_def seed_endpoint_def Let_def url_query_def
      split: option.splits if_splits)

lemma load_identities_sound:
  assumes "kratos_laws kratos json public admin ids" and "absolute_http_url text = Some admin"
    and "load_identities (sj_identities json) (\<lambda>q. fst (run_state (kratos q) k)) admin = Inr m"
  shows "map_get m i = Some email \<Longrightarrow> \<exists>t. ids k i = Some t \<and> identity_email t = email"
    and "finite (dom (ids k)) \<Longrightarrow> card (dom (ids k)) \<le> 500 \<Longrightarrow> map_get m i = map_option identity_email (ids k i)"
proof -
  obtain q response vs where q: "new_request ''GET'' (list_endpoint admin) [] [] = Some q"
    "fst (run_state (kratos q) k) = Inr response" "hr_status response = 200"
    "decode_body (sj_identities json) response = Some vs" "m = identity_loop vs []"
    using assms(3) by (auto simp: load_identities_def list_endpoint_same [OF assms(2)] decode_body_def
        split: option.splits sum.splits if_splits)
  then have "hq_method q = ''GET''" by (auto simp: new_request_def split: option.splits)
  with kratos_get [OF assms(1), of q k "Inr response" "snd (run_state (kratos q) k)"] q
  have truly: "lists_truly json (ids k) (Inr response)"
    using list_requestI [OF q(1)] by (metis prod.collapse)
  then have vs: "\<forall>(i, t)\<in>set vs. ids k i = Some t" using q(3,4) unfolding lists_truly_def by blast
  note get = identity_loop_get [OF vs, of "[]" i]
  show "\<exists>t. ids k i = Some t \<and> identity_email t = email" if "map_get m i = Some email"
    using that unfolding q(5) get by (auto simp: gomap map_get_def split: if_splits)
  show "map_get m i = map_option identity_email (ids k i)" if "finite (dom (ids k))" "card (dom (ids k)) \<le> 500"
  proof -
    have "dom (ids k) = fst ` set vs" using truly q(3,4) that unfolding lists_truly_def by blast
    moreover have "ids k [] = None" using assms(1) unfolding kratos_laws_def by blast
    ultimately have "i \<noteq> [] \<and> i \<in> fst ` set vs \<longleftrightarrow> ids k i \<noteq> None" by (metis domIff)
    then show ?thesis unfolding q(5) get by (auto simp: map_get_def)
  qed
qed

section \<open>A small Kratos\<close>

definition sample_identities :: "(string \<times> jval gomap) list" where
  "sample_identities = [(''1'', [(''email'', JStr ''o'')]), (''2'', [(''email'', JStr ''d'')])]"

definition sample_ids :: "nat \<Rightarrow> string \<Rightarrow> jval gomap option" where
  "sample_ids n = map_of (take n sample_identities)"

definition sample_json :: seed_json where
  "sample_json = \<lparr>sj_identities = (\<lambda>b failed. if length b \<le> 2 then Some (take (length b) sample_identities) else None),
     sj_flow = (\<lambda>b failed. Some ''f''), sj_registration = (\<lambda>b failed. Some b),
     sj_encode = (\<lambda>j. case j of JObj m \<Rightarrow> (case map_get m ''traits'' of Some (JObj t) \<Rightarrow> identity_email t | _ \<Rightarrow> []) | _ \<Rightarrow> [])\<rparr>"

definition sample_kratos :: "nat kratos_api" where
  "sample_kratos q = State (\<lambda>n.
     if hq_method q = ''GET'' then (Inr \<lparr>hr_status = 200, hr_body = replicate n (CHR ''x''), hr_body_fails = False\<rparr>, n)
     else if n = 0 \<and> hq_body q = ''o'' then (Inr \<lparr>hr_status = 200, hr_body = ''1'', hr_body_fails = False\<rparr>, 1)
     else if n = 1 \<and> hq_body q = ''d'' then (Inr \<lparr>hr_status = 200, hr_body = ''2'', hr_body_fails = False\<rparr>, 2)
     else (Inr \<lparr>hr_status = 400, hr_body = [], hr_body_fails = False\<rparr>, n))"

lemma sample_lists: "lists_truly sample_json (sample_ids n) (Inr \<lparr>hr_status = 200, hr_body = replicate n (CHR ''x''), hr_body_fails = False\<rparr>)"
proof -
  have "length (take max_response_bytes (replicate n (CHR ''x''))) = n" if "min n max_response_bytes \<le> 2"
    using that by (auto simp: max_response_bytes_def)
  moreover have "distinct (map fst sample_identities)" by (simp add: sample_identities_def)
  ultimately show ?thesis
    by (auto simp: lists_truly_def decode_body_def sample_json_def sample_ids_def dom_map_of_conv_image_fst
        intro!: map_of_is_SomeI distinct_take simp flip: take_map split: if_splits)
qed

lemma sample_laws: "kratos_laws sample_kratos sample_json public admin sample_ids"
proof -
  have zero: "sample_ids 0 = (\<lambda>i. None)" "sample_ids (Suc 0) = [''1'' \<mapsto> [(''email'', JStr ''o'')]]"
    "sample_ids 2 = [''1'' \<mapsto> [(''email'', JStr ''o'')], ''2'' \<mapsto> [(''email'', JStr ''d'')]]"
    by (auto simp: sample_ids_def sample_identities_def fun_eq_iff)
  have "sample_ids n [] = None" for n
    by (auto simp: sample_ids_def sample_identities_def map_of_eq_None_iff dest: in_set_takeD)
  moreover have "sj_encode sample_json (registration_body email name password) = email" for email name password
    by (simp add: sample_json_def registration_body_def identity_email_def map_get_def)
  moreover have "identity_email [(''email'', JStr e)] = e" for e by (simp add: identity_email_def map_get_def)
  then have "registers ''o'' ''1'' (sample_ids 0) (sample_ids 1)" "registers ''d'' ''2'' (sample_ids 1) (sample_ids 2)"
    by (auto simp: registers_def zero ran_def)
  moreover have reg: "sj_registration sample_json = (\<lambda>b failed. Some b)" by (simp add: sample_json_def)
  ultimately show ?thesis
    unfolding kratos_laws_def
    by (auto simp: registration_request_def sample_kratos_def sample_lists registers_truly_def reg decode_body_def max_response_bytes_def
        split: if_splits)
qed

lemma sample_seed_urls:
  "url_parse ''http://kratos:4433'' = Some (empty_url\<lparr>u_scheme := ''http'', u_host := ''kratos:4433''\<rparr>)"
  "url_parse ''http://kratos:4434'' = Some (empty_url\<lparr>u_scheme := ''http'', u_host := ''kratos:4434''\<rparr>)"
  by (simp_all add: url_parse_def parse_no_fragment_def cut_def get_scheme_def is_alpha_def is_digit_def
      has_prefix_def has_suffix_def text_eval parse_after_query_def parse_authority_def last_index_def parse_host_def
      set_path_def empty_url_def escape_def escape_char_def should_escape_def is_alnum_def
      valid_optional_port_def list_all_iff)

lemma sample_list_request: "\<not> Option.is_none (new_request ''GET''
    (list_endpoint (empty_url\<lparr>u_scheme := ''http'', u_host := ''kratos:4434''\<rparr>)) [] [])"
  by code_simp

definition sample_seed_env :: env where
  "sample_seed_env n =
     (if n = ''REALSTACK_OPERATOR_EMAIL'' \<or> n = ''REALSTACK_POLICY_OPERATOR_EMAIL'' then ''o''
      else if n = ''REALSTACK_DENIED_EMAIL'' \<or> n = ''REALSTACK_POLICY_DENY_EMAIL'' then ''d''
      else if n = ''REALSTACK_PASSWORD'' \<or> n = ''REALSTACK_BASIC_PASSWORD'' then ''p''
      else if n = ''REALSTACK_POLICY_TOKEN'' then ''t''
      else if n = ''REALSTACK_POLICY_CLIENT_ID'' then ''c''
      else if n = ''REALSTACK_POLICY_ISSUER'' then ''http://kratos:4433''
      else if n = ''REALSTACK_KRATOS_ADMIN_URL'' then ''http://kratos:4434'' else [])"

definition sample_seed :: seed_config where
  "sample_seed = \<lparr>sd_public_url = empty_url\<lparr>u_scheme := ''http'', u_host := ''kratos:4433''\<rparr>,
     sd_admin_url = empty_url\<lparr>u_scheme := ''http'', u_host := ''kratos:4434''\<rparr>,
     sd_operator_email = ''o'', sd_denied_email = ''d'', sd_operator_pass = ''p'', sd_denied_password = ''p''\<rparr>"

lemma sample_seed_loads: "load_seed_config sample_seed_env = Inr sample_seed"
proof -
  have "sample_seed_env ''KRATOS_PUBLIC_URL'' = []" "sample_seed_env ''KRATOS_ADMIN_URL'' = []"
    "sample_seed_env ''REALSTACK_OPERATOR_EMAIL'' = ''o''" "sample_seed_env ''REALSTACK_DENIED_EMAIL'' = ''d''"
    "sample_seed_env ''REALSTACK_PASSWORD'' = ''p''" "sample_seed_env ''REALSTACK_BASIC_PASSWORD'' = ''p''"
    by (simp_all add: sample_seed_env_def)
  moreover have "trim_space [] = []" "trim_space ''o'' = ''o''" "trim_space ''d'' = ''d''" "trim_space ''p'' = ''p''"
    by (simp_all add: text_eval)
  ultimately show ?thesis
    by (simp add: load_seed_config_def seed_required_url_def required_env_def and_then_def sample_seed_urls sample_seed_def
        empty_url_def)
qed

lemma sample_bootstrap: "run_state (bootstrap sample_kratos sample_json sample_seed_env) 2 = (None, 2)"
proof -
  obtain q where q: "\<And>h b. new_request ''GET'' (list_endpoint (sd_admin_url sample_seed)) h b
      = Some \<lparr>hq_method = ''GET'', hq_url = q, hq_headers = h, hq_body = b\<rparr>"
    using sample_list_request by (auto simp: sample_seed_def new_request_def Option.is_none_def split: option.splits)
  have known: "known_identity ''o'' sample_identities = Some ''1''" "known_identity ''d'' sample_identities = Some ''2''"
    by (simp_all add: known_identity_def sample_identities_def identity_email_def map_get_def)
  have "replicate 2 (CHR ''x'') = ''xx''" by (simp add: numeral_2_eq_2)
  moreover have "take max_response_bytes ''xx'' = ''xx''" by (simp add: max_response_bytes_def)
  ultimately have body: "take max_response_bytes (replicate 2 (CHR ''x'')) = ''xx''" by simp
  have mails: "sd_operator_email sample_seed = ''o''" "sd_denied_email sample_seed = ''d''" by (simp_all add: sample_seed_def)
  have size: "Suc (Suc 0) \<le> max_response_bytes" by (simp add: max_response_bytes_def)
  have list: "run_state (list_identities sample_kratos sample_json sample_seed) 2 = (Inr sample_identities, 2)"
    by (simp add: list_identities_def do_json_def q sample_kratos_def decode_body_def sample_json_def body size)
      (simp add: sample_identities_def size)
  show ?thesis
    by (simp add: bootstrap_def sample_seed_loads ensure_identity_def list known mails)
qed

lemma new_policy_server_identities:
  assumes "new_policy_server decode send getenv = Inr s"
  obtains admin where "absolute_http_url (trim_space (getenv ''REALSTACK_KRATOS_ADMIN_URL'')) = Some admin"
    "load_identities decode send admin = Inr (py_identities s)"
  using assms by (auto simp: new_policy_server_def policy_required_url_def and_then_Inr split: option.splits)

section \<open>Properties\<close>

text \<open>C15. Seeding only adds: it removes and changes no identity, and adds none but the operator's
  and the denied user's, at most one for each. While the page of the list it reads has room for
  all identities, it never registers an address that an identity has, so two runs do not seed
  twice: when both identities are there it changes nothing, and it reports no error when the
  list is answered. When it reports no error both identities exist. That an existing identity
  is not registered again is the program's own check, not a promise of Kratos, which may accept
  a second identity with an address.\<close>

theorem bootstrap_seeds:
  assumes "kratos_laws kratos json (sd_public_url cfg) (sd_admin_url cfg) ids" and "load_seed_config getenv = Inr cfg"
    and "run_state (bootstrap kratos json getenv) k = (e, k')"
  shows "ids k \<subseteq>\<^sub>m ids k'
    \<and> (\<forall>i t. ids k i = None \<and> ids k' i = Some t \<longrightarrow> identity_email t \<in> {sd_operator_email cfg, sd_denied_email cfg})
    \<and> (finite (dom (ids k)) \<and> card (dom (ids k)) < 500 \<longrightarrow>
         (\<forall>i t. ids k i = None \<and> ids k' i = Some t \<longrightarrow> \<not> seeded (identity_email t) (ids k)
            \<and> (\<forall>j u. ids k j = None \<and> ids k' j = Some u \<and> identity_email u = identity_email t \<longrightarrow> j = i)))
    \<and> (seeded (sd_operator_email cfg) (ids k) \<and> seeded (sd_denied_email cfg) (ids k)
       \<and> finite (dom (ids k)) \<and> card (dom (ids k)) \<le> 500 \<longrightarrow>
         ids k' = ids k \<and> (list_available kratos json (sd_admin_url cfg) \<longrightarrow> e = None))
    \<and> (e = None \<longrightarrow> seeded (sd_operator_email cfg) (ids k') \<and> seeded (sd_denied_email cfg) (ids k'))"
proof -
  obtain m where m: "seeding (sd_operator_email cfg) (ids k) m" "seeding (sd_denied_email cfg) m (ids k')"
    "e = None \<longrightarrow> seeded (sd_operator_email cfg) m \<and> seeded (sd_denied_email cfg) (ids k')"
    "seeded (sd_operator_email cfg) (ids k) \<and> seeded (sd_denied_email cfg) (ids k) \<and> on_page (ids k)
       \<and> list_available kratos json (sd_admin_url cfg) \<longrightarrow> e = None"
    using wpD [OF wp_bootstrap [OF assms(1,2)] assms(3)] by blast
  note le = seeding_le [OF m(1)] seeding_le [OF m(2)]
  have added: "m i = Some t \<and> identity_email t = sd_operator_email cfg
      \<or> m i = None \<and> identity_email t = sd_denied_email cfg" if "ids k i = None" "ids k' i = Some t" for i t
    using seeding_adds [OF m(1)] seeding_adds [OF m(2)] that le(2) by (cases "m i") (auto simp: map_le_def dom_def)
  have fresh: "\<not> seeded (identity_email t) (ids k)"
    and once: "ids k j = None \<Longrightarrow> ids k' j = Some u \<Longrightarrow> identity_email u = identity_email t \<Longrightarrow> j = i"
    if room: "finite (dom (ids k))" "card (dom (ids k)) < 500" and new: "ids k i = None" "ids k' i = Some t" for i j t u
  proof -
    have page: "on_page (ids k)" "on_page m" using room seeding_room [OF m(1)] by (simp_all add: on_page_def)
    have op: "\<not> seeded (sd_operator_email cfg) (ids k)" if "m i = Some t" "ids k i = None" for i t
      using seeding_adds [OF m(1) that] page(1) by blast
    have den: "\<not> seeded (sd_denied_email cfg) m" if "m i = None" "ids k' i = Some t" for i t
      using seeding_adds [OF m(2) that(2,1)] page(2) by blast
    show "\<not> seeded (identity_email t) (ids k)"
      using added [OF new] op [of i t] den [of i t] new seeded_mono [OF le(1)] by auto
    assume j: "ids k j = None" "ids k' j = Some u" and same: "identity_email u = identity_email t"
    show "j = i"
      using added [OF new] added [OF j] den [of i t] den [of j u] same new j seededI [of m i t] seededI [of m j u]
        seeding_one [OF m(1), of j i] seeding_one [OF m(2), of j i]
      by auto
  qed
  show ?thesis
  proof (intro conjI allI impI)
    show "ids k \<subseteq>\<^sub>m ids k'" using le by (rule map_le_trans)
    show "identity_email t \<in> {sd_operator_email cfg, sd_denied_email cfg}" if "ids k i = None \<and> ids k' i = Some t" for i t
      using added [of i t] that by auto
    show "ids k' = ids k" if "seeded (sd_operator_email cfg) (ids k) \<and> seeded (sd_denied_email cfg) (ids k)
       \<and> finite (dom (ids k)) \<and> card (dom (ids k)) \<le> 500"
      using seeding_idle [OF m(1)] seeding_idle [OF m(2)] that by (auto simp: on_page_def)
  qed (use m(3,4) seeded_mono [OF le(2)] fresh once in \<open>auto simp: on_page_def\<close>)
qed

theorem bootstrap_seeds_witness:
  "sample_ids 2 = sample_ids (snd (run_state (bootstrap sample_kratos sample_json sample_seed_env) 2))
   \<and> sample_ids 0 \<subseteq>\<^sub>m sample_ids (snd (run_state (bootstrap sample_kratos sample_json sample_seed_env) 0))"
proof -
  have dom: "dom (sample_ids 2) = {''1'', ''2''}"
    by (auto simp: sample_ids_def sample_identities_def split: if_splits)
  have both: "seeded (sd_operator_email sample_seed) (sample_ids 2)" "seeded (sd_denied_email sample_seed) (sample_ids 2)"
    by (rule seededI [of _ "''1''" "[(''email'', JStr ''o'')]"], simp_all add: sample_ids_def sample_identities_def sample_seed_def
        identity_email_def map_get_def)
      (rule seededI [of _ "''2''" "[(''email'', JStr ''d'')]"], simp_all add: identity_email_def map_get_def)
  obtain e k' where run: "run_state (bootstrap sample_kratos sample_json sample_seed_env) 2 = (e, k')" by (metis prod.exhaust)
  have "sample_ids k' = sample_ids 2"
    using bootstrap_seeds [OF sample_laws sample_seed_loads run] both dom by simp
  moreover have "sample_ids 0 \<subseteq>\<^sub>m sample_ids (snd (run_state (bootstrap sample_kratos sample_json sample_seed_env) 0))"
    using bootstrap_seeds [OF sample_laws sample_seed_loads surjective_pairing] by blast
  ultimately show ?thesis by (simp add: run)
qed

text \<open>C16. The seeded stack works: when the program has seeded Kratos and the policy service then
  starts on it for the same users, there is an identity in Kratos with the operator's address
  for which the service allows every login whose client, issuer and assurance it accepts; and
  whatever the service allows is for an identity with the operator's address.\<close>

theorem seeded_operator_authorized:
  assumes "kratos_laws kratos json (sd_public_url cfg) (sd_admin_url cfg) ids" and "load_seed_config getenv = Inr cfg"
    and "run_state (bootstrap kratos json getenv) k = (None, k')"
    and "new_policy_server (sj_identities json) (\<lambda>q. fst (run_state (kratos q) k')) penv = Inr s"
    and "absolute_http_url (trim_space (penv ''REALSTACK_KRATOS_ADMIN_URL'')) = Some (sd_admin_url cfg)"
    and "py_operator_mail s = sd_operator_email cfg" and "py_denied_mail s \<noteq> sd_operator_email cfg"
    and "finite (dom (ids k'))" and "card (dom (ids k')) \<le> 500"
    and "pq_version q = contractVersion" and "pq_issuer q = py_issuer s" and "pq_client_id q = py_client_id s"
    and "pq_operation q = ''login''" and "assurance_allowed q"
  shows "\<exists>i t. ids k' i = Some t \<and> identity_email t = sd_operator_email cfg
    \<and> dn_allowed (evaluate s (q\<lparr>pq_subject := i\<rparr>))
    \<and> (\<forall>p. dn_allowed (evaluate s p) \<longrightarrow>
         (\<exists>t. ids k' (pq_subject p) = Some t \<and> identity_email t = sd_operator_email cfg))"
proof -
  obtain m where m: "seeding (sd_denied_email cfg) m (ids k')" "seeded (sd_operator_email cfg) m"
    using wpD [OF wp_bootstrap [OF assms(1,2)] assms(3)] by blast
  then obtain i t where i: "ids k' i = Some t" "identity_email t = sd_operator_email cfg"
    using seeded_mono [OF seeding_le [OF m(1)] m(2)] by (auto simp: seeded_def ran_def)
  obtain admin where "absolute_http_url (trim_space (penv ''REALSTACK_KRATOS_ADMIN_URL'')) = Some admin"
    "load_identities (sj_identities json) (\<lambda>q. fst (run_state (kratos q) k')) admin = Inr (py_identities s)"
    by (rule new_policy_server_identities [OF assms(4)])
  note read = load_identities_sound [OF assms(1,5)] this(2)
  have load: "load_identities (sj_identities json) (\<lambda>q. fst (run_state (kratos q) k')) (sd_admin_url cfg) = Inr (py_identities s)"
    using read(3) assms(5) \<open>absolute_http_url _ = Some admin\<close> by simp
  have "map_get (py_identities s) i = Some (sd_operator_email cfg)" using read(2) [OF load assms(8,9)] i by simp
  moreover have "i \<noteq> []" using i(1) assms(1) unfolding kratos_laws_def by (metis option.distinct(1))
  moreover have "assurance_allowed (q\<lparr>pq_subject := i\<rparr>) = assurance_allowed q" by (simp add: assurance_allowed_def)
  ultimately have "dn_allowed (evaluate s (q\<lparr>pq_subject := i\<rparr>))"
    using assms(6,7,10-14) by (simp add: evaluate_def)
  moreover have "\<exists>t. ids k' (pq_subject p) = Some t \<and> identity_email t = sd_operator_email cfg" if "dn_allowed (evaluate s p)" for p
  proof (rule read(1) [OF load])
    show "map_get (py_identities s) (pq_subject p) = Some (sd_operator_email cfg)"
      using that assms(6) by (auto simp: evaluate_def refused_def split: if_splits option.splits)
  qed
  ultimately show ?thesis using i by blast
qed

definition sample_policy :: policy_server where
  "sample_policy = \<lparr>py_client_id = ''c'', py_issuer = ''http://kratos:4433'', py_operator_mail = ''o'', py_denied_mail = ''d'',
     py_token = ''t'', py_identities = [(''1'', ''o''), (''2'', ''d'')]\<rparr>"

lemma sample_absolute:
  "absolute_http_url ''http://kratos:4434'' = Some (sd_admin_url sample_seed)"
  "absolute_http_url ''http://kratos:4433'' = Some (sd_public_url sample_seed)"
  by (simp_all add: absolute_http_url_def sample_seed_urls sample_seed_def empty_url_def)

lemma sample_policy_starts:
  "new_policy_server (sj_identities sample_json) (\<lambda>q. fst (run_state (sample_kratos q) 2)) sample_seed_env = Inr sample_policy"
proof -
  obtain q where q: "new_request ''GET'' (list_endpoint (sd_admin_url sample_seed)) [] []
      = Some \<lparr>hq_method = ''GET'', hq_url = q, hq_headers = [], hq_body = []\<rparr>"
    using sample_list_request by (auto simp: sample_seed_def new_request_def Option.is_none_def split: option.splits)
  have two: "replicate 2 (CHR ''x'') = ''xx''" by (simp add: numeral_2_eq_2)
  have "load_identities (sj_identities sample_json) (\<lambda>q. fst (run_state (sample_kratos q) 2)) (sd_admin_url sample_seed)
      = Inr [(''1'', ''o''), (''2'', ''d'')]"
    by (simp add: load_identities_def list_endpoint_same [OF sample_absolute(1), symmetric] q sample_kratos_def two
        max_response_bytes_def sample_json_def sample_identities_def map_get_def map_put_def)
  moreover have "trim_space ''t'' = ''t''" "trim_space ''c'' = ''c''" "trim_space ''o'' = ''o''" "trim_space ''d'' = ''d''"
    "trim_space ''http://kratos:4433'' = ''http://kratos:4433''" "trim_space ''http://kratos:4434'' = ''http://kratos:4434''"
    by (simp_all add: text_eval)
  moreover have "url_string (sd_public_url sample_seed) = ''http://kratos:4433''" by code_simp
  ultimately show ?thesis
    by (simp add: new_policy_server_def policy_required_def policy_required_url_def and_then_def sample_seed_env_def
        sample_absolute sample_policy_def)
qed

theorem seeded_operator_authorized_witness:
  "\<exists>i t. sample_ids 2 i = Some t \<and> identity_email t = ''o''
    \<and> dn_allowed (evaluate sample_policy \<lparr>pq_version = contractVersion, pq_operation = ''login'', pq_issuer = ''http://kratos:4433'',
         pq_subject = i, pq_client_id = ''c'', pq_requested_scopes = [], pq_granted_scopes = [],
         pq_requested_audiences = [], pq_granted_audiences = [], pq_aal = ''aal1'', pq_amr = [''password'']\<rparr>)"
proof -
  let ?q = "\<lparr>pq_version = contractVersion, pq_operation = ''login'', pq_issuer = ''http://kratos:4433'',
         pq_subject = [], pq_client_id = ''c'', pq_requested_scopes = [], pq_granted_scopes = [],
         pq_requested_audiences = [], pq_granted_audiences = [], pq_aal = ''aal1'', pq_amr = [''password'']\<rparr>"
  have two: "dom (sample_ids 2) = {''1'', ''2''}"
    by (auto simp: sample_ids_def sample_identities_def split: if_splits)
  have env: "absolute_http_url (trim_space (sample_seed_env ''REALSTACK_KRATOS_ADMIN_URL'')) = Some (sd_admin_url sample_seed)"
  proof -
    have "trim_space ''http://kratos:4434'' = ''http://kratos:4434''" by (simp add: text_eval)
    then show ?thesis by (simp add: sample_seed_env_def sample_absolute)
  qed
  have "\<exists>i t. sample_ids 2 i = Some t \<and> identity_email t = sd_operator_email sample_seed
    \<and> dn_allowed (evaluate sample_policy (?q\<lparr>pq_subject := i\<rparr>))
    \<and> (\<forall>p. dn_allowed (evaluate sample_policy p) \<longrightarrow>
         (\<exists>t. sample_ids 2 (pq_subject p) = Some t \<and> identity_email t = sd_operator_email sample_seed))"
    by (rule seeded_operator_authorized [OF sample_laws sample_seed_loads sample_bootstrap sample_policy_starts env])
      (simp_all add: two sample_policy_def sample_seed_def assurance_allowed_def)
  then show ?thesis by (simp add: sample_seed_def) blast
qed

end
