(* ===== verification/Lifecycle.thy ===== *)
theory Lifecycle
  imports Wiring
begin

text \<open>
  The life of the server process, \<open>run\<close> of \<open>cmd/server/main.go\<close>, as the sequence of its
  effects: the store it opens and closes, the listener, and the shutdown. What ends the process
  (an error of the listener, or a signal and the result of the shutdown) is a parameter. The
  error of closing the store is only logged.
\<close>

section \<open>Limits\<close>

record server_limits =
  sl_read_header :: int
  sl_read :: int
  sl_write :: int
  sl_idle :: int
  sl_max_header_bytes :: nat

definition http_server_limits :: server_limits where
  "http_server_limits = \<lparr>sl_read_header = 5 * Second, sl_read = 15 * Second, sl_write = 15 * Second,
     sl_idle = 60 * Second, sl_max_header_bytes = 16 * 1024\<rparr>"

record client_limits =
  kl_total :: int
  kl_dial :: int
  kl_keep_alive :: int
  kl_tls_handshake :: int
  kl_response_header :: int
  kl_idle :: int
  kl_max_idle :: nat
  kl_max_idle_per_host :: nat
  kl_max_per_host :: nat
  kl_expect_continue :: int

definition http_client_limits :: client_limits where
  "http_client_limits = \<lparr>kl_total = 10 * Second, kl_dial = 3 * Second, kl_keep_alive = 30 * Second,
     kl_tls_handshake = 3 * Second, kl_response_header = 8 * Second, kl_idle = 30 * Second, kl_max_idle = 256,
     kl_max_idle_per_host = 64, kl_max_per_host = 128, kl_expect_continue = 1 * Second\<rparr>"

definition request_budget :: int where "request_budget = 12 * Second"
definition shutdown_budget :: int where "shutdown_budget = 15 * Second"

section \<open>The run\<close>

datatype run_event = StoreOpened store_choice | StoreClosed store_choice | Listening string | ShuttingDown

datatype run_end = ListenFailed goerr | Signalled "goerr option"

record opened =
  op_cfg :: config
  op_hydra :: "string \<times> (string \<times> string) list"
  op_kratos :: url
  op_store :: store_choice

text \<open>\<open>run\<close> until the store is open.\<close>

definition open_state :: "env_lib \<Rightarrow> (string \<Rightarrow> bool) \<Rightarrow> env \<Rightarrow> opened res" where
  "open_state lib parse_options getenv =
     and_then (wrap_error ''load configuration'' (load_config lib getenv)) (\<lambda>cfg.
     case validate_state_configuration getenv cfg of
       Some e \<Rightarrow> Inl e
     | None \<Rightarrow>
     (let admin_token = trim_space (getenv ''HYDRA_ADMIN_TOKEN'') in
      if secure_environment (cfg_environment cfg) \<and> admin_token = []
      then Inl (Msg ''HYDRA_ADMIN_TOKEN is required outside development and test'')
      else
        and_then (wrap_error ''create hydra client'' (new_hydra (cfg_hydra_admin_url cfg) admin_token)) (\<lambda>hydra.
        and_then (wrap_error ''create kratos client'' (new_kratos (cfg_kratos_public_url cfg))) (\<lambda>kratos.
        and_then (new_transaction_store getenv parse_options cfg) (\<lambda>store.
        Inr \<lparr>op_cfg = cfg, op_hydra = hydra, op_kratos = kratos, op_store = store\<rparr>)))))"

definition wire :: "opened \<Rightarrow> policy_choice \<Rightarrow> wiring" where
  "wire os p = \<lparr>wr_cfg = op_cfg os, wr_hydra = op_hydra os, wr_kratos = op_kratos os, wr_store = op_store os, wr_policy = p\<rparr>"

definition stop_run :: "run_end \<Rightarrow> run_event list \<times> goerr option" where
  "stop_run fin =
     (case fin of
        ListenFailed e \<Rightarrow> ([], Some (Wrap ''serve http'' [e]))
      | Signalled (Some e) \<Rightarrow> ([ShuttingDown], Some (Wrap ''shutdown http server'' [e]))
      | Signalled None \<Rightarrow> ([ShuttingDown], None))"

text \<open>\<open>run\<close> with the store open; the deferred close comes last on every path.\<close>

definition run_opened ::
  "rules_decoder \<Rightarrow> env \<Rightarrow> outside \<Rightarrow> 's store_ops \<Rightarrow> golib \<Rightarrow> run_end \<Rightarrow> opened \<Rightarrow> run_event list \<times> goerr option" where
  "run_opened decode_rules getenv out ops golib fin os =
     (case new_policy getenv decode_rules (op_cfg os) (trim_space (getenv ''POLICY_AUTH_TOKEN'')) of
        Inl e \<Rightarrow> ([], Some e)
      | Inr p \<Rightarrow>
          (case assemble_server (wire os p) out ops golib of
             Inl e \<Rightarrow> ([], Some e)
           | Inr (server, counter) \<Rightarrow>
               (case stop_run fin of (events, e) \<Rightarrow> (Listening (cfg_listen_address (op_cfg os)) # events, e))))"

definition run_server ::
  "env_lib \<Rightarrow> rules_decoder \<Rightarrow> (string \<Rightarrow> bool) \<Rightarrow> env \<Rightarrow> outside \<Rightarrow> 's store_ops \<Rightarrow> golib \<Rightarrow> run_end
     \<Rightarrow> run_event list \<times> goerr option" where
  "run_server lib decode_rules parse_options getenv out ops golib fin =
     (case open_state lib parse_options getenv of
        Inl e \<Rightarrow> ([], Some e)
      | Inr os \<Rightarrow>
          (case run_opened decode_rules getenv out ops golib fin os of
             (events, e) \<Rightarrow> (StoreOpened (op_store os) # events @ [StoreClosed (op_store os)], e)))"

text \<open>\<open>main\<close>: the exit status.\<close>

definition exit_status :: "goerr option \<Rightarrow> nat" where
  "exit_status e = (if e = None then 0 else 1)"

section \<open>Lemmas\<close>

lemma limits_nest:
  "request_budget < sl_write http_server_limits" "request_budget \<le> shutdown_budget"
  "sl_read_header http_server_limits \<le> sl_read http_server_limits" "kl_total http_client_limits < request_budget"
  by (simp_all add: request_budget_def shutdown_budget_def http_server_limits_def http_client_limits_def Second_def)

lemma and_then_assoc: "and_then (and_then r g) f = and_then r (\<lambda>x. and_then (g x) f)"
  by (simp add: and_then_def split: sum.split)

lemma and_then_stages:
  "and_then (Inl e) f = Inl e" "and_then (Inr x) f = f x"
  "and_then (if b then r else r') f = (if b then and_then r f else and_then r' f)"
  "and_then (case v of None \<Rightarrow> r | Some w \<Rightarrow> h w) f = (case v of None \<Rightarrow> and_then r f | Some w \<Rightarrow> and_then (h w) f)"
  by (simp_all add: and_then_def split: sum.split option.split)

lemma assemble_stages:
  "assemble lib decode_rules parse_options getenv =
     and_then (open_state lib parse_options getenv) (\<lambda>os.
     and_then (new_policy getenv decode_rules (op_cfg os) (trim_space (getenv ''POLICY_AUTH_TOKEN''))) (\<lambda>p. Inr (wire os p)))"
  unfolding assemble_def open_state_def wire_def Let_def and_then_assoc and_then_stages opened.simps ..

section \<open>Properties\<close>

text \<open>The process listens only when the whole program could be assembled from its environment,
  and then on the configured address. A store that was opened is closed exactly once, at the
  very end, on every path; nothing is opened or closed otherwise. The process exits with
  status 0 exactly if it was listening, was signalled, and shut down without an error.\<close>

theorem run_releases_store:
  "case run_server lib decode_rules parse_options getenv out ops golib fin of (events, e) \<Rightarrow>
   (case assemble lib decode_rules parse_options getenv of
      Inl _ \<Rightarrow> (events = [] \<or> (\<exists>st. events = [StoreOpened st, StoreClosed st])) \<and> e \<noteq> None
    | Inr w \<Rightarrow>
        if isl (assemble_server w out ops golib)
        then events = [StoreOpened (wr_store w), StoreClosed (wr_store w)] \<and> e \<noteq> None
        else events = StoreOpened (wr_store w) # Listening (cfg_listen_address (wr_cfg w))
            # (case fin of ListenFailed _ \<Rightarrow> [] | Signalled _ \<Rightarrow> [ShuttingDown]) @ [StoreClosed (wr_store w)]
          \<and> (exit_status e = 0 \<longleftrightarrow> fin = Signalled None))"
proof (cases "open_state lib parse_options getenv")
  case (Inr os)
  show ?thesis
  proof (cases "new_policy getenv decode_rules (op_cfg os) (trim_space (getenv ''POLICY_AUTH_TOKEN''))")
    case (Inr p)
    show ?thesis
      using \<open>open_state _ _ _ = Inr os\<close> Inr
      by (auto simp: run_server_def run_opened_def assemble_stages and_then_def wire_def stop_run_def exit_status_def
          split: sum.splits prod.splits run_end.splits option.splits)
  qed (use Inr in \<open>auto simp: run_server_def run_opened_def assemble_stages and_then_def\<close>)
qed (auto simp: run_server_def assemble_stages and_then_def)

end
