(* ===== verification/SideServers.thy ===== *)
theory SideServers
  imports Lifecycle PolicyService UiServer
begin

text \<open>
  The processes of the sample policy service and the sample external UI, \<open>main\<close> and \<open>run\<close>
  of \<open>realstack/policy/main.go\<close> and \<open>realstack/ui/main.go\<close>: their routes, their limits and
  the sequence of their effects, over the lifecycle of theory \<open>Lifecycle\<close>. What ends a process
  is a parameter, as there. \<open>ServeMux\<close> picks the route; the UI puts its security headers
  around every answer.
\<close>

section \<open>The policy service\<close>

datatype policy_route = PolicyHealth | PolicyAuthorize

definition policy_routes :: "(string \<times> policy_route) list" where
  "policy_routes = [(''/healthz'', PolicyHealth), (''/v1/authorize'', PolicyAuthorize)]"

fun policy_handle ::
  "policy_server \<Rightarrow> request_decoder \<Rightarrow> (jval \<Rightarrow> string) \<Rightarrow> policy_route \<Rightarrow> web_request \<Rightarrow> web_response" where
  "policy_handle s decode encode PolicyHealth q = policy_health q"
| "policy_handle s decode encode PolicyAuthorize q = service_authorize s decode encode q"

definition policy_limits :: server_limits where
  "policy_limits = \<lparr>sl_read_header = 5 * Second, sl_read = 10 * Second, sl_write = 10 * Second,
     sl_idle = 30 * Second, sl_max_header_bytes = 16 * 1024\<rparr>"

text \<open>How \<open>run\<close> of either server ends once it listens: its errors are passed on as they are.\<close>

definition side_stop :: "run_end \<Rightarrow> run_event list \<times> goerr option" where
  "side_stop fin =
     (case fin of
        ListenFailed e \<Rightarrow> ([], Some e)
      | Signalled e \<Rightarrow> ([ShuttingDown], e))"

definition side_run :: "'a res \<Rightarrow> string \<Rightarrow> run_end \<Rightarrow> run_event list \<times> goerr option" where
  "side_run server address fin =
     (case server of
        Inl e \<Rightarrow> ([], Some e)
      | Inr _ \<Rightarrow> (case side_stop fin of (events, e) \<Rightarrow> (Listening address # events, e)))"

definition policy_run ::
  "identities_decoder \<Rightarrow> transport \<Rightarrow> env \<Rightarrow> run_end \<Rightarrow> run_event list \<times> goerr option" where
  "policy_run decode fetch getenv = side_run (new_policy_server decode fetch getenv) '':8090''"

section \<open>The sample UI\<close>

definition ui_limits :: server_limits where
  "ui_limits = \<lparr>sl_read_header = 5 * Second, sl_read = 15 * Second, sl_write = 15 * Second,
     sl_idle = 60 * Second, sl_max_header_bytes = 16 * 1024\<rparr>"

definition ui_run :: "env \<Rightarrow> run_end \<Rightarrow> run_event list \<times> goerr option" where
  "ui_run getenv = side_run (new_ui_server getenv) '':3000''"

definition side_shutdown_budget :: int where "side_shutdown_budget = 5 * Second"

section \<open>Lemmas\<close>

text \<open>
  A process listens only with a server that could be built from its environment; it exits with
  status 0 exactly if it was listening, was signalled and shut down without an error.
\<close>

lemma side_run_exit:
  "exit_status (snd (side_run server address fin)) = 0 \<longleftrightarrow> \<not> isl server \<and> fin = Signalled None"
  "Listening a \<in> set (fst (side_run server address fin)) \<longleftrightarrow> \<not> isl server \<and> a = address"
  by (auto simp: side_run_def side_stop_def exit_status_def split: sum.splits run_end.splits prod.splits)

lemma policy_run_exit:
  "exit_status (snd (policy_run decode fetch getenv fin)) = 0
     \<longleftrightarrow> (\<exists>s. new_policy_server decode fetch getenv = Inr s) \<and> fin = Signalled None"
  by (auto simp: policy_run_def side_run_exit isl_def split: sum.splits) (metis sum.exhaust)

lemma ui_run_exit:
  "exit_status (snd (ui_run getenv fin)) = 0 \<longleftrightarrow> (\<exists>s. new_ui_server getenv = Inr s) \<and> fin = Signalled None"
  by (auto simp: ui_run_def side_run_exit isl_def split: sum.splits) (metis sum.exhaust)

text \<open>
  The provider's client gives a call no more time than the policy service has to answer it, and
  both servers read a header before they would give up on the request.
\<close>

lemma side_limits_nest:
  "kl_total http_client_limits \<le> sl_write policy_limits" "kl_response_header http_client_limits < sl_write policy_limits"
  "sl_read_header policy_limits < sl_read policy_limits" "sl_read_header ui_limits < sl_read ui_limits"
  "side_shutdown_budget < sl_write policy_limits"
  by (simp_all add: http_client_limits_def policy_limits_def ui_limits_def side_shutdown_budget_def Second_def)

text \<open>Without the token of its configuration nothing but the health check succeeds.\<close>

lemma policy_handle_unauthorized:
  assumes "\<not> authorized s (header_get q ''Authorization'')"
  shows "ws_status (policy_handle s decode encode rt q) = 401 \<or> rt = PolicyHealth \<and> wq_method q = ''GET''
    \<or> ws_status (policy_handle s decode encode rt q) = 405"
  using assms by (cases rt) (simp_all add: service_authorize_def policy_health_def bare_status_def)

end
