(* ===== verification/Spec2Isabelle.thy ===== *)
theory Spec2Isabelle
  imports Protocol Effort Gate Admission FormHandoff Bootstrap AccessLog SideServers
begin

text \<open>
  A model of hydra-kratos-login-consent, the login, consent and logout provider between Ory
  Hydra and Ory Kratos, and proofs about it.

  \<^bold>\<open>The program.\<close> Hydra sends a browser to the provider with a challenge. The provider
  looks the challenge up at Hydra, stores a transaction with a random handle, a CSRF token
  and a browser state, and sends the browser to an external UI. The UI sends the browser
  back to a completion endpoint. There the provider loads the transaction, checks what the
  browser presents, consumes the transaction, asks Kratos whether the browser has a session,
  asks a policy, and accepts or rejects the challenge at Hydra.

  \<^bold>\<open>Foundations.\<close>
  \<^item> \<open>Prelude\<close>: Go maps as association lists (\<open>map_get\<close>, \<open>map_put\<close>, \<open>map_del\<close>), and the
    weakest precondition \<open>wp\<close> of programs of the state monad.
  \<^item> \<open>GoString\<close>: strings as bytes, UTF-8 decoding into runes, and what the source uses of
    \<open>strings\<close>, \<open>strconv\<close> and \<open>unicode\<close>. \<open>GoUrl\<close>: \<open>net/url\<close>. \<open>GoError\<close>: errors as values, with
    \<open>errors.Is\<close> over wrapped and joined errors. \<open>HttpClient\<close> and \<open>HttpWire\<close>: what the source
    uses of \<open>net/http\<close> as a client and as a server (requests, cookies, forms, redirects).

  \<^bold>\<open>The core\<close> (\<open>internal/core\<close>).
  \<^item> \<open>Domain\<close>: \<open>domain/model.go\<close>, \<open>domain/errors.go\<close> and \<open>domain/login_ui.go\<close>: requests,
    sessions, transactions, sentinel errors, the order of assurance levels, and the filter of
    the login hints.
  \<^item> \<open>Identity\<close>: \<open>identity/claims.go\<close>: validation of claim mappings, RFC 6901 pointers,
    derivation of claims.
  \<^item> \<open>CoreConfig\<close>: \<open>config/config.go\<close>: validation, ACR resolution, the redirects to the UI
    and the origin check.
  \<^item> \<open>Ports\<close>: \<open>ports/ports.go\<close>, and the world a flow runs in: the store, the admission
    counter, a counter of calls, and the log of the calls to Hydra, Kratos and the policy.
    The n-th call is answered by a function of n, so a system may answer the same question
    differently each time.
  \<^item> \<open>Checks\<close> and \<open>Service\<close>: \<open>application/service.go\<close>: the pure checks, the claim filter,
    and the flows. \<open>Admission\<close>: the counter of pending transactions under every
    interleaving of its methods.

  \<^bold>\<open>Stores.\<close> \<open>Store\<close> states the contract of a store as locales, each extending the one
  before: \<open>consuming_store\<close> (reading does not
  change the contents, a successful consume removes the entry it returns), \<open>creating_store\<close>
  (a creation adds nothing but its transaction), \<open>bounded_store\<close> (and under at most \<open>width\<close>
  handles); \<open>transaction_store\<close> says exactly what a creation does and is a sublocale of them
  with width 1. What follows from each is proved once.
  \<open>MemStore\<close> (\<open>adapters/outbound/state/memory.go\<close>) keeps the last and refines the abstract
  store \<open>store_spec\<close>. \<open>RedisStore\<close> (\<open>state/redis.go\<close>) keeps the first when the server
  behaves as \<open>redis_laws\<close> says, and \<open>bounded_store\<close> with width 3 when moreover the JSON codec
  of a transaction is faithful (\<open>faithful_codec\<close>): \<open>GET\<close> returns only what was set and not deleted, and may
  return nothing at any time (expiry, eviction), \<open>DEL\<close> deletes, \<open>SETNX\<close> sets when it says
  so. The Lua script of \<open>Consume\<close> is modelled as source; the client may run a command several
  times and may lose the reply.

  \<^bold>\<open>Adapters.\<close>
  \<^item> \<open>PolicyPort\<close> is the contract of a policy (a locale); \<open>StaticPolicy\<close> and \<open>HttpPolicy\<close>
    (\<open>adapters/outbound/policy\<close>) keep it, and so does the choice between them.
  \<^item> \<open>Kratos\<close> and \<open>Hydra\<close> (\<open>adapters/outbound/kratos\<close>, \<open>adapters/outbound/hydra\<close>): requests,
    and the reading of responses.
  \<^item> \<open>HttpServer\<close> (\<open>adapters/inbound/http/server.go\<close>): input, cookies, error responses,
    redirects, handlers and the middleware chain; \<open>AccessLog\<close>: its status recorder and log
    line; \<open>Gate\<close>: its token bucket and the bound on
    requests in flight, as an inductive relation over arrivals and departures; \<open>Request\<close>: the
    middleware around a whole request, in its order, with every reading it takes of the clock
    and the random source.
  \<^item> \<open>EnvConfig\<close> (\<open>internal/config/config.go\<close>) and \<open>Wiring\<close> (\<open>cmd/server/main.go\<close>): loading
    the configuration, the deployment checks, and the assembly of the program. \<open>Lifecycle\<close>:
    the run of the process from its start to its exit, as a sequence of effects.

  \<^bold>\<open>The end-to-end stack\<close> (\<open>realstack\<close>).
  \<^item> \<open>PolicyService\<close> (\<open>realstack/policy/main.go\<close>): the sample policy service, and what it and the
    policy client of the provider decide together.
  \<^item> \<open>UiServer\<close> (\<open>realstack/ui/main.go\<close>): the sample UI, a page being the data given to its
    template, and a template the form it makes of them.
  \<^item> \<open>Bootstrap\<close> (\<open>realstack/bootstrap/main.go\<close>): the program that seeds Kratos, as a program
    over the state of Kratos, which is assumed to keep \<open>kratos_laws\<close>: a \<open>GET\<close> changes no
    identity, a list shows identities that exist, a request to the registration endpoint adds
    at most the identity it names, even when another one has its address. That an address is
    not registered twice follows from the program's own check. What the policy service then
    allows is derived from it.
  \<^item> \<open>SideServers\<close>: the processes of the policy service and the UI, their routes and limits.
  \<^item> \<open>Handoff\<close> follows a login from the redirect of the provider through the UI to
    the callback of the provider, through the encoding and parsing of every URL on the way; \<open>FormHandoff\<close> follows a consent and a
    logout through the forms of the UI to the form handlers of the provider.

  \<^bold>\<open>Properties.\<close> \<open>ServiceProps\<close> proves the behaviour of every flow as preconditions over any
  store that keeps its contract; \<open>Flows\<close> and \<open>RedisFlows\<close> state it for the two stores: an
  acceptance needs a presented and consumed transaction and every check, at most one decision
  reaches Hydra, and a request that passes every check succeeds. \<open>HttpServerProps\<close> states what
  every response looks like and when a request may change state. \<open>Stack\<close> follows an
  acceptance at Hydra through the assembled program: from the HTTP request through the
  handlers, the service and Redis to the answer of the configured Kratos to \<open>/sessions/whoami\<close>
  (\<open>confirmed_by_kratos\<close>), and \<open>StackPosts\<close> does the same
  for the forms of consents and logouts. \<open>Runs\<close> lets a server, or replicas of it in turn, answer one
  request after another (\<open>serves\<close>) and proves by induction where a stored transaction comes from; \<open>Agreement\<close>
  derives that what is accepted at Hydra is what Hydra said when the flow was started, in an
  earlier request. \<open>Protocol\<close> is an abstract specification of the whole provider, a protocol
  of challenges that are looked up, pending and accepted; every run of a server refines it,
  and the invariant of the protocol bounds how often a challenge is accepted. \<open>Effort\<close> bounds the calls a
  whole request can cause, the readings of the middleware included, and shows that it gives its
  place in flight back. The other theories prove what their part promises. Every property has a
  concrete run (a witness) wherever it has a hypothesis; the samples are evaluated in the
  kernel.

  \<^bold>\<open>Bounds and loops.\<close> Every loop of the source is a total function. The attempts to find a
  free handle are counted down from 3, as in the source; no other loop of the source can
  repeat a call. Durations and times are integers of nanoseconds; \<open>time.Sub\<close> saturates at 64
  bits. Numbers parsed from text are kept within 64 bits.

  \<^bold>\<open>Parameters.\<close> What is not in the repository is an argument: the JSON codecs,
  \<open>time.ParseDuration\<close>, \<open>mail.ParseAddress\<close>, the generated Hydra SDK (one function for each
  operation), the transport, the Redis server and its client, the router, the parser of the
  form content type, the random source, the clock, and the rounding of \<open>float64\<close>. Nothing is
  assumed of them except \<open>redis_laws\<close>, \<open>faithful_codec\<close> (a transaction that Redis gives back
  decodes to the one that was encoded), \<open>kratos_laws\<close> (for the seeding only), that a browser posts the controls of a form in
  order (\<open>submits\<close>), that the router returns a route of its table with the method and path of
  the request (\<open>exact_router\<close>), that its own answers have no line breaks
  in their headers, and, for the rate limit, \<open>float64_rounding\<close>: an operation of \<open>float64\<close> is off by
  at most half a unit in the last place, which \<open>round_float64\<close>, rounding to nearest with ties to
  even, satisfies.

  \<^bold>\<open>Not modelled.\<close> Requests follow one another, also those to different
  replicas; interleavings within requests are modelled where the source
  synchronises: the store operations of several servers, the admission counter, and the gate.
  Contexts, deadlines and cancellation; the text of log lines and the line of
  a failed request; the listener, and the effect of the time limits; the settings of the Redis
  client; nil dependencies of \<open>NewService\<close>, which the types exclude. The text and
  the escaping of the HTML templates. A Go map is an association list, so a theorem holds for every
  order of iteration only where it quantifies over the list.
\<close>

end
